(* ===== verification/RtcPrelude.thy ===== *)
theory RtcPrelude
  imports Complex_Main "HOL-Library.Word" "HOL-Library.AList"
begin

text \<open>
  Shared vocabulary of the development: machine integers at the width the C++
  code gives them, byte strings (a C++ std::string is a HOL string, one
  char per byte), the big-endian 16-bit fields of the frame header, the decimal
  conversions of the standard library, and the JSON document type the handlers
  exchange.  The lemmas are the ones every component uses.
\<close>

unbundle bit_operations_syntax

type_synonym u8 = "8 word"
type_synonym u16 = "16 word"
type_synonym u32 = "32 word"
type_synonym u64 = "64 word"

named_theorems frame_simps "facts about the byte layout of a frame"

section \<open>Bytes and big-endian fields\<close>

definition byte_hi :: "u16 \<Rightarrow> char" where
  "byte_hi w = char_of (unat (drop_bit 8 w AND 0xFF))"

definition byte_lo :: "u16 \<Rightarrow> char" where
  "byte_lo w = char_of (unat (w AND 0xFF))"

definition be16 :: "char \<Rightarrow> char \<Rightarrow> u16" where
  "be16 h l = push_bit 8 (of_nat (of_char h)) OR of_nat (of_char l)"

lemma and_ff_less: "unat (w AND 0xFF :: u16) < 256"
proof -
  have "w AND 0xFF = take_bit 8 w"
    by (simp add: take_bit_eq_mask mask_eq_exp_minus_1)
  then have "unat (w AND 0xFF) = take_bit 8 (unat w)"
    by (simp add: unsigned_take_bit_eq)
  then show ?thesis
    using take_bit_nat_less_exp [of 8 "unat w"] by simp
qed

lemma of_char_byte [simp]:
  "(of_char (byte_hi w) :: nat) = unat (drop_bit 8 w AND 0xFF)"
  "(of_char (byte_lo w) :: nat) = unat (w AND 0xFF)"
  using and_ff_less [of w] and_ff_less [of "drop_bit 8 w"]
  by (simp_all add: byte_hi_def byte_lo_def)

lemma be16_bytes [simp, frame_simps]: "be16 (byte_hi w) (byte_lo w) = w"
proof -
  have "be16 (byte_hi w) (byte_lo w)
      = push_bit 8 (drop_bit 8 w AND 0xFF) OR (w AND 0xFF)"
    by (simp add: be16_def)
  also have "\<dots> = w"
  proof (rule bit_word_eqI)
    fix n assume n: "n < LENGTH(16)"
    have ff: "(0xFF :: u16) = mask 8" by (simp add: mask_eq_exp_minus_1)
    show "bit (push_bit 8 (drop_bit 8 w AND 0xFF) OR (w AND 0xFF)) n = bit w n"
      using n by (auto simp: ff bit_simps)
  qed
  finally show ?thesis .
qed

text \<open>The 4-byte big-endian length of the control protocol between the two servers.\<close>

definition be32_bytes :: "u32 \<Rightarrow> string" where
  "be32_bytes w = map (\<lambda>k. char_of (unat (drop_bit k w AND 0xFF))) [24, 16, 8, 0]"

definition be32 :: "char \<Rightarrow> char \<Rightarrow> char \<Rightarrow> char \<Rightarrow> u32" where
  "be32 a b c d = push_bit 24 (of_nat (of_char a)) OR push_bit 16 (of_nat (of_char b))
     OR push_bit 8 (of_nat (of_char c)) OR of_nat (of_char d)"

lemma and_ff_less32: "unat (w AND 0xFF :: u32) < 256"
proof -
  have "w AND 0xFF = take_bit 8 w"
    by (simp add: take_bit_eq_mask mask_eq_exp_minus_1)
  then have "unat (w AND 0xFF) = take_bit 8 (unat w)"
    by (simp add: unsigned_take_bit_eq)
  then show ?thesis
    using take_bit_nat_less_exp [of 8 "unat w"] by simp
qed

lemma of_char_byte32:
  "(of_nat (of_char (char_of (unat (w AND 0xFF :: u32)) :: char)) :: u32) = w AND 0xFF"
  using and_ff_less32 [of w] by simp

lemma be32_bytes_length [simp]: "length (be32_bytes w) = 4"
  by (simp add: be32_bytes_def)

lemma be32_of_bytes [simp, frame_simps]:
  "be32 (be32_bytes w ! 0) (be32_bytes w ! Suc 0) (be32_bytes w ! 2) (be32_bytes w ! 3) = w"
proof -
  have ff: "(0xFF :: u32) = mask 8" by (simp add: mask_eq_exp_minus_1)
  have "be32 (be32_bytes w ! 0) (be32_bytes w ! Suc 0) (be32_bytes w ! 2) (be32_bytes w ! 3)
      = push_bit 24 (drop_bit 24 w AND 0xFF) OR push_bit 16 (drop_bit 16 w AND 0xFF)
        OR push_bit 8 (drop_bit 8 w AND 0xFF) OR (w AND 0xFF)"
    by (simp only: be32_def be32_bytes_def of_char_byte32 list.map nth_Cons_0 nth_Cons_numeral
        One_nat_def nth_Cons_Suc drop_bit_0 id_apply numeral_2_eq_2 numeral_3_eq_3)
  also have "\<dots> = w"
  proof (rule bit_word_eqI)
    fix n assume n: "n < LENGTH(32)"
    show "bit (push_bit 24 (drop_bit 24 w AND 0xFF) OR push_bit 16 (drop_bit 16 w AND 0xFF)
        OR push_bit 8 (drop_bit 8 w AND 0xFF) OR (w AND 0xFF)) n = bit w n"
      using n by (cases "n < 8"; cases "n < 16"; cases "n < 24"; simp add: ff bit_simps; auto)
  qed
  finally show ?thesis .
qed

lemma be32_nth_append [simp]:
  "be32 ((be32_bytes w @ r) ! 0) ((be32_bytes w @ r) ! Suc 0) ((be32_bytes w @ r) ! 2)
     ((be32_bytes w @ r) ! 3) = w"
  by (simp add: nth_append)

lemma unat_of_nat_u16: "n \<le> 65535 \<Longrightarrow> unat (of_nat n :: u16) = n"
  by (simp add: unat_of_nat take_bit_nat_eq_self)

lemma unat_u16_less: "unat (w :: u16) < 65536"
  using unsigned_less [of w, where 'a = nat] by simp

lemma unat_u64_less: "unat (w :: u64) < 2 ^ 64"
  using unsigned_less [of w, where 'a = nat] by simp

section \<open>Decimal conversions of the standard library\<close>

text \<open>std::to_string of an unsigned value, and the digit prefix
  std::from_chars reads.\<close>

definition digit_char :: "nat \<Rightarrow> char" where
  "digit_char d = char_of (48 + d)"

definition is_digit :: "char \<Rightarrow> bool" where
  "is_digit c \<longleftrightarrow> 48 \<le> (of_char c :: nat) \<and> (of_char c :: nat) \<le> 57"

definition digit_val :: "char \<Rightarrow> nat" where
  "digit_val c = of_char c - 48"

fun to_string :: "nat \<Rightarrow> string" where
  "to_string n = (if n < 10 then [digit_char n]
                  else to_string (n div 10) @ [digit_char (n mod 10)])"

declare to_string.simps [simp del]

definition digits_val :: "string \<Rightarrow> nat" where
  "digits_val ds = fold (\<lambda>c a. 10 * a + digit_val c) ds 0"

text \<open>The signed overload of std::to_string.\<close>

definition int_to_string :: "int \<Rightarrow> string" where
  "int_to_string i = (if i < 0 then CHR ''-'' # to_string (nat (- i)) else to_string (nat i))"

text \<open>std::from_chars on an unsigned 64-bit value: the longest digit
  prefix; None is invalid_argument or result_out_of_range;
  otherwise the value and the unread rest.\<close>

definition from_chars_u64 :: "string \<Rightarrow> (u64 \<times> string) option" where
  "from_chars_u64 s =
     (let ds = takeWhile is_digit s in
      if ds = [] \<or> digits_val ds \<ge> 2 ^ 64 then None
      else Some (of_nat (digits_val ds), dropWhile is_digit s))"

lemma digit_char_val [simp]: "d < 10 \<Longrightarrow> digit_val (digit_char d) = d"
  by (simp add: digit_val_def digit_char_def)

lemma digit_char_is_digit [simp]: "d < 10 \<Longrightarrow> is_digit (digit_char d)"
  by (simp add: is_digit_def digit_char_def)

lemma to_string_digits: "c \<in> set (to_string n) \<Longrightarrow> is_digit c"
proof (induction n rule: to_string.induct)
  case (1 n)
  then show ?case
    by (subst (asm) (2) to_string.simps) (auto split: if_splits)
qed

lemma to_string_not_Nil [simp]: "to_string n \<noteq> []"
  by (subst to_string.simps) simp

lemma digits_val_snoc: "digits_val (ds @ [c]) = 10 * digits_val ds + digit_val c"
  by (simp add: digits_val_def)

lemma digits_val_to_string [simp]: "digits_val (to_string n) = n"
proof (induction n rule: to_string.induct)
  case (1 n)
  show ?case
  proof (cases "n < 10")
    case True
    then show ?thesis by (subst to_string.simps) (simp add: digits_val_def)
  next
    case False
    then show ?thesis
      using 1 by (subst to_string.simps) (simp add: digits_val_snoc)
  qed
qed

lemma to_string_inj: "to_string m = to_string n \<Longrightarrow> m = n"
  using digits_val_to_string by metis

lemma takeWhile_all_digits: "takeWhile is_digit (to_string n) = to_string n"
  by (simp add: takeWhile_eq_all_conv to_string_digits)

lemma from_chars_to_string:
  "from_chars_u64 (to_string (unat (w :: u64))) = Some (w, [])"
  using unat_u64_less [of w]
  by (simp add: from_chars_u64_def Let_def takeWhile_all_digits dropWhile_eq_Nil_conv
      to_string_digits)

text \<open>The numeric prefix strtoull and strtoll read: leading white space, a sign,
  digits; the result is the sign, the magnitude and the number of characters
  consumed, or None when there is no digit.\<close>

definition is_space :: "char \<Rightarrow> bool" where
  "is_space c \<longleftrightarrow> (of_char c :: nat) = 32 \<or> 9 \<le> (of_char c :: nat) \<and> (of_char c :: nat) \<le> 13"

definition parse_number :: "string \<Rightarrow> (bool \<times> nat \<times> nat) option" where
  "parse_number s =
     (let body = dropWhile is_space s;
          neg = (body \<noteq> [] \<and> hd body = CHR ''-'');
          signed = (body \<noteq> [] \<and> (hd body = CHR ''-'' \<or> hd body = CHR ''+''));
          rest = (if signed then tl body else body);
          ds = takeWhile is_digit rest
      in if ds = [] then None
         else Some (neg, digits_val ds,
                    (length s - length body) + (if signed then 1 else 0) + length ds))"

text \<open>std::stoull, stoll and stoi; None is the exception.  A minus sign before
  an unsigned number wraps.\<close>

definition stoull :: "string \<Rightarrow> (u64 \<times> nat) option" where
  "stoull s = (case parse_number s of
       Some (neg, n, k) \<Rightarrow> if n < 2 ^ 64 then Some ((if neg then - of_nat n else of_nat n), k) else None
     | None \<Rightarrow> None)"

definition stoll :: "string \<Rightarrow> int option" where
  "stoll s = (case parse_number s of
       Some (neg, n, k) \<Rightarrow> let i = (if neg then - int n else int n) in
         if - (2 ^ 63) \<le> i \<and> i < 2 ^ 63 then Some i else None
     | None \<Rightarrow> None)"

definition stoi :: "string \<Rightarrow> int option" where
  "stoi s = (case stoll s of
       Some i \<Rightarrow> if - (2 ^ 31) \<le> i \<and> i < 2 ^ 31 then Some i else None
     | None \<Rightarrow> None)"

lemma digit_not_space: "is_digit c \<Longrightarrow> \<not> is_space c"
  by (auto simp: is_digit_def is_space_def)

lemma digit_not_sign: "is_digit c \<Longrightarrow> c \<noteq> CHR ''-'' \<and> c \<noteq> CHR ''+''"
  by (auto simp: is_digit_def)

lemma parse_number_to_string: "parse_number (to_string n) = Some (False, n, length (to_string n))"
proof -
  let ?s = "to_string n"
  have d: "is_digit (hd ?s)" by (rule to_string_digits [of _ n]) simp
  then have "dropWhile is_space ?s = ?s"
    by (cases ?s) (auto dest: digit_not_space)
  then show ?thesis
    using digit_not_sign [OF d] by (simp add: parse_number_def Let_def takeWhile_all_digits)
qed

lemma stoull_to_string: "stoull (to_string (unat (w :: u64))) = Some (w, length (to_string (unat w)))"
  using unat_u64_less [of w] by (simp add: stoull_def parse_number_to_string)

lemma stoi_to_string: "n < 2 ^ 31 \<Longrightarrow> stoi (to_string n) = Some (int n)"
  by (simp add: stoi_def stoll_def parse_number_to_string)

section \<open>JSON documents\<close>

text \<open>A JSON document as the handlers see it, with the type tests and conversions of
  the value class: a real number with an integral value passes the integer tests.\<close>

datatype json =
    JNull
  | JBool bool
  | JInt int
  | JReal rat
  | JString string
  | JArray "json list"
  | JObject "(string \<times> json) list"

fun is_object :: "json \<Rightarrow> bool" where
  "is_object (JObject _) = True"
| "is_object _ = False"

fun is_string :: "json \<Rightarrow> bool" where
  "is_string (JString _) = True"
| "is_string _ = False"

fun as_string :: "json \<Rightarrow> string" where
  "as_string (JString s) = s"
| "as_string _ = []"

fun is_bool :: "json \<Rightarrow> bool" where
  "is_bool (JBool _) = True"
| "is_bool _ = False"

fun as_bool :: "json \<Rightarrow> bool" where
  "as_bool (JBool b) = b"
| "as_bool _ = False"

fun int_of_json :: "json \<Rightarrow> int option" where
  "int_of_json (JInt i) = Some i"
| "int_of_json (JReal r) = (if of_int \<lfloor>r\<rfloor> = r then Some \<lfloor>r\<rfloor> else None)"
| "int_of_json _ = None"

definition is_int :: "json \<Rightarrow> bool" where
  "is_int v = (case int_of_json v of Some i \<Rightarrow> - (2 ^ 31) \<le> i \<and> i < 2 ^ 31 | None \<Rightarrow> False)"

definition is_uint64 :: "json \<Rightarrow> bool" where
  "is_uint64 v = (case int_of_json v of Some i \<Rightarrow> 0 \<le> i \<and> i < 2 ^ 64 | None \<Rightarrow> False)"

definition as_int :: "json \<Rightarrow> int" where
  "as_int v = (case int_of_json v of Some i \<Rightarrow> i | None \<Rightarrow> 0)"

definition as_uint64 :: "json \<Rightarrow> u64" where
  "as_uint64 v = of_int (as_int v)"

text \<open>asInt of a value: None is the exception (a string, an array, an object or a
  number out of range); a real is truncated.\<close>

fun as_int_conv :: "json \<Rightarrow> int option" where
  "as_int_conv JNull = Some 0"
| "as_int_conv (JBool b) = Some (if b then 1 else 0)"
| "as_int_conv (JInt i) = (if - (2 ^ 31) \<le> i \<and> i < 2 ^ 31 then Some i else None)"
| "as_int_conv (JReal r) = (if - (2 ^ 31) \<le> r \<and> r \<le> 2 ^ 31 - 1
     then Some (if 0 \<le> r then \<lfloor>r\<rfloor> else \<lceil>r\<rceil>) else None)"
| "as_int_conv _ = None"

text \<open>asUInt64 in the same way; a negative number is out of range.\<close>

fun as_uint64_conv :: "json \<Rightarrow> u64 option" where
  "as_uint64_conv JNull = Some 0"
| "as_uint64_conv (JBool b) = Some (if b then 1 else 0)"
| "as_uint64_conv (JInt i) = (if 0 \<le> i \<and> i < 2 ^ 64 then Some (of_int i) else None)"
| "as_uint64_conv (JReal r) = (if 0 \<le> r \<and> r < 2 ^ 64 then Some (of_int \<lfloor>r\<rfloor>) else None)"
| "as_uint64_conv _ = None"

text \<open>asString throws on arrays and objects.\<close>

fun as_string_throws :: "json \<Rightarrow> bool" where
  "as_string_throws (JArray _) = True"
| "as_string_throws (JObject _) = True"
| "as_string_throws _ = False"

definition is_null :: "json \<Rightarrow> bool" where
  "is_null v = (v = JNull)"

text \<open>value[key]: null when the key is missing.\<close>

fun jget :: "json \<Rightarrow> string \<Rightarrow> json" where
  "jget (JObject kvs) k = (case map_of kvs k of Some v \<Rightarrow> v | None \<Rightarrow> JNull)"
| "jget _ k = JNull"

fun is_member :: "json \<Rightarrow> string \<Rightarrow> bool" where
  "is_member (JObject kvs) k = (map_of kvs k \<noteq> None)"
| "is_member _ k = False"

text \<open>value[key] = v: a null value becomes an object.\<close>

fun jset :: "string \<Rightarrow> json \<Rightarrow> json \<Rightarrow> json" where
  "jset k v (JObject kvs) = JObject (AList.update k v kvs)"
| "jset k v _ = JObject [(k, v)]"

fun jsize :: "json \<Rightarrow> nat" where
  "jsize (JObject kvs) = length kvs"
| "jsize (JArray vs) = length vs"
| "jsize _ = 0"

definition jappend :: "json \<Rightarrow> json \<Rightarrow> json" where
  "jappend arr v = (case arr of JArray vs \<Rightarrow> JArray (vs @ [v]) | _ \<Rightarrow> JArray [v])"

lemma jget_jset [simp]: "jget (jset k v j) k' = (if k = k' then v else
    (if is_object j then jget j k' else JNull))"
  by (cases j) (auto simp: update_conv)

lemma is_object_jset [simp]: "is_object (jset k v j)"
  by (cases j) auto

section \<open>Lists and queues\<close>

lemma sum_list_map_append1 [simp]:
  "sum_list (map f (xs @ [x])) = sum_list (map f xs) + (f x :: nat)"
  by simp

lemma length_le_sum_lengths:
  "x \<in> set xs \<Longrightarrow> length x \<le> sum_list (map length xs)"
  by (simp add: member_le_sum_list)

lemma fold_snoc: "fold f (xs @ [x]) s = f x (fold f xs s)"
  by simp

end
