(* ===== verification/IoWakeup.thy ===== *)
theory IoWakeup
  imports RtcPrelude
begin

text \<open>
  The I/O wake-up of RealtimeServer (src/net/IoWakeup.cpp): business threads
  register the tokens of connections that need attention, the I/O thread takes
  them in batches of at most 64.  Every member function runs under one mutex, so
  each is one atomic state transformer here.  The eventfd is its counter
  (wk_efd), which write increments, saturating at the kernel's maximum, and read
  resets; a closed descriptor (m_fd = -1) is wk_open = False.
\<close>

record io_wakeup =
  wk_open :: bool
  wk_efd :: nat
  wk_stopping :: bool
  wk_pending :: "u64 set"
  wk_ready :: "u64 list"

definition IoWakeup_new :: io_wakeup where
  "IoWakeup_new = \<lparr>wk_open = True, wk_efd = 0, wk_stopping = False, wk_pending = {}, wk_ready = []\<rparr>"

definition efd_max :: nat where
  "efd_max = 2 ^ 64 - 2"

text \<open>A write of 1 to the eventfd; at the maximum it fails with EAGAIN and the
  counter keeps its value, a closed descriptor ignores it.\<close>

definition WakeLocked :: "io_wakeup \<Rightarrow> io_wakeup" where
  "WakeLocked w = (if wk_open w \<and> wk_efd w < efd_max then w\<lparr>wk_efd := wk_efd w + 1\<rparr> else w)"

definition Notify :: "u64 \<Rightarrow> io_wakeup \<Rightarrow> bool \<times> io_wakeup" where
  "Notify token w =
     (if wk_stopping w then (False, w)
      else if token \<in> wk_pending w then (True, w)
      else (True, WakeLocked (w\<lparr>wk_pending := insert token (wk_pending w),
                               wk_ready := wk_ready w @ [token]\<rparr>)))"

fun take_tokens :: "nat \<Rightarrow> u64 list \<Rightarrow> u64 set \<Rightarrow> u64 list \<times> u64 list \<times> u64 set" where
  "take_tokens 0 ready pend = ([], ready, pend)"
| "take_tokens (Suc n) [] pend = ([], [], pend)"
| "take_tokens (Suc n) (t # ready) pend =
     (let (taken, ready', pend') = take_tokens n ready (pend - {t}) in (t # taken, ready', pend'))"

definition Take :: "io_wakeup \<Rightarrow> u64 list \<times> io_wakeup" where
  "Take w =
     (let w1 = (if wk_open w then w\<lparr>wk_efd := 0\<rparr> else w);
          (taken, ready', pend') = take_tokens 64 (wk_ready w1) (wk_pending w1);
          w2 = w1\<lparr>wk_pending := pend', wk_ready := ready'\<rparr>
      in (taken, if ready' \<noteq> [] then WakeLocked w2 else w2))"

definition RequestStop :: "io_wakeup \<Rightarrow> io_wakeup" where
  "RequestStop w = (if wk_stopping w then w else WakeLocked (w\<lparr>wk_stopping := True\<rparr>))"

definition Stopping :: "io_wakeup \<Rightarrow> bool" where
  "Stopping w = wk_stopping w"

definition Wakeup_Close :: "io_wakeup \<Rightarrow> io_wakeup" where
  "Wakeup_Close w = w\<lparr>wk_stopping := True, wk_pending := {}, wk_ready := [], wk_open := False\<rparr>"

section \<open>The invariant\<close>

text \<open>The ready queue lists exactly the pending tokens, each once, and while it
  is non-empty the eventfd of an open wake-up is readable: no wake-up is lost.\<close>

definition wakeup_ok :: "io_wakeup \<Rightarrow> bool" where
  "wakeup_ok w \<longleftrightarrow> distinct (wk_ready w) \<and> set (wk_ready w) = wk_pending w
     \<and> (wk_ready w \<noteq> [] \<longrightarrow> wk_open w \<and> wk_efd w > 0)
     \<and> (\<not> wk_open w \<longrightarrow> wk_stopping w)"

lemma WakeLocked_fields [simp]:
  "wk_open (WakeLocked w) = wk_open w" "wk_stopping (WakeLocked w) = wk_stopping w"
  "wk_pending (WakeLocked w) = wk_pending w" "wk_ready (WakeLocked w) = wk_ready w"
  by (simp_all add: WakeLocked_def)

lemma WakeLocked_efd [simp]: "wk_open w \<Longrightarrow> 0 < wk_efd (WakeLocked w)"
  by (auto simp: WakeLocked_def efd_max_def)

lemma take_tokens_split:
  "distinct ready \<Longrightarrow> set ready = pend \<Longrightarrow>
   take_tokens n ready pend = (take n ready, drop n ready, set (drop n ready))"
proof (induction n ready pend rule: take_tokens.induct)
  case (3 n t ready pend)
  then have "set ready = pend - {t}" by auto
  with 3 show ?case by simp
qed auto

lemma Take_ok:
  assumes "wakeup_ok w"
  shows "fst (Take w) = take 64 (wk_ready w)"
    and "wk_ready (snd (Take w)) = drop 64 (wk_ready w)"
    and "wakeup_ok (snd (Take w))"
proof -
  have s: "take_tokens 64 (wk_ready w) (wk_pending w)
      = (take 64 (wk_ready w), drop 64 (wk_ready w), set (drop 64 (wk_ready w)))"
    using assms by (intro take_tokens_split) (auto simp: wakeup_ok_def)
  show "fst (Take w) = take 64 (wk_ready w)" "wk_ready (snd (Take w)) = drop 64 (wk_ready w)"
    using s by (simp_all add: Take_def Let_def)
  show "wakeup_ok (snd (Take w))"
    using assms s by (cases "wk_open w") (auto simp: Take_def Let_def wakeup_ok_def)
qed

lemma Notify_ok: "wakeup_ok w \<Longrightarrow> wakeup_ok (snd (Notify t w))"
  by (auto simp: Notify_def wakeup_ok_def)

lemma Notify_result [simp]: "fst (Notify t w) = (\<not> wk_stopping w)"
  by (simp add: Notify_def)

lemma Notify_pending: "\<not> wk_stopping w \<Longrightarrow> wk_pending (snd (Notify t w)) = insert t (wk_pending w)"
  by (auto simp: Notify_def)

lemma Notify_stopping [simp]: "wk_stopping (snd (Notify t w)) = wk_stopping w"
  by (simp add: Notify_def)

lemma RequestStop_ok: "wakeup_ok w \<Longrightarrow> wakeup_ok (RequestStop w)"
  by (auto simp: RequestStop_def wakeup_ok_def)

lemma Wakeup_Close_ok: "wakeup_ok (Wakeup_Close w)"
  by (simp add: Wakeup_Close_def wakeup_ok_def)

lemma IoWakeup_new_ok: "wakeup_ok IoWakeup_new"
  by (simp add: IoWakeup_new_def wakeup_ok_def)

section \<open>Runs of the wake-up\<close>

datatype wakeup_call = CallNotify u64 | CallTake | CallRequestStop | CallClose

fun wakeup_step :: "wakeup_call \<Rightarrow> io_wakeup \<Rightarrow> io_wakeup" where
  "wakeup_step (CallNotify t) w = snd (Notify t w)"
| "wakeup_step CallTake w = snd (Take w)"
| "wakeup_step CallRequestStop w = RequestStop w"
| "wakeup_step CallClose w = Wakeup_Close w"

definition wakeup_run :: "wakeup_call list \<Rightarrow> io_wakeup" where
  "wakeup_run calls = fold wakeup_step calls IoWakeup_new"

lemma wakeup_step_ok: "wakeup_ok w \<Longrightarrow> wakeup_ok (wakeup_step c w)"
  by (cases c) (simp_all add: Notify_ok Take_ok RequestStop_ok Wakeup_Close_ok)

fun take_rounds :: "nat \<Rightarrow> io_wakeup \<Rightarrow> u64 list \<times> io_wakeup" where
  "take_rounds 0 w = ([], w)"
| "take_rounds (Suc n) w =
     (let (a, w1) = Take w; (b, w2) = take_rounds n w1 in (a @ b, w2))"

lemma take_rounds_ok:
  assumes "wakeup_ok w"
  shows "fst (take_rounds n w) = take (64 * n) (wk_ready w)
       \<and> wk_ready (snd (take_rounds n w)) = drop (64 * n) (wk_ready w)"
  using assms
proof (induction n arbitrary: w)
  case (Suc n)
  obtain a w1 where t: "Take w = (a, w1)" by (cases "Take w")
  then have a: "a = take 64 (wk_ready w)" "wk_ready w1 = drop 64 (wk_ready w)" "wakeup_ok w1"
    using Take_ok [OF Suc.prems] by simp_all
  obtain b w2 where r: "take_rounds n w1 = (b, w2)" by (cases "take_rounds n w1")
  have "64 * Suc n = 64 + 64 * n" by simp
  with a t r Suc.IH [OF a(3)] show ?case
    by (simp add: take_add add.commute)
qed simp

lemma wakeup_run_ok: "wakeup_ok (wakeup_run calls)"
  by (induction calls rule: rev_induct)
    (simp_all add: wakeup_run_def IoWakeup_new_ok wakeup_step_ok)

section \<open>Properties\<close>

text \<open>In every state the wake-up can reach through Notify, Take, RequestStop
  and Close, the ready queue holds each pending token exactly once, and a
  non-empty ready queue has its eventfd open and readable: no registered
  connection is ever left without a pending wake-up.\<close>

theorem wakeup_never_lost:
  "distinct (wk_ready (wakeup_run calls))
   \<and> set (wk_ready (wakeup_run calls)) = wk_pending (wakeup_run calls)
   \<and> (wk_ready (wakeup_run calls) = [] \<or>
      wk_open (wakeup_run calls) \<and> 0 < wk_efd (wakeup_run calls))"
  using wakeup_run_ok [of calls] by (auto simp: wakeup_ok_def)

text \<open>Fairness of the batches: n rounds of Take deliver exactly the first 64 n
  registered tokens, in the order of registration, and leave the others queued
  in order.\<close>

theorem take_rounds_fifo:
  "fst (take_rounds n (wakeup_run calls)) = take (64 * n) (wk_ready (wakeup_run calls))
   \<and> wk_ready (snd (take_rounds n (wakeup_run calls))) = drop (64 * n) (wk_ready (wakeup_run calls))"
  by (rule take_rounds_ok [OF wakeup_run_ok])

end
