(* ===== verification/Outbox.thy ===== *)
theory Outbox
  imports RtcPrelude
begin

text \<open>
  The contract the three send queues of the servers share: the client connection
  and the media control client of RealtimeServer and the control connection of
  MediaServer.  A queue admits a whole frame or refuses it, keeps admitted frames
  in order, holds at most 1024 frames and 4 MiB, and never admits a frame once it
  is dead (closed, invalidated or stopped).
\<close>

locale outbox =
  fixes okay :: "'s \<Rightarrow> bool"
    and dead :: "'s \<Rightarrow> bool"
    and queued :: "'s \<Rightarrow> string list"
    and frame :: "'m \<Rightarrow> string"
    and enq :: "'m \<Rightarrow> 's \<Rightarrow> bool \<times> 's"
  assumes enq_accepted: "okay s \<Longrightarrow> enq m s = (True, s') \<Longrightarrow>
      okay s' \<and> \<not> dead s \<and> \<not> dead s' \<and> queued s' = queued s @ [frame m]"
    and enq_refused: "okay s \<Longrightarrow> enq m s = (False, s') \<Longrightarrow>
      okay s' \<and> (dead s' \<or> \<not> dead s \<and> queued s' = queued s)"
    and bounded: "okay s \<Longrightarrow> length (queued s) \<le> 1024
      \<and> sum_list (map length (queued s)) \<le> 4 * 1024 * 1024"
begin

fun enq_all :: "'m list \<Rightarrow> 's \<Rightarrow> 'm list \<times> 's" where
  "enq_all [] s = ([], s)"
| "enq_all (m # ms) s =
     (let (b, s1) = enq m s; (acc, s2) = enq_all ms s1
      in (if b then m # acc else acc, s2))"

lemma dead_enq:
  assumes "okay s" "dead s" shows "\<not> fst (enq m s)" "dead (snd (enq m s))" "okay (snd (enq m s))"
  using assms enq_accepted [of s m "snd (enq m s)"] enq_refused [of s m "snd (enq m s)"]
  by (cases "fst (enq m s)"; cases "enq m s"; auto)+

lemma enq_all_dead: "okay s \<Longrightarrow> dead s \<Longrightarrow> fst (enq_all ms s) = [] \<and> dead (snd (enq_all ms s))"
proof (induction ms arbitrary: s)
  case (Cons m ms)
  obtain b s1 where e: "enq m s = (b, s1)" by (cases "enq m s")
  with dead_enq [OF Cons.prems, of m] have "\<not> b" "dead s1" "okay s1" by simp_all
  with Cons.IH [of s1] e show ?case by (simp add: split_beta)
qed simp

lemma enq_okay: "okay s \<Longrightarrow> enq m s = (b, s1) \<Longrightarrow> okay s1"
  by (cases b) (auto dest: enq_accepted enq_refused)

lemma enq_all_okay: "okay s \<Longrightarrow> okay (snd (enq_all ms s))"
proof (induction ms arbitrary: s)
  case (Cons m ms)
  obtain b s1 where e: "enq m s = (b, s1)" by (cases "enq m s")
  with Cons.prems have "okay s1" by (blast intro: enq_okay)
  with Cons.IH [of s1] e show ?case by (simp add: split_beta)
qed simp

text \<open>While the queue lives, exactly the admitted frames are queued, in order.\<close>

lemma enq_all_fifo:
  "okay s \<Longrightarrow> \<not> dead (snd (enq_all ms s)) \<Longrightarrow>
   queued (snd (enq_all ms s)) = queued s @ map frame (fst (enq_all ms s))"
proof (induction ms arbitrary: s)
  case (Cons m ms)
  obtain b s1 where e: "enq m s = (b, s1)" by (cases "enq m s")
  obtain acc s2 where r: "enq_all ms s1 = (acc, s2)" by (cases "enq_all ms s1")
  have live: "\<not> dead s2" using Cons.prems(2) e r by simp
  have s1: "okay s1" using Cons.prems(1) e by (rule enq_okay)
  have "\<not> dead s1" using enq_all_dead [OF s1, of ms] r live by auto
  moreover have "queued s2 = queued s1 @ map frame acc"
    using Cons.IH [OF s1] r live by simp
  moreover have "b \<Longrightarrow> queued s1 = queued s @ [frame m]"
    using enq_accepted Cons.prems(1) e by auto
  ultimately show ?case
    using enq_refused [OF Cons.prems(1), of m s1] e r by (cases b) auto
qed simp

text \<open>A slow peer costs bounded memory: no run admits frames past the quota.\<close>

lemma enq_all_bounded:
  assumes "okay s" "\<not> dead (snd (enq_all ms s))"
  shows "length (queued s) + length (fst (enq_all ms s)) \<le> 1024"
    and "sum_list (map length (queued s)) + sum_list (map (length \<circ> frame) (fst (enq_all ms s)))
      \<le> 4 * 1024 * 1024"
  using bounded [OF enq_all_okay [OF assms(1), of ms]] enq_all_fifo [OF assms]
  by (simp_all add: comp_def)

end

end
