(* ===== verification/TcpSession.thy ===== *)
theory TcpSession
  imports IoWakeup Outbox "HOL-Library.Sublist"
begin

text \<open>
  A client connection of RealtimeServer (src/net/Session.cpp, Session.h): the
  length-prefixed frame protocol, the two-stage send queue with its quota, the
  heartbeat and the connection deadline.

  The record keeps the fields of class Session.  The operations take and return
  the session together with the optional shared IoWakeup.  What the kernel answers
  to recv and send is a script, one entry per call; an exhausted script is EAGAIN.
  The JSON reader of the heartbeat (a third-party library) is the parameter
  hb_parse.  The business layer behind PostMsgToQue is the parameter post: it
  answers whether it admitted the frame, and a refused frame closes the session,
  as LogicSystem::PostMsgToQue does.  Times are milliseconds.
\<close>

section \<open>State\<close>

record session =
  s_token :: u64
  s_user_id :: int
  s_auth_token :: string
  s_hb_enabled :: bool
  s_hb_sequenced :: bool
  s_hb_sequence :: u64
  s_created_at :: int
  s_last_hb :: int
  s_hb_window :: int
  s_hb_count :: nat
  s_recheck_used :: bool
  s_recheck_until :: int
  s_meeting_id :: u64
  s_signal_id :: u64
  s_recv :: string
  s_pending :: "string list"
  s_pending_bytes :: nat
  s_pending_frames :: nat
  s_closed :: bool
  s_close_requested :: bool
  s_send_queue :: "string list"
  s_send_offset :: nat

type_synonym conn = "session \<times> io_wakeup option"

definition Session_new :: "u64 \<Rightarrow> int \<Rightarrow> session" where
  "Session_new token now = \<lparr>s_token = token, s_user_id = 0, s_auth_token = [],
     s_hb_enabled = False, s_hb_sequenced = False, s_hb_sequence = 0, s_created_at = now,
     s_last_hb = 0, s_hb_window = 0, s_hb_count = 0, s_recheck_used = False, s_recheck_until = 0,
     s_meeting_id = 0, s_signal_id = 0, s_recv = [], s_pending = [], s_pending_bytes = 0,
     s_pending_frames = 0, s_closed = False, s_close_requested = False, s_send_queue = [],
     s_send_offset = 0\<rparr>"

definition kFrameHeaderLength :: nat where "kFrameHeaderLength = 4"
definition kIoBudget :: nat where "kIoBudget = 64 * 1024"
definition kMaxPendingBytes :: nat where "kMaxPendingBytes = 4 * 1024 * 1024"
definition kMaxPendingFrames :: nat where "kMaxPendingFrames = 1024"

definition ID_HEARTBEAT_REQUEST :: u16 where "ID_HEARTBEAT_REQUEST = 1048"
definition ID_HEARTBEAT_RESPONSE :: u16 where "ID_HEARTBEAT_RESPONSE = 1049"

text \<open>Unsigned 64-bit subtraction, as the code does it on size_t.\<close>

definition size_sub :: "nat \<Rightarrow> nat \<Rightarrow> nat" where
  "size_sub a b = nat ((int a - int b) mod 2 ^ 64)"

lemma size_sub_le [simp]: "b \<le> a \<Longrightarrow> a < 2 ^ 64 \<Longrightarrow> size_sub a b = a - b"
  by (simp add: size_sub_def of_nat_diff [symmetric] del: of_nat_diff)

section \<open>Simple members\<close>

definition SetUserId :: "int \<Rightarrow> session \<Rightarrow> session" where
  "SetUserId uid s = s\<lparr>s_user_id := uid\<rparr>"

definition SetAuthToken :: "string \<Rightarrow> session \<Rightarrow> session" where
  "SetAuthToken token s = s\<lparr>s_auth_token := token\<rparr>"

definition SetMeetingId :: "u64 \<Rightarrow> session \<Rightarrow> session" where
  "SetMeetingId m s = s\<lparr>s_meeting_id := m\<rparr>"

definition SetMediaSignalId :: "u64 \<Rightarrow> session \<Rightarrow> session" where
  "SetMediaSignalId g s = s\<lparr>s_signal_id := g\<rparr>"

definition ClearMediaSignalId :: "u64 \<Rightarrow> session \<Rightarrow> session" where
  "ClearMediaSignalId expected s = (if s_signal_id s = expected then s\<lparr>s_signal_id := 0\<rparr> else s)"

definition IsClosed :: "session \<Rightarrow> bool" where
  "IsClosed s \<longleftrightarrow> s_closed s \<or> s_close_requested s"

definition notify_opt :: "u64 \<Rightarrow> io_wakeup option \<Rightarrow> bool \<times> io_wakeup option" where
  "notify_opt token w = (case w of None \<Rightarrow> (True, None)
     | Some k \<Rightarrow> (let (b, k') = Notify token k in (b, Some k')))"

definition RequestClose :: "conn \<Rightarrow> conn" where
  "RequestClose c = (case c of (s, w) \<Rightarrow>
     (s\<lparr>s_close_requested := True\<rparr>, snd (notify_opt (s_token s) w)))"

section \<open>Sending\<close>

definition frame_of :: "u16 \<Rightarrow> string \<Rightarrow> string" where
  "frame_of rid payload =
     (let n = (of_nat (length payload) :: u16)
      in [byte_hi rid, byte_lo rid, byte_hi n, byte_lo n] @ payload)"

definition enqueue_frame :: "string \<Rightarrow> session \<Rightarrow> session" where
  "enqueue_frame msg s = s\<lparr>s_pending_bytes := s_pending_bytes s + length msg,
     s_pending_frames := s_pending_frames s + 1, s_pending := s_pending s @ [msg]\<rparr>"

definition Send :: "u16 \<Rightarrow> string \<Rightarrow> conn \<Rightarrow> bool \<times> conn" where
  "Send rid payload c = (case c of (s, w) \<Rightarrow>
     if length payload > 65535 then (False, c)
     else let msg = frame_of rid payload in
       if s_closed s \<or> s_close_requested s then (False, c)
       else if length msg > size_sub kMaxPendingBytes (s_pending_bytes s)
               \<or> s_pending_frames s \<ge> kMaxPendingFrames
       then (False, s\<lparr>s_close_requested := True\<rparr>, snd (notify_opt (s_token s) w))
       else let s1 = enqueue_frame msg s;
                (ok, w1) = notify_opt (s_token s) w
            in if ok then (True, s1, w1) else (False, s1\<lparr>s_close_requested := True\<rparr>, w1))"

datatype send_result = Sent nat | SendIntr | SendAgain | SendFail

text \<open>The effect of a send that took n bytes of the front message.\<close>

definition advance :: "nat \<Rightarrow> session \<Rightarrow> session" where
  "advance n s =
     (let msg = hd (s_send_queue s); s1 = s\<lparr>s_send_offset := s_send_offset s + n\<rparr> in
      if s_send_offset s1 = length msg
      then s1\<lparr>s_pending_bytes := size_sub (s_pending_bytes s1) (length msg),
              s_pending_frames := size_sub (s_pending_frames s1) 1,
              s_send_queue := tl (s_send_queue s1), s_send_offset := 0\<rparr>
      else s1)"

text \<open>One pass of the write loop; the result lists the bytes handed to the kernel,
  which takes at most as many as it is offered.\<close>

definition offered :: "nat \<Rightarrow> session \<Rightarrow> string" where
  "offered written s = take (kIoBudget - written) (drop (s_send_offset s) (hd (s_send_queue s)))"

fun write_loop :: "send_result list \<Rightarrow> nat \<Rightarrow> session \<Rightarrow> string \<Rightarrow> bool \<times> string \<times> session" where
  "write_loop [] written s out = (True, out, s)"
| "write_loop (r # rs) written s out =
     (if s_send_queue s = [] \<or> written \<ge> kIoBudget then (True, out, s)
      else if r = SendIntr then write_loop rs written s out
      else if r = SendAgain then (True, out, s)
      else if r = SendFail then (False, out, s)
      else let took = take (case r of Sent k \<Rightarrow> k | _ \<Rightarrow> 0) (offered written s) in
           if took = [] then (False, out, s)
           else write_loop rs (written + length took) (advance (length took) s) (out @ took))"

definition HandleWrite :: "send_result list \<Rightarrow> session \<Rightarrow> bool \<times> string \<times> session" where
  "HandleWrite script s =
     (if s_closed s \<or> s_close_requested s then (False, [], s)
      else write_loop script 0
        (if s_send_queue s = [] then s\<lparr>s_send_queue := s_pending s, s_pending := []\<rparr> else s) [])"

definition HasPendingWrite :: "session \<Rightarrow> bool" where
  "HasPendingWrite s \<longleftrightarrow> s_close_requested s \<or> s_pending_frames s \<noteq> 0"

definition Session_Close :: "session \<Rightarrow> session" where
  "Session_Close s = s\<lparr>s_closed := True, s_pending := [], s_send_queue := [],
     s_pending_bytes := 0, s_pending_frames := 0, s_send_offset := 0\<rparr>"

section \<open>Deadlines and heartbeats\<close>

definition ConnectionExpired :: "int \<Rightarrow> bool \<Rightarrow> session \<Rightarrow> bool \<times> session" where
  "ConnectionExpired now allow_recheck s =
     (let expired = (if s_user_id s \<le> 0 then now - s_created_at s \<ge> 30000
                     else s_hb_enabled s \<and> now - s_last_hb s \<ge> 20000) in
      if \<not> expired then (False, s)
      else let s1 = (if allow_recheck \<and> \<not> s_recheck_used s
                     then s\<lparr>s_recheck_used := True, s_recheck_until := now + 3000\<rparr> else s)
           in (\<not> s_recheck_used s1 \<or> now \<ge> s_recheck_until s1, s1))"

text \<open>The sequence number of a heartbeat: None is any form the code rejects.\<close>

definition heartbeat_number :: "string \<Rightarrow> u64 option" where
  "heartbeat_number sequence =
     (if sequence = [] \<or> length sequence > 20 \<or> hd sequence = CHR ''0'' then None
      else case from_chars_u64 sequence of
             Some (n, []) \<Rightarrow> Some n
           | _ \<Rightarrow> None)"

definition hb_refresh :: "int \<Rightarrow> session \<Rightarrow> session" where
  "hb_refresh now s = s\<lparr>s_hb_enabled := True, s_last_hb := now, s_recheck_used := False\<rparr>"

definition hb_sequence_set :: "u64 \<Rightarrow> session \<Rightarrow> session" where
  "hb_sequence_set n s = s\<lparr>s_hb_sequenced := True, s_hb_sequence := n\<rparr>"

text \<open>The heartbeat counted in its one-second window.\<close>

definition hb_count :: "int \<Rightarrow> session \<Rightarrow> session" where
  "hb_count now s =
     (let s1 = (if now - s_hb_window s \<ge> 1000 then s\<lparr>s_hb_window := now, s_hb_count := 0\<rparr> else s)
      in s1\<lparr>s_hb_count := s_hb_count s1 + 1\<rparr>)"

definition heartbeat_accept :: "string \<Rightarrow> int \<Rightarrow> conn \<Rightarrow> conn" where
  "heartbeat_accept reply now c =
     (let (ok, c1) = Send ID_HEARTBEAT_RESPONSE reply (apfst (hb_refresh now) c)
      in if ok then c1 else RequestClose c1)"

definition heartbeat_reply :: "string \<Rightarrow> string" where
  "heartbeat_reply sequence = ''{'' @ [CHR 0x22] @ ''seq'' @ [CHR 0x22] @ '':'' @ [CHR 0x22]
     @ sequence @ [CHR 0x22] @ ''}''"

definition heartbeat_body :: "json \<Rightarrow> int \<Rightarrow> conn \<Rightarrow> conn" where
  "heartbeat_body value now c =
     (if jsize value = 0 \<and> \<not> s_hb_sequenced (fst c) then heartbeat_accept ''{}'' now c
      else if jsize value \<noteq> 1 \<or> \<not> is_string (jget value ''seq'') then RequestClose c
      else let sequence = as_string (jget value ''seq'') in
        case heartbeat_number sequence of
          None \<Rightarrow> RequestClose c
        | Some number \<Rightarrow>
            if number \<le> s_hb_sequence (fst c) then c
            else heartbeat_accept (heartbeat_reply sequence) now (apfst (hb_sequence_set number) c))"

definition HandleHeartbeat :: "(string \<Rightarrow> json option) \<Rightarrow> int \<Rightarrow> string \<Rightarrow> conn \<Rightarrow> conn" where
  "HandleHeartbeat hb_parse now payload c =
     (if s_user_id (fst c) \<le> 0 \<or> length payload > 96 then RequestClose c
      else let c1 = apfst (hb_count now) c in
        if s_hb_count (fst c1) > 4 then RequestClose c1
        else case hb_parse payload of
               None \<Rightarrow> RequestClose c1
             | Some value \<Rightarrow> if \<not> is_object value then RequestClose c1
                             else heartbeat_body value now c1)"

section \<open>The send queue: invariant and stream\<close>

definition session_frames :: "session \<Rightarrow> string list" where
  "session_frames s = s_send_queue s @ s_pending s"

definition session_ok :: "session \<Rightarrow> bool" where
  "session_ok s \<longleftrightarrow>
     s_pending_frames s = length (session_frames s)
   \<and> s_pending_bytes s = sum_list (map length (session_frames s))
   \<and> s_pending_frames s \<le> kMaxPendingFrames \<and> s_pending_bytes s \<le> kMaxPendingBytes
   \<and> (if s_send_queue s = [] then s_send_offset s = 0
      else s_send_offset s < length (hd (s_send_queue s)))
   \<and> (\<forall>m \<in> set (session_frames s). m \<noteq> [])"

text \<open>The bytes accepted and not yet handed to the kernel.\<close>

definition unsent :: "session \<Rightarrow> string" where
  "unsent s = drop (s_send_offset s) (concat (session_frames s))"

lemma frame_of_length [simp]: "length (frame_of rid p) = 4 + length p"
  by (simp add: frame_of_def Let_def)

lemma Session_new_ok: "session_ok (Session_new t now)"
  by (simp add: session_ok_def Session_new_def session_frames_def kMaxPendingBytes_def
      kMaxPendingFrames_def)

lemma session_ok_cong:
  "session_ok s \<Longrightarrow> s_pending s' = s_pending s \<Longrightarrow> s_send_queue s' = s_send_queue s \<Longrightarrow>
   s_pending_bytes s' = s_pending_bytes s \<Longrightarrow> s_pending_frames s' = s_pending_frames s \<Longrightarrow>
   s_send_offset s' = s_send_offset s \<Longrightarrow> session_ok s'"
  by (simp add: session_ok_def session_frames_def)

lemma RequestClose_ok: "session_ok (fst c) \<Longrightarrow> session_ok (fst (RequestClose c))"
  by (auto simp: RequestClose_def split: prod.splits elim: session_ok_cong)

lemma RequestClose_closed [simp]: "IsClosed (fst (RequestClose c))"
  by (simp add: RequestClose_def IsClosed_def split: prod.splits)

definition fits :: "string \<Rightarrow> session \<Rightarrow> bool" where
  "fits m s \<longleftrightarrow> length m \<le> kMaxPendingBytes - s_pending_bytes s
     \<and> s_pending_frames s < kMaxPendingFrames \<and> m \<noteq> []"

lemma enqueue_frame_ok: "session_ok s \<Longrightarrow> fits m s \<Longrightarrow> session_ok (enqueue_frame m s)"
  by (auto simp: session_ok_def session_frames_def enqueue_frame_def fits_def)

lemma close_requested_ok: "session_ok s \<Longrightarrow> session_ok (s\<lparr>s_close_requested := True\<rparr>)"
  by (erule session_ok_cong) simp_all

lemma session_ok_size_sub:
  assumes "session_ok s"
  shows "size_sub kMaxPendingBytes (s_pending_bytes s) = kMaxPendingBytes - s_pending_bytes s"
  using assms by (intro size_sub_le) (auto simp: session_ok_def kMaxPendingBytes_def)

lemma Send_result:
  assumes "session_ok s" "Send rid p (s, w) = (b, s', w')"
  shows "if b then \<not> IsClosed s \<and> fits (frame_of rid p) s \<and> s' = enqueue_frame (frame_of rid p) s
         else s' = s \<or> \<not> IsClosed s \<and> (s' = s\<lparr>s_close_requested := True\<rparr>
            \<or> fits (frame_of rid p) s \<and> s' = (enqueue_frame (frame_of rid p) s)\<lparr>s_close_requested := True\<rparr>)"
proof -
  have ne: "frame_of rid p \<noteq> []" by (simp add: frame_of_def Let_def)
  obtain ok w1 where n: "notify_opt (s_token s) w = (ok, w1)" by (cases "notify_opt (s_token s) w")
  note d = assms(2) [unfolded Send_def Let_def prod.case n snd_conv session_ok_size_sub [OF assms(1)]]
  consider "length p > 65535" | "length p \<le> 65535" "IsClosed s"
    | "length p \<le> 65535" "\<not> IsClosed s" "\<not> fits (frame_of rid p) s"
    | "length p \<le> 65535" "\<not> IsClosed s" "fits (frame_of rid p) s"
    by linarith
  then show ?thesis
  proof cases
    case 1 then show ?thesis using d by simp
  next
    case 2 then show ?thesis using d by (auto simp: IsClosed_def)
  next
    case 3
    then have "(s', b) = (s\<lparr>s_close_requested := True\<rparr>, False)"
      using d ne by (auto simp: IsClosed_def fits_def not_le)
    then show ?thesis using 3 by simp
  next
    case 4
    then have "(if ok then (True, enqueue_frame (frame_of rid p) s, w1)
        else (False, (enqueue_frame (frame_of rid p) s)\<lparr>s_close_requested := True\<rparr>, w1)) = (b, s', w')"
      using d by (auto simp: IsClosed_def fits_def)
    then show ?thesis using 4 by (auto split: if_splits)
  qed
qed

lemma Send_ok:
  assumes "session_ok s" "Send rid p (s, w) = (b, s', w')" shows "session_ok s'"
  using Send_result [OF assms] assms(1)
  by (auto split: if_splits simp: enqueue_frame_ok close_requested_ok)

lemma take_self: "xs = take k ys \<Longrightarrow> xs = take (length xs) ys"
  by (cases "k \<le> length ys") auto

lemma advance_ok:
  assumes ok: "session_ok s" and q: "s_send_queue s \<noteq> []" and n: "took \<noteq> []"
    and took: "took = take k (offered written s)"
  shows "session_ok (advance (length took) s)"
    and "took @ unsent (advance (length took) s) = unsent s"
proof -
  obtain m rest where m: "s_send_queue s = m # rest" using q by (cases "s_send_queue s") auto
  let ?off = "s_send_offset s" and ?n = "length took"
  have off: "?off < length m" using ok m by (simp add: session_ok_def)
  have len: "?n \<le> length m - ?off" "took = take ?n (drop ?off m)"
    using took take_self [of took "min k (kIoBudget - written)" "drop ?off m"]
    by (simp_all add: offered_def m)
  have pos: "0 < ?n" using n by simp
  have sub: "size_sub (s_pending_bytes s) (length m) = s_pending_bytes s - length m"
    "size_sub (s_pending_frames s) 1 = s_pending_frames s - 1"
    using ok m by (auto simp: session_ok_def session_frames_def kMaxPendingBytes_def kMaxPendingFrames_def)
  have nxt: "rest \<noteq> [] \<Longrightarrow> hd rest \<noteq> []"
    using ok m by (cases rest) (auto simp: session_ok_def session_frames_def)
  show "session_ok (advance ?n s)"
  proof (cases "?off + ?n = length m")
    case True
    then show ?thesis
      using ok m sub nxt by (auto simp: advance_def session_ok_def session_frames_def Let_def)
  next
    case False
    then show ?thesis
      using ok m len pos off by (auto simp: advance_def session_ok_def session_frames_def Let_def)
  qed
  show "took @ unsent (advance ?n s) = unsent s"
  proof (cases "?off + ?n = length m")
    case True
    then have "took = drop ?off m" using len by simp
    then show ?thesis using True m off by (simp add: advance_def unsent_def session_frames_def Let_def)
  next
    case False
    then have u: "unsent (advance ?n s) = drop ?n (drop ?off (m @ concat rest @ concat (s_pending s)))"
      using m by (simp add: advance_def unsent_def session_frames_def Let_def add.commute
          del: drop_append)
    have "took = take ?n (drop ?off (m @ concat rest @ concat (s_pending s)))"
      using len off by simp
    with u show ?thesis
      using m by (metis append_take_drop_id concat.simps(2) concat_append session_frames_def unsent_def append.assoc)
  qed
qed

lemma advance_flags [simp]:
  "s_closed (advance n s) = s_closed s" "s_close_requested (advance n s) = s_close_requested s"
  "s_token (advance n s) = s_token s"
  by (simp_all add: advance_def Let_def)

declare write_loop.simps(2) [simp del]

lemma write_loop_stop:
  "s_send_queue s = [] \<or> written \<ge> kIoBudget \<or> r = SendAgain \<or> r = SendFail \<Longrightarrow>
   snd (write_loop (r # rs) written s out) = (out, s)"
  by (auto simp: write_loop.simps(2))

lemma write_loop_sent:
  assumes "s_send_queue s \<noteq> []" "\<not> written \<ge> kIoBudget"
  shows "write_loop (SendIntr # rs) written s out = write_loop rs written s out"
    and "write_loop (Sent k # rs) written s out =
      (let took = take k (offered written s) in
       if took = [] then (False, out, s)
       else write_loop rs (written + length took) (advance (length took) s) (out @ took))"
  using assms by (simp_all add: write_loop.simps(2))

lemma write_loop_ok:
  "session_ok s \<Longrightarrow> (b, out', s') = write_loop rs written s out \<Longrightarrow>
   session_ok s' \<and> out' @ unsent s' = out @ unsent s \<and> IsClosed s' = IsClosed s"
proof (induction rs arbitrary: written s out)
  case (Cons r rs)
  show ?case
  proof (cases "s_send_queue s = [] \<or> written \<ge> kIoBudget \<or> r = SendAgain \<or> r = SendFail")
    case True
    then have "snd (b, out', s') = (out, s)" by (simp only: Cons.prems(2) write_loop_stop)
    then show ?thesis using Cons.prems(1) by simp
  next
    case False
    then have q: "s_send_queue s \<noteq> []" "\<not> written \<ge> kIoBudget" by simp_all
    consider "r = SendIntr" | k where "r = Sent k" using False by (cases r) auto
    then show ?thesis
    proof cases
      case 1
      then show ?thesis using Cons.IH [OF Cons.prems(1)] Cons.prems(2) write_loop_sent(1) [OF q] by simp
    next
      case (2 k)
      let ?took = "take k (offered written s)"
      show ?thesis
      proof (cases "?took = []")
        case True
        then have "(b, out', s') = (False, out, s)"
          using Cons.prems(2) write_loop_sent(2) [OF q] 2 by (simp add: Let_def)
        then show ?thesis using Cons.prems(1) by simp
      next
        case took: False
        note adv = advance_ok [OF Cons.prems(1) q(1) took refl]
        have "(b, out', s') = write_loop rs (written + length ?took) (advance (length ?took) s) (out @ ?took)"
          using Cons.prems(2) write_loop_sent(2) [OF q] 2 took by (simp add: Let_def)
        from Cons.IH [OF adv(1) this] adv(2) show ?thesis by (simp add: IsClosed_def)
      qed
    qed
  qed
qed simp

lemma HandleWrite_ok:
  assumes "session_ok s" "HandleWrite script s = (b, out, s')"
  shows "session_ok s' \<and> out @ unsent s' = unsent s \<and> IsClosed s' = IsClosed s
    \<and> (if IsClosed s then out = [] else True)"
proof (cases "IsClosed s")
  case True
  then show ?thesis using assms by (auto simp: HandleWrite_def IsClosed_def)
next
  case False
  let ?s = "if s_send_queue s = [] then s\<lparr>s_send_queue := s_pending s, s_pending := []\<rparr> else s"
  have "session_ok ?s" "unsent ?s = unsent s" "IsClosed ?s = IsClosed s"
    using assms(1) by (auto simp: session_ok_def unsent_def session_frames_def IsClosed_def)
  moreover have "(b, out, s') = write_loop script 0 ?s []"
    using assms(2) False by (auto simp: HandleWrite_def IsClosed_def)
  ultimately show ?thesis using write_loop_ok [of ?s b out s' script 0 "[]"] False by simp
qed

lemma Session_Close_ok: "session_ok (Session_Close s)" "IsClosed (Session_Close s)"
  by (simp_all add: session_ok_def Session_Close_def session_frames_def IsClosed_def)

interpretation tcp: outbox "\<lambda>c :: conn. session_ok (fst c)" "\<lambda>c. IsClosed (fst c)"
  "\<lambda>c. session_frames (fst c)" "\<lambda>(rid, p). frame_of rid p" "\<lambda>(rid, p). Send rid p"
proof unfold_locales
  fix c c' :: conn and m :: "u16 \<times> string"
  obtain rid p s w s' w' where [simp]: "m = (rid, p)" "c = (s, w)" "c' = (s', w')"
    by (metis surj_pair)
  assume ok: "session_ok (fst c)"
  {
    assume "(case m of (rid, p) \<Rightarrow> Send rid p) c = (True, c')"
    then have "Send rid p (s, w) = (True, s', w')" by simp
    then show "session_ok (fst c') \<and> \<not> IsClosed (fst c) \<and> \<not> IsClosed (fst c') \<and>
       session_frames (fst c') = session_frames (fst c) @ [case m of (rid, p) \<Rightarrow> frame_of rid p]"
      using Send_result [of s rid p w True s' w'] Send_ok [of s rid p w True s' w'] ok
      by (simp add: enqueue_frame_def session_frames_def IsClosed_def)
  next
    assume "(case m of (rid, p) \<Rightarrow> Send rid p) c = (False, c')"
    then have "Send rid p (s, w) = (False, s', w')" by simp
    then show "session_ok (fst c') \<and> (IsClosed (fst c') \<or> \<not> IsClosed (fst c) \<and>
       session_frames (fst c') = session_frames (fst c))"
      using Send_result [of s rid p w False s' w'] Send_ok [of s rid p w False s' w'] ok
      by (auto simp: IsClosed_def)
  }
next
  fix c :: conn
  assume "session_ok (fst c)"
  then show "length (session_frames (fst c)) \<le> 1024 \<and>
     sum_list (map length (session_frames (fst c))) \<le> 4 * 1024 * 1024"
    by (auto simp: session_ok_def kMaxPendingBytes_def kMaxPendingFrames_def)
qed

section \<open>Runs of a connection's write side\<close>

datatype session_call =
    CallSend u16 string
  | CallHandleWrite "send_result list"
  | CallSessionRequestClose
  | CallSessionClose

text \<open>The state of a run: the connection, the bytes on the wire, and the frames
  whose Send answered true.\<close>

type_synonym write_run = "conn \<times> string \<times> string list"

fun session_call_step :: "session_call \<Rightarrow> write_run \<Rightarrow> write_run" where
  "session_call_step (CallSend rid p) ((s, w), wire, acc) =
     (let (b, c) = Send rid p (s, w) in (c, wire, if b then acc @ [frame_of rid p] else acc))"
| "session_call_step (CallHandleWrite script) ((s, w), wire, acc) =
     (let (_, out, s') = HandleWrite script s in ((s', w), wire @ out, acc))"
| "session_call_step CallSessionRequestClose (c, wire, acc) = (RequestClose c, wire, acc)"
| "session_call_step CallSessionClose ((s, w), wire, acc) = ((Session_Close s, w), wire, acc)"

definition session_run :: "session_call list \<Rightarrow> conn \<Rightarrow> write_run" where
  "session_run calls c = fold session_call_step calls (c, [], [])"

definition stream_ok :: "write_run \<Rightarrow> bool" where
  "stream_ok r = (case r of ((s, w), wire, acc) \<Rightarrow>
     session_ok s \<and> prefix wire (concat acc) \<and> (IsClosed s \<or> wire @ unsent s = concat acc))"

lemma unsent_enqueue: "session_ok s \<Longrightarrow> unsent (enqueue_frame m s) = unsent s @ m"
  by (cases "s_send_queue s")
    (auto simp: unsent_def enqueue_frame_def session_frames_def session_ok_def)

lemma session_call_step_ok: "stream_ok r \<Longrightarrow> stream_ok (session_call_step call r)"
proof (cases call)
  case (CallSend rid p)
  assume r: "stream_ok r"
  obtain s w wire acc where [simp]: "r = ((s, w), wire, acc)" by (metis surj_pair)
  obtain b s' w' where snd: "Send rid p (s, w) = (b, s', w')" by (metis surj_pair)
  have s: "session_ok s" "prefix wire (concat acc)" "IsClosed s \<or> wire @ unsent s = concat acc"
    using r by (simp_all add: stream_ok_def)
  show ?thesis
  proof (cases b)
    case True
    then have "\<not> IsClosed s" "s' = enqueue_frame (frame_of rid p) s"
      using Send_result [OF s(1) snd] by simp_all
    then show ?thesis
      using s snd True CallSend Send_ok [OF s(1) snd] unsent_enqueue [OF s(1)]
      by (auto simp: stream_ok_def intro: prefixI)
  next
    case False
    then have "s' = s \<or> IsClosed s'"
      using Send_result [OF s(1) snd] by (auto simp: IsClosed_def)
    then show ?thesis
      using s snd False CallSend Send_ok [OF s(1) snd] by (auto simp: stream_ok_def)
  qed
next
  case (CallHandleWrite script)
  assume r: "stream_ok r"
  obtain s w wire acc where [simp]: "r = ((s, w), wire, acc)" by (metis surj_pair)
  obtain b out s' where h: "HandleWrite script s = (b, out, s')" by (metis surj_pair)
  have s: "session_ok s" "prefix wire (concat acc)" "IsClosed s \<or> wire @ unsent s = concat acc"
    using r by (simp_all add: stream_ok_def)
  note hw = HandleWrite_ok [OF s(1) h]
  show ?thesis
  proof (cases "IsClosed s")
    case True
    then show ?thesis using s hw h CallHandleWrite by (auto simp: stream_ok_def)
  next
    case False
    then have "(wire @ out) @ unsent s' = concat acc" using hw s(3) by simp
    then show ?thesis using hw h CallHandleWrite False
      by (auto simp: stream_ok_def intro: prefixI [of _ _ "unsent s'"])
  qed
next
  case CallSessionRequestClose
  assume r: "stream_ok r"
  obtain c wire acc where [simp]: "r = (c, wire, acc)" by (metis surj_pair)
  obtain s' w' where rc: "RequestClose c = (s', w')" by (metis surj_pair)
  have "IsClosed s'" "session_ok (fst c) \<longrightarrow> session_ok s'"
    using RequestClose_closed [of c] RequestClose_ok [of c] rc by (simp_all del: RequestClose_closed)
  then show ?thesis
    using r CallSessionRequestClose rc by (auto simp: stream_ok_def split: prod.splits)
next
  case CallSessionClose
  assume r: "stream_ok r"
  obtain s w wire acc where [simp]: "r = ((s, w), wire, acc)" by (metis surj_pair)
  show ?thesis using r CallSessionClose Session_Close_ok [of s] by (auto simp: stream_ok_def)
qed

lemma Session_new_empty [simp]:
  "session_frames (Session_new t now) = []" "unsent (Session_new t now) = []"
  by (simp_all add: session_frames_def unsent_def Session_new_def)

lemma session_run_stream_ok: "stream_ok (session_run calls (Session_new t now, w))"
proof (induction calls rule: rev_induct)
  case Nil
  show ?case by (simp add: session_run_def stream_ok_def Session_new_ok)
next
  case (snoc call calls)
  then show ?case by (simp add: session_run_def session_call_step_ok)
qed

section \<open>Properties\<close>

text \<open>C1: Stream integrity of a client connection: whatever the interleaving of
  Send, of HandleWrite with partial, interrupted and failing kernel sends, of
  RequestClose and of Close, the bytes on the wire are a prefix of the
  concatenation, in order, of the frames whose Send answered true; while the
  connection is open, the missing rest is exactly what the session still holds.\<close>

theorem session_stream_integrity:
  "prefix (fst (snd (session_run calls (Session_new t now, w))))
          (concat (snd (snd (session_run calls (Session_new t now, w)))))
   \<and> (IsClosed (fst (fst (session_run calls (Session_new t now, w))))
      \<or> fst (snd (session_run calls (Session_new t now, w)))
          @ unsent (fst (fst (session_run calls (Session_new t now, w))))
        = concat (snd (snd (session_run calls (Session_new t now, w)))))"
  using session_run_stream_ok [of calls t now w]
  by (auto simp: stream_ok_def split: prod.splits)

text \<open>The quota of a client connection: in every reachable state the byte and
  frame counters agree with the frames held (pending and in the send queue), and
  no run holds more than 1024 frames or 4 MiB.\<close>

theorem session_quota:
  "let s = fst (fst (session_run calls (Session_new t now, w))) in
     s_pending_frames s = length (s_send_queue s @ s_pending s)
   \<and> s_pending_bytes s = sum_list (map length (s_send_queue s @ s_pending s))
   \<and> s_pending_frames s \<le> 1024 \<and> s_pending_bytes s \<le> 4 * 1024 * 1024"
  using session_run_stream_ok [of calls t now w]
  by (auto simp: stream_ok_def session_ok_def session_frames_def kMaxPendingBytes_def
      kMaxPendingFrames_def Let_def split: prod.splits)

text \<open>A batch of messages sent on a fresh connection either kills it or is
  queued as exactly the frames of the accepted messages, in the order of the
  calls.\<close>

theorem session_batch_fifo:
  "IsClosed (fst (snd (tcp.enq_all ms (Session_new t now, w))))
   \<or> session_frames (fst (snd (tcp.enq_all ms (Session_new t now, w))))
       = map (\<lambda>(rid, p). frame_of rid p) (fst (tcp.enq_all ms (Session_new t now, w)))"
  using tcp.enq_all_fifo [of "(Session_new t now, w)" ms] by (auto simp: Session_new_ok)

end
