(* ===== verification/TcpReceive.thy ===== *)
theory TcpReceive
  imports TcpSession
begin

text \<open>
  The receiving side of a client connection: ParseFrames and HandleRead of
  src/net/Session.cpp, the round trip with the frames Send builds, and the
  properties of the heartbeat and of the connection deadline.
\<close>

section \<open>Parsing frames\<close>

definition upd_recv :: "(string \<Rightarrow> string) \<Rightarrow> conn \<Rightarrow> conn" where
  "upd_recv f c = (case c of (s, w) \<Rightarrow> (s\<lparr>s_recv := f (s_recv s)\<rparr>, w))"

definition erase_recv :: "nat \<Rightarrow> conn \<Rightarrow> conn" where
  "erase_recv k = upd_recv (drop k)"

definition append_recv :: "string \<Rightarrow> conn \<Rightarrow> conn" where
  "append_recv d = upd_recv (\<lambda>buf. buf @ d)"

definition recv_of :: "conn \<Rightarrow> string" where
  "recv_of c = s_recv (fst c)"

text \<open>What the buffer of a connection starts with.\<close>

datatype head_frame = Incomplete | Reserved | Complete u16 string

definition head_of :: "string \<Rightarrow> head_frame" where
  "head_of buf =
     (if length buf < kFrameHeaderLength then Incomplete
      else let rid = be16 (buf ! 0) (buf ! 1) in
        if rid \<ge> 0xFFF0 then Reserved
        else let n = unat (be16 (buf ! 2) (buf ! 3)) in
          if length buf < kFrameHeaderLength + n then Incomplete
          else Complete rid (take n (drop kFrameHeaderLength buf)))"

lemma upd_recv_simps [simp]:
  "recv_of (upd_recv f c) = f (recv_of c)"
  "upd_recv f (upd_recv g c) = upd_recv (f \<circ> g) c"
  "IsClosed (fst (upd_recv f c)) = IsClosed (fst c)"
  by (simp_all add: upd_recv_def recv_of_def IsClosed_def comp_def split: prod.splits)

lemma upd_recv_const [simp]: "upd_recv (\<lambda>_. recv_of c) c = c"
  by (simp add: upd_recv_def recv_of_def split: prod.splits)

lemma RequestClose_upd: "RequestClose (upd_recv f c) = upd_recv f (RequestClose c)"
  by (simp add: RequestClose_def upd_recv_def split: prod.splits)

lemma Send_upd: "Send rid p (upd_recv f c) = (fst (Send rid p c), upd_recv f (snd (Send rid p c)))"
  by (cases c) (auto simp: Send_def upd_recv_def enqueue_frame_def Let_def split: prod.splits)

lemma upd_recv_apfst:
  "apfst (hb_refresh now) (upd_recv f c) = upd_recv f (apfst (hb_refresh now) c)"
  "apfst (hb_sequence_set n) (upd_recv f c) = upd_recv f (apfst (hb_sequence_set n) c)"
  "apfst (hb_count now) (upd_recv f c) = upd_recv f (apfst (hb_count now) c)"
  by (cases c; simp add: upd_recv_def hb_refresh_def hb_sequence_set_def hb_count_def Let_def)+

lemma upd_recv_fields:
  "s_hb_sequenced (fst (upd_recv f c)) = s_hb_sequenced (fst c)"
  "s_hb_sequence (fst (upd_recv f c)) = s_hb_sequence (fst c)"
  "s_hb_count (fst (upd_recv f c)) = s_hb_count (fst c)"
  "s_user_id (fst (upd_recv f c)) = s_user_id (fst c)"
  by (cases c; simp add: upd_recv_def)+

lemma heartbeat_accept_upd:
  "heartbeat_accept r now (upd_recv f c) = upd_recv f (heartbeat_accept r now c)"
  by (simp add: heartbeat_accept_def upd_recv_apfst Send_upd RequestClose_upd split_beta)

lemma heartbeat_body_upd:
  "heartbeat_body v now (upd_recv f c) = upd_recv f (heartbeat_body v now c)"
  by (simp add: heartbeat_body_def Let_def upd_recv_apfst upd_recv_fields RequestClose_upd
      heartbeat_accept_upd split: option.split)

lemma HandleHeartbeat_upd:
  "HandleHeartbeat hbp now p (upd_recv f c) = upd_recv f (HandleHeartbeat hbp now p c)"
  by (simp add: HandleHeartbeat_def Let_def upd_recv_apfst upd_recv_fields RequestClose_upd
      heartbeat_body_upd split: option.split)

lemma HandleHeartbeat_recv [simp]: "recv_of (HandleHeartbeat hbp now p c) = recv_of c"
  using HandleHeartbeat_upd [of hbp now p "\<lambda>_. recv_of c" c]
    upd_recv_simps(1) [of "\<lambda>_. recv_of c" "HandleHeartbeat hbp now p c"]
  by (simp del: upd_recv_simps)

section \<open>ParseFrames\<close>

function ParseFrames :: "(string \<Rightarrow> json option) \<Rightarrow> int
    \<Rightarrow> (u16 \<times> string \<Rightarrow> 'b \<Rightarrow> bool \<times> 'b) \<Rightarrow> conn \<Rightarrow> 'b \<Rightarrow> conn \<times> 'b" where
  "ParseFrames hbp now post c b =
     (case head_of (recv_of c) of
        Incomplete \<Rightarrow> (c, b)
      | Reserved \<Rightarrow> (RequestClose c, b)
      | Complete rid payload \<Rightarrow>
          (let c1 = erase_recv (kFrameHeaderLength + length payload) c in
           if rid = ID_HEARTBEAT_REQUEST
           then let c2 = HandleHeartbeat hbp now payload c1 in
                if IsClosed (fst c2) then (c2, b) else ParseFrames hbp now post c2 b
           else let (admitted, b1) = post (rid, payload) b in
                ParseFrames hbp now post (if admitted then c1 else RequestClose c1) b1))"
  by pat_completeness auto

lemma head_of_complete:
  "head_of buf = Complete rid p \<Longrightarrow> kFrameHeaderLength + length p \<le> length buf \<and> 0 < length buf"
  by (auto simp: head_of_def Let_def kFrameHeaderLength_def split: if_splits)

lemma RequestClose_recv [simp]: "recv_of (RequestClose c) = recv_of c"
  by (simp add: RequestClose_def recv_of_def split: prod.splits)

lemma erase_recv_of [simp]: "recv_of (erase_recv k c) = drop k (recv_of c)"
  by (simp add: erase_recv_def)

termination ParseFrames
  by (relation "measure (\<lambda>(_, _, _, c, _). length (recv_of c))")
    (auto dest!: head_of_complete simp: kFrameHeaderLength_def)

declare ParseFrames.simps [simp del]

section \<open>Parsing inverts framing\<close>

lemma head_of_frame:
  assumes "rid < 0xFFF0" "length p \<le> 65535"
  shows "head_of (frame_of rid p @ rest) = Complete rid p"
  using assms by (simp add: head_of_def frame_of_def Let_def kFrameHeaderLength_def unat_of_nat_u16 not_le)

lemma head_of_append:
  "head_of buf = Complete rid p \<Longrightarrow> head_of (buf @ d) = Complete rid p"
  "head_of buf = Reserved \<Longrightarrow> head_of (buf @ d) = Reserved"
  by (auto simp: head_of_def Let_def kFrameHeaderLength_def nth_append split: if_splits)

text \<open>A business layer that admits every frame and records it.\<close>

definition collect :: "u16 \<times> string \<Rightarrow> (u16 \<times> string) list \<Rightarrow> bool \<times> (u16 \<times> string) list" where
  "collect f acc = (True, acc @ [f])"

definition plain_frame :: "u16 \<times> string \<Rightarrow> bool" where
  "plain_frame f \<longleftrightarrow> fst f < 0xFFF0 \<and> fst f \<noteq> ID_HEARTBEAT_REQUEST \<and> length (snd f) \<le> 65535"

lemma plain_frame_pair [simp]:
  "plain_frame (rid, p) \<longleftrightarrow> rid < 0xFFF0 \<and> rid \<noteq> ID_HEARTBEAT_REQUEST \<and> length p \<le> 65535"
  by (simp add: plain_frame_def)

lemma parse_frames_of:
  assumes "list_all plain_frame fs" "recv_of c = concat (map (\<lambda>(r, p). frame_of r p) fs) @ rest"
    "head_of rest = Incomplete"
  shows "ParseFrames hbp now collect c acc
    = (erase_recv (length (concat (map (\<lambda>(r, p). frame_of r p) fs))) c, acc @ fs)"
  using assms
proof (induction fs arbitrary: c acc)
  case Nil
  then show ?case
    by (subst ParseFrames.simps) (simp add: erase_recv_def upd_recv_def split: prod.splits)
next
  case (Cons f fs)
  obtain rid p where f: "f = (rid, p)" by (cases f)
  let ?n = "kFrameHeaderLength + length p"
  have pf: "rid < 0xFFF0" "rid \<noteq> ID_HEARTBEAT_REQUEST" "length p \<le> 65535" "list_all plain_frame fs"
    using Cons.prems(1) f by simp_all
  have len: "length (frame_of rid p) = ?n" by (simp add: kFrameHeaderLength_def)
  have "head_of (recv_of c) = Complete rid p"
    using Cons.prems(2) f pf by (simp add: head_of_frame)
  then have "ParseFrames hbp now collect c acc
      = ParseFrames hbp now collect (erase_recv ?n c) (acc @ [f])"
    using pf f by (subst ParseFrames.simps) (simp add: Let_def collect_def)
  also have "\<dots> = (erase_recv (length (concat (map (\<lambda>(r, p). frame_of r p) fs))) (erase_recv ?n c),
      (acc @ [f]) @ fs)"
  proof (rule Cons.IH [OF pf(4) _ Cons.prems(3)])
    show "recv_of (erase_recv ?n c) = concat (map (\<lambda>(r, p). frame_of r p) fs) @ rest"
      using Cons.prems(2) f len by simp
  qed
  also have "erase_recv k (erase_recv ?n c) = erase_recv (k + ?n) c" for k
    by (simp add: erase_recv_def comp_def add.commute)
  finally show ?case using f len by (simp add: add.commute)
qed

text \<open>Parsing does not depend on how the byte stream is cut into reads.\<close>

lemma erase_append:
  "k \<le> length (recv_of c) \<Longrightarrow> erase_recv k (append_recv d c) = append_recv d (erase_recv k c)"
  by (cases c) (simp add: erase_recv_def append_recv_def upd_recv_def recv_of_def comp_def)

lemma append_recv_of [simp]: "recv_of (append_recv d c) = recv_of c @ d"
  by (simp add: append_recv_def)

lemma RequestClose_append: "RequestClose (append_recv d c) = append_recv d (RequestClose c)"
  by (simp add: append_recv_def RequestClose_upd)

lemma parse_append:
  "\<not> IsClosed (fst (fst (ParseFrames hbp now post c b))) \<Longrightarrow>
   ParseFrames hbp now post (append_recv d c) b
   = (let (c1, b1) = ParseFrames hbp now post c b in ParseFrames hbp now post (append_recv d c1) b1)"
proof (induction hbp now post c b rule: ParseFrames.induct)
  case (1 hbp now post c b)
  show ?case
  proof (cases "head_of (recv_of c)")
    case Incomplete
    then have "ParseFrames hbp now post c b = (c, b)" by (subst ParseFrames.simps) simp
    then show ?thesis by simp
  next
    case Reserved
    then have "ParseFrames hbp now post c b = (RequestClose c, b)" by (subst ParseFrames.simps) simp
    then show ?thesis using 1(3) by simp
  next
    case (Complete rid p)
    let ?c1 = "erase_recv (kFrameHeaderLength + length p) c"
    have app: "head_of (recv_of (append_recv d c)) = Complete rid p"
      using head_of_append(1) [OF Complete] by simp
    have er: "erase_recv (kFrameHeaderLength + length p) (append_recv d c) = append_recv d ?c1"
      using head_of_complete [OF Complete] by (intro erase_append) simp
    show ?thesis
    proof (cases "rid = ID_HEARTBEAT_REQUEST")
      case True
      let ?c2 = "HandleHeartbeat hbp now p ?c1"
      have c2: "HandleHeartbeat hbp now p (append_recv d ?c1) = append_recv d ?c2"
        by (simp add: append_recv_def HandleHeartbeat_upd)
      have eq: "ParseFrames hbp now post c b
          = (if IsClosed (fst ?c2) then (?c2, b) else ParseFrames hbp now post ?c2 b)"
        using Complete True by (subst ParseFrames.simps) (simp add: Let_def)
      have live: "\<not> IsClosed (fst ?c2)" using 1(3) eq by (auto split: if_splits)
      have "\<not> IsClosed (fst (append_recv d ?c2))" using live by (simp add: append_recv_def)
      then have "ParseFrames hbp now post (append_recv d c) b
          = ParseFrames hbp now post (append_recv d ?c2) b"
        using app er c2 True by (subst ParseFrames.simps) (simp add: Let_def)
      then show ?thesis
        using 1(1) [OF Complete refl True refl live] 1(3) eq live by simp
    next
      case False
      obtain ok b1 where post: "post (rid, p) b = (ok, b1)" by (cases "post (rid, p) b")
      let ?c2 = "if ok then ?c1 else RequestClose ?c1"
      have eq: "ParseFrames hbp now post c b = ParseFrames hbp now post ?c2 b1"
        using Complete False post by (subst ParseFrames.simps) (simp add: Let_def)
      have "ParseFrames hbp now post (append_recv d c) b
          = ParseFrames hbp now post (append_recv d ?c2) b1"
        using app er False post
        by (subst ParseFrames.simps) (cases ok; simp add: Let_def RequestClose_append)
      then show ?thesis
        using 1(2) [OF Complete refl False post [symmetric] refl] 1(3) eq by simp
    qed
  qed
qed

section \<open>HandleRead\<close>

datatype recv_result = Received string | PeerClosed | RecvIntr | RecvAgain | RecvFail

fun read_loop :: "(string \<Rightarrow> json option) \<Rightarrow> int \<Rightarrow> (u16 \<times> string \<Rightarrow> 'b \<Rightarrow> bool \<times> 'b)
    \<Rightarrow> recv_result list \<Rightarrow> nat \<Rightarrow> conn \<Rightarrow> 'b \<Rightarrow> bool \<times> conn \<times> 'b" where
  "read_loop hbp now post [] received c b = (True, c, b)"
| "read_loop hbp now post (r # rs) received c b =
     (if received \<ge> kIoBudget then (True, c, b)
      else case r of
        Received d \<Rightarrow>
          (if d = [] then (False, c, b)
           else let (c1, b1) = ParseFrames hbp now post (append_recv d c) b in
             if IsClosed (fst c1) then (False, c1, b1)
             else read_loop hbp now post rs (received + length d) c1 b1)
      | PeerClosed \<Rightarrow> (False, c, b)
      | RecvIntr \<Rightarrow> read_loop hbp now post rs received c b
      | RecvAgain \<Rightarrow> (True, c, b)
      | RecvFail \<Rightarrow> (False, c, b))"

definition HandleRead :: "(string \<Rightarrow> json option) \<Rightarrow> int \<Rightarrow> (u16 \<times> string \<Rightarrow> 'b \<Rightarrow> bool \<times> 'b)
    \<Rightarrow> recv_result list \<Rightarrow> conn \<Rightarrow> 'b \<Rightarrow> bool \<times> conn \<times> 'b" where
  "HandleRead hbp now post script c b = read_loop hbp now post script 0 c b"

section \<open>Heartbeats and deadlines\<close>

lemma RequestClose_hb [simp]:
  "s_hb_sequence (fst (RequestClose c)) = s_hb_sequence (fst c)"
  "s_hb_sequenced (fst (RequestClose c)) = s_hb_sequenced (fst c)"
  "s_last_hb (fst (RequestClose c)) = s_last_hb (fst c)"
  "session_frames (fst (RequestClose c)) = session_frames (fst c)"
  by (cases c; simp add: RequestClose_def session_frames_def)+

lemma Send_hb [simp]:
  "s_hb_sequence (fst (snd (Send rid p c))) = s_hb_sequence (fst c)"
  "s_hb_sequenced (fst (snd (Send rid p c))) = s_hb_sequenced (fst c)"
  "s_last_hb (fst (snd (Send rid p c))) = s_last_hb (fst c)"
  by (cases c; simp add: Send_def enqueue_frame_def Let_def split: prod.splits)+

lemma hb_fields [simp]:
  "s_hb_sequence (hb_refresh now s) = s_hb_sequence s"
  "s_hb_sequenced (hb_refresh now s) = s_hb_sequenced s"
  "s_last_hb (hb_refresh now s) = now"
  "s_hb_sequence (hb_sequence_set n s) = n"
  "s_hb_sequenced (hb_sequence_set n s) = True"
  "s_hb_sequence (hb_count now s) = s_hb_sequence s"
  "s_hb_sequenced (hb_count now s) = s_hb_sequenced s"
  "s_last_hb (hb_count now s) = s_last_hb s"
  "session_frames (hb_count now s) = session_frames s"
  by (simp_all add: hb_refresh_def hb_sequence_set_def hb_count_def session_frames_def Let_def)

lemma heartbeat_accept_hb:
  "s_hb_sequence (fst (heartbeat_accept r now c)) = s_hb_sequence (fst c)"
  "s_hb_sequenced (fst (heartbeat_accept r now c)) = s_hb_sequenced (fst c)"
  "s_last_hb (fst (heartbeat_accept r now c)) = now"
  by (simp_all add: heartbeat_accept_def split_beta)

lemma heartbeat_body_sequenced:
  assumes "s_hb_sequenced (fst c)" "c' = heartbeat_body v now c"
  shows "s_hb_sequenced (fst c') \<and>
    (s_hb_sequence (fst c) < s_hb_sequence (fst c') \<and> s_last_hb (fst c') = now
     \<or> s_hb_sequence (fst c') = s_hb_sequence (fst c) \<and> s_last_hb (fst c') = s_last_hb (fst c)
       \<and> session_frames (fst c') = session_frames (fst c))"
  using assms
  by (auto simp: heartbeat_body_def Let_def heartbeat_accept_hb not_le split: option.split)

definition past_deadline :: "int \<Rightarrow> session \<Rightarrow> bool" where
  "past_deadline now s \<longleftrightarrow>
     (if s_user_id s \<le> 0 then now - s_created_at s \<ge> 30000
      else s_hb_enabled s \<and> now - s_last_hb s \<ge> 20000)"

definition poll_all :: "(int \<times> bool) list \<Rightarrow> session \<Rightarrow> session" where
  "poll_all ps s = fold (\<lambda>(now, allow) s. snd (ConnectionExpired now allow s)) ps s"

lemma ConnectionExpired_deadline [simp]:
  "past_deadline n (snd (ConnectionExpired now a s)) = past_deadline n s"
  by (simp add: ConnectionExpired_def past_deadline_def Let_def)

lemma poll_all_keeps:
  "s_recheck_used s \<Longrightarrow>
   s_recheck_used (poll_all ps s) \<and> s_recheck_until (poll_all ps s) = s_recheck_until s
   \<and> past_deadline n (poll_all ps s) = past_deadline n s"
proof (induction ps arbitrary: s)
  case (Cons p ps)
  obtain now a where p: "p = (now, a)" by (cases p)
  let ?s = "snd (ConnectionExpired now a s)"
  have "s_recheck_used ?s" "s_recheck_until ?s = s_recheck_until s"
    using Cons.prems by (simp_all add: ConnectionExpired_def Let_def)
  with Cons.IH [of ?s] p show ?case by (simp add: poll_all_def)
qed (simp add: poll_all_def)

section \<open>Properties\<close>

text \<open>Frame round trip: the frames Send builds for any messages with plain ids,
  appended to an empty receive buffer and followed by any incomplete rest, are
  handed to the business layer as exactly those messages in order, and the rest
  stays in the buffer.\<close>

theorem frame_round_trip:
  assumes "list_all plain_frame fs" "recv_of c = []" "head_of rest = Incomplete"
  shows "ParseFrames hbp now collect
      (append_recv (concat (map (\<lambda>(r, p). frame_of r p) fs) @ rest) c) []
    = (append_recv rest c, fs)"
proof -
  let ?w = "concat (map (\<lambda>(r, p). frame_of r p) fs)"
  have "erase_recv (length ?w) (append_recv (?w @ rest) c) = append_recv rest c"
    using assms(2)
    by (cases c) (simp add: erase_recv_def append_recv_def upd_recv_def recv_of_def)
  then show ?thesis
    using parse_frames_of [OF assms(1) _ assms(3), of "append_recv (?w @ rest) c" hbp now "[]"]
      assms(2) by simp
qed

theorem frame_round_trip_witness:
  "ParseFrames (\<lambda>_. None) 0 collect
      (append_recv (concat (map (\<lambda>(r, p). frame_of r p) [(1016, ''ab''), (1026, [])]) @ ''x'')
        (Session_new 7 0, None)) []
    = (append_recv ''x'' (Session_new 7 0, None), [(1016, ''ab''), (1026, [])])"
  by (rule frame_round_trip)
    (simp_all add: plain_frame_def ID_HEARTBEAT_REQUEST_def recv_of_def Session_new_def head_of_def
      kFrameHeaderLength_def)

text \<open>C2: Parsing is independent of how the byte stream is cut: parsing the first
  part and then the buffer extended by the second part has the same effect, on
  the connection and on the business layer, as parsing both at once, unless the
  first part already closed the connection.\<close>

theorem parse_cut_independent:
  "IsClosed (fst (fst (ParseFrames hbp now post (append_recv d1 c) b)))
   \<or> ParseFrames hbp now post (append_recv (d1 @ d2) c) b
     = (let (c1, b1) = ParseFrames hbp now post (append_recv d1 c) b
        in ParseFrames hbp now post (append_recv d2 c1) b1)"
proof -
  have "append_recv d2 (append_recv d1 c) = append_recv (d1 @ d2) c"
    by (simp add: append_recv_def comp_def)
  then show ?thesis using parse_append [of hbp now post "append_recv d1 c" b d2] by auto
qed

text \<open>C3: A client cannot forge an internal event: whatever bytes a connection
  receives, every frame handed to the business layer has an id below 0xFFF0 that
  is not the heartbeat, and a payload that fits the 16-bit length field.\<close>

theorem no_forged_event: "list_all plain_frame (snd (ParseFrames hbp now collect c []))"
proof -
  have hd: "head_of buf = Complete rid p \<Longrightarrow> rid < 0xFFF0 \<and> length p \<le> 65535" for buf rid p
    using unat_u16_less [of "be16 (buf ! 2) (buf ! 3)"]
    by (auto simp: head_of_def Let_def not_le split: if_splits)
  have "list_all plain_frame acc \<Longrightarrow> list_all plain_frame (snd (ParseFrames hbp now collect c acc))" for acc
  proof (induction hbp now "collect" c acc rule: ParseFrames.induct)
    case (1 hbp now c acc)
    show ?case
    proof (cases "head_of (recv_of c)")
      case (Complete rid p)
      let ?c1 = "erase_recv (kFrameHeaderLength + length p) c"
      show ?thesis
      proof (cases "rid = ID_HEARTBEAT_REQUEST")
        case True
        then show ?thesis
          using 1(1) [OF Complete refl True refl] 1(3) Complete
          by (subst ParseFrames.simps) (simp add: Let_def)
      next
        case False
        have "list_all plain_frame (acc @ [(rid, p)])"
          using 1(3) hd [OF Complete] False by simp
        then have "list_all plain_frame (snd (ParseFrames hbp now collect ?c1 (acc @ [(rid, p)])))"
          using 1(2) [OF Complete refl False, of "(True, acc @ [(rid, p)])" True "acc @ [(rid, p)]"]
          by (simp add: collect_def)
        then show ?thesis
          using Complete False by (subst ParseFrames.simps) (simp add: Let_def collect_def)
      qed
    qed (use 1(3) in \<open>subst ParseFrames.simps, simp\<close>)+
  qed
  then show ?thesis by simp
qed

text \<open>A replayed heartbeat gains nothing: on a connection in sequence mode, a
  heartbeat either carries a strictly larger sequence number and moves the
  deadline to now, or leaves the sequence number, the deadline and the queued
  frames unchanged; the connection never leaves sequence mode.\<close>

theorem heartbeat_no_replay:
  assumes "s_hb_sequenced (fst c)" "c' = HandleHeartbeat hbp now p c"
  shows "s_hb_sequenced (fst c') \<and>
    (s_hb_sequence (fst c) < s_hb_sequence (fst c') \<and> s_last_hb (fst c') = now
     \<or> s_hb_sequence (fst c') = s_hb_sequence (fst c) \<and> s_last_hb (fst c') = s_last_hb (fst c)
       \<and> session_frames (fst c') = session_frames (fst c))"
proof -
  let ?c1 = "apfst (hb_count now) c"
  have c1: "s_hb_sequenced (fst ?c1)" "s_hb_sequence (fst ?c1) = s_hb_sequence (fst c)"
    "s_last_hb (fst ?c1) = s_last_hb (fst c)" "session_frames (fst ?c1) = session_frames (fst c)"
    using assms(1) by (cases c; simp)+
  show ?thesis
    using assms c1 heartbeat_body_sequenced [OF c1(1) refl, of _ now]
    by (auto simp: HandleHeartbeat_def Let_def split: option.splits)
qed

theorem heartbeat_no_replay_witness:
  "let c = (Session_new 7 0\<lparr>s_user_id := 3, s_hb_sequenced := True, s_hb_sequence := 5\<rparr>, None);
       c' = HandleHeartbeat (\<lambda>_. Some (JObject [(''seq'', JString ''6'')])) 1000 ''{}'' c
   in s_hb_sequence (fst c') = 6 \<and> s_hb_sequenced (fst c') \<and>
    (s_hb_sequence (fst c) < s_hb_sequence (fst c') \<and> s_last_hb (fst c') = 1000
     \<or> s_hb_sequence (fst c') = s_hb_sequence (fst c) \<and> s_last_hb (fst c') = s_last_hb (fst c)
       \<and> session_frames (fst c') = session_frames (fst c))"
proof -
  define c where "c = (Session_new 7 0\<lparr>s_user_id := 3, s_hb_sequenced := True, s_hb_sequence := 5\<rparr>,
    None :: io_wakeup option)"
  let ?c' = "HandleHeartbeat (\<lambda>_. Some (JObject [(''seq'', JString ''6'')])) 1000 ''{}'' c"
  have "s_hb_sequenced (fst c)" by (simp add: c_def)
  note * = heartbeat_no_replay [OF this refl,
      of "\<lambda>_. Some (JObject [(''seq'', JString ''6'')])" 1000 "''{}''"]
  have "s_hb_sequence (fst ?c') = 6"
    by (simp add: c_def HandleHeartbeat_def heartbeat_body_def heartbeat_number_def from_chars_u64_def
        heartbeat_accept_hb hb_count_def Session_new_def Let_def is_digit_def digits_val_def
        digit_val_def)
  then show ?thesis using * unfolding c_def [symmetric] Let_def by blast
qed

text \<open>The recheck after a long I/O pause extends the deadline at most once: a
  connection past its deadline at time n1, without a new heartbeat, is reported
  expired at n1 or, however often it is polled in between and with whatever
  recheck permission, at every n2 at least three seconds later.\<close>

theorem recheck_extends_once:
  assumes "past_deadline n1 s" "\<not> s_recheck_used s" "n1 + 3000 \<le> n2"
  shows "fst (ConnectionExpired n1 a1 s)
    \<or> fst (ConnectionExpired n2 a2 (poll_all ps (snd (ConnectionExpired n1 a1 s))))"
proof (cases a1)
  case False
  then show ?thesis using assms by (simp add: ConnectionExpired_def past_deadline_def Let_def)
next
  case True
  let ?s1 = "snd (ConnectionExpired n1 a1 s)"
  have s1: "s_recheck_used ?s1" "s_recheck_until ?s1 = n1 + 3000"
    using True assms by (simp_all add: ConnectionExpired_def past_deadline_def Let_def)
  have "past_deadline n2 s" using assms by (auto simp: past_deadline_def split: if_splits)
  then have "past_deadline n2 (poll_all ps ?s1)" using poll_all_keeps [OF s1(1)] by simp
  then show ?thesis
    using poll_all_keeps [OF s1(1), of ps n2] s1(2) assms(3)
    by (auto simp: ConnectionExpired_def past_deadline_def Let_def)
qed

theorem recheck_extends_once_witness:
  "fst (ConnectionExpired 30000 True (Session_new 7 0))
    \<or> fst (ConnectionExpired 33000 True
        (poll_all [(31000, True)] (snd (ConnectionExpired 30000 True (Session_new 7 0)))))"
  by (rule recheck_extends_once) (simp_all add: past_deadline_def Session_new_def)

end
