(* ===== verification/MediaSignal.thy ===== *)
theory MediaSignal
  imports TcpSession
begin

text \<open>
  The control connection of RealtimeServer to MediaServer
  (src/net/MediaSignalClient.cpp): a state machine driven by the I/O loop (Tick,
  HandleEvents, Stop) with two entry points for business threads (Send,
  Invalidate).  The state is the record of the class together with the shared
  IoWakeup.  What the kernel answers is an argument of the step.  The callback is
  logged in mc_log (a ghost field) and its consumer, LogicSystem::PostMediaEvent,
  is the parameter admit: when it cannot take the event, it invalidates the epoch.
\<close>

datatype media_event = EvConnected | EvDisconnected | EvMessage string

record media_client =
  mc_started :: bool
  mc_connected :: bool
  mc_epoch :: u64
  mc_frames :: "string list"
  mc_pending_bytes :: nat
  mc_pending_frames :: nat
  mc_fd_open :: bool
  mc_socket_token :: u64
  mc_active_epoch :: u64
  mc_events :: u32
  mc_connecting :: bool
  mc_retry_ms :: int
  mc_deadline :: int
  mc_socket_path :: string
  mc_epoll_fd :: int
  mc_received :: string
  mc_sending :: string
  mc_sent :: nat
  mc_log :: "(media_event \<times> u64) list"

type_synonym media_state = "media_client \<times> io_wakeup"

definition kWakeToken :: u64 where "kWakeToken = 1"
definition kSocketTokenBit :: u64 where "kSocketTokenBit = push_bit 63 1"
definition kWriteBudget :: nat where "kWriteBudget = 64 * 1024"
definition kHeaderSize :: nat where "kHeaderSize = 4"

definition EPOLLIN :: u32 where "EPOLLIN = 1"
definition EPOLLOUT :: u32 where "EPOLLOUT = 4"
definition EPOLLERR :: u32 where "EPOLLERR = 8"
definition EPOLLHUP :: u32 where "EPOLLHUP = 16"
definition EPOLLRDHUP :: u32 where "EPOLLRDHUP = 0x2000"

definition MediaSignalClient_new :: media_client where
  "MediaSignalClient_new = \<lparr>mc_started = False, mc_connected = False, mc_epoch = 0, mc_frames = [],
     mc_pending_bytes = 0, mc_pending_frames = 0, mc_fd_open = False,
     mc_socket_token = kSocketTokenBit, mc_active_epoch = 0, mc_events = 0, mc_connecting = False,
     mc_retry_ms = 1000, mc_deadline = 0, mc_socket_path = [], mc_epoll_fd = -1, mc_received = [],
     mc_sending = [], mc_sent = 0, mc_log = []\<rparr>"

text \<open>Start; None is the exception it throws.  A socket path must fit the 108
  bytes of sun_path with its terminator.\<close>

definition Media_Start :: "string \<Rightarrow> int \<Rightarrow> int \<Rightarrow> media_client \<Rightarrow> media_client option" where
  "Media_Start path epoll_fd now m =
     (if path = [] \<or> length path \<ge> 108 \<or> epoll_fd < 0 then None
      else if mc_started m then None
      else Some (m\<lparr>mc_socket_path := path, mc_epoll_fd := epoll_fd, mc_started := True,
                   mc_retry_ms := 1000, mc_deadline := now\<rparr>))"

definition IsCurrent :: "u64 \<Rightarrow> media_client \<Rightarrow> bool" where
  "IsCurrent epoch m \<longleftrightarrow> mc_started m \<and> mc_connected m \<and> mc_epoch m = epoch"

definition Invalidate :: "u64 \<Rightarrow> media_state \<Rightarrow> media_state" where
  "Invalidate epoch st = (case st of (m, w) \<Rightarrow>
     if \<not> mc_started m \<or> epoch \<noteq> mc_epoch m then (m, w)
     else (m\<lparr>mc_connected := False\<rparr>, snd (Notify kWakeToken w)))"

definition uds_frame :: "string \<Rightarrow> string" where
  "uds_frame msg = be32_bytes (of_nat (length msg)) @ msg"

definition media_enqueue :: "string \<Rightarrow> media_client \<Rightarrow> media_client" where
  "media_enqueue frame m = m\<lparr>mc_pending_bytes := mc_pending_bytes m + length frame,
     mc_pending_frames := mc_pending_frames m + 1, mc_frames := mc_frames m @ [frame]\<rparr>"

definition Media_Send :: "u64 \<Rightarrow> string \<Rightarrow> media_state \<Rightarrow> bool \<times> media_state" where
  "Media_Send epoch msg st = (case st of (m, w) \<Rightarrow>
     if \<not> mc_started m \<or> \<not> mc_connected m \<or> epoch \<noteq> mc_epoch m then (False, m, w)
     else if length msg > kMaxPendingBytes - kHeaderSize
          \<or> length msg + kHeaderSize > size_sub kMaxPendingBytes (mc_pending_bytes m)
          \<or> mc_pending_frames m \<ge> kMaxPendingFrames
     then (False, m\<lparr>mc_connected := False\<rparr>, snd (Notify kWakeToken w))
     else let m1 = media_enqueue (uds_frame msg) m; (ok, w1) = Notify kWakeToken w
          in if ok then (True, m1, w1) else (False, m1\<lparr>mc_connected := False\<rparr>, w1))"

text \<open>The callback: the event is logged; a refused event invalidates its epoch.\<close>

definition fire :: "(media_event \<times> u64 \<Rightarrow> bool) \<Rightarrow> media_event \<Rightarrow> u64 \<Rightarrow> media_state \<Rightarrow> media_state" where
  "fire admit ev epoch st =
     (let st1 = apfst (\<lambda>m. m\<lparr>mc_log := mc_log m @ [(ev, epoch)]\<rparr>) st
      in if admit (ev, epoch) then st1 else Invalidate epoch st1)"

definition Media_Connected :: "(media_event \<times> u64 \<Rightarrow> bool) \<Rightarrow> media_state \<Rightarrow> media_state" where
  "Media_Connected admit st = (case st of (m, w) \<Rightarrow>
     let e = mc_epoch m + 1 in
     fire admit EvConnected e
       (m\<lparr>mc_connecting := False, mc_retry_ms := 1000, mc_epoch := e, mc_active_epoch := e,
          mc_connected := True\<rparr>, w))"

definition media_reset :: "int \<Rightarrow> media_client \<Rightarrow> media_client" where
  "media_reset now m = m\<lparr>mc_connected := False, mc_frames := [], mc_pending_bytes := 0,
     mc_pending_frames := 0, mc_fd_open := False, mc_active_epoch := 0, mc_connecting := False,
     mc_events := 0, mc_received := [], mc_sending := [], mc_sent := 0,
     mc_deadline := now + mc_retry_ms m\<rparr>"

definition Disconnect :: "(media_event \<times> u64 \<Rightarrow> bool) \<Rightarrow> int \<Rightarrow> media_state \<Rightarrow> media_state" where
  "Disconnect admit now st = (case st of (m, w) \<Rightarrow>
     let epoch = mc_active_epoch m; m1 = media_reset now m in
     if epoch = 0 then (m1\<lparr>mc_retry_ms := min (mc_retry_ms m1 * 2) 10000\<rparr>, w)
     else fire admit EvDisconnected epoch (m1, w))"

datatype connect_result = NoSocket | ConnFailed | ConnInProgress | ConnDone

text \<open>Connect; None is the exception for a failing epoll_ctl.\<close>

definition Connect :: "(media_event \<times> u64 \<Rightarrow> bool) \<Rightarrow> int \<Rightarrow> connect_result \<Rightarrow> bool
    \<Rightarrow> media_state \<Rightarrow> media_state option" where
  "Connect admit now res epoll_ok st =
     (if res = NoSocket then Some (Disconnect admit now st)
      else let st1 = apfst (\<lambda>m. m\<lparr>mc_fd_open := True, mc_socket_token := mc_socket_token m + 1\<rparr>) st in
        if res = ConnFailed then Some (Disconnect admit now st1)
        else let connecting = (res = ConnInProgress);
                 st2 = apfst (\<lambda>m. m\<lparr>mc_connecting := connecting, mc_deadline := now + 1000\<rparr>) st1
             in if \<not> epoll_ok then None
                else let st3 = apfst (\<lambda>m. m\<lparr>mc_events := EPOLLIN OR EPOLLRDHUP OR
                                 (if connecting then EPOLLOUT else 0)\<rparr>) st2
                     in Some (if connecting then st3 else Media_Connected admit st3))"

definition UpdateInterest :: "bool \<Rightarrow> media_state \<Rightarrow> media_state option" where
  "UpdateInterest epoll_ok st = (case st of (m, w) \<Rightarrow>
     if \<not> mc_fd_open m then Some (m, w)
     else let events = EPOLLIN OR EPOLLRDHUP OR
                (if mc_connecting m \<or> mc_pending_frames m \<noteq> 0 then EPOLLOUT else 0)
          in if events = mc_events m then Some (m, w)
             else if epoll_ok then Some (m\<lparr>mc_events := events\<rparr>, w) else None)"

text \<open>The first part of Tick: a connection that is no longer current, or a connect
  that timed out, is dropped.\<close>

definition tick_drop :: "(media_event \<times> u64 \<Rightarrow> bool) \<Rightarrow> int \<Rightarrow> media_state \<Rightarrow> media_state" where
  "tick_drop admit now st =
     (if mc_active_epoch (fst st) \<noteq> 0 \<and> \<not> IsCurrent (mc_active_epoch (fst st)) (fst st)
         \<or> mc_connecting (fst st) \<and> now \<ge> mc_deadline (fst st)
      then Disconnect admit now st else st)"

definition Tick :: "(media_event \<times> u64 \<Rightarrow> bool) \<Rightarrow> int \<Rightarrow> connect_result \<Rightarrow> bool
    \<Rightarrow> media_state \<Rightarrow> media_state option" where
  "Tick admit now res epoll_ok st =
     (if \<not> mc_started (fst st) then Some st
      else let st1 = tick_drop admit now st in
        case (if \<not> mc_fd_open (fst st1) \<and> now \<ge> mc_deadline (fst st1)
              then Connect admit now res epoll_ok st1 else Some st1) of
          None \<Rightarrow> None
        | Some st2 \<Rightarrow> UpdateInterest epoll_ok st2)"

definition NextTimeoutMs :: "int \<Rightarrow> media_client \<Rightarrow> int" where
  "NextTimeoutMs now m =
     (if mc_fd_open m \<and> \<not> mc_connecting m then -1 else max 0 (mc_deadline m - now))"

section \<open>HandleEvents\<close>

text \<open>The head of the receive buffer: an oversized length, an incomplete frame,
  or a complete message.\<close>

datatype uds_head = Oversized | UdsIncomplete | UdsComplete string

definition uds_head_of :: "string \<Rightarrow> uds_head" where
  "uds_head_of buf =
     (if length buf < kHeaderSize then UdsIncomplete
      else let n = unat (be32 (buf ! 0) (buf ! 1) (buf ! 2) (buf ! 3)) in
        if n > kMaxPendingBytes - kHeaderSize then Oversized
        else if length buf < kHeaderSize + n then UdsIncomplete
        else UdsComplete (take n (drop kHeaderSize buf)))"

lemma uds_head_of_complete:
  "uds_head_of buf = UdsComplete p \<Longrightarrow> kHeaderSize + length p \<le> length buf \<and> 0 < length buf"
  by (auto simp: uds_head_of_def Let_def kHeaderSize_def split: if_splits)

lemma fire_received [simp]: "mc_received (fst (fire admit ev e st)) = mc_received (fst st)"
  by (cases st) (simp add: fire_def Invalidate_def Let_def)

text \<open>Handing complete messages to the callback; the flag is False on an oversized
  length.\<close>

function deliver :: "(media_event \<times> u64 \<Rightarrow> bool) \<Rightarrow> media_state \<Rightarrow> bool \<times> media_state" where
  "deliver admit st =
     (case uds_head_of (mc_received (fst st)) of
        Oversized \<Rightarrow> (False, st)
      | UdsIncomplete \<Rightarrow> (True, st)
      | UdsComplete msg \<Rightarrow>
          deliver admit
            (apfst (\<lambda>m. m\<lparr>mc_received := drop (kHeaderSize + length msg) (mc_received m)\<rparr>)
              (fire admit (EvMessage msg) (mc_active_epoch (fst st)) st)))"
  by pat_completeness auto

termination
  by (relation "measure (\<lambda>(_, st). length (mc_received (fst st)))")
    (auto dest!: uds_head_of_complete simp: kHeaderSize_def)

declare deliver.simps [simp del]

datatype uds_recv = UdsData string | UdsRetry | UdsGone

text \<open>The readable part: the flag is False when the connection has to be dropped.\<close>

definition handle_in :: "(media_event \<times> u64 \<Rightarrow> bool) \<Rightarrow> uds_recv \<Rightarrow> media_state
    \<Rightarrow> bool \<times> media_state" where
  "handle_in admit r st =
     (case r of
        UdsGone \<Rightarrow> (False, st)
      | UdsRetry \<Rightarrow> deliver admit st
      | UdsData d \<Rightarrow> if d = [] then (False, st)
          else deliver admit (apfst (\<lambda>m. m\<lparr>mc_received := mc_received m @ d\<rparr>) st))"

text \<open>The writable part: at most one send per event, of the frame in progress.\<close>

definition take_frame :: "media_client \<Rightarrow> media_client" where
  "take_frame m =
     (if mc_sending m = [] \<and> mc_frames m \<noteq> []
      then m\<lparr>mc_sending := hd (mc_frames m), mc_frames := tl (mc_frames m), mc_sent := 0\<rparr> else m)"

definition frame_done :: "media_client \<Rightarrow> media_client" where
  "frame_done m =
     (if mc_sent m = length (mc_sending m)
      then m\<lparr>mc_pending_bytes := size_sub (mc_pending_bytes m) (length (mc_sending m)),
             mc_pending_frames := size_sub (mc_pending_frames m) 1, mc_sending := []\<rparr>
      else m)"

definition handle_out :: "send_result \<Rightarrow> media_client \<Rightarrow> bool \<times> string \<times> media_client" where
  "handle_out r m0 =
     (let m = take_frame m0 in
      if mc_sending m = [] then (True, [], m)
      else case r of
        SendFail \<Rightarrow> (False, [], m)
      | SendIntr \<Rightarrow> (True, [], frame_done m)
      | SendAgain \<Rightarrow> (True, [], frame_done m)
      | Sent k \<Rightarrow>
          (let out = take k (take kWriteBudget (drop (mc_sent m) (mc_sending m))) in
           if out = [] then (False, [], m)
           else (True, out, frame_done (m\<lparr>mc_sent := mc_sent m + length out\<rparr>))))"

text \<open>What the kernel answers during one HandleEvents: getsockopt reports a
  finished connect, recv, send, and epoll_ctl.\<close>

record uds_kernel =
  k_connected :: bool
  k_recv :: uds_recv
  k_send :: send_result
  k_epoll_ok :: bool

definition HandleEvents :: "(media_event \<times> u64 \<Rightarrow> bool) \<Rightarrow> int \<Rightarrow> uds_kernel \<Rightarrow> u64 \<Rightarrow> u32
    \<Rightarrow> media_state \<Rightarrow> (string \<times> media_state) option" where
  "HandleEvents admit now k token events st =
     (if \<not> mc_fd_open (fst st) \<or> token \<noteq> mc_socket_token (fst st) then Some ([], st)
      else if mc_connecting (fst st) \<and> (events AND EPOLLOUT = 0 \<or> \<not> k_connected k)
      then Some ([], Disconnect admit now st)
      else let st1 = (if mc_connecting (fst st) then Media_Connected admit st else st) in
        if \<not> IsCurrent (mc_active_epoch (fst st1)) (fst st1)
           \<or> events AND (EPOLLERR OR EPOLLHUP OR EPOLLRDHUP) \<noteq> 0
        then Some ([], Disconnect admit now st1)
        else let (ok, st2) = (if events AND EPOLLIN \<noteq> 0 then handle_in admit (k_recv k) st1
                              else (True, st1)) in
          if \<not> ok then Some ([], Disconnect admit now st2)
          else let (ok2, out, m3) = (if events AND EPOLLOUT \<noteq> 0 then handle_out (k_send k) (fst st2)
                                     else (True, [], fst st2)) in
            if \<not> ok2 then Some ([], Disconnect admit now (m3, snd st2))
            else map_option (Pair out) (UpdateInterest (k_epoll_ok k) (m3, snd st2)))"

definition Media_Stop :: "(media_event \<times> u64 \<Rightarrow> bool) \<Rightarrow> int \<Rightarrow> media_state \<Rightarrow> media_state" where
  "Media_Stop admit now st =
     (if \<not> mc_started (fst st) then st
      else apfst (\<lambda>m. m\<lparr>mc_epoll_fd := -1\<rparr>)
             (Disconnect admit now (apfst (\<lambda>m. m\<lparr>mc_started := False, mc_connected := False\<rparr>) st)))"

section \<open>The queue contract\<close>

definition media_frames :: "media_client \<Rightarrow> string list" where
  "media_frames m = (if mc_sending m = [] then [] else [mc_sending m]) @ mc_frames m"

definition media_ok :: "media_client \<Rightarrow> bool" where
  "media_ok m \<longleftrightarrow>
     mc_pending_frames m = length (media_frames m)
   \<and> mc_pending_bytes m = sum_list (map length (media_frames m))
   \<and> mc_pending_frames m \<le> kMaxPendingFrames \<and> mc_pending_bytes m \<le> kMaxPendingBytes
   \<and> (mc_sending m = [] \<or> mc_sent m < length (mc_sending m))
   \<and> list_all (\<lambda>f. f \<noteq> []) (mc_frames m)"

lemma uds_frame_length [simp]: "length (uds_frame msg) = kHeaderSize + length msg"
  by (simp add: uds_frame_def kHeaderSize_def)

lemma media_ok_cong:
  "media_ok m \<Longrightarrow> mc_frames m' = mc_frames m \<Longrightarrow> mc_sending m' = mc_sending m \<Longrightarrow>
   mc_pending_bytes m' = mc_pending_bytes m \<Longrightarrow> mc_pending_frames m' = mc_pending_frames m \<Longrightarrow>
   mc_sent m' = mc_sent m \<Longrightarrow> media_ok m'"
  by (simp add: media_ok_def media_frames_def)

lemma media_enqueue_ok:
  assumes "media_ok m" "length f \<le> kMaxPendingBytes - mc_pending_bytes m"
    "mc_pending_frames m < kMaxPendingFrames" "f \<noteq> []"
  shows "media_ok (media_enqueue f m)"
  using assms by (auto simp: media_ok_def media_enqueue_def media_frames_def)

lemma Media_Send_result:
  assumes "media_ok m" "Media_Send epoch msg (m, w) = (b, m', w')"
  shows "media_ok m' \<and>
    (if b then IsCurrent epoch m \<and> m' = media_enqueue (uds_frame msg) m
     else m' = m \<or> IsCurrent epoch m \<and> \<not> mc_connected m')"
proof -
  have sub: "size_sub kMaxPendingBytes (mc_pending_bytes m) = kMaxPendingBytes - mc_pending_bytes m"
    using assms(1) by (intro size_sub_le) (auto simp: media_ok_def kMaxPendingBytes_def)
  have "length (uds_frame msg) \<noteq> 0" by (simp add: kHeaderSize_def)
  then have ne: "uds_frame msg \<noteq> []" by (metis list.size(3))
  have conn: "media_ok x \<Longrightarrow> media_ok (x\<lparr>mc_connected := False\<rparr>)" for x
    by (erule media_ok_cong) simp_all
  obtain ok w1 where n: "Notify kWakeToken w = (ok, w1)" by (cases "Notify kWakeToken w")
  consider "\<not> IsCurrent epoch m" | "IsCurrent epoch m" "length msg > kMaxPendingBytes - kHeaderSize
      \<or> length msg + kHeaderSize > kMaxPendingBytes - mc_pending_bytes m
      \<or> mc_pending_frames m \<ge> kMaxPendingFrames"
    | "IsCurrent epoch m" "length msg \<le> kMaxPendingBytes - kHeaderSize"
      "length msg + kHeaderSize \<le> kMaxPendingBytes - mc_pending_bytes m"
      "mc_pending_frames m < kMaxPendingFrames"
    by linarith
  then show ?thesis
  proof cases
    case 1
    then have "m' = m" "\<not> b" using assms(2) by (auto simp: Media_Send_def IsCurrent_def)
    then show ?thesis using assms(1) by simp
  next
    case 2
    then have "m' = m\<lparr>mc_connected := False\<rparr>" "\<not> b"
      using assms(2) by (auto simp: Media_Send_def IsCurrent_def sub)
    then show ?thesis using 2 conn assms(1) by simp
  next
    case 3
    then have ok: "media_ok (media_enqueue (uds_frame msg) m)"
      using assms(1) ne by (intro media_enqueue_ok) simp_all
    have "(b, m') = (if ok then (True, media_enqueue (uds_frame msg) m)
        else (False, (media_enqueue (uds_frame msg) m)\<lparr>mc_connected := False\<rparr>))"
      using 3 assms(2) n by (auto simp: Media_Send_def IsCurrent_def sub Let_def split: if_splits)
    then show ?thesis using 3 conn [OF ok] ok by (auto split: if_splits)
  qed
qed

definition media_dead :: "media_client \<Rightarrow> bool" where
  "media_dead m \<longleftrightarrow> \<not> mc_started m \<or> \<not> mc_connected m"

interpretation uds: outbox "\<lambda>st :: media_state. media_ok (fst st)" "\<lambda>st. media_dead (fst st)"
  "\<lambda>st. media_frames (fst st)" "\<lambda>(epoch, msg). uds_frame msg" "\<lambda>(epoch, msg). Media_Send epoch msg"
proof unfold_locales
  fix st st' :: media_state and em :: "u64 \<times> string"
  obtain epoch msg m w m' w' where [simp]: "em = (epoch, msg)" "st = (m, w)" "st' = (m', w')"
    by (metis surj_pair)
  assume ok: "media_ok (fst st)"
  {
    assume "(case em of (epoch, msg) \<Rightarrow> Media_Send epoch msg) st = (True, st')"
    then show "media_ok (fst st') \<and> \<not> media_dead (fst st) \<and> \<not> media_dead (fst st') \<and>
       media_frames (fst st') = media_frames (fst st) @ [case em of (epoch, msg) \<Rightarrow> uds_frame msg]"
      using Media_Send_result [of m epoch msg w True m' w'] ok
      by (auto simp: media_dead_def IsCurrent_def media_enqueue_def media_frames_def)
  next
    assume "(case em of (epoch, msg) \<Rightarrow> Media_Send epoch msg) st = (False, st')"
    then show "media_ok (fst st') \<and> (media_dead (fst st') \<or> \<not> media_dead (fst st) \<and>
       media_frames (fst st') = media_frames (fst st))"
      using Media_Send_result [of m epoch msg w False m' w'] ok
      by (auto simp: media_dead_def)
  }
next
  fix st :: media_state
  assume "media_ok (fst st)"
  then show "length (media_frames (fst st)) \<le> 1024 \<and>
     sum_list (map length (media_frames (fst st))) \<le> 4 * 1024 * 1024"
    by (auto simp: media_ok_def kMaxPendingBytes_def kMaxPendingFrames_def)
qed

lemma handle_out_ok:
  assumes "media_ok m" "handle_out r m = (b, out, m')"
  shows "media_ok m'"
proof -
  have take: "media_ok (take_frame m)"
    using assms(1) by (cases "mc_frames m") (auto simp: take_frame_def media_ok_def media_frames_def)
  have fin: "media_ok (frame_done (n\<lparr>mc_sent := mc_sent n + k\<rparr>))"
    if n: "media_ok n" "mc_sending n \<noteq> []" "mc_sent n + k \<le> length (mc_sending n)" for n k
  proof -
    have "size_sub (mc_pending_bytes n) (length (mc_sending n)) = mc_pending_bytes n - length (mc_sending n)"
      "size_sub (mc_pending_frames n) 1 = mc_pending_frames n - 1"
      using n by (auto simp: media_ok_def media_frames_def kMaxPendingBytes_def kMaxPendingFrames_def)
    then show ?thesis using n by (auto simp: frame_done_def media_ok_def media_frames_def)
  qed
  have fin0: "media_ok (frame_done n)" if "media_ok n" "mc_sending n \<noteq> []" for n
    using fin [of n 0] that by (simp add: media_ok_def)
  let ?m = "take_frame m"
  show ?thesis
  proof (cases "mc_sending ?m = []")
    case True
    then show ?thesis using assms(2) take by (auto simp: handle_out_def)
  next
    case ne: False
    show ?thesis
    proof (cases r)
      case (Sent k)
      let ?out = "take k (take kWriteBudget (drop (mc_sent ?m) (mc_sending ?m)))"
      have "m' = (if ?out = [] then ?m else frame_done (?m\<lparr>mc_sent := mc_sent ?m + length ?out\<rparr>))"
        using assms(2) ne Sent by (auto simp: handle_out_def Let_def split: if_splits)
      moreover have "mc_sent ?m + length ?out \<le> length (mc_sending ?m)"
        using take ne by (auto simp: media_ok_def min_def)
      ultimately show ?thesis using fin [OF take ne] take by (simp split: if_splits)
    qed (use assms(2) ne take fin0 [OF take ne] in \<open>auto simp: handle_out_def Let_def\<close>)
  qed
qed

section \<open>Epochs\<close>

text \<open>What a well-behaved event log looks like: Connected opens the next epoch,
  messages and Disconnected carry the open epoch.  The state is the last epoch
  and whether it is open.\<close>

fun epoch_step :: "media_event \<times> u64 \<Rightarrow> u64 \<times> bool \<Rightarrow> (u64 \<times> bool) option" where
  "epoch_step (EvConnected, e) (cur, live) = (if \<not> live \<and> e = cur + 1 then Some (e, True) else None)"
| "epoch_step (EvDisconnected, e) (cur, live) = (if live \<and> e = cur then Some (cur, False) else None)"
| "epoch_step (EvMessage _, e) (cur, live) = (if live \<and> e = cur then Some (cur, True) else None)"

fun epoch_run :: "(media_event \<times> u64) list \<Rightarrow> u64 \<times> bool \<Rightarrow> (u64 \<times> bool) option" where
  "epoch_run [] s = Some s"
| "epoch_run (ev # evs) s = (case epoch_step ev s of None \<Rightarrow> None | Some s' \<Rightarrow> epoch_run evs s')"

lemma epoch_run_append:
  "epoch_run (a @ b) s = (case epoch_run a s of None \<Rightarrow> None | Some s' \<Rightarrow> epoch_run b s')"
  by (induction a arbitrary: s) (auto split: option.split)

definition media_inv :: "nat \<Rightarrow> media_client \<Rightarrow> bool" where
  "media_inv n m \<longleftrightarrow> media_ok m
   \<and> epoch_run (mc_log m) (0, False) = Some (mc_epoch m, mc_active_epoch m \<noteq> 0)
   \<and> unat (mc_epoch m) \<le> n
   \<and> (mc_active_epoch m = 0 \<or> mc_active_epoch m = mc_epoch m \<and> mc_fd_open m \<and> \<not> mc_connecting m)
   \<and> (mc_active_epoch m \<noteq> 0 \<or> \<not> mc_connected m \<and> media_frames m = [] \<and> mc_received m = []
        \<and> (\<not> mc_fd_open m \<or> mc_connecting m))
   \<and> (mc_connecting m \<longrightarrow> mc_fd_open m)
   \<and> 1000 \<le> mc_retry_ms m \<and> mc_retry_ms m \<le> 10000"

lemma media_inv_mono: "media_inv n m \<Longrightarrow> n \<le> k \<Longrightarrow> media_inv k m"
  by (simp add: media_inv_def)

lemma Invalidate_inv: "media_inv n (fst st) \<Longrightarrow> media_inv n (fst (Invalidate e st))"
  by (cases st) (auto simp: Invalidate_def media_inv_def media_frames_def intro: media_ok_cong)

lemma fire_inv:
  assumes "media_inv n ((fst st)\<lparr>mc_log := mc_log (fst st) @ [(ev, e)]\<rparr>)"
  shows "media_inv n (fst (fire admit ev e st))"
  using assms Invalidate_inv [of n "apfst (\<lambda>m. m\<lparr>mc_log := mc_log m @ [(ev, e)]\<rparr>) st" e]
  by (simp add: fire_def Let_def)

lemma fire_message_inv:
  assumes "media_inv n (fst st)" "mc_active_epoch (fst st) \<noteq> 0"
  shows "media_inv n (fst (fire admit (EvMessage msg) (mc_active_epoch (fst st)) st))"
  using assms
  by (intro fire_inv)
     (auto simp: media_inv_def epoch_run_append media_frames_def elim: media_ok_cong)

lemma Media_Connected_inv:
  assumes "media_inv n (fst st)" "mc_active_epoch (fst st) = 0" "mc_fd_open (fst st)"
    "Suc n < 2 ^ 64"
  shows "media_inv (Suc n) (fst (Media_Connected admit st))"
proof -
  obtain m w where st: "st = (m, w)" by (cases st)
  let ?e = "mc_epoch m + 1"
  have u: "unat ?e = Suc (unat (mc_epoch m))"
    using assms(1,4) st by (subst unat_word_ariths) (simp add: media_inv_def)
  have "?e \<noteq> 0" using u by (metis Zero_not_Suc unat_0)
  then have "media_inv (Suc n) (m\<lparr>mc_connecting := False, mc_retry_ms := 1000, mc_epoch := ?e,
      mc_active_epoch := ?e, mc_connected := True, mc_log := mc_log m @ [(EvConnected, ?e)]\<rparr>)"
    using assms st u
    by (auto simp: media_inv_def epoch_run_append media_frames_def intro: media_ok_cong)
  then show ?thesis unfolding st Media_Connected_def prod.case Let_def
    by (intro fire_inv) simp
qed

lemma media_reset_ok: "media_ok (media_reset now m)" "media_frames (media_reset now m) = []"
  by (simp_all add: media_reset_def media_ok_def media_frames_def)

lemma Disconnect_inv:
  assumes "media_inv n (fst st)"
  shows "media_inv n (fst (Disconnect admit now st))"
    "mc_active_epoch (fst (Disconnect admit now st)) = 0"
proof -
  obtain m w where st: "st = (m, w)" by (cases st)
  let ?m = "media_reset now m"
  have fields: "mc_active_epoch ?m = 0" "mc_epoch ?m = mc_epoch m" "mc_log ?m = mc_log m"
    "\<not> mc_connected ?m" "mc_received ?m = []" "\<not> mc_fd_open ?m" "\<not> mc_connecting ?m"
    "mc_retry_ms ?m = mc_retry_ms m"
    by (simp_all add: media_reset_def)
  have ok: "media_ok (?m\<lparr>mc_retry_ms := r\<rparr>)" "media_ok (?m\<lparr>mc_log := l\<rparr>)" for r l
    by (simp_all add: media_reset_def media_ok_def media_frames_def)
  have fr: "media_frames (?m\<lparr>mc_retry_ms := r\<rparr>) = []" "media_frames (?m\<lparr>mc_log := l\<rparr>) = []" for r l
    by (simp_all add: media_reset_def media_frames_def)
  have a: "media_inv n (?m\<lparr>mc_retry_ms := min (mc_retry_ms m * 2) 10000\<rparr>)" if "mc_active_epoch m = 0"
    using assms st that by (auto simp: media_inv_def fields ok fr)
  have b: "media_inv n (?m\<lparr>mc_log := mc_log m @ [(EvDisconnected, mc_active_epoch m)]\<rparr>)"
    if "mc_active_epoch m \<noteq> 0"
    using assms st that by (auto simp: media_inv_def fields ok fr epoch_run_append)
  show "media_inv n (fst (Disconnect admit now st))"
    using a b fields fire_inv [of n "(?m, w)" EvDisconnected "mc_active_epoch m" admit]
    by (simp add: st Disconnect_def Let_def)
  show "mc_active_epoch (fst (Disconnect admit now st)) = 0"
    by (simp add: st Disconnect_def Let_def fire_def Invalidate_def fields)
qed

lemma UpdateInterest_inv:
  "media_inv n (fst st) \<Longrightarrow> UpdateInterest ok st = Some st' \<Longrightarrow> media_inv n (fst st')"
  by (cases st) (auto simp: UpdateInterest_def media_inv_def media_frames_def Let_def
      split: if_splits intro: media_ok_cong)

lemma Connect_inv:
  assumes "media_inv n (fst st)" "mc_active_epoch (fst st) = 0" "Suc n < 2 ^ 64"
    "Connect admit now res ok st = Some st'"
  shows "media_inv (Suc n) (fst st')"
proof -
  obtain m w where st: "st = (m, w)" by (cases st)
  have up: "media_inv n (m\<lparr>mc_fd_open := True, mc_socket_token := mc_socket_token m + 1,
      mc_connecting := True, mc_deadline := d, mc_events := e\<rparr>)" for d e
    using assms(1,2) st by (auto simp: media_inv_def media_frames_def split: if_splits intro: media_ok_cong)
  let ?o = "m\<lparr>mc_fd_open := True, mc_socket_token := mc_socket_token m + 1\<rparr>"
  show ?thesis
  proof (cases res)
    case NoSocket
    then have "st' = Disconnect admit now st" using assms(4) by (simp add: Connect_def)
    then show ?thesis using media_inv_mono [OF Disconnect_inv(1) [OF assms(1)], of "Suc n"] by simp
  next
    case ConnFailed
    have "media_inv n (fst (Disconnect admit now (?o, w)))"
    proof -
      have eq: "Disconnect admit now (?o, w) = (let d = Disconnect admit now (m, w) in
          ((fst d)\<lparr>mc_socket_token := mc_socket_token m + 1\<rparr>, snd d))"
        using assms(2) st by (simp add: Disconnect_def media_reset_def Let_def)
      show ?thesis
        using Disconnect_inv(1) [of n "(m, w)" admit now] assms(1) st unfolding eq Let_def
        by (auto simp: media_inv_def media_frames_def split: if_splits intro: media_ok_cong)
    qed
    moreover have "st' = Disconnect admit now (?o, w)"
      using assms(4) ConnFailed st by (simp add: Connect_def)
    ultimately show ?thesis using media_inv_mono [of n _ "Suc n"] by simp
  next
    case ConnInProgress
    then show ?thesis
      using assms(4) st media_inv_mono [OF up, of "Suc n"] by (auto simp: Connect_def Let_def split: if_splits)
  next
    case ConnDone
    let ?c = "?o\<lparr>mc_connecting := False, mc_deadline := now + 1000, mc_events := EPOLLIN OR EPOLLRDHUP OR 0\<rparr>"
    let ?u = "?o\<lparr>mc_connecting := True, mc_deadline := now + 1000, mc_events := EPOLLIN OR EPOLLRDHUP OR 0\<rparr>"
    have "st' = Media_Connected admit (?c, w)"
      using assms(4) st ConnDone by (auto simp: Connect_def Let_def split: if_splits)
    also have "\<dots> = Media_Connected admit (?u, w)" by (simp add: Media_Connected_def)
    finally show ?thesis
      using Media_Connected_inv [of n "(?u, w)" admit] up assms st by simp
  qed
qed

lemma Tick_inv:
  assumes "media_inv n (fst st)" "Suc n < 2 ^ 64" "Tick admit now res ok st = Some st'"
  shows "media_inv (Suc n) (fst st')"
proof (cases "mc_started (fst st)")
  case False
  then show ?thesis using assms media_inv_mono by (auto simp: Tick_def)
next
  case True
  let ?st1 = "tick_drop admit now st"
  have i1: "media_inv n (fst ?st1)" using assms(1) Disconnect_inv by (simp add: tick_drop_def)
  obtain st2 where c: "(if \<not> mc_fd_open (fst ?st1) \<and> now \<ge> mc_deadline (fst ?st1)
      then Connect admit now res ok ?st1 else Some ?st1) = Some st2" and u: "UpdateInterest ok st2 = Some st'"
    using assms(3) True unfolding Tick_def Let_def by (simp split: option.splits del: not_le)
  have "media_inv (Suc n) (fst st2)"
  proof (cases "\<not> mc_fd_open (fst ?st1) \<and> now \<ge> mc_deadline (fst ?st1)")
    case True
    then have "mc_active_epoch (fst ?st1) = 0" using i1 by (auto simp: media_inv_def)
    then show ?thesis using Connect_inv [OF i1 _ assms(2)] c True by simp
  next
    case False
    then show ?thesis using c i1 media_inv_mono by auto
  qed
  then show ?thesis using UpdateInterest_inv u by blast
qed

lemma fire_active [simp]: "mc_active_epoch (fst (fire admit ev e st)) = mc_active_epoch (fst st)"
  by (cases st) (simp add: fire_def Invalidate_def Let_def)

lemma set_received_inv:
  "media_inv n m \<Longrightarrow> mc_active_epoch m \<noteq> 0 \<Longrightarrow> media_inv n (m\<lparr>mc_received := r\<rparr>)"
  by (auto simp: media_inv_def media_frames_def intro: media_ok_cong)

lemma deliver_inv:
  "media_inv n (fst st) \<Longrightarrow> mc_active_epoch (fst st) \<noteq> 0 \<Longrightarrow>
   media_inv n (fst (snd (deliver admit st)))
   \<and> mc_active_epoch (fst (snd (deliver admit st))) = mc_active_epoch (fst st)"
proof (induction admit st rule: deliver.induct)
  case (1 admit st)
  show ?case
  proof (cases "uds_head_of (mc_received (fst st))")
    case (UdsComplete msg)
    let ?f = "fire admit (EvMessage msg) (mc_active_epoch (fst st)) st"
    let ?n = "apfst (\<lambda>m. m\<lparr>mc_received := drop (kHeaderSize + length msg) (mc_received m)\<rparr>) ?f"
    have "media_inv n (fst ?f)" using fire_message_inv 1(2,3) by blast
    then have "media_inv n (fst ?n)" using set_received_inv 1(3) by simp
    moreover have "mc_active_epoch (fst ?n) = mc_active_epoch (fst st)" by simp
    ultimately have "media_inv n (fst (snd (deliver admit ?n)))
        \<and> mc_active_epoch (fst (snd (deliver admit ?n))) = mc_active_epoch (fst st)"
      using 1(1) [OF UdsComplete] 1(3) by simp
    then show ?thesis using UdsComplete by (subst (1 2) deliver.simps) simp
  qed (use 1(2) in \<open>subst (1 2) deliver.simps, simp\<close>)+
qed

lemma handle_in_inv:
  assumes "media_inv n (fst st)" "mc_active_epoch (fst st) \<noteq> 0"
  shows "media_inv n (fst (snd (handle_in admit r st)))
    \<and> mc_active_epoch (fst (snd (handle_in admit r st))) = mc_active_epoch (fst st)"
proof -
  have "media_inv n (fst (apfst (\<lambda>m. m\<lparr>mc_received := mc_received m @ d\<rparr>) st))" for d
    using assms set_received_inv by simp
  then show ?thesis
    using deliver_inv [of n _ admit] assms by (auto simp: handle_in_def split: uds_recv.split)
qed

lemma handle_out_inv:
  assumes "media_inv n m" "mc_active_epoch m \<noteq> 0" "handle_out r m = (b, out, m')"
  shows "media_inv n m'"
proof -
  have "mc_log m' = mc_log m \<and> mc_epoch m' = mc_epoch m \<and> mc_active_epoch m' = mc_active_epoch m
    \<and> mc_fd_open m' = mc_fd_open m \<and> mc_connecting m' = mc_connecting m \<and> mc_retry_ms m' = mc_retry_ms m"
    using assms(3)
    by (auto simp: handle_out_def take_frame_def frame_done_def Let_def split: send_result.splits if_splits)
  moreover have "media_ok m'" using handle_out_ok assms by (auto simp: media_inv_def)
  ultimately show ?thesis using assms by (auto simp: media_inv_def)
qed

lemma HandleEvents_inv:
  assumes inv: "media_inv n (fst st)" and n: "Suc n < 2 ^ 64"
    and h: "HandleEvents admit now k token events st = Some (out, st')"
  shows "media_inv (Suc n) (fst st')"
proof -
  have up: "media_inv n m \<Longrightarrow> media_inv (Suc n) m" for m by (erule media_inv_mono) simp
  have drop: "media_inv (Suc n) (fst x) \<Longrightarrow> media_inv (Suc n) (fst (Disconnect admit now x))" for x
    by (rule Disconnect_inv)
  let ?skip = "\<not> mc_fd_open (fst st) \<or> token \<noteq> mc_socket_token (fst st)"
  let ?bad = "mc_connecting (fst st) \<and> (events AND EPOLLOUT = 0 \<or> \<not> k_connected k)"
  define st1 where "st1 = (if mc_connecting (fst st) then Media_Connected admit st else st)"
  let ?gone = "\<not> IsCurrent (mc_active_epoch (fst st1)) (fst st1)
           \<or> events AND (EPOLLERR OR EPOLLHUP OR EPOLLRDHUP) \<noteq> 0"
  define i where "i = (if events AND EPOLLIN \<noteq> 0 then handle_in admit (k_recv k) st1 else (True, st1))"
  define q where "q = (if events AND EPOLLOUT \<noteq> 0 then handle_out (k_send k) (fst (snd i))
                       else (True, [], fst (snd i)))"
  note eq = h [unfolded HandleEvents_def Let_def st1_def [symmetric]]
  consider "?skip" | "\<not> ?skip" "?bad" | "\<not> ?skip" "\<not> ?bad" by blast
  then show ?thesis
  proof cases
    case 1
    then have "st' = st" using eq by simp
    then show ?thesis using up inv by simp
  next
    case 2
    then have "st' = Disconnect admit now st" using eq by simp
    then show ?thesis using up drop inv by simp
  next
    case 3
    note eq3 = eq [unfolded if_not_P [OF 3(1)] if_not_P [OF 3(2)]]
    have i1: "media_inv (Suc n) (fst st1)"
    proof (cases "mc_connecting (fst st)")
      case True
      then have "mc_active_epoch (fst st) = 0" using inv by (auto simp: media_inv_def)
      then show ?thesis using Media_Connected_inv [OF inv _ _ n] True 3 by (simp add: st1_def)
    next
      case False
      then show ?thesis using up inv by (simp add: st1_def)
    qed
    show ?thesis
    proof (cases "?gone")
      case True
      have "st' = Disconnect admit now st1" using eq3 [unfolded if_P [OF True]] by simp
      then show ?thesis using drop i1 by simp
    next
      case live: False
      then have act: "mc_active_epoch (fst st1) \<noteq> 0" using i1 by (auto simp: media_inv_def IsCurrent_def)
      have i2: "media_inv (Suc n) (fst (snd i))" "mc_active_epoch (fst (snd i)) \<noteq> 0"
        using handle_in_inv [OF i1 act] act i1 by (simp_all add: i_def)
      have i3: "media_inv (Suc n) (snd (snd q))"
        using handle_out_inv [OF i2] i2 by (simp add: q_def) (metis prod.collapse)
      have "(if \<not> fst i then Some ([], Disconnect admit now (snd i))
          else if \<not> fst q then Some ([], Disconnect admit now (snd (snd q), snd (snd i)))
          else map_option (Pair (fst (snd q))) (UpdateInterest (k_epoll_ok k) (snd (snd q), snd (snd i))))
          = Some (out, st')"
        using eq3 [unfolded if_not_P [OF live]] unfolding i_def [symmetric]
        by (cases "fst i"; cases "events AND EPOLLOUT = 0";
            cases "fst (handle_out (k_send k) (fst (snd i)))"; simp add: split_beta q_def del: map_option_eq_Some)
      then show ?thesis
        using drop [of "snd i"] drop [of "(snd (snd q), snd (snd i))"] i2(1) i3
          UpdateInterest_inv [of "Suc n" "(snd (snd q), snd (snd i))" "k_epoll_ok k" st']
        by (auto split: if_splits)
    qed
  qed
qed

lemma Media_Send_inv:
  assumes "media_inv n (fst st)"
  shows "media_inv n (fst (snd (Media_Send epoch msg st)))"
proof -
  obtain m w where st: "st = (m, w)" by (cases st)
  obtain b m' w' where s: "Media_Send epoch msg (m, w) = (b, m', w')" by (metis surj_pair)
  have ok: "media_ok m" using assms st by (simp add: media_inv_def)
  have "mc_log m' = mc_log m" "mc_epoch m' = mc_epoch m" "mc_active_epoch m' = mc_active_epoch m"
    "mc_fd_open m' = mc_fd_open m" "mc_connecting m' = mc_connecting m" "mc_retry_ms m' = mc_retry_ms m"
    "mc_received m' = mc_received m" "mc_connected m' \<Longrightarrow> mc_connected m"
    "mc_connected m \<or> m' = m"
    using s by (auto simp: Media_Send_def media_enqueue_def Let_def split: if_splits prod.splits)
  then show ?thesis
    using Media_Send_result [OF ok s] assms s st by (auto simp: media_inv_def)
qed

lemma Media_Stop_inv:
  assumes "media_inv n (fst st)" shows "media_inv n (fst (Media_Stop admit now st))"
proof -
  have "media_inv n (fst (apfst (\<lambda>m. m\<lparr>mc_started := False, mc_connected := False\<rparr>) st))"
    using assms by (cases st) (auto simp: media_inv_def media_frames_def split: if_splits intro: media_ok_cong)
  from Disconnect_inv(1) [OF this, of admit now]
  have "media_inv n ((fst (Disconnect admit now (apfst (\<lambda>m. m\<lparr>mc_started := False,
      mc_connected := False\<rparr>) st)))\<lparr>mc_epoll_fd := -1\<rparr>)"
    by (auto simp: media_inv_def media_frames_def split: if_splits intro: media_ok_cong)
  then show ?thesis using assms by (simp add: Media_Stop_def)
qed

section \<open>Runs\<close>

datatype media_call =
    CallTick int connect_result bool
  | CallEvents int uds_kernel u64 u32
  | CallMediaSend u64 string
  | CallInvalidate u64
  | CallStop int

text \<open>An exception out of Tick or HandleEvents ends the I/O loop: the state stays.\<close>

fun media_step :: "(media_event \<times> u64 \<Rightarrow> bool) \<Rightarrow> media_call \<Rightarrow> media_state \<Rightarrow> media_state" where
  "media_step admit (CallTick now res ok) st = (case Tick admit now res ok st of None \<Rightarrow> st | Some st' \<Rightarrow> st')"
| "media_step admit (CallEvents now k token events) st =
     (case HandleEvents admit now k token events st of None \<Rightarrow> st | Some (_, st') \<Rightarrow> st')"
| "media_step admit (CallMediaSend epoch msg) st = snd (Media_Send epoch msg st)"
| "media_step admit (CallInvalidate epoch) st = Invalidate epoch st"
| "media_step admit (CallStop now) st = Media_Stop admit now st"

definition media_run :: "(media_event \<times> u64 \<Rightarrow> bool) \<Rightarrow> media_call list \<Rightarrow> media_state \<Rightarrow> media_state" where
  "media_run admit calls st = fold (media_step admit) calls st"

lemma media_step_inv:
  assumes "media_inv n (fst st)" "Suc n < 2 ^ 64"
  shows "media_inv (Suc n) (fst (media_step admit call st))"
proof -
  have up: "media_inv n m \<Longrightarrow> media_inv (Suc n) m" for m by (erule media_inv_mono) simp
  show ?thesis
    using assms up Tick_inv [OF assms] HandleEvents_inv [OF assms] Media_Send_inv [OF assms(1)]
      Invalidate_inv [OF assms(1)] Media_Stop_inv [OF assms(1)]
    by (cases call) (auto split: option.split)
qed

definition media_started :: "string \<Rightarrow> int \<Rightarrow> int \<Rightarrow> media_client" where
  "media_started path fd now = MediaSignalClient_new\<lparr>mc_socket_path := path, mc_epoll_fd := fd,
     mc_started := True, mc_deadline := now\<rparr>"

lemma media_started_inv: "media_inv 0 (media_started path fd now)"
  by (simp add: media_started_def MediaSignalClient_new_def media_inv_def media_ok_def
      media_frames_def kMaxPendingBytes_def kMaxPendingFrames_def)

lemma media_run_inv:
  "media_inv n (fst st) \<Longrightarrow> n + length calls < 2 ^ 64 \<Longrightarrow>
   media_inv (n + length calls) (fst (media_run admit calls st))"
proof (induction calls arbitrary: n st)
  case (Cons c cs)
  have "media_inv (Suc n) (fst (media_step admit c st))"
    using Cons.prems by (intro media_step_inv) simp_all
  then show ?case using Cons.IH [of "Suc n" "media_step admit c st"] Cons.prems
    by (simp add: media_run_def)
qed (simp add: media_run_def)

section \<open>Properties\<close>

text \<open>C9: The epochs of the control connection form a protocol: from a started
  client, in every run of fewer than 2^64 steps (ticks with any connect results,
  socket events with any kernel answers, sends, invalidations, stops) the events
  given to the business layer are Connected 1, messages of 1, Disconnected 1,
  Connected 2, and so on; no message or disconnect ever carries the epoch of
  another connection, and an epoch is open exactly when m_active_epoch names it.\<close>

theorem media_epoch_protocol:
  assumes "length calls < 2 ^ 64"
  shows "epoch_run (mc_log (fst (media_run admit calls (media_started path fd now, w)))) (0, False)
    = Some (mc_epoch (fst (media_run admit calls (media_started path fd now, w))),
            mc_active_epoch (fst (media_run admit calls (media_started path fd now, w))) \<noteq> 0)"
  using media_run_inv [of 0 "(media_started path fd now, w)" calls admit] assms media_started_inv
  by (simp add: media_inv_def)

theorem media_epoch_protocol_witness:
  "epoch_run (mc_log (fst (media_run (\<lambda>_. True) [CallTick 0 ConnDone True, CallStop 5]
      (media_started ''s'' 3 0, IoWakeup_new)))) (0, False)
    = Some (mc_epoch (fst (media_run (\<lambda>_. True) [CallTick 0 ConnDone True, CallStop 5]
              (media_started ''s'' 3 0, IoWakeup_new))),
            mc_active_epoch (fst (media_run (\<lambda>_. True) [CallTick 0 ConnDone True, CallStop 5]
              (media_started ''s'' 3 0, IoWakeup_new))) \<noteq> 0)"
  by (rule media_epoch_protocol) simp

text \<open>The control connection keeps its quota and its back-off: in the same runs
  the pending counters agree with the frames held, at most 1024 frames and 4 MiB
  are held, a client without an open epoch holds no frame, and the retry delay
  stays between one and ten seconds.\<close>

theorem media_quota_and_backoff:
  assumes "length calls < 2 ^ 64" "m = fst (media_run admit calls (media_started path fd now, w))"
  shows "mc_pending_frames m = length (media_frames m)
    \<and> mc_pending_bytes m = sum_list (map length (media_frames m))
    \<and> mc_pending_frames m \<le> 1024 \<and> mc_pending_bytes m \<le> 4 * 1024 * 1024
    \<and> (mc_active_epoch m \<noteq> 0 \<or> media_frames m = [] \<and> \<not> mc_connected m)
    \<and> 1000 \<le> mc_retry_ms m \<and> mc_retry_ms m \<le> 10000"
proof -
  have "media_inv (length calls) m"
    using media_run_inv [of 0 "(media_started path fd now, w)" calls admit] assms media_started_inv
    by simp
  then show ?thesis
    by (auto simp: media_inv_def media_ok_def kMaxPendingBytes_def kMaxPendingFrames_def)
qed

theorem media_quota_and_backoff_witness:
  "let m = fst (media_run (\<lambda>_. True) [CallTick 0 ConnDone True, CallMediaSend 1 ''x'']
              (media_started ''s'' 3 0, IoWakeup_new)) in
     mc_pending_frames m = length (media_frames m)
    \<and> mc_pending_bytes m = sum_list (map length (media_frames m))
    \<and> mc_pending_frames m \<le> 1024 \<and> mc_pending_bytes m \<le> 4 * 1024 * 1024
    \<and> (mc_active_epoch m \<noteq> 0 \<or> media_frames m = [] \<and> \<not> mc_connected m)
    \<and> 1000 \<le> mc_retry_ms m \<and> mc_retry_ms m \<le> 10000"
  unfolding Let_def
  by (rule media_quota_and_backoff [of "[CallTick 0 ConnDone True, CallMediaSend 1 ''x'']"]) simp_all

end
