(* ===== verification/Scheduler.thy ===== *)
theory Scheduler
  imports TcpSession
begin

text \<open>
  The business scheduler of RealtimeServer (src/service/BusinessScheduler.cpp):
  SlowPool, the bounded pool that runs storage calls; BusinessScheduler, the global
  admission counters; SerialCommandQueue, one per meeting and per connection, that
  runs whole operations one at a time although an operation suspends while it
  waits for a slow task.

  A strand is the FIFO list of closures posted to it.  An operation is a coroutine:
  between two strand closures it either waits or finishes.  The interleaving with
  other threads is a step relation.  Fields whose comment says ghost record history
  for the statements only.
\<close>

section \<open>SlowPool\<close>

text \<open>A task is named by the operation that submitted it; sp_running are the tasks
  the worker threads took.  sp_holders is ghost: who holds the reservations.\<close>

record slow_pool =
  sp_tasks :: "nat list"
  sp_running :: "nat list"
  sp_pending :: nat
  sp_reserved :: nat
  sp_capacity :: nat
  sp_stopping :: bool
  sp_holders :: "nat list"

definition SlowPool_new :: "nat \<Rightarrow> slow_pool" where
  "SlowPool_new capacity = \<lparr>sp_tasks = [], sp_running = [], sp_pending = 0, sp_reserved = 0,
     sp_capacity = capacity, sp_stopping = False, sp_holders = []\<rparr>"

definition Pool_Reserve :: "nat \<Rightarrow> slow_pool \<Rightarrow> bool \<times> slow_pool" where
  "Pool_Reserve op p =
     (if sp_stopping p \<or> sp_reserved p \<ge> sp_capacity p then (False, p)
      else (True, p\<lparr>sp_reserved := sp_reserved p + 1, sp_holders := op # sp_holders p\<rparr>))"

definition Pool_Release :: "nat \<Rightarrow> slow_pool \<Rightarrow> slow_pool" where
  "Pool_Release op p = p\<lparr>sp_reserved := size_sub (sp_reserved p) 1,
     sp_holders := remove1 op (sp_holders p)\<rparr>"

definition Pool_Submit :: "nat \<Rightarrow> slow_pool \<Rightarrow> bool \<times> slow_pool" where
  "Pool_Submit op p =
     (if sp_stopping p \<or> sp_pending p \<ge> sp_capacity p then (False, p)
      else (True, p\<lparr>sp_tasks := sp_tasks p @ [op], sp_pending := sp_pending p + 1\<rparr>))"

text \<open>The two critical sections of Run: a worker takes the front task, and after the
  task it gives the slot back, before the completion is called.\<close>

definition Pool_take :: "slow_pool \<Rightarrow> slow_pool" where
  "Pool_take p = (case sp_tasks p of [] \<Rightarrow> p
     | op # rest \<Rightarrow> p\<lparr>sp_tasks := rest, sp_running := op # sp_running p\<rparr>)"

definition Pool_finish :: "nat \<Rightarrow> slow_pool \<Rightarrow> slow_pool" where
  "Pool_finish op p = p\<lparr>sp_running := remove1 op (sp_running p),
     sp_pending := size_sub (sp_pending p) 1\<rparr>"

definition Pool_Join :: "slow_pool \<Rightarrow> slow_pool" where
  "Pool_Join p = p\<lparr>sp_stopping := True\<rparr>"

definition in_flight :: "slow_pool \<Rightarrow> nat list" where
  "in_flight p = sp_tasks p @ sp_running p"

text \<open>The steps of the pool with its operations: an operation reserves once
  (Operation::Reserve returns early when it holds the pool), submits while it holds
  a reservation and has no task in flight (Await suspends it until completion), and
  releases when it finishes or calls ReleaseCapacity, not while it waits.\<close>

inductive pool_step :: "slow_pool \<Rightarrow> slow_pool \<Rightarrow> bool" where
  ps_reserve: "op \<notin> set (sp_holders p) \<Longrightarrow> pool_step p (snd (Pool_Reserve op p))"
| ps_submit: "op \<in> set (sp_holders p) \<Longrightarrow> op \<notin> set (in_flight p) \<Longrightarrow>
    pool_step p (snd (Pool_Submit op p))"
| ps_take: "pool_step p (Pool_take p)"
| ps_finish: "op \<in> set (sp_running p) \<Longrightarrow> pool_step p (Pool_finish op p)"
| ps_release: "op \<in> set (sp_holders p) \<Longrightarrow> op \<notin> set (in_flight p) \<Longrightarrow>
    pool_step p (Pool_Release op p)"
| ps_join: "pool_step p (Pool_Join p)"

inductive_cases pool_stepE: "pool_step p p'"

definition pool_ok :: "slow_pool \<Rightarrow> bool" where
  "pool_ok p \<longleftrightarrow> sp_pending p = length (in_flight p) \<and> sp_reserved p = length (sp_holders p)
     \<and> distinct (sp_holders p) \<and> distinct (in_flight p)
     \<and> set (in_flight p) \<subseteq> set (sp_holders p)
     \<and> sp_reserved p \<le> sp_capacity p \<and> sp_capacity p < 2 ^ 64"

lemma SlowPool_new_ok: "c < 2 ^ 64 \<Longrightarrow> pool_ok (SlowPool_new c)"
  by (simp add: pool_ok_def SlowPool_new_def in_flight_def)

lemma length_remove1_Suc: "x \<in> set xs \<Longrightarrow> length xs = Suc (length (remove1 x xs))"
  by (induction xs) auto

lemma sum_list_remove1: "x \<in> set xs \<Longrightarrow> sum_list xs = x + sum_list (remove1 x xs :: nat list)"
  by (induction xs) auto

lemma pool_step_ok: "pool_step p p' \<Longrightarrow> pool_ok p \<Longrightarrow> pool_ok p'"
proof (induction rule: pool_step.induct)
  case (ps_reserve op p)
  then show ?case by (auto simp: Pool_Reserve_def pool_ok_def in_flight_def)
next
  case (ps_submit op p)
  then show ?case by (auto simp: Pool_Submit_def pool_ok_def in_flight_def)
next
  case (ps_take p)
  then show ?case
    by (cases "sp_tasks p") (auto simp: Pool_take_def pool_ok_def in_flight_def)
next
  case (ps_finish op p)
  then have "length (in_flight p) \<le> length (sp_holders p)"
    using card_mono [of "set (sp_holders p)" "set (in_flight p)"]
    by (simp add: pool_ok_def flip: distinct_card)
  then have "sp_pending p \<ge> 1" "sp_pending p < 2 ^ 64"
    using ps_finish length_pos_if_in_set [OF ps_finish(1)]
    by (auto simp: pool_ok_def in_flight_def Suc_le_eq)
  then show ?case
    using ps_finish length_remove1_Suc [OF ps_finish(1)]
    by (auto simp: Pool_finish_def pool_ok_def in_flight_def dest: notin_set_remove1)
next
  case (ps_release op p)
  have "sp_reserved p \<ge> 1" "sp_reserved p < 2 ^ 64"
    using ps_release(3) length_remove1_Suc [OF ps_release(1)] by (auto simp: pool_ok_def)
  then show ?case
    using ps_release length_remove1_Suc [OF ps_release(1)]
    by (auto simp: Pool_Release_def pool_ok_def in_flight_def)
qed (auto simp: Pool_Join_def pool_ok_def in_flight_def)

text \<open>An operation that holds a reservation always gets its task in.\<close>

lemma reserved_submit:
  assumes "pool_ok p" "op \<in> set (sp_holders p)" "op \<notin> set (in_flight p)" "\<not> sp_stopping p"
  shows "fst (Pool_Submit op p)"
proof -
  have "card (set (in_flight p)) < card (set (sp_holders p))"
    using assms by (intro psubset_card_mono) (auto simp: pool_ok_def)
  then have "sp_pending p < sp_capacity p"
    using assms(1) by (auto simp: pool_ok_def distinct_card)
  then show ?thesis using assms(4) by (simp add: Pool_Submit_def)
qed

section \<open>BusinessScheduler\<close>

text \<open>The decrements of a release are written on natural numbers: the invariant
  below shows that the counter covers what is released, so nothing wraps.\<close>

record scheduler =
  bs_pending :: nat
  bs_bytes :: nat
  bs_capacity :: nat

definition kSchedulerBytes :: nat where "kSchedulerBytes = 64 * 1024 * 1024"

definition Sched_Reserve :: "bool \<Rightarrow> nat \<Rightarrow> scheduler \<Rightarrow> bool \<times> scheduler" where
  "Sched_Reserve terminal bytes b =
     (if \<not> terminal \<and> bs_pending b \<ge> bs_capacity b \<or> bytes > size_sub kSchedulerBytes (bs_bytes b)
      then (False, b)
      else (True, b\<lparr>bs_pending := bs_pending b + 1, bs_bytes := bs_bytes b + bytes\<rparr>))"

definition Sched_Release :: "nat \<Rightarrow> scheduler \<Rightarrow> scheduler" where
  "Sched_Release bytes b = b\<lparr>bs_bytes := bs_bytes b - bytes, bs_pending := bs_pending b - 1\<rparr>"

section \<open>SerialCommandQueue\<close>

record entry =
  e_id :: nat
  e_terminal :: bool
  e_bytes :: nat

text \<open>The closures of the strand: the one Submit posts, the coroutine Pump spawns,
  the resumption of a Wait, and the follow-up of a finished operation.\<close>

datatype closure = CEnqueue entry | CStart u64 entry | CResume u64 u64 | CAfter nat

text \<open>The one operation of the queue: spawned but not started, running a slice, or
  suspended in a Wait of the given phase.\<close>

datatype op_state = NoOp | Spawned entry | Running entry u64 | Suspended entry u64

record cmd_queue =
  cq_capacity :: nat
  cq_pending :: nat
  cq_bytes :: nat
  cq_strand :: "closure list"
  cq_commands :: "entry list"
  cq_next_op :: u64
  cq_active_op :: u64
  cq_phase :: u64
  cq_op :: op_state
  cq_sched :: scheduler
  cq_others :: "nat list"
  cq_submitted :: "entry list"
  cq_started :: "entry list"
  cq_finished :: "entry list"

text \<open>cq_others (ghost) are the bytes of the entries other queues hold on the shared
  scheduler; cq_submitted, cq_started and cq_finished (ghost) the history.\<close>

definition kQueueBytes :: nat where "kQueueBytes = 4 * 1024 * 1024"

definition Queue_Submit :: "entry \<Rightarrow> cmd_queue \<Rightarrow> bool \<times> cmd_queue" where
  "Queue_Submit e q =
     (if \<not> e_terminal e \<and> cq_pending q \<ge> cq_capacity q
         \<or> e_bytes e > size_sub kQueueBytes (cq_bytes q) then (False, q)
      else let (ok, b) = Sched_Reserve (e_terminal e) (e_bytes e) (cq_sched q) in
        if \<not> ok then (False, q)
        else (True, q\<lparr>cq_sched := b, cq_pending := cq_pending q + 1,
               cq_bytes := cq_bytes q + e_bytes e, cq_strand := cq_strand q @ [CEnqueue e],
               cq_submitted := cq_submitted q @ [e]\<rparr>))"

definition Pump :: "cmd_queue \<Rightarrow> cmd_queue" where
  "Pump q =
     (if cq_active_op q \<noteq> 0 \<or> cq_commands q = [] then q
      else let i = cq_next_op q + 1; e = hd (cq_commands q) in
        q\<lparr>cq_next_op := i, cq_active_op := i, cq_phase := 0, cq_commands := tl (cq_commands q),
          cq_strand := cq_strand q @ [CStart i e], cq_op := Spawned e\<rparr>)"

text \<open>One closure of the strand.  A resumption whose operation or phase is not the
  current one does nothing.\<close>

fun run_closure :: "closure \<Rightarrow> cmd_queue \<Rightarrow> cmd_queue" where
  "run_closure (CEnqueue e) q = Pump (q\<lparr>cq_commands := cq_commands q @ [e]\<rparr>)"
| "run_closure (CStart i e) q = q\<lparr>cq_op := Running e 0, cq_started := cq_started q @ [e]\<rparr>"
| "run_closure (CResume i phase) q =
     (if cq_active_op q = i \<and> cq_phase q = phase
      then (case cq_op q of Suspended e ph \<Rightarrow> q\<lparr>cq_op := Running e ph\<rparr> | _ \<Rightarrow> q)
      else q)"
| "run_closure (CAfter bytes) q =
     (let q1 = Pump q in q1\<lparr>cq_sched := Sched_Release bytes (cq_sched q1)\<rparr>)"

text \<open>Operation::Wait and the end of an operation.\<close>

definition op_wait :: "cmd_queue \<Rightarrow> cmd_queue" where
  "op_wait q = (case cq_op q of
       Running e ph \<Rightarrow> q\<lparr>cq_phase := ph + 1, cq_op := Suspended e (ph + 1)\<rparr>
     | _ \<Rightarrow> q)"

definition op_finish :: "cmd_queue \<Rightarrow> cmd_queue" where
  "op_finish q = (case cq_op q of
       Running e ph \<Rightarrow> q\<lparr>cq_op := NoOp, cq_active_op := 0, cq_pending := cq_pending q - 1,
         cq_bytes := cq_bytes q - e_bytes e,
         cq_strand := cq_strand q @ [CAfter (e_bytes e)], cq_finished := cq_finished q @ [e]\<rparr>
     | _ \<Rightarrow> q)"

definition is_running :: "op_state \<Rightarrow> bool" where
  "is_running s = (case s of Running _ _ \<Rightarrow> True | _ \<Rightarrow> False)"

text \<open>The steps: any thread submits or posts a (possibly stale) completion; the
  strand runs its front closure when no slice is running; the running operation
  waits or finishes; other queues use the shared scheduler.\<close>

inductive queue_step :: "cmd_queue \<Rightarrow> cmd_queue \<Rightarrow> bool" where
  qs_submit: "queue_step q (snd (Queue_Submit e q))"
| qs_strand: "\<not> is_running (cq_op q) \<Longrightarrow> cq_strand q = c # cs \<Longrightarrow>
    queue_step q (run_closure c (q\<lparr>cq_strand := cs\<rparr>))"
| qs_wait: "is_running (cq_op q) \<Longrightarrow> queue_step q (op_wait q)"
| qs_finish: "is_running (cq_op q) \<Longrightarrow> queue_step q (op_finish q)"
| qs_complete: "queue_step q (q\<lparr>cq_strand := cq_strand q @ [CResume i phase]\<rparr>)"
| qs_other_reserve: "Sched_Reserve terminal bytes (cq_sched q) = (True, b) \<Longrightarrow>
    queue_step q (q\<lparr>cq_sched := b, cq_others := bytes # cq_others q\<rparr>)"
| qs_other_release: "bytes \<in> set (cq_others q) \<Longrightarrow>
    queue_step q (q\<lparr>cq_sched := Sched_Release bytes (cq_sched q),
                    cq_others := remove1 bytes (cq_others q)\<rparr>)"

definition Queue_new :: "nat \<Rightarrow> nat \<Rightarrow> cmd_queue" where
  "Queue_new capacity sched_capacity = \<lparr>cq_capacity = capacity, cq_pending = 0, cq_bytes = 0,
     cq_strand = [], cq_commands = [], cq_next_op = 0, cq_active_op = 0, cq_phase = 0, cq_op = NoOp,
     cq_sched = \<lparr>bs_pending = 0, bs_bytes = 0, bs_capacity = sched_capacity\<rparr>, cq_others = [],
     cq_submitted = [], cq_started = [], cq_finished = []\<rparr>"

inductive queue_reach :: "nat \<Rightarrow> nat \<Rightarrow> cmd_queue \<Rightarrow> bool" for capacity sched_capacity where
  qr_new: "queue_reach capacity sched_capacity (Queue_new capacity sched_capacity)"
| qr_step: "queue_reach capacity sched_capacity q \<Longrightarrow> queue_step q q' \<Longrightarrow>
    queue_reach capacity sched_capacity q'"

section \<open>The invariant of a command queue\<close>

fun enqueued :: "closure list \<Rightarrow> entry list" where
  "enqueued [] = []"
| "enqueued (CEnqueue e # cs) = e # enqueued cs"
| "enqueued (_ # cs) = enqueued cs"

fun starts :: "closure list \<Rightarrow> (u64 \<times> entry) list" where
  "starts [] = []"
| "starts (CStart i e # cs) = (i, e) # starts cs"
| "starts (_ # cs) = starts cs"

fun afters :: "closure list \<Rightarrow> nat list" where
  "afters [] = []"
| "afters (CAfter b # cs) = b # afters cs"
| "afters (_ # cs) = afters cs"

lemma enqueued_append [simp]: "enqueued (a @ b) = enqueued a @ enqueued b"
  by (induction a rule: enqueued.induct) simp_all

lemma starts_append [simp]: "starts (a @ b) = starts a @ starts b"
  by (induction a rule: starts.induct) simp_all

lemma afters_append [simp]: "afters (a @ b) = afters a @ afters b"
  by (induction a rule: afters.induct) simp_all

fun op_entries :: "op_state \<Rightarrow> entry list" where
  "op_entries NoOp = []"
| "op_entries (Spawned e) = [e]"
| "op_entries (Running e _) = [e]"
| "op_entries (Suspended e _) = [e]"

fun op_begun :: "op_state \<Rightarrow> entry list" where
  "op_begun (Running e _) = [e]"
| "op_begun (Suspended e _) = [e]"
| "op_begun _ = []"

fun op_spawned :: "op_state \<Rightarrow> entry list" where
  "op_spawned (Spawned e) = [e]"
| "op_spawned _ = []"

definition outstanding :: "cmd_queue \<Rightarrow> entry list" where
  "outstanding q = op_entries (cq_op q) @ cq_commands q @ enqueued (cq_strand q)"

definition bytes_of :: "entry list \<Rightarrow> nat" where
  "bytes_of es = sum_list (map e_bytes es)"

lemma bytes_of_simps [simp]:
  "bytes_of [] = 0" "bytes_of (e # es) = e_bytes e + bytes_of es"
  "bytes_of (a @ b) = bytes_of a + bytes_of b"
  by (simp_all add: bytes_of_def)

definition queue_core :: "cmd_queue \<Rightarrow> bool" where
  "queue_core q \<longleftrightarrow>
     cq_submitted q = cq_finished q @ outstanding q
   \<and> cq_started q = cq_finished q @ op_begun (cq_op q)
   \<and> (cq_op q = NoOp \<longleftrightarrow> cq_active_op q = 0)
   \<and> starts (cq_strand q) = map (Pair (cq_active_op q)) (op_spawned (cq_op q))
   \<and> unat (cq_next_op q) = length (cq_finished q) + length (op_entries (cq_op q))
   \<and> cq_pending q = length (outstanding q)
   \<and> cq_bytes q = bytes_of (outstanding q) \<and> cq_bytes q \<le> kQueueBytes"

definition sched_core :: "cmd_queue \<Rightarrow> bool" where
  "sched_core q \<longleftrightarrow>
     bs_pending (cq_sched q) = length (outstanding q) + length (afters (cq_strand q)) + length (cq_others q)
   \<and> bs_bytes (cq_sched q) = bytes_of (outstanding q) + sum_list (afters (cq_strand q)) + sum_list (cq_others q)
   \<and> bs_bytes (cq_sched q) \<le> kSchedulerBytes"

definition queue_live :: "cmd_queue \<Rightarrow> bool" where
  "queue_live q \<longleftrightarrow> (cq_commands q = [] \<or> cq_op q \<noteq> NoOp \<or> afters (cq_strand q) \<noteq> [])"

lemma Pump_cases:
  obtains (idle) "Pump q = q" "cq_active_op q \<noteq> 0 \<or> cq_commands q = []"
  | (start) e es i where "cq_active_op q = 0" "cq_commands q = e # es" "i = cq_next_op q + 1"
      "Pump q = q\<lparr>cq_next_op := i, cq_active_op := i, cq_phase := 0, cq_commands := es,
        cq_strand := cq_strand q @ [CStart i e], cq_op := Spawned e\<rparr>"
  by (cases "cq_commands q"; cases "cq_active_op q = 0") (auto simp: Pump_def Let_def)

lemma Pump_core:
  assumes "queue_core q" "length (cq_submitted q) < 2 ^ 64"
  shows "queue_core (Pump q)" "outstanding (Pump q) = outstanding q"
    "cq_commands (Pump q) = [] \<or> cq_op (Pump q) \<noteq> NoOp"
proof -
  have "queue_core (Pump q) \<and> outstanding (Pump q) = outstanding q
    \<and> (cq_commands (Pump q) = [] \<or> cq_op (Pump q) \<noteq> NoOp)"
  proof (cases q rule: Pump_cases)
    case idle
    then show ?thesis using assms by (auto simp: queue_core_def)
  next
    case (start e es i)
    then have op: "cq_op q = NoOp" using assms(1) by (simp add: queue_core_def)
    have "unat (cq_next_op q) < 2 ^ 64 - 1"
      using assms start op by (auto simp: queue_core_def outstanding_def)
    then have "unat i = Suc (unat (cq_next_op q))"
      using start(3) by (subst start(3), subst unat_word_ariths) simp
    moreover from this have "i \<noteq> 0" by (metis Zero_not_Suc unat_0)
    ultimately show ?thesis
      using assms(1) start op by (auto simp: queue_core_def outstanding_def)
  qed
  then show "queue_core (Pump q)" "outstanding (Pump q) = outstanding q"
    "cq_commands (Pump q) = [] \<or> cq_op (Pump q) \<noteq> NoOp" by auto
qed

lemma Pump_fields [simp]:
  "cq_sched (Pump q) = cq_sched q" "cq_others (Pump q) = cq_others q"
  "cq_submitted (Pump q) = cq_submitted q" "cq_finished (Pump q) = cq_finished q"
  "afters (cq_strand (Pump q)) = afters (cq_strand q)"
  "cq_capacity (Pump q) = cq_capacity q" "cq_pending (Pump q) = cq_pending q"
  by (simp_all add: Pump_def Let_def)

definition queue_inv :: "cmd_queue \<Rightarrow> bool" where
  "queue_inv q \<longleftrightarrow> queue_core q \<and> sched_core q \<and> queue_live q"

lemma queue_submit_inv:
  assumes "queue_inv q" shows "queue_inv (snd (Queue_Submit e q))"
proof (cases "fst (Queue_Submit e q)")
  case False
  then show ?thesis using assms by (auto simp: Queue_Submit_def Let_def split: prod.splits if_splits)
next
  case True
  have b: "cq_bytes q \<le> kQueueBytes" "bs_bytes (cq_sched q) \<le> kSchedulerBytes"
    using assms by (auto simp: queue_inv_def queue_core_def sched_core_def)
  have sub: "size_sub kQueueBytes (cq_bytes q) = kQueueBytes - cq_bytes q"
    "size_sub kSchedulerBytes (bs_bytes (cq_sched q)) = kSchedulerBytes - bs_bytes (cq_sched q)"
    using b by (auto intro!: size_sub_le simp: kQueueBytes_def kSchedulerBytes_def)
  have fit: "cq_bytes q + e_bytes e \<le> kQueueBytes" "bs_bytes (cq_sched q) + e_bytes e \<le> kSchedulerBytes"
    using True b by (auto simp: Queue_Submit_def Sched_Reserve_def sub Let_def split: if_splits)
  have "snd (Queue_Submit e q) = q\<lparr>cq_sched := (cq_sched q)\<lparr>bs_pending := bs_pending (cq_sched q) + 1,
       bs_bytes := bs_bytes (cq_sched q) + e_bytes e\<rparr>, cq_pending := cq_pending q + 1,
      cq_bytes := cq_bytes q + e_bytes e, cq_strand := cq_strand q @ [CEnqueue e],
      cq_submitted := cq_submitted q @ [e]\<rparr>"
    using True by (auto simp: Queue_Submit_def Sched_Reserve_def Let_def split: if_splits)
  then show ?thesis
    using assms fit by (auto simp: queue_inv_def queue_core_def sched_core_def queue_live_def outstanding_def)
qed

lemma outstanding_sched: "outstanding (q\<lparr>cq_sched := b\<rparr>) = outstanding q"
  by (simp add: outstanding_def)

lemma queue_core_sched: "queue_core (q\<lparr>cq_sched := b\<rparr>) = queue_core q"
  by (simp add: queue_core_def outstanding_def)

lemma run_closure_inv:
  assumes inv: "queue_inv q" and c: "cq_strand q = c # cs" and idle: "\<not> is_running (cq_op q)"
    and n: "length (cq_submitted q) < 2 ^ 64"
  shows "queue_inv (run_closure c (q\<lparr>cq_strand := cs\<rparr>))"
proof (cases c)
  case (CEnqueue e)
  let ?q = "q\<lparr>cq_strand := cs, cq_commands := cq_commands q @ [e]\<rparr>"
  have core: "queue_core ?q" and sched: "sched_core ?q"
    and o: "outstanding ?q = outstanding q"
    using inv c CEnqueue by (auto simp: queue_inv_def queue_core_def sched_core_def outstanding_def)
  have "length (cq_submitted ?q) < 2 ^ 64" using n by simp
  note P = Pump_core [OF core this]
  have "sched_core (Pump ?q)" using sched P(2) by (simp add: sched_core_def)
  then show ?thesis using P CEnqueue by (auto simp: queue_inv_def queue_live_def)
next
  case (CStart i e)
  then have "cq_op q = Spawned e"
    using inv c by (cases "cq_op q") (auto simp: queue_inv_def queue_core_def)
  then show ?thesis
    using inv c CStart
    by (auto simp: queue_inv_def queue_core_def sched_core_def queue_live_def outstanding_def)
next
  case (CResume i ph)
  have base: "queue_inv (q\<lparr>cq_strand := cs\<rparr>)"
    using inv c CResume
    by (auto simp: queue_inv_def queue_core_def sched_core_def queue_live_def outstanding_def)
  then have "queue_inv (q\<lparr>cq_strand := cs, cq_op := Running e p\<rparr>)" if "cq_op q = Suspended e p" for e p
    using that by (auto simp: queue_inv_def queue_core_def sched_core_def queue_live_def outstanding_def)
  then show ?thesis using base CResume by (auto split: op_state.split)
next
  case (CAfter b)
  let ?q = "q\<lparr>cq_strand := cs\<rparr>"
  have core: "queue_core ?q" and o: "outstanding ?q = outstanding q"
    using inv c CAfter by (auto simp: queue_inv_def queue_core_def outstanding_def)
  have "length (cq_submitted ?q) < 2 ^ 64" using n by simp
  note P = Pump_core [OF core this]
  let ?r = "(Pump ?q)\<lparr>cq_sched := Sched_Release b (cq_sched (Pump ?q))\<rparr>"
  have "queue_core ?r" using P(1) by (simp add: queue_core_sched)
  moreover have out: "outstanding ?r = outstanding q"
    using P(2) o by (simp only: outstanding_sched)
  moreover have "sched_core ?r"
    using inv c CAfter out
    by (auto simp: queue_inv_def sched_core_def Sched_Release_def)
  moreover have "queue_live ?r" using P by (auto simp: queue_live_def)
  ultimately show ?thesis using CAfter by (simp add: queue_inv_def Let_def)
qed

lemma op_wait_inv: "queue_inv q \<Longrightarrow> queue_inv (op_wait q)"
  by (cases "cq_op q")
    (auto simp: op_wait_def queue_inv_def queue_core_def sched_core_def queue_live_def outstanding_def)

lemma op_finish_inv: "queue_inv q \<Longrightarrow> queue_inv (op_finish q)"
  by (cases "cq_op q")
    (auto simp: op_finish_def queue_inv_def queue_core_def sched_core_def queue_live_def outstanding_def)

lemma queue_step_inv:
  assumes "queue_step q q'" "queue_inv q" "length (cq_submitted q) < 2 ^ 64"
  shows "queue_inv q'"
  using assms(1)
proof cases
  case (qs_submit e)
  then show ?thesis using queue_submit_inv assms(2) by simp
next
  case (qs_strand c cs)
  then show ?thesis using run_closure_inv assms(2,3) by simp
next
  case qs_wait
  then show ?thesis using op_wait_inv assms(2) by simp
next
  case qs_finish
  then show ?thesis using op_finish_inv assms(2) by simp
next
  case (qs_complete i ph)
  then show ?thesis using assms(2)
    by (auto simp: queue_inv_def queue_core_def sched_core_def queue_live_def outstanding_def)
next
  case (qs_other_reserve t bytes b)
  have "size_sub kSchedulerBytes (bs_bytes (cq_sched q)) = kSchedulerBytes - bs_bytes (cq_sched q)"
    using assms(2) by (intro size_sub_le) (auto simp: queue_inv_def sched_core_def kSchedulerBytes_def)
  moreover have "bs_bytes (cq_sched q) \<le> kSchedulerBytes"
    using assms(2) by (auto simp: queue_inv_def sched_core_def)
  ultimately show ?thesis using assms(2) qs_other_reserve
    by (auto simp: queue_inv_def queue_core_def sched_core_def queue_live_def outstanding_def
        Sched_Reserve_def split: if_splits)
next
  case (qs_other_release b)
  note len = length_remove1_Suc [OF qs_other_release(2)] and sum = sum_list_remove1 [OF qs_other_release(2)]
  show ?thesis using assms(2) qs_other_release(1) len sum
    by (auto simp: queue_inv_def queue_core_def sched_core_def queue_live_def outstanding_def
        Sched_Release_def)
qed

lemma submitted_mono: "queue_step q q' \<Longrightarrow> length (cq_submitted q) \<le> length (cq_submitted q')"
proof (induction rule: queue_step.induct)
  case (qs_strand q c cs)
  then show ?case by (cases c) (auto simp: Let_def split: op_state.split)
qed (auto simp: Queue_Submit_def op_wait_def op_finish_def Let_def split: prod.splits op_state.splits)

lemma Queue_new_inv: "queue_inv (Queue_new c s)"
  by (simp add: Queue_new_def queue_inv_def queue_core_def sched_core_def queue_live_def outstanding_def)

lemma queue_reach_inv:
  "queue_reach c s q \<Longrightarrow> length (cq_submitted q) < 2 ^ 64 \<Longrightarrow> queue_inv q"
proof (induction rule: queue_reach.induct)
  case (qr_step q q')
  then show ?case using queue_step_inv submitted_mono by fastforce
qed (rule Queue_new_inv)

inductive pool_reach :: "nat \<Rightarrow> slow_pool \<Rightarrow> bool" for capacity where
  pr_new: "pool_reach capacity (SlowPool_new capacity)"
| pr_step: "pool_reach capacity p \<Longrightarrow> pool_step p p' \<Longrightarrow> pool_reach capacity p'"

lemma pool_reach_ok: "pool_reach c p \<Longrightarrow> c < 2 ^ 64 \<Longrightarrow> pool_ok p"
  by (induction rule: pool_reach.induct) (auto intro: SlowPool_new_ok pool_step_ok)

section \<open>Properties\<close>

text \<open>C7: A command queue is a serial FIFO: in every reachable state (fewer than 2^64
  submissions), with any interleaving of submitting threads, slow completions and
  stale resumptions, the admitted commands are, in the order of admission, the
  finished ones, then the at most one active operation, then the waiting ones;
  and the operations started are the finished ones followed by at most the
  active one.  No command is lost, reordered, duplicated or run concurrently.\<close>

theorem queue_serial_fifo:
  assumes "queue_reach c s q" "length (cq_submitted q) < 2 ^ 64"
  shows "cq_submitted q = cq_finished q @ op_entries (cq_op q) @ cq_commands q @ enqueued (cq_strand q)
    \<and> cq_started q = cq_finished q @ op_begun (cq_op q)"
  using queue_reach_inv [OF assms] by (auto simp: queue_inv_def queue_core_def outstanding_def)

theorem queue_serial_fifo_witness:
  "let q = snd (Queue_Submit \<lparr>e_id = 1, e_terminal = False, e_bytes = 5\<rparr> (Queue_new 128 2048)) in
     length (cq_submitted q) = 1
   \<and> cq_submitted q = cq_finished q @ op_entries (cq_op q) @ cq_commands q @ enqueued (cq_strand q)
   \<and> cq_started q = cq_finished q @ op_begun (cq_op q)"
proof -
  let ?q = "snd (Queue_Submit \<lparr>e_id = 1, e_terminal = False, e_bytes = 5\<rparr> (Queue_new 128 2048))"
  have r: "queue_reach 128 2048 ?q" by (intro qr_step [OF qr_new] qs_submit)
  have l: "length (cq_submitted ?q) = 1"
    by (simp add: Queue_Submit_def Queue_new_def Sched_Reserve_def kQueueBytes_def kSchedulerBytes_def
        size_sub_def)
  show ?thesis using queue_serial_fifo [OF r] l by simp
qed

text \<open>No command is stranded: whenever the strand has nothing left to run and no
  operation is active, every admitted command has finished.\<close>

theorem queue_no_stranded_command:
  assumes "queue_reach c s q" "length (cq_submitted q) < 2 ^ 64"
    "cq_strand q = []" "cq_op q = NoOp"
  shows "cq_finished q = cq_submitted q \<and> cq_pending q = 0 \<and> cq_bytes q = 0"
  using queue_reach_inv [OF assms(1,2)] assms(3,4)
  by (auto simp: queue_inv_def queue_core_def queue_live_def outstanding_def)

theorem queue_no_stranded_command_witness:
  "cq_finished (Queue_new 128 2048) = cq_submitted (Queue_new 128 2048)
   \<and> cq_pending (Queue_new 128 2048) = 0 \<and> cq_bytes (Queue_new 128 2048) = 0"
  by (rule queue_no_stranded_command [OF qr_new]) (simp_all add: Queue_new_def)

text \<open>C8: The final clean-up is never refused: in every reachable state a terminal
  command without payload (the disconnect of a session) is admitted, however full
  the queue and the shared scheduler are, and the byte quotas of 4 MiB per queue
  and 64 MiB overall hold.\<close>

theorem terminal_always_admitted:
  assumes "queue_reach c s q" "length (cq_submitted q) < 2 ^ 64"
  shows "fst (Queue_Submit \<lparr>e_id = i, e_terminal = True, e_bytes = 0\<rparr> q)
    \<and> cq_bytes q \<le> 4 * 1024 * 1024 \<and> bs_bytes (cq_sched q) \<le> 64 * 1024 * 1024"
  using queue_reach_inv [OF assms]
  by (auto simp: queue_inv_def queue_core_def sched_core_def Queue_Submit_def Sched_Reserve_def
      kQueueBytes_def kSchedulerBytes_def)

theorem terminal_always_admitted_witness:
  "fst (Queue_Submit \<lparr>e_id = 9, e_terminal = True, e_bytes = 0\<rparr> (Queue_new 0 0))
    \<and> cq_bytes (Queue_new 0 0) \<le> 4 * 1024 * 1024
    \<and> bs_bytes (cq_sched (Queue_new 0 0)) \<le> 64 * 1024 * 1024"
  by (rule terminal_always_admitted [OF qr_new]) (simp add: Queue_new_def)

text \<open>A reserved slow step is never refused: in every reachable state of a pool
  that is not stopping, an operation that holds a reservation and waits for no
  task of its own can submit, so a multi-step handler that reserved at its start
  cannot fail half-way because the pool is full.\<close>

theorem reserved_await_never_refused:
  assumes "pool_reach c p" "c < 2 ^ 64" "op \<in> set (sp_holders p)" "op \<notin> set (in_flight p)"
    "\<not> sp_stopping p"
  shows "fst (Pool_Submit op p)"
  by (rule reserved_submit [OF pool_reach_ok [OF assms(1,2)] assms(3-5)])

theorem reserved_await_never_refused_witness:
  "fst (Pool_Submit 7 (snd (Pool_Reserve 7 (SlowPool_new 1))))"
proof (rule reserved_await_never_refused)
  show "pool_reach 1 (snd (Pool_Reserve 7 (SlowPool_new 1)))"
    by (intro pr_step [OF pr_new] ps_reserve) (simp add: SlowPool_new_def)
qed (simp_all add: SlowPool_new_def Pool_Reserve_def in_flight_def)

end
