(* ===== verification/MySqlStore.thy ===== *)
theory MySqlStore
  imports RtcPrelude "HOL-Library.Product_Lexorder"
begin

text \<open>
  The MySQL side of RealtimeServer (src/storage/MySqlMgr.cpp with the tables of
  db/init/01-schema.sql).  The SQL statements of the source are translated to
  operations on lists of rows in key order.  What the server answers to each
  statement besides its result is a script: the statement may run, fail before it
  has an effect, or take effect and lose its answer.  A connection that cannot be
  borrowed is a failure before the effect.  The column collation, the conversion
  of date-times and the clock of the server are parameters (mysql_cfg).
\<close>

section \<open>Rows and tables\<close>

datatype meeting_status = Scheduled | InProgress | Ended | Cancelled

datatype visibility = VisPublic | VisPrivate

record user_row =
  ur_id :: nat
  ur_username :: string
  ur_email :: string
  ur_password_hash :: string
  ur_display_name :: string
  ur_avatar :: "string option"

record meeting_row =
  mr_id :: u64
  mr_code :: string
  mr_title :: string
  mr_creator :: u64
  mr_status :: meeting_status
  mr_visibility :: visibility
  mr_password_hash :: "string option"
  mr_max_participants :: nat
  mr_scheduled_at :: "int option"
  mr_started_at :: "int option"
  mr_ended_at :: "int option"
  mr_created_at :: int

record participant_row =
  pr_meeting :: u64
  pr_user :: nat
  pr_status :: nat
  pr_planned_at :: int
  pr_joined_at :: "int option"
  pr_left_at :: "int option"

record message_row =
  xr_id :: u64
  xr_meeting :: u64
  xr_sender :: int
  xr_receiver :: "u64 option"
  xr_client_msg_id :: string
  xr_content :: string
  xr_content_type :: nat
  xr_created_at :: int

datatype fault = NoFault | FailBefore | FailAfter

record db =
  db_users :: "user_row list"
  db_meetings :: "meeting_row list"
  db_participants :: "participant_row list"
  db_messages :: "message_row list"
  db_next_user :: nat
  db_next_meeting :: u64
  db_next_message :: u64
  db_faults :: "fault list"

record mysql_cfg =
  my_coll :: "string \<Rightarrow> string"
  my_now :: int
  my_format :: "int \<Rightarrow> string"
  my_datetime :: "string \<Rightarrow> int option"

section \<open>Statements\<close>

text \<open>One statement.  Its own error (a duplicate key is 1062, a bad value another
  code) is Inl; None is any other SQLException.\<close>

datatype sql_error = Duplicate1062 | OtherSqlError

definition next_fault :: "db \<Rightarrow> fault" where
  "next_fault d = (case db_faults d of [] \<Rightarrow> NoFault | f # _ \<Rightarrow> f)"

definition pop_fault :: "db \<Rightarrow> db" where
  "pop_fault d = d\<lparr>db_faults := tl (db_faults d)\<rparr>"

definition statement :: "(db \<Rightarrow> (sql_error + 'a) \<times> db) \<Rightarrow> db \<Rightarrow> (sql_error + 'a) \<times> db" where
  "statement stmt d =
     (case next_fault d of
        NoFault \<Rightarrow> stmt (pop_fault d)
      | FailBefore \<Rightarrow> (Inl OtherSqlError, pop_fault d)
      | FailAfter \<Rightarrow> (Inl OtherSqlError, snd (stmt (pop_fault d))))"

definition query :: "(db \<Rightarrow> 'a) \<Rightarrow> db \<Rightarrow> (sql_error + 'a) \<times> db" where
  "query f = statement (\<lambda>d. (Inr (f d), d))"

text \<open>The tables without the failure script.\<close>

definition tables :: "db \<Rightarrow> db" where
  "tables d = d\<lparr>db_faults := []\<rparr>"

lemma tables_pop [simp]: "tables (pop_fault d) = tables d"
  by (simp add: tables_def pop_fault_def)

lemma query_tables [simp]: "tables (snd (query f d)) = tables d"
  by (simp add: query_def statement_def split: fault.split)

lemma query_result: "fst (query f d) = Inr v \<Longrightarrow> v = f (pop_fault d)"
  by (simp add: query_def statement_def split: fault.splits)

lemma pop_fault_fields [simp]:
  "db_users (pop_fault d) = db_users d" "db_meetings (pop_fault d) = db_meetings d"
  "db_participants (pop_fault d) = db_participants d" "db_messages (pop_fault d) = db_messages d"
  "db_next_message (pop_fault d) = db_next_message d" "db_next_meeting (pop_fault d) = db_next_meeting d"
  "db_next_user (pop_fault d) = db_next_user d"
  by (simp_all add: pop_fault_def)

section \<open>Accounts\<close>

definition find_user_by_email :: "mysql_cfg \<Rightarrow> string \<Rightarrow> db \<Rightarrow> user_row option" where
  "find_user_by_email cfg email d = find (\<lambda>u. my_coll cfg (ur_email u) = my_coll cfg email) (db_users d)"

definition find_user :: "int \<Rightarrow> db \<Rightarrow> user_row option" where
  "find_user uid d = find (\<lambda>u. int (ur_id u) = uid) (db_users d)"

text \<open>A text in a column VARCHAR(n), which counts the characters of UTF-8 (a byte from 128 to 191
  continues one).  In the strict mode a longer text is an error, 1406, unless only spaces are cut
  off.\<close>

fun utf8_take :: "nat \<Rightarrow> string \<Rightarrow> string" where
  "utf8_take n [] = []"
| "utf8_take n (c # cs) =
     (if 128 \<le> (of_char c :: nat) \<and> (of_char c :: nat) < 192 then c # utf8_take n cs
      else case n of 0 \<Rightarrow> [] | Suc m \<Rightarrow> c # utf8_take m cs)"

definition varchar :: "nat \<Rightarrow> string \<Rightarrow> string option" where
  "varchar n s = (let t = utf8_take n s in
     if list_all (\<lambda>c. c = CHR '' '') (drop (length t) s) then Some t else None)"

lemma utf8_take_short: "length s \<le> n \<Longrightarrow> utf8_take n s = s"
  by (induction n s rule: utf8_take.induct) (auto split: nat.split)

lemma varchar_fits: "utf8_take n s = s \<Longrightarrow> varchar n s = Some s"
  by (simp add: varchar_def)

lemma utf8_take_more: "utf8_take n s = s \<Longrightarrow> n \<le> m \<Longrightarrow> utf8_take m s = s"
proof (induction n s arbitrary: m rule: utf8_take.induct)
  case (2 n c cs)
  show ?case
  proof (cases "128 \<le> (of_char c :: nat) \<and> (of_char c :: nat) < 192")
    case True
    then show ?thesis using 2 by simp
  next
    case False
    obtain k where k: "n = Suc k" "utf8_take k cs = cs" using 2(3) False by (cases n) auto
    obtain j where j: "m = Suc j" "k \<le> j" using 2(4) k(1) by (cases m) simp_all
    show ?thesis using 2(2) [OF False k j(2)] False j(1) by auto
  qed
qed simp

definition insert_user :: "mysql_cfg \<Rightarrow> string \<Rightarrow> string \<Rightarrow> string \<Rightarrow> db \<Rightarrow> (sql_error + nat) \<times> db" where
  "insert_user cfg name email hash d =
     (case (varchar 64 name, varchar 254 email, varchar 255 hash, varchar 128 name) of
        (Some username, Some address, Some password_hash, Some display) \<Rightarrow>
          (if \<exists>u \<in> set (db_users d). my_coll cfg (ur_username u) = my_coll cfg username
                                  \<or> my_coll cfg (ur_email u) = my_coll cfg address
           then (Inl Duplicate1062, d\<lparr>db_next_user := db_next_user d + 1\<rparr>)
           else (Inr (db_next_user d),
                 d\<lparr>db_users := db_users d @ [\<lparr>ur_id = db_next_user d, ur_username = username, ur_email = address,
                     ur_password_hash = password_hash, ur_display_name = display, ur_avatar = None\<rparr>],
                   db_next_user := db_next_user d + 1\<rparr>))
      | _ \<Rightarrow> (Inl OtherSqlError, d))"

text \<open>RegisterUser: the new id, which getInt narrows to 32 bits, 0 for a taken address or name, -1
  for a failure.\<close>

definition RegisterUser :: "mysql_cfg \<Rightarrow> string \<Rightarrow> string \<Rightarrow> string \<Rightarrow> db \<Rightarrow> int \<times> db" where
  "RegisterUser cfg name email hash d =
     (case query (find_user_by_email cfg email) d of
        (Inl _, d1) \<Rightarrow> (-1, d1)
      | (Inr (Some _), d1) \<Rightarrow> (0, d1)
      | (Inr None, d1) \<Rightarrow>
          (case statement (insert_user cfg name email hash) d1 of
             (Inl Duplicate1062, d2) \<Rightarrow> (0, d2)
           | (Inl OtherSqlError, d2) \<Rightarrow> (-1, d2)
           | (Inr i, d2) \<Rightarrow>
               (case query (\<lambda>_. i) d2 of
                  (Inl _, d3) \<Rightarrow> (-1, d3)
                | (Inr i', d3) \<Rightarrow> (signed_take_bit 31 (int i'), d3))))"

definition CheckPwd :: "mysql_cfg \<Rightarrow> string \<Rightarrow> db \<Rightarrow> string option \<times> db" where
  "CheckPwd cfg email d =
     (case query (find_user_by_email cfg email) d of
        (Inr (Some u), d1) \<Rightarrow> (if ur_password_hash u = [] then None else Some (ur_password_hash u), d1)
      | (_, d1) \<Rightarrow> (None, d1))"

definition UpdatePwd :: "mysql_cfg \<Rightarrow> string \<Rightarrow> string \<Rightarrow> db \<Rightarrow> bool \<times> db" where
  "UpdatePwd cfg email newpwd d =
     (case statement (\<lambda>d. let hit = (\<lambda>u. my_coll cfg (ur_email u) = my_coll cfg email) in
          (Inr (length (filter (\<lambda>u. hit u \<and> ur_password_hash u \<noteq> newpwd) (db_users d))),
           d\<lparr>db_users := map (\<lambda>u. if hit u then u\<lparr>ur_password_hash := newpwd\<rparr> else u) (db_users d)\<rparr>)) d of
        (Inl _, d1) \<Rightarrow> (False, d1)
      | (Inr n, d1) \<Rightarrow> (n \<noteq> 0, d1))"

record user_info =
  ui_uid :: int
  ui_username :: string
  ui_email :: string

definition GetUserInfo :: "mysql_cfg \<Rightarrow> string \<Rightarrow> db \<Rightarrow> user_info option \<times> db" where
  "GetUserInfo cfg email d =
     (case query (find_user_by_email cfg email) d of
        (Inr (Some u), d1) \<Rightarrow> (Some \<lparr>ui_uid = int (ur_id u), ui_username = ur_username u, ui_email = email\<rparr>, d1)
      | (_, d1) \<Rightarrow> (None, d1))"

text \<open>COALESCE(NULLIF(display_name, ''''), username).\<close>

definition display_name :: "mysql_cfg \<Rightarrow> user_row \<Rightarrow> string" where
  "display_name cfg u =
     (if my_coll cfg (ur_display_name u) = my_coll cfg [] then ur_username u else ur_display_name u)"

definition GetUserDisplayNameById :: "mysql_cfg \<Rightarrow> int \<Rightarrow> db \<Rightarrow> string option \<times> db" where
  "GetUserDisplayNameById cfg uid d =
     (if uid \<le> 0 then (None, d)
      else case query (find_user uid) d of
        (Inr (Some u), d1) \<Rightarrow> (if display_name cfg u = [] then None else Some (display_name cfg u), d1)
      | (_, d1) \<Rightarrow> (None, d1))"

section \<open>Meetings\<close>

record recent_meeting =
  rc_code :: string
  rc_title :: string
  rc_creator_name :: string
  rc_creator_avatar :: string
  rc_status :: meeting_status
  rc_requires_password :: bool
  rc_max_participants :: nat
  rc_scheduled_at :: string

record history_meeting =
  hm_code :: string
  hm_title :: string
  hm_creator_name :: string
  hm_creator_avatar :: string
  hm_started_at :: string
  hm_ended_at :: string

record meeting_info =
  mi_id :: u64
  mi_code :: string
  mi_title :: string
  mi_creator :: u64
  mi_status :: meeting_status
  mi_visibility :: visibility
  mi_requires_password :: bool
  mi_max_participants :: nat

definition text_of :: "string option \<Rightarrow> string" where
  "text_of v = (case v of None \<Rightarrow> [] | Some t \<Rightarrow> t)"

text \<open>COALESCE over nullable columns with a last one that is not null.\<close>

fun coalesce :: "int option list \<Rightarrow> int \<Rightarrow> int" where
  "coalesce [] dflt = dflt"
| "coalesce (None # vs) dflt = coalesce vs dflt"
| "coalesce (Some v # _) _ = v"

text \<open>The join of a user's participations with the meeting and its creator.\<close>

definition joined_rows :: "int \<Rightarrow> db \<Rightarrow> (participant_row \<times> meeting_row \<times> user_row) list" where
  "joined_rows uid d =
     concat (map (\<lambda>p. concat (map (\<lambda>m. map (\<lambda>u. (p, m, u))
         (filter (\<lambda>u. (of_nat (ur_id u) :: u64) = mr_creator m) (db_users d)))
       (filter (\<lambda>m. mr_id m = pr_meeting p) (db_meetings d))))
     (filter (\<lambda>p. int (pr_user p) = uid) (db_participants d)))"

definition recent_of :: "mysql_cfg \<Rightarrow> participant_row \<times> meeting_row \<times> user_row \<Rightarrow> recent_meeting" where
  "recent_of cfg r = (case r of (p, m, u) \<Rightarrow>
     \<lparr>rc_code = mr_code m, rc_title = mr_title m, rc_creator_name = ur_display_name u,
      rc_creator_avatar = text_of (ur_avatar u), rc_status = mr_status m,
      rc_requires_password = (mr_password_hash m \<noteq> None),
      rc_max_participants = mr_max_participants m,
      rc_scheduled_at = text_of (map_option (my_format cfg) (mr_scheduled_at m))\<rparr>)"

text \<open>ORDER BY the two COALESCE keys, both descending, LIMIT 5.\<close>

definition recent_key :: "participant_row \<times> meeting_row \<times> user_row \<Rightarrow> int \<times> int" where
  "recent_key r = (case r of (p, m, u) \<Rightarrow>
     (- coalesce [pr_joined_at p] (pr_planned_at p),
      - coalesce [mr_ended_at m, mr_started_at m, mr_scheduled_at m] (mr_created_at m)))"

definition GetMeetingRecently :: "mysql_cfg \<Rightarrow> int \<Rightarrow> db \<Rightarrow> recent_meeting list option \<times> db" where
  "GetMeetingRecently cfg uid d =
     (if uid \<le> 0 then (None, d)
      else case query (\<lambda>d. map (recent_of cfg) (take 5 (sort_key recent_key
               (filter (\<lambda>(p, m, u). pr_status p \<in> {0, 1} \<and> mr_status m \<noteq> Cancelled)
                 (joined_rows uid d))))) d of
        (Inr ms, d1) \<Rightarrow> (Some ms, d1)
      | (Inl _, d1) \<Rightarrow> (None, d1))"

definition history_of :: "mysql_cfg \<Rightarrow> participant_row \<times> meeting_row \<times> user_row \<Rightarrow> history_meeting" where
  "history_of cfg r = (case r of (p, m, u) \<Rightarrow>
     \<lparr>hm_code = mr_code m, hm_title = mr_title m, hm_creator_name = ur_display_name u,
      hm_creator_avatar = text_of (ur_avatar u),
      hm_started_at = text_of (map_option (my_format cfg) (mr_started_at m)),
      hm_ended_at = text_of (map_option (my_format cfg) (mr_ended_at m))\<rparr>)"

text \<open>A null ended_at sorts last in descending order.\<close>

definition history_key :: "participant_row \<times> meeting_row \<times> user_row \<Rightarrow> (nat \<times> int) \<times> int" where
  "history_key r = (case r of (p, m, u) \<Rightarrow>
     (case mr_ended_at m of Some t \<Rightarrow> (0, - t) | None \<Rightarrow> (1, 0), - mr_created_at m))"

definition GetHistoryMeeting :: "mysql_cfg \<Rightarrow> int \<Rightarrow> db \<Rightarrow> history_meeting list option \<times> db" where
  "GetHistoryMeeting cfg uid d =
     (if uid \<le> 0 then (None, d)
      else case query (\<lambda>d. map (history_of cfg) (take 5 (sort_key history_key
               (filter (\<lambda>(p, m, u). pr_status p = 1 \<and> mr_status m = Ended)
                 (joined_rows uid d))))) d of
        (Inr ms, d1) \<Rightarrow> (Some ms, d1)
      | (Inl _, d1) \<Rightarrow> (None, d1))"

definition info_of :: "meeting_row \<Rightarrow> meeting_info" where
  "info_of m = \<lparr>mi_id = mr_id m, mi_code = mr_code m, mi_title = mr_title m, mi_creator = mr_creator m,
     mi_status = mr_status m, mi_visibility = mr_visibility m,
     mi_requires_password = (mr_password_hash m \<noteq> None),
     mi_max_participants = mr_max_participants m\<rparr>"

definition find_meeting :: "u64 \<Rightarrow> db \<Rightarrow> meeting_row option" where
  "find_meeting i d = find (\<lambda>m. mr_id m = i) (db_meetings d)"

text \<open>meeting_code has a binary collation: codes are compared exactly.\<close>

text \<open>Meeting codes have the collation ascii_bin, which pads: spaces at the end do not count.\<close>

definition code_key :: "string \<Rightarrow> string" where
  "code_key code = rev (dropWhile (\<lambda>c. c = CHR '' '') (rev code))"

definition GetMeetingInfoByCode :: "string \<Rightarrow> db \<Rightarrow> meeting_info option \<times> db" where
  "GetMeetingInfoByCode code d =
     (case query (\<lambda>d. find (\<lambda>m. code_key (mr_code m) = code_key code) (db_meetings d)) d of
        (Inr (Some m), d1) \<Rightarrow> (Some (info_of m), d1)
      | (_, d1) \<Rightarrow> (None, d1))"

text \<open>The second component is the storage_error flag.\<close>

definition GetMeetingInfoById :: "u64 \<Rightarrow> db \<Rightarrow> (meeting_info option \<times> bool) \<times> db" where
  "GetMeetingInfoById i d =
     (if i = 0 then ((None, False), d)
      else case query (find_meeting i) d of
        (Inr (Some m), d1) \<Rightarrow> ((Some (info_of m), False), d1)
      | (Inr None, d1) \<Rightarrow> ((None, False), d1)
      | (Inl _, d1) \<Rightarrow> ((None, True), d1))"

definition update_meetings :: "(meeting_row \<Rightarrow> bool) \<Rightarrow> (meeting_row \<Rightarrow> meeting_row) \<Rightarrow> db
    \<Rightarrow> (sql_error + nat) \<times> db" where
  "update_meetings hit f d =
     (Inr (length (filter hit (db_meetings d))),
      d\<lparr>db_meetings := map (\<lambda>m. if hit m then f m else m) (db_meetings d)\<rparr>)"

definition may_start :: "u64 \<Rightarrow> int \<Rightarrow> meeting_row \<Rightarrow> bool" where
  "may_start i uid m \<longleftrightarrow> mr_id m = i \<and> mr_creator m = of_int uid \<and> mr_status m = Scheduled"

definition Db_StartMeeting :: "mysql_cfg \<Rightarrow> u64 \<Rightarrow> int \<Rightarrow> db \<Rightarrow> bool \<times> db" where
  "Db_StartMeeting cfg i uid d =
     (if i = 0 \<or> uid \<le> 0 then (False, d)
      else case statement (update_meetings (may_start i uid)
               (\<lambda>m. m\<lparr>mr_status := InProgress, mr_started_at := Some (my_now cfg), mr_ended_at := None\<rparr>)) d of
        (Inr n, d1) \<Rightarrow> (n = 1, d1)
      | (Inl _, d1) \<Rightarrow> (False, d1))"

definition may_end :: "u64 \<Rightarrow> int \<Rightarrow> meeting_row \<Rightarrow> bool" where
  "may_end i uid m \<longleftrightarrow> mr_id m = i \<and> mr_creator m = of_int uid \<and> mr_status m = InProgress"

definition Db_EndMeeting :: "mysql_cfg \<Rightarrow> u64 \<Rightarrow> int \<Rightarrow> db \<Rightarrow> bool \<times> db" where
  "Db_EndMeeting cfg i uid d =
     (if i = 0 \<or> uid \<le> 0 then (False, d)
      else case statement (update_meetings (may_end i uid)
               (\<lambda>m. m\<lparr>mr_status := Ended, mr_ended_at := Some (my_now cfg)\<rparr>)) d of
        (Inr n, d1) \<Rightarrow> (n = 1, d1)
      | (Inl _, d1) \<Rightarrow> (False, d1))"

definition GetMeetingPasswordHash :: "u64 \<Rightarrow> db \<Rightarrow> string option \<times> db" where
  "GetMeetingPasswordHash i d =
     (if i = 0 then (None, d)
      else case query (find_meeting i) d of
        (Inr (Some m), d1) \<Rightarrow> ((case mr_password_hash m of
            None \<Rightarrow> None | Some h \<Rightarrow> if h = [] then None else Some h), d1)
      | (_, d1) \<Rightarrow> (None, d1))"

section \<open>Creating and joining a meeting\<close>

record create_info =
  ci_user_id :: int
  ci_title :: string
  ci_scheduled_at :: string
  ci_password_hash :: string

definition insert_meeting :: "mysql_cfg \<Rightarrow> create_info \<Rightarrow> string \<Rightarrow> db \<Rightarrow> (sql_error + u64) \<times> db" where
  "insert_meeting cfg ci code d =
     (let sched = (if ci_scheduled_at ci = [] then Some None
                else map_option Some (my_datetime cfg (ci_scheduled_at ci)));
          bump = d\<lparr>db_next_meeting := db_next_meeting d + 1\<rparr> in
      case sched of
        None \<Rightarrow> (Inl OtherSqlError, d)
      | Some time \<Rightarrow>
          if \<exists>m \<in> set (db_meetings d). code_key (mr_code m) = code_key code then (Inl Duplicate1062, bump)
          else (Inr (db_next_meeting d),
                bump\<lparr>db_meetings := db_meetings d @ [\<lparr>mr_id = db_next_meeting d, mr_code = code,
                  mr_title = ci_title ci, mr_creator = of_int (ci_user_id ci), mr_status = Scheduled,
                  mr_visibility = VisPublic,
                  mr_password_hash = (if ci_password_hash ci = [] then None else Some (ci_password_hash ci)),
                  mr_max_participants = 30, mr_scheduled_at = time, mr_started_at = time,
                  mr_ended_at = None, mr_created_at = my_now cfg\<rparr>]\<rparr>))"

text \<open>The attempts with fresh codes: a duplicate code is retried, any other error ends.\<close>

fun try_insert :: "mysql_cfg \<Rightarrow> create_info \<Rightarrow> string list \<Rightarrow> db \<Rightarrow> (sql_error + (string \<times> u64) option) \<times> db" where
  "try_insert cfg ci [] d = (Inr None, d)"
| "try_insert cfg ci (code # codes) d =
     (case statement (insert_meeting cfg ci code) d of
        (Inr i, d1) \<Rightarrow> (Inr (Some (code, i)), d1)
      | (Inl Duplicate1062, d1) \<Rightarrow> try_insert cfg ci codes d1
      | (Inl OtherSqlError, d1) \<Rightarrow> (Inl OtherSqlError, d1))"

definition insert_participant :: "mysql_cfg \<Rightarrow> u64 \<Rightarrow> int \<Rightarrow> db \<Rightarrow> (sql_error + nat) \<times> db" where
  "insert_participant cfg i uid d =
     (if \<exists>p \<in> set (db_participants d). pr_meeting p = i \<and> int (pr_user p) = uid
      then (Inl Duplicate1062, d)
      else (Inr 1, d\<lparr>db_participants := db_participants d @ [\<lparr>pr_meeting = i, pr_user = nat uid,
              pr_status = 0, pr_planned_at = my_now cfg, pr_joined_at = None, pr_left_at = None\<rparr>]\<rparr>))"

text \<open>What a rollback restores: the rows, not the counters nor the script.\<close>

definition rollback_to :: "db \<Rightarrow> db \<Rightarrow> db" where
  "rollback_to saved d = d\<lparr>db_meetings := db_meetings saved, db_participants := db_participants saved\<rparr>"

definition Db_CreateMeeting :: "mysql_cfg \<Rightarrow> string list \<Rightarrow> create_info \<Rightarrow> db
    \<Rightarrow> recent_meeting option \<times> db" where
  "Db_CreateMeeting cfg codes ci d =
     (if ci_user_id ci \<le> 0 \<or> ci_title ci = [] \<or> length (ci_title ci) > 200 then (None, d)
      else case query (find_user (ci_user_id ci)) d of
        (Inl _, d1) \<Rightarrow> (None, d1)
      | (Inr None, d1) \<Rightarrow> (None, d1)
      | (Inr (Some u), d1) \<Rightarrow>
        (case statement (\<lambda>d. (Inr (), d)) d1 of
           (Inl _, d2) \<Rightarrow> (None, d2)
         | (Inr _, d2) \<Rightarrow>
           (case try_insert cfg ci (take 5 codes) d2 of
              (Inl _, d3) \<Rightarrow> (None, rollback_to d2 d3)
            | (Inr None, d3) \<Rightarrow> (None, rollback_to d2 d3)
            | (Inr (Some (code, i)), d3) \<Rightarrow>
              (case query (\<lambda>_. i) d3 of
                 (Inl _, d4) \<Rightarrow> (None, rollback_to d2 d4)
               | (Inr i', d4) \<Rightarrow>
                 (case statement (insert_participant cfg i' (ci_user_id ci)) d4 of
                    (Inl _, d5) \<Rightarrow> (None, rollback_to d2 d5)
                  | (Inr _, d5) \<Rightarrow>
                    (case next_fault d5 of
                       NoFault \<Rightarrow>
                         (Some \<lparr>rc_code = code, rc_title = ci_title ci, rc_creator_name = ur_display_name u,
                            rc_creator_avatar = text_of (ur_avatar u), rc_status = Scheduled,
                            rc_requires_password = (ci_password_hash ci \<noteq> []), rc_max_participants = 30,
                            rc_scheduled_at = ci_scheduled_at ci\<rparr>, pop_fault d5)
                     | FailBefore \<Rightarrow> (None, rollback_to d2 (pop_fault d5))
                     | FailAfter \<Rightarrow> (None, pop_fault d5)))))))"

definition rejoin :: "mysql_cfg \<Rightarrow> participant_row \<Rightarrow> participant_row" where
  "rejoin cfg p = p\<lparr>pr_status := 1,
     pr_joined_at := (case pr_joined_at p of None \<Rightarrow> Some (my_now cfg) | t \<Rightarrow> t), pr_left_at := None\<rparr>"

text \<open>INSERT ... ON DUPLICATE KEY UPDATE; a missing parent row violates a foreign key.\<close>

definition upsert_participant :: "mysql_cfg \<Rightarrow> u64 \<Rightarrow> int \<Rightarrow> db \<Rightarrow> (sql_error + nat) \<times> db" where
  "upsert_participant cfg i uid d =
     (if find_meeting i d = None \<or> find_user uid d = None then (Inl OtherSqlError, d)
      else let hit = (\<lambda>p. pr_meeting p = i \<and> int (pr_user p) = uid) in
        if \<exists>p \<in> set (db_participants d). hit p
        then (Inr 2, d\<lparr>db_participants := map (\<lambda>p. if hit p then rejoin cfg p else p) (db_participants d)\<rparr>)
        else (Inr 1, d\<lparr>db_participants := db_participants d @ [\<lparr>pr_meeting = i, pr_user = nat uid,
               pr_status = 1, pr_planned_at = my_now cfg, pr_joined_at = Some (my_now cfg),
               pr_left_at = None\<rparr>]\<rparr>))"

definition UpdateMeetingPart :: "mysql_cfg \<Rightarrow> meeting_info \<Rightarrow> int \<Rightarrow> db \<Rightarrow> bool \<times> db" where
  "UpdateMeetingPart cfg mi uid d =
     (if mi_id mi = 0 \<or> uid \<le> 0 then (False, d)
      else if mi_visibility mi = VisPrivate \<and> mi_creator mi \<noteq> of_int uid then
        (let hit = (\<lambda>p. pr_meeting p = mi_id mi \<and> int (pr_user p) = uid \<and> pr_status p \<noteq> 2) in
         case query (\<lambda>d. \<exists>p \<in> set (db_participants d). hit p) d of
           (Inl _, d1) \<Rightarrow> (False, d1)
         | (Inr False, d1) \<Rightarrow> (False, d1)
         | (Inr True, d1) \<Rightarrow>
             (case statement (\<lambda>d. (Inr (),
                 d\<lparr>db_participants := map (\<lambda>p. if hit p then rejoin cfg p else p) (db_participants d)\<rparr>)) d1 of
                (Inl _, d2) \<Rightarrow> (False, d2)
              | (Inr _, d2) \<Rightarrow> (True, d2)))
      else case statement (upsert_participant cfg (mi_id mi) uid) d of
        (Inl _, d1) \<Rightarrow> (False, d1)
      | (Inr _, d1) \<Rightarrow> (True, d1))"

section \<open>Chat messages\<close>

record message_info =
  mg_id :: u64
  mg_meeting :: u64
  mg_sender :: int
  mg_receiver :: "u64 option"
  mg_client_msg_id :: string
  mg_content :: string
  mg_content_type :: nat
  mg_created_at :: string

definition FillMeetingMessage :: "mysql_cfg \<Rightarrow> message_row \<Rightarrow> message_info" where
  "FillMeetingMessage cfg r = \<lparr>mg_id = xr_id r, mg_meeting = xr_meeting r, mg_sender = xr_sender r,
     mg_receiver = xr_receiver r, mg_client_msg_id = xr_client_msg_id r, mg_content = xr_content r,
     mg_content_type = xr_content_type r, mg_created_at = my_format cfg (xr_created_at r)\<rparr>"

definition same_key :: "mysql_cfg \<Rightarrow> message_info \<Rightarrow> message_row \<Rightarrow> bool" where
  "same_key cfg m r \<longleftrightarrow> xr_meeting r = mg_meeting m \<and> xr_sender r = mg_sender m
     \<and> my_coll cfg (xr_client_msg_id r) = my_coll cfg (mg_client_msg_id m)"

definition LoadMeetingMessageById :: "mysql_cfg \<Rightarrow> u64 \<Rightarrow> db \<Rightarrow> (sql_error + message_info option) \<times> db" where
  "LoadMeetingMessageById cfg i =
     query (\<lambda>d. map_option (FillMeetingMessage cfg) (find (\<lambda>r. xr_id r = i) (db_messages d)))"

definition LoadMeetingMessageByUniqueKey :: "mysql_cfg \<Rightarrow> message_info \<Rightarrow> db
    \<Rightarrow> (sql_error + message_info option) \<times> db" where
  "LoadMeetingMessageByUniqueKey cfg m =
     query (\<lambda>d. map_option (FillMeetingMessage cfg) (find (same_key cfg m) (db_messages d)))"

definition row_of :: "mysql_cfg \<Rightarrow> u64 \<Rightarrow> message_info \<Rightarrow> message_row" where
  "row_of cfg i m = \<lparr>xr_id = i, xr_meeting = mg_meeting m, xr_sender = mg_sender m,
     xr_receiver = mg_receiver m, xr_client_msg_id = mg_client_msg_id m, xr_content = mg_content m,
     xr_content_type = mg_content_type m, xr_created_at = my_now cfg\<rparr>"

text \<open>The insert: a duplicate of the unique key is 1062, a missing meeting or user
  violates a foreign key.\<close>

definition insert_message :: "mysql_cfg \<Rightarrow> message_info \<Rightarrow> db \<Rightarrow> (sql_error + u64) \<times> db" where
  "insert_message cfg m d =
     (let i = db_next_message d; bump = d\<lparr>db_next_message := i + 1\<rparr> in
      if \<exists>r \<in> set (db_messages d). same_key cfg m r then (Inl Duplicate1062, bump)
      else if find_meeting (mg_meeting m) d = None \<or> find_user (mg_sender m) d = None
           \<or> (case mg_receiver m of None \<Rightarrow> False | Some r \<Rightarrow> find_user (uint r) d = None)
      then (Inl OtherSqlError, bump)
      else (Inr i, bump\<lparr>db_messages := db_messages d @ [row_of cfg i m]\<rparr>))"

definition valid_message :: "message_info \<Rightarrow> bool" where
  "valid_message m \<longleftrightarrow> mg_meeting m \<noteq> 0 \<and> mg_sender m > 0 \<and> mg_client_msg_id m \<noteq> []
     \<and> length (mg_client_msg_id m) \<le> 128 \<and> mg_content m \<noteq> [] \<and> length (mg_content m) \<le> 65535
     \<and> mg_receiver m \<noteq> Some 0"

text \<open>The stored message on success.\<close>

definition SaveMeetingMessage :: "mysql_cfg \<Rightarrow> message_info \<Rightarrow> db \<Rightarrow> message_info option \<times> db" where
  "SaveMeetingMessage cfg m d =
     (if \<not> valid_message m then (None, d)
      else case statement (insert_message cfg m) d of
        (Inl Duplicate1062, d1) \<Rightarrow>
          (case LoadMeetingMessageByUniqueKey cfg m d1 of
             (Inl _, d2) \<Rightarrow> (None, d2) | (Inr r, d2) \<Rightarrow> (r, d2))
      | (Inl OtherSqlError, d1) \<Rightarrow> (None, d1)
      | (Inr i, d1) \<Rightarrow>
          (case query (\<lambda>_. i) d1 of
             (Inl _, d2) \<Rightarrow> (None, d2)
           | (Inr i', d2) \<Rightarrow>
               (case LoadMeetingMessageById cfg i' d2 of
                  (Inl _, d3) \<Rightarrow> (None, d3) | (Inr r, d3) \<Rightarrow> (r, d3))))"

definition NormalizeMessageLimit :: "nat \<Rightarrow> nat" where
  "NormalizeMessageLimit limit = (if limit = 0 then 50 else if limit > 100 then 100 else limit)"

text \<open>The inner query takes the newest rows, the outer one orders them by id.\<close>

definition newest :: "nat \<Rightarrow> message_row list \<Rightarrow> message_row list" where
  "newest n rows = sort_key xr_id (take n (rev (sort_key xr_id rows)))"

definition before_id :: "u64 \<Rightarrow> message_row \<Rightarrow> bool" where
  "before_id b r \<longleftrightarrow> b = 0 \<or> xr_id r < b"

definition GetMeetingGroupMessages :: "mysql_cfg \<Rightarrow> u64 \<Rightarrow> u64 \<Rightarrow> nat \<Rightarrow> db
    \<Rightarrow> message_info list option \<times> db" where
  "GetMeetingGroupMessages cfg i before limit d =
     (if i = 0 then (None, d)
      else case query (\<lambda>d. map (FillMeetingMessage cfg) (newest (NormalizeMessageLimit limit)
               (filter (\<lambda>r. xr_meeting r = i \<and> xr_receiver r = None \<and> before_id before r)
                 (db_messages d)))) d of
        (Inr ms, d1) \<Rightarrow> (Some ms, d1)
      | (Inl _, d1) \<Rightarrow> (None, d1))"

definition between :: "int \<Rightarrow> int \<Rightarrow> message_row \<Rightarrow> bool" where
  "between a b r \<longleftrightarrow> (case xr_receiver r of None \<Rightarrow> False
     | Some t \<Rightarrow> xr_sender r = a \<and> uint t = b \<or> xr_sender r = b \<and> uint t = a)"

definition GetMeetingPrivateMessages :: "mysql_cfg \<Rightarrow> u64 \<Rightarrow> int \<Rightarrow> int \<Rightarrow> u64 \<Rightarrow> nat \<Rightarrow> db
    \<Rightarrow> message_info list option \<times> db" where
  "GetMeetingPrivateMessages cfg i uid peer before limit d =
     (if i = 0 \<or> uid \<le> 0 \<or> peer \<le> 0 \<or> uid = peer then (None, d)
      else case query (\<lambda>d. map (FillMeetingMessage cfg) (newest (NormalizeMessageLimit limit)
               (filter (\<lambda>r. xr_meeting r = i \<and> between uid peer r \<and> before_id before r)
                 (db_messages d)))) d of
        (Inr ms, d1) \<Rightarrow> (Some ms, d1)
      | (Inl _, d1) \<Rightarrow> (None, d1))"

end
