(* ===== verification/MySqlProps.thy ===== *)
theory MySqlProps
  imports MySqlStore
begin

text \<open>
  Properties of the MySQL operations: the meeting life cycle, the unique key of
  chat messages under lost answers and retries, and the history queries.
\<close>

section \<open>Statements and the life cycle\<close>

fun rank :: "meeting_status \<Rightarrow> nat" where
  "rank Scheduled = 0" | "rank InProgress = 1" | "rank Ended = 2" | "rank Cancelled = 3"

text \<open>A change of the meeting rows that keeps every meeting, its creator, and never
  moves its status backwards.\<close>

definition follows :: "meeting_row \<Rightarrow> meeting_row \<Rightarrow> bool" where
  "follows m m' \<longleftrightarrow> mr_creator m' = mr_creator m \<and> rank (mr_status m) \<le> rank (mr_status m')"

definition advances :: "db \<Rightarrow> db \<Rightarrow> bool" where
  "advances d d' \<longleftrightarrow> (\<forall>i. case find_meeting i d of None \<Rightarrow> True
     | Some m \<Rightarrow> (case find_meeting i d' of None \<Rightarrow> False | Some m' \<Rightarrow> follows m m'))"

lemma advancesD: "advances d d' \<Longrightarrow> find_meeting i d = Some m \<Longrightarrow>
  \<exists>m'. find_meeting i d' = Some m' \<and> follows m m'"
  unfolding advances_def by (drule spec [of _ i]) (auto split: option.splits)

lemma follows_refl [simp]: "follows m m"
  by (simp add: follows_def)

lemma follows_trans: "follows a b \<Longrightarrow> follows b c \<Longrightarrow> follows a c"
  by (simp add: follows_def)

lemma advances_same: "db_meetings d' = db_meetings d \<Longrightarrow> advances d d'"
  by (auto simp: advances_def find_meeting_def split: option.split)

lemma advances_refl [simp]: "advances d d"
  by (rule advances_same) simp

lemma advances_trans [trans]:
  assumes "advances a b" "advances b c" shows "advances a c"
  unfolding advances_def
proof
  fix i
  show "case find_meeting i a of None \<Rightarrow> True
     | Some m \<Rightarrow> (case find_meeting i c of None \<Rightarrow> False | Some m' \<Rightarrow> follows m m')"
  proof (cases "find_meeting i a")
    case (Some m)
    then show ?thesis
      using advancesD [OF assms(1) Some] advancesD [OF assms(2), of i] follows_trans by fastforce
  qed simp
qed

lemma find_meeting_pop [simp]: "find_meeting i (pop_fault d) = find_meeting i d"
  by (simp add: find_meeting_def)

lemma advances_pop [simp]:
  "advances (pop_fault d) d' = advances d d'" "advances d (pop_fault d') = advances d d'"
  by (simp_all add: advances_def cong: option.case_cong)

lemma statement_advances:
  assumes "\<And>d. advances d (snd (stmt d))" shows "advances d (snd (statement stmt d))"
  using assms [of "pop_fault d"] by (simp add: statement_def split: fault.split)

lemma query_meetings [simp]: "db_meetings (snd (query f d)) = db_meetings d"
  by (simp add: query_def statement_def split: fault.split)

lemma find_map:
  assumes "\<And>m. mr_id (f m) = mr_id m"
  shows "find (\<lambda>m. mr_id m = i) (map f ms) = map_option f (find (\<lambda>m. mr_id m = i) ms)"
  using assms by (induction ms) auto

lemma find_append: "find P xs = Some x \<Longrightarrow> find P (xs @ ys) = Some x"
  by (induction xs) auto

lemma update_meetings_advances:
  assumes "\<And>m. hit m \<Longrightarrow> mr_id (f m) = mr_id m \<and> mr_creator (f m) = mr_creator m
      \<and> rank (mr_status m) \<le> rank (mr_status (f m))"
  shows "advances d (snd (update_meetings hit f d))"
proof -
  have "find (\<lambda>m. mr_id m = i) (map (\<lambda>m. if hit m then f m else m) ms)
      = map_option (\<lambda>m. if hit m then f m else m) (find (\<lambda>m. mr_id m = i) ms)" for i ms
    using assms by (intro find_map) auto
  then show ?thesis using assms
    by (auto simp: advances_def find_meeting_def update_meetings_def follows_def split: option.split)
qed

lemma Start_advances: "advances d (snd (Db_StartMeeting cfg i uid d))"
proof -
  have "advances d (snd (statement (update_meetings (may_start i uid)
      (\<lambda>m. m\<lparr>mr_status := InProgress, mr_started_at := Some (my_now cfg), mr_ended_at := None\<rparr>)) d))"
    by (intro statement_advances update_meetings_advances) (auto simp: may_start_def)
  then show ?thesis by (auto simp: Db_StartMeeting_def split: prod.splits sum.splits)
qed

lemma End_advances: "advances d (snd (Db_EndMeeting cfg i uid d))"
proof -
  have "advances d (snd (statement (update_meetings (may_end i uid)
      (\<lambda>m. m\<lparr>mr_status := Ended, mr_ended_at := Some (my_now cfg)\<rparr>)) d))"
    by (intro statement_advances update_meetings_advances) (auto simp: may_end_def)
  then show ?thesis by (auto simp: Db_EndMeeting_def split: prod.splits sum.splits)
qed

lemma statement_meetings:
  assumes "\<And>d. db_meetings (snd (stmt d)) = db_meetings d"
  shows "db_meetings (snd (statement stmt d)) = db_meetings d"
  using assms by (simp add: statement_def split: fault.split)

lemma UpdateMeetingPart_meetings: "db_meetings (snd (UpdateMeetingPart cfg mi uid d)) = db_meetings d"
proof -
  let ?hit = "\<lambda>p. pr_meeting p = mi_id mi \<and> int (pr_user p) = uid \<and> pr_status p \<noteq> 2"
  let ?upd = "\<lambda>d. (Inr () :: sql_error + unit,
      d\<lparr>db_participants := map (\<lambda>p. if ?hit p then rejoin cfg p else p) (db_participants d)\<rparr>)"
  obtain r1 d1 where q: "query (\<lambda>d. \<exists>p \<in> set (db_participants d). ?hit p) d = (r1, d1)" by (rule prod.exhaust)
  obtain r2 d2 where u: "statement ?upd d1 = (r2, d2)" by (rule prod.exhaust)
  obtain r3 d3 where i: "statement (upsert_participant cfg (mi_id mi) uid) d = (r3, d3)" by (rule prod.exhaust)
  have "db_meetings (snd (query (\<lambda>d. \<exists>p \<in> set (db_participants d). ?hit p) d)) = db_meetings d"
    by (rule query_meetings)
  then have "db_meetings d1 = db_meetings d" unfolding q by simp
  moreover have "db_meetings d2 = db_meetings d1"
    using statement_meetings [of ?upd d1] u by simp
  moreover have "db_meetings d3 = db_meetings d"
    using statement_meetings [of "upsert_participant cfg (mi_id mi) uid" d] i
    by (simp add: upsert_participant_def Let_def)
  ultimately show ?thesis
    using q u i by (simp add: UpdateMeetingPart_def split: sum.split bool.split)
qed

lemma insert_meeting_advances: "advances d (snd (insert_meeting cfg ci code d))"
  by (auto simp: insert_meeting_def Let_def advances_def find_meeting_def find_append split: option.split
      dest: find_append)

lemma try_insert_advances: "advances d (snd (try_insert cfg ci codes d))"
proof (induction codes arbitrary: d)
  case (Cons code codes)
  obtain r d1 where s: "statement (insert_meeting cfg ci code) d = (r, d1)" by (rule prod.exhaust)
  then have "advances d d1"
    using statement_advances [of "insert_meeting cfg ci code" d] insert_meeting_advances by simp
  then show ?case
    using s Cons.IH [of d1] by (auto split: sum.split sql_error.split intro: advances_trans)
qed simp


lemma insert_participant_meetings: "db_meetings (snd (insert_participant cfg i uid d)) = db_meetings d"
  by (simp add: insert_participant_def)

lemma Create_advances: "advances d (snd (Db_CreateMeeting cfg codes ci d))"
proof (cases "ci_user_id ci \<le> 0 \<or> ci_title ci = [] \<or> length (ci_title ci) > 200")
  case True
  then show ?thesis by (simp add: Db_CreateMeeting_def)
next
  case False
  obtain r1 d1 where q1: "query (find_user (ci_user_id ci)) d = (r1, d1)" by (rule prod.exhaust)
  obtain r2 d2 where q2: "statement (\<lambda>d. (Inr (), d)) d1 = (r2, d2)" by (rule prod.exhaust)
  obtain r3 d3 where q3: "try_insert cfg ci (take 5 codes) d2 = (r3, d3)" by (rule prod.exhaust)
  have m1: "db_meetings d1 = db_meetings d" using query_meetings [of "find_user (ci_user_id ci)" d] q1 by simp
  have m2: "db_meetings d2 = db_meetings d"
    using statement_meetings [of "\<lambda>d. (Inr (), d)" d1] q2 m1 by simp
  have a3: "advances d d3"
    using advances_trans [OF advances_same [OF m2] try_insert_advances [of d2 cfg ci "take 5 codes"]] q3 by simp
  have rb: "advances d (rollback_to d2 x)" for x
    by (rule advances_same) (simp add: rollback_to_def m2)
  show ?thesis
  proof (cases "\<exists>u code i. r1 = Inr (Some u) \<and> r2 = Inr () \<and> r3 = Inr (Some (code, i))")
    case True
    then obtain u code i where r: "r1 = Inr (Some u)" "r2 = Inr ()" "r3 = Inr (Some (code, i))" by blast
    obtain r4 d4 where q4: "query (\<lambda>_. i) d3 = (r4, d4)" by (rule prod.exhaust)
    have a4: "advances d d4"
      using advances_trans [OF a3 advances_same] query_meetings [of "\<lambda>_. i" d3] q4 by simp
    show ?thesis
    proof (cases r4)
      case (Inl e)
      then show ?thesis using False q1 q2 q3 q4 r rb by (simp add: Db_CreateMeeting_def)
    next
      case (Inr i')
      obtain r5 d5 where q5: "statement (insert_participant cfg i' (ci_user_id ci)) d4 = (r5, d5)"
        by (rule prod.exhaust)
      have "db_meetings d5 = db_meetings d4"
        using statement_meetings [of "insert_participant cfg i' (ci_user_id ci)" d4,
            OF insert_participant_meetings] q5 by simp
      then have "advances d d5" using advances_trans [OF a4 advances_same] by simp
      then show ?thesis using False q1 q2 q3 q4 q5 r Inr rb
        by (simp add: Db_CreateMeeting_def split: sum.split fault.split)
    qed
  next
    case other: False
    then show ?thesis
      using False q1 q2 q3 rb advances_same [OF m1] advances_same [OF m2]
      by (auto simp: Db_CreateMeeting_def split: sum.split option.split)
  qed
qed

lemma SaveMeetingMessage_meetings: "db_meetings (snd (SaveMeetingMessage cfg m d)) = db_meetings d"
proof -
  have ins: "db_meetings (snd (statement (insert_message cfg m) d)) = db_meetings d"
    by (rule statement_meetings) (simp add: insert_message_def Let_def)
  obtain r1 d1 where s: "statement (insert_message cfg m) d = (r1, d1)" by (rule prod.exhaust)
  obtain r2 d2 where l: "LoadMeetingMessageByUniqueKey cfg m d1 = (r2, d2)" by (rule prod.exhaust)
  have d1: "db_meetings d1 = db_meetings d" using ins s by simp
  have d2: "db_meetings d2 = db_meetings d"
    using l query_meetings d1 unfolding LoadMeetingMessageByUniqueKey_def by (metis snd_conv)
  have d3: "db_meetings d4 = db_meetings d"
    if "query (\<lambda>_. i) d1 = (r3, d3)" "LoadMeetingMessageById cfg j d3 = (r4, d4)" for i :: u64 and j r3 d3 r4 d4
    using that query_meetings d1 unfolding LoadMeetingMessageById_def by (metis snd_conv)
  have d3': "db_meetings d3 = db_meetings d" if "query (\<lambda>_. i) d1 = (r3, d3)" for i :: u64 and r3 d3
    using that query_meetings d1 by (metis snd_conv)
  show ?thesis
    using s l d1 d2 d3 d3'
    by (auto simp: SaveMeetingMessage_def split: sum.splits sql_error.splits prod.splits)
qed

section \<open>Runs of the store\<close>

datatype db_call =
    DbCreate "string list" create_info
  | DbStart u64 int
  | DbEnd u64 int
  | DbJoin meeting_info int
  | DbSave message_info
  | DbGroup u64 u64 nat
  | DbPrivate u64 int int u64 nat
  | DbInfo u64
  | DbInfoCode string
  | DbName int

fun db_step :: "mysql_cfg \<Rightarrow> db_call \<Rightarrow> db \<Rightarrow> db" where
  "db_step cfg (DbCreate codes ci) d = snd (Db_CreateMeeting cfg codes ci d)"
| "db_step cfg (DbStart i uid) d = snd (Db_StartMeeting cfg i uid d)"
| "db_step cfg (DbEnd i uid) d = snd (Db_EndMeeting cfg i uid d)"
| "db_step cfg (DbJoin mi uid) d = snd (UpdateMeetingPart cfg mi uid d)"
| "db_step cfg (DbSave m) d = snd (SaveMeetingMessage cfg m d)"
| "db_step cfg (DbGroup i b n) d = snd (GetMeetingGroupMessages cfg i b n d)"
| "db_step cfg (DbPrivate i u p b n) d = snd (GetMeetingPrivateMessages cfg i u p b n d)"
| "db_step cfg (DbInfo i) d = snd (GetMeetingInfoById i d)"
| "db_step cfg (DbInfoCode c) d = snd (GetMeetingInfoByCode c d)"
| "db_step cfg (DbName uid) d = snd (GetUserDisplayNameById cfg uid d)"

lemma snd_case_sum_pair: "snd (case x of (Inr v, d1) \<Rightarrow> (f v, d1) | (Inl e, d1) \<Rightarrow> (g e, d1)) = snd x"
  by (cases x) (auto split: sum.split)

lemma db_step_advances: "advances d (db_step cfg c d)"
proof (cases c)
  case (DbInfo i)
  obtain r d1 where q: "query (find_meeting i) d = (r, d1)" by (rule prod.exhaust)
  then have "db_meetings d1 = db_meetings d" using query_meetings by (metis snd_conv)
  then show ?thesis using DbInfo q
    by (auto simp: GetMeetingInfoById_def advances_same split: sum.split option.split)
next
  case (DbInfoCode code)
  obtain r d1 where q: "query (\<lambda>d. find (\<lambda>m. code_key (mr_code m) = code_key code) (db_meetings d)) d = (r, d1)"
    by (rule prod.exhaust)
  then have "db_meetings d1 = db_meetings d" using query_meetings by (metis snd_conv)
  then show ?thesis using DbInfoCode q
    by (auto simp: GetMeetingInfoByCode_def advances_same split: sum.split option.split)
next
  case (DbName uid)
  obtain r d1 where q: "query (find_user uid) d = (r, d1)" by (rule prod.exhaust)
  then have "db_meetings d1 = db_meetings d" using query_meetings by (metis snd_conv)
  then show ?thesis using DbName q
    by (auto simp: GetUserDisplayNameById_def advances_same split: sum.split option.split)
qed (auto simp: Create_advances Start_advances End_advances UpdateMeetingPart_meetings
    SaveMeetingMessage_meetings advances_same GetMeetingGroupMessages_def
    GetMeetingPrivateMessages_def snd_case_sum_pair)

definition db_run :: "mysql_cfg \<Rightarrow> db_call list \<Rightarrow> db \<Rightarrow> db" where
  "db_run cfg calls d = fold (db_step cfg) calls d"

lemma db_run_advances: "advances d (db_run cfg calls d)"
proof (induction calls arbitrary: d)
  case (Cons c cs)
  show ?case
    using advances_trans [OF db_step_advances [of d cfg c] Cons [of "db_step cfg c d"]]
    by (simp add: db_run_def)
qed (simp add: db_run_def)

section \<open>The unique key of messages\<close>

definition key_of :: "mysql_cfg \<Rightarrow> message_row \<Rightarrow> u64 \<times> int \<times> string" where
  "key_of cfg r = (xr_meeting r, xr_sender r, my_coll cfg (xr_client_msg_id r))"

definition messages_ok :: "mysql_cfg \<Rightarrow> db \<Rightarrow> bool" where
  "messages_ok cfg d \<longleftrightarrow> distinct (map xr_id (db_messages d)) \<and> distinct (map (key_of cfg) (db_messages d))
     \<and> list_all (\<lambda>r. unat (xr_id r) < unat (db_next_message d)) (db_messages d)"

lemma same_key_key: "same_key cfg m r \<longleftrightarrow>
    key_of cfg r = (mg_meeting m, mg_sender m, my_coll cfg (mg_client_msg_id m))"
  by (auto simp: same_key_def key_of_def)

lemma query_messages [simp]:
  "db_messages (snd (query f d)) = db_messages d" "db_next_message (snd (query f d)) = db_next_message d"
  by (simp_all add: query_def statement_def split: fault.split)

lemma query_result': "query f d = (Inr v, d1) \<Longrightarrow> v = f (pop_fault d)"
  using query_result [of f d v] by simp

lemma insert_message_cases:
  assumes "messages_ok cfg d" "unat (db_next_message d) + 1 < 2 ^ 64"
  shows "messages_ok cfg (snd (insert_message cfg m d))"
    and "fst (insert_message cfg m d) = Inr i \<Longrightarrow>
      i = db_next_message d \<and> db_messages (snd (insert_message cfg m d)) = db_messages d @ [row_of cfg i m]"
    and "fst (insert_message cfg m d) = Inl e \<Longrightarrow> db_messages (snd (insert_message cfg m d)) = db_messages d"
proof -
  have u: "unat (db_next_message d + 1) = Suc (unat (db_next_message d))"
    using assms(2) by (subst unat_word_ariths) simp
  have fresh: "db_next_message d \<notin> xr_id ` set (db_messages d)"
    using assms(1) by (auto simp: messages_ok_def list_all_iff)
  have less: "list_all (\<lambda>r. unat (xr_id r) < Suc (unat (db_next_message d))) (db_messages d)"
    using assms(1) by (auto simp: messages_ok_def list_all_iff)
  show "messages_ok cfg (snd (insert_message cfg m d))"
    using assms(1) u fresh less
    by (auto simp: insert_message_def Let_def messages_ok_def row_of_def same_key_key key_of_def)
  show "fst (insert_message cfg m d) = Inr i \<Longrightarrow>
      i = db_next_message d \<and> db_messages (snd (insert_message cfg m d)) = db_messages d @ [row_of cfg i m]"
    by (auto simp: insert_message_def Let_def split: if_splits)
  show "fst (insert_message cfg m d) = Inl e \<Longrightarrow> db_messages (snd (insert_message cfg m d)) = db_messages d"
    by (auto simp: insert_message_def Let_def split: if_splits)
qed

lemma messages_ok_cong:
  "messages_ok cfg d \<Longrightarrow> db_messages d' = db_messages d \<Longrightarrow> db_next_message d' = db_next_message d \<Longrightarrow>
   messages_ok cfg d'"
  by (simp add: messages_ok_def)

text \<open>What a save leaves behind: at most the new row.\<close>

definition saved_as :: "mysql_cfg \<Rightarrow> message_info \<Rightarrow> db \<Rightarrow> db \<Rightarrow> bool" where
  "saved_as cfg m d d' \<longleftrightarrow> db_messages d' = db_messages d
     \<or> db_messages d' = db_messages d @ [row_of cfg (db_next_message d) m]
       \<and> list_all (\<lambda>r. \<not> same_key cfg m r) (db_messages d)"

lemma insert_saved:
  "saved_as cfg m d (snd (statement (insert_message cfg m) d))"
  by (auto simp: saved_as_def statement_def insert_message_def Let_def list_all_iff split: fault.split)

lemma insert_messages_ok:
  assumes "messages_ok cfg d" "unat (db_next_message d) + 1 < 2 ^ 64"
  shows "messages_ok cfg (snd (statement (insert_message cfg m) d))"
proof -
  have "messages_ok cfg (pop_fault d)" using assms(1) by (simp add: messages_ok_def)
  then show ?thesis
    using insert_message_cases(1) [of cfg "pop_fault d" m] assms(2)
    by (simp add: statement_def split: fault.split)
qed

lemma Save_tables:
  assumes "(v, d') = SaveMeetingMessage cfg m d"
  shows "d' = d \<and> v = None \<or> db_messages d' = db_messages (snd (statement (insert_message cfg m) d))
      \<and> db_next_message d' = db_next_message (snd (statement (insert_message cfg m) d))"
proof -
  obtain r1 d1 where s: "statement (insert_message cfg m) d = (r1, d1)" by (rule prod.exhaust)
  have keep: "db_messages d2 = db_messages d1 \<and> db_next_message d2 = db_next_message d1"
    if "query f d1 = (r, d2)" for f :: "db \<Rightarrow> 'a" and r d2
    using query_messages [of f d1] that by simp
  have keep2: "db_messages d3 = db_messages d1 \<and> db_next_message d3 = db_next_message d1"
    if "query f d1 = (r, d2)" "query g d2 = (r', d3)"
    for f :: "db \<Rightarrow> u64" and g :: "db \<Rightarrow> message_info option" and r d2 r' d3
    using query_messages [of f d1] query_messages [of g d2] that by simp
  have keep1: "db_messages d2 = db_messages d1 \<and> db_next_message d2 = db_next_message d1"
    if "query g d1 = (r', d2)" for g :: "db \<Rightarrow> message_info option" and r' d2
    using query_messages [of g d1] that by simp
  have keep0: "db_messages d2 = db_messages d1 \<and> db_next_message d2 = db_next_message d1"
    if "query g d1 = (r', d2)" for g :: "db \<Rightarrow> u64" and r' d2
    using query_messages [of g d1] that by simp
  show ?thesis
    using assms s keep1 keep2 keep0
    unfolding SaveMeetingMessage_def LoadMeetingMessageById_def LoadMeetingMessageByUniqueKey_def
    by (auto split: sum.splits sql_error.splits prod.splits if_splits)
qed

text \<open>A message whose key is already stored is answered with the stored row.\<close>

lemma Save_retry:
  assumes "messages_ok cfg d" "r \<in> set (db_messages d)" "same_key cfg m r" "valid_message m"
    "db_faults d = []"
  shows "fst (SaveMeetingMessage cfg m d) = Some (FillMeetingMessage cfg r)
    \<and> db_messages (snd (SaveMeetingMessage cfg m d)) = db_messages d"
proof -
  have dup: "\<exists>x \<in> set (db_messages d). same_key cfg m x" using assms by blast
  have found: "find (same_key cfg m) (db_messages d) = Some r"
  proof -
    obtain x where x: "find (same_key cfg m) (db_messages d) = Some x"
      using dup by (metis find_None_iff option.exhaust)
    then have "x \<in> set (db_messages d)" "same_key cfg m x" by (auto simp: find_Some_iff)
    then have "x = r"
      using assms(1-3) inj_onD [of "key_of cfg" "set (db_messages d)" x r]
      by (simp add: messages_ok_def same_key_key distinct_map)
    with x show ?thesis by simp
  qed
  let ?b = "(pop_fault d)\<lparr>db_next_message := db_next_message d + 1\<rparr>"
  have nf: "next_fault d = NoFault" "next_fault ?b = NoFault"
    using assms(5) by (simp_all add: next_fault_def pop_fault_def)
  have "statement (insert_message cfg m) d = (Inl Duplicate1062, ?b)"
    using nf dup by (simp add: statement_def insert_message_def Let_def)
  moreover have "LoadMeetingMessageByUniqueKey cfg m ?b = (Inr (Some (FillMeetingMessage cfg r)), pop_fault ?b)"
    using nf found by (simp add: LoadMeetingMessageByUniqueKey_def query_def statement_def)
  ultimately show ?thesis using assms(4) by (simp add: SaveMeetingMessage_def)
qed

text \<open>A save that answers a message answers a stored row with the same key.\<close>

lemma Save_answer:
  assumes ok: "messages_ok cfg d" "unat (db_next_message d) + 1 < 2 ^ 64"
    and s: "SaveMeetingMessage cfg m d = (Some v, d')"
  shows "\<exists>r \<in> set (db_messages d'). same_key cfg m r \<and> v = FillMeetingMessage cfg r"
proof -
  have valid: "valid_message m" using s by (auto simp: SaveMeetingMessage_def split: if_splits)
  obtain r1 d1 where st: "statement (insert_message cfg m) d = (r1, d1)" by (rule prod.exhaust)
  have d1: "db_messages d' = db_messages d1" using Save_tables [of "Some v" d' cfg m d] s st by auto
  show ?thesis
  proof (cases r1)
    case (Inl e)
    then have e: "e = Duplicate1062" using s st valid by (cases e) (auto simp: SaveMeetingMessage_def)
    obtain r2 d2 where l: "LoadMeetingMessageByUniqueKey cfg m d1 = (r2, d2)" by (rule prod.exhaust)
    have "r2 = Inr (Some v)"
      using s st valid Inl e l by (auto simp: SaveMeetingMessage_def split: sum.splits)
    then have "map_option (FillMeetingMessage cfg) (find (same_key cfg m) (db_messages d1)) = Some v"
      using query_result' [OF l [unfolded LoadMeetingMessageByUniqueKey_def \<open>r2 = Inr (Some v)\<close>]] by simp
    then show ?thesis using d1 by (auto simp: find_Some_iff)
  next
    case (Inr i)
    obtain r2 d2 where q: "query (\<lambda>_. i) d1 = (r2, d2)" by (rule prod.exhaust)
    then have r2: "r2 = Inr i"
      using s st valid Inr query_result' [of "\<lambda>_. i" d1] by (auto simp: SaveMeetingMessage_def split: sum.splits)
    obtain r3 d3 where l: "LoadMeetingMessageById cfg i d2 = (r3, d3)" by (rule prod.exhaust)
    have "r3 = Inr (Some v)"
      using s st valid Inr q r2 l by (auto simp: SaveMeetingMessage_def split: sum.splits)
    then have f: "map_option (FillMeetingMessage cfg) (find (\<lambda>r. xr_id r = i) (db_messages d2)) = Some v"
      using query_result' [OF l [unfolded LoadMeetingMessageById_def \<open>r3 = Inr (Some v)\<close>]] by simp
    have "db_messages d2 = db_messages d1" using query_messages(1) [of "\<lambda>_. i" d1] q by simp
    moreover have "\<exists>r. r = row_of cfg i m \<and> db_messages d1 = db_messages d @ [r] \<and> i = db_next_message d"
      using st Inr insert_message_cases(2) [of cfg "pop_fault d" m i] ok
      by (auto simp: statement_def messages_ok_def split: fault.splits)
    moreover have "i = db_next_message d \<Longrightarrow> find (\<lambda>r. xr_id r = i) (db_messages d) = None"
      using ok(1) by (auto simp: find_None_iff messages_ok_def list_all_iff)
    moreover have "find P xs = None \<Longrightarrow> find P (xs @ [y]) = (if P y then Some y else None)" for P xs and y :: message_row
      by (induction xs) auto
    ultimately have "v = FillMeetingMessage cfg (row_of cfg i m)"
      "row_of cfg i m \<in> set (db_messages d1)"
      using f by (auto simp: row_of_def)
    moreover have "same_key cfg m (row_of cfg i m)" by (simp add: same_key_def row_of_def)
    ultimately show ?thesis using d1 by (intro bexI [of _ "row_of cfg i m"]) simp_all
  qed
qed

section \<open>Newest messages\<close>

lemma set_newest: "set (newest n rows) \<subseteq> set rows"
  using set_take_subset [of n "rev (sort_key xr_id rows)"] by (auto simp: newest_def)

lemma sorted_newest: "sorted (map xr_id (newest n rows))"
  by (simp add: newest_def)

lemma length_newest: "length (newest n rows) = min n (length rows)"
  by (simp add: newest_def)

lemma newest_are_newest:
  assumes "x \<in> set rows" "x \<notin> set (newest n rows)" "y \<in> set (newest n rows)"
  shows "xr_id x \<le> xr_id y"
proof -
  let ?s = "rev (sort_key xr_id rows)"
  have "sorted_wrt (\<lambda>a b. xr_id b \<le> xr_id a) ?s"
    using sorted_sort_key [of xr_id rows] by (simp only: sorted_wrt_rev sorted_map)
  then have "sorted_wrt (\<lambda>a b. xr_id b \<le> xr_id a) (take n ?s @ drop n ?s)" by simp
  then have "\<forall>a \<in> set (take n ?s). \<forall>b \<in> set (drop n ?s). xr_id b \<le> xr_id a"
    unfolding sorted_wrt_append by blast
  moreover have "x \<in> set (take n ?s) \<or> x \<in> set (drop n ?s)"
    using assms(1) by (metis Un_iff append_take_drop_id set_append set_rev set_sort)
  ultimately show ?thesis using assms(2,3) by (auto simp: newest_def)
qed

section \<open>A small database for the witnesses\<close>

definition demo_cfg :: mysql_cfg where
  "demo_cfg = \<lparr>my_coll = id, my_now = 1000, my_format = (\<lambda>t. int_to_string t), my_datetime = (\<lambda>_. Some 0)\<rparr>"

definition demo_user :: "nat \<Rightarrow> string \<Rightarrow> user_row" where
  "demo_user i name = \<lparr>ur_id = i, ur_username = name, ur_email = name, ur_password_hash = ''h'',
     ur_display_name = name, ur_avatar = None\<rparr>"

definition demo_db :: db where
  "demo_db = \<lparr>db_users = [demo_user 1 ''a'', demo_user 2 ''b''],
     db_meetings = [\<lparr>mr_id = 5, mr_code = ''12345678'', mr_title = ''t'', mr_creator = 1,
       mr_status = Scheduled, mr_visibility = VisPublic, mr_password_hash = None,
       mr_max_participants = 30, mr_scheduled_at = None, mr_started_at = None, mr_ended_at = None,
       mr_created_at = 0\<rparr>],
     db_participants = [], db_messages = [], db_next_user = 3, db_next_meeting = 6,
     db_next_message = 1, db_faults = []\<rparr>"

definition demo_message :: message_info where
  "demo_message = \<lparr>mg_id = 0, mg_meeting = 5, mg_sender = 1, mg_receiver = None,
     mg_client_msg_id = ''c1'', mg_content = ''hi'', mg_content_type = 0, mg_created_at = []\<rparr>"

section \<open>Properties\<close>

text \<open>C10: The life cycle of a meeting never runs backwards: whatever store calls are
  made, with whatever lost answers and failing statements, a meeting keeps its
  creator and its status only moves along scheduled, in progress, ended.\<close>

theorem meeting_lifecycle_monotone:
  assumes "find_meeting i d = Some m"
  shows "\<exists>m'. find_meeting i (db_run cfg calls d) = Some m' \<and> mr_creator m' = mr_creator m
    \<and> rank (mr_status m) \<le> rank (mr_status m')"
  using advancesD [OF db_run_advances assms] by (auto simp: follows_def)

theorem meeting_lifecycle_monotone_witness:
  "\<exists>m'. find_meeting 5 (db_run demo_cfg [DbStart 5 1, DbEnd 5 1, DbStart 5 1] demo_db) = Some m'
    \<and> mr_creator m' = mr_creator (hd (db_meetings demo_db))
    \<and> rank (mr_status (hd (db_meetings demo_db))) \<le> rank (mr_status m')"
  by (rule meeting_lifecycle_monotone) (simp add: demo_db_def find_meeting_def)

text \<open>C11: Only the creator starts or ends a meeting: a StartMeeting (EndMeeting) that
  reports success changed exactly a meeting of that id that the caller created
  and that was scheduled (in progress), and left it in progress (ended).\<close>

theorem start_end_only_by_creator:
  "(fst (Db_StartMeeting cfg i uid d) \<longrightarrow>
      (\<exists>m m'. m \<in> set (db_meetings d) \<and> m' \<in> set (db_meetings (snd (Db_StartMeeting cfg i uid d)))
        \<and> mr_id m = i \<and> mr_id m' = i \<and> mr_creator m = of_int uid
        \<and> mr_status m = Scheduled \<and> mr_status m' = InProgress))
   \<and> (fst (Db_EndMeeting cfg i uid d) \<longrightarrow>
      (\<exists>m m'. m \<in> set (db_meetings d) \<and> m' \<in> set (db_meetings (snd (Db_EndMeeting cfg i uid d)))
        \<and> mr_id m = i \<and> mr_id m' = i \<and> mr_creator m = of_int uid
        \<and> mr_status m = InProgress \<and> mr_status m' = Ended))"
proof -
  have hit: "\<exists>m \<in> set ms. P m" if "length (filter P ms) = 1" for P and ms :: "meeting_row list"
    using that by (metis One_nat_def filter_False list.size(3) zero_neq_one)
  have upd: "\<exists>m m'. m \<in> set (db_meetings d) \<and> m' \<in> set (db_meetings d1) \<and> P m \<and> m' = f m"
    if "statement (update_meetings P f) d = (Inr 1, d1)" for P f d1
  proof -
    have "length (filter P (db_meetings d)) = 1"
      "db_meetings d1 = map (\<lambda>m. if P m then f m else m) (db_meetings d)"
      using that by (auto simp: statement_def update_meetings_def split: fault.splits)
    then show ?thesis using hit by fastforce
  qed
  show ?thesis
    using upd [of "may_start i uid"] upd [of "may_end i uid"]
    by (auto simp: Db_StartMeeting_def Db_EndMeeting_def may_start_def may_end_def
        split: prod.splits sum.splits) fastforce+
qed

theorem start_end_only_by_creator_witness:
  "fst (Db_StartMeeting demo_cfg 5 1 demo_db)
   \<and> (\<exists>m m'. m \<in> set (db_meetings demo_db) \<and> m' \<in> set (db_meetings (snd (Db_StartMeeting demo_cfg 5 1 demo_db)))
        \<and> mr_id m = 5 \<and> mr_id m' = 5 \<and> mr_creator m = of_int 1
        \<and> mr_status m = Scheduled \<and> mr_status m' = InProgress)"
proof -
  have "fst (Db_StartMeeting demo_cfg 5 1 demo_db)"
    by (simp add: Db_StartMeeting_def statement_def next_fault_def update_meetings_def may_start_def
        demo_db_def pop_fault_def)
  then show ?thesis using start_end_only_by_creator [of demo_cfg 5 1 demo_db] by blast
qed

text \<open>Saving a chat message is idempotent under lost answers: when a save was
  answered with a message, saving it again (no further failure) answers the very
  same stored message and adds no row; and every save keeps message ids and the
  keys (meeting, sender, client message id) unique.\<close>

theorem save_message_idempotent:
  assumes "messages_ok cfg d" "unat (db_next_message d) + 1 < 2 ^ 64"
    "SaveMeetingMessage cfg m d = (Some v, d')" "db_faults d' = []"
  shows "fst (SaveMeetingMessage cfg m d') = Some v
    \<and> db_messages (snd (SaveMeetingMessage cfg m d')) = db_messages d' \<and> messages_ok cfg d'"
proof -
  have ok: "messages_ok cfg d'"
    using Save_tables [of "Some v" d' cfg m d] assms(3) insert_messages_ok [OF assms(1,2), of m]
    by (auto intro: messages_ok_cong)
  obtain r where r: "r \<in> set (db_messages d')" "same_key cfg m r" "v = FillMeetingMessage cfg r"
    using Save_answer [OF assms(1-3)] by blast
  have "valid_message m" using assms(3) by (auto simp: SaveMeetingMessage_def split: if_splits)
  then show ?thesis using Save_retry [OF ok r(1,2) _ assms(4)] r(3) ok by simp
qed

theorem save_message_idempotent_witness:
  "let (v, d') = SaveMeetingMessage demo_cfg demo_message demo_db in
     v \<noteq> None \<and> fst (SaveMeetingMessage demo_cfg demo_message d') = v
     \<and> db_messages (snd (SaveMeetingMessage demo_cfg demo_message d')) = db_messages d'
     \<and> messages_ok demo_cfg d'"
proof -
  let ?row = "row_of demo_cfg 1 demo_message"
  let ?d = "demo_db\<lparr>db_next_message := 2, db_messages := [?row]\<rparr>"
  have s: "SaveMeetingMessage demo_cfg demo_message demo_db = (Some (FillMeetingMessage demo_cfg ?row), ?d)"
    by (simp add: SaveMeetingMessage_def statement_def next_fault_def pop_fault_def insert_message_def
        demo_db_def demo_message_def valid_message_def find_meeting_def find_user_def demo_user_def Let_def
        query_def LoadMeetingMessageById_def row_of_def)
  have "messages_ok demo_cfg demo_db" "unat (db_next_message demo_db) + 1 < 2 ^ 64" "db_faults ?d = []"
    by (simp_all add: messages_ok_def demo_db_def)
  then show ?thesis using save_message_idempotent [OF _ _ s] s by simp
qed

text \<open>A page of group history is right: it is in ascending id order, holds at most
  100 messages, all of them group messages of the meeting below the given id, and
  every stored group message of the meeting below that id that is not on the page
  is older than all messages on it.\<close>

theorem group_history_page:
  assumes "GetMeetingGroupMessages cfg i before limit d = (Some ms, d')"
  shows "sorted (map mg_id ms) \<and> length ms \<le> 100
    \<and> list_all (\<lambda>m. mg_meeting m = i \<and> mg_receiver m = None \<and> (before = 0 \<or> mg_id m < before)) ms
    \<and> (\<forall>r m. r \<in> set (db_messages d) \<and> xr_meeting r = i \<and> xr_receiver r = None \<and> before_id before r
         \<and> FillMeetingMessage cfg r \<notin> set ms \<and> m \<in> set ms \<longrightarrow> xr_id r \<le> mg_id m)"
proof -
  let ?n = "NormalizeMessageLimit limit"
  let ?rows = "filter (\<lambda>r. xr_meeting r = i \<and> xr_receiver r = None \<and> before_id before r) (db_messages d)"
  let ?f = "FillMeetingMessage cfg"
  have ms: "ms = map ?f (newest ?n ?rows)"
    using assms
    by (auto simp: GetMeetingGroupMessages_def split: if_splits sum.splits prod.splits dest!: query_result')
  have "mg_id \<circ> ?f = xr_id" by (auto simp: FillMeetingMessage_def)
  then have "sorted (map mg_id ms)" using sorted_newest by (simp add: ms)
  moreover have "length ms \<le> 100"
    by (simp add: ms length_newest NormalizeMessageLimit_def min_def)
  moreover have "list_all (\<lambda>m. mg_meeting m = i \<and> mg_receiver m = None \<and> (before = 0 \<or> mg_id m < before)) ms"
    using set_newest [of ?n ?rows]
    by (auto simp: ms list_all_iff FillMeetingMessage_def before_id_def)
  moreover have "xr_id r \<le> mg_id m"
    if h: "r \<in> set (db_messages d)" "xr_meeting r = i" "xr_receiver r = None" "before_id before r"
      "?f r \<notin> set ms" "m \<in> set ms" for r m
  proof -
    obtain y where y: "y \<in> set (newest ?n ?rows)" "m = ?f y" using h(6) ms by auto
    have "r \<in> set ?rows" using h(1-4) by simp
    moreover have "r \<notin> set (newest ?n ?rows)" using h(5) ms by auto
    ultimately have "xr_id r \<le> xr_id y" using newest_are_newest y(1) by blast
    then show ?thesis by (simp add: y(2) FillMeetingMessage_def)
  qed
  ultimately show ?thesis by blast
qed

theorem group_history_page_witness:
  "let d = demo_db\<lparr>db_messages := [row_of demo_cfg 1 demo_message]\<rparr>;
       ms = [FillMeetingMessage demo_cfg (row_of demo_cfg 1 demo_message)] in
    fst (GetMeetingGroupMessages demo_cfg 5 0 50 d) = Some ms \<and> sorted (map mg_id ms)"
proof -
  let ?d = "demo_db\<lparr>db_messages := [row_of demo_cfg 1 demo_message]\<rparr>"
  let ?ms = "[FillMeetingMessage demo_cfg (row_of demo_cfg 1 demo_message)]"
  have "GetMeetingGroupMessages demo_cfg 5 0 50 ?d = (Some ?ms, ?d)"
    by (simp add: GetMeetingGroupMessages_def query_def statement_def next_fault_def pop_fault_def
        demo_db_def demo_message_def row_of_def before_id_def newest_def NormalizeMessageLimit_def)
  from group_history_page [OF this] this show ?thesis by (simp add: Let_def)
qed

text \<open>Private history is isolated: whatever is stored, a private history query
  returns only messages of that meeting exchanged between exactly the two users
  of the query, never a group message or one involving a third user.\<close>

theorem private_history_isolated:
  assumes "GetMeetingPrivateMessages cfg i uid peer before limit d = (Some ms, d')"
  shows "list_all (\<lambda>m. mg_meeting m = i \<and> (\<exists>t. mg_receiver m = Some t \<and>
      (mg_sender m = uid \<and> uint t = peer \<or> mg_sender m = peer \<and> uint t = uid))) ms
    \<and> sorted (map mg_id ms) \<and> length ms \<le> 100"
proof -
  let ?n = "NormalizeMessageLimit limit"
  let ?rows = "filter (\<lambda>r. xr_meeting r = i \<and> between uid peer r \<and> before_id before r) (db_messages d)"
  let ?f = "FillMeetingMessage cfg"
  have ms: "ms = map ?f (newest ?n ?rows)"
    using assms
    by (auto simp: GetMeetingPrivateMessages_def split: if_splits sum.splits prod.splits dest!: query_result')
  have "mg_id \<circ> ?f = xr_id" by (auto simp: FillMeetingMessage_def)
  then have "sorted (map mg_id ms)" using sorted_newest by (simp add: ms)
  then show ?thesis
    using set_newest [of ?n ?rows]
    by (auto simp: ms list_all_iff FillMeetingMessage_def between_def length_newest
        NormalizeMessageLimit_def min_def split: option.splits)
qed

theorem private_history_isolated_witness:
  "let r = (row_of demo_cfg 1 demo_message)\<lparr>xr_receiver := Some 2\<rparr>;
       d = demo_db\<lparr>db_messages := [r, row_of demo_cfg 2 demo_message]\<rparr>;
       ms = [FillMeetingMessage demo_cfg r] in
    fst (GetMeetingPrivateMessages demo_cfg 5 2 1 0 50 d) = Some ms \<and> sorted (map mg_id ms)"
proof -
  let ?r = "(row_of demo_cfg 1 demo_message)\<lparr>xr_receiver := Some 2\<rparr>"
  let ?d = "demo_db\<lparr>db_messages := [?r, row_of demo_cfg 2 demo_message]\<rparr>"
  have "GetMeetingPrivateMessages demo_cfg 5 2 1 0 50 ?d = (Some [FillMeetingMessage demo_cfg ?r], ?d)"
    by (simp add: GetMeetingPrivateMessages_def query_def statement_def next_fault_def pop_fault_def
        demo_db_def demo_message_def row_of_def before_id_def newest_def NormalizeMessageLimit_def
        between_def)
  from private_history_isolated [OF this] this show ?thesis by (simp add: Let_def)
qed

end
