(* ===== verification/RedisStore.thy ===== *)
theory RedisStore
  imports RtcPrelude "HOL-Library.Multiset"
begin

text \<open>
  The Redis side of RealtimeServer (src/storage/RedisMgr.cpp).  The Redis server
  is not part of the repository: it is the parameter srv, a function from a
  command and the server's state to a reply and the next state.  RepErr is the
  client library's exception (or no connection).  The wrappers translate the
  members of RedisMgr.  The named hypothesis redis_answers states the documented
  behaviour of the commands; redis_exec is the instance that satisfies it in the
  witnesses.
\<close>

section \<open>Commands and replies\<close>

datatype redis_call =
    CGet string
  | CSet string string "nat option"
  | CHSet string "(string \<times> string) list"
  | CHGet string string
  | CSAdd string string
  | CSRem string string
  | CSIsMember string string
  | CSCard string
  | CSMembers string
  | CZAdd string string int
  | CZRem string string
  | CZRangeByScore string int int
  | CDel string

text \<open>The statements of the embedded Lua script: a call whose reply decides, a call
  whose reply is dropped, and return.\<close>

datatype lua =
    LReturn int
  | LIfZero redis_call lua lua
  | LCall redis_call lua

datatype redis_cmd = Call redis_call | Eval lua

datatype redis_reply = RepErr | RepNil | RepOk | RepInt int | RepStr string | RepList "string list"

type_synonym 'r redis_srv = "redis_cmd \<Rightarrow> 'r \<Rightarrow> redis_reply \<times> 'r"

section \<open>RedisMgr\<close>

definition Redis_Get :: "'r redis_srv \<Rightarrow> string \<Rightarrow> 'r \<Rightarrow> string option \<times> 'r" where
  "Redis_Get srv key r = (case srv (Call (CGet key)) r of
       (RepStr v, r') \<Rightarrow> (Some v, r') | (_, r') \<Rightarrow> (None, r'))"

datatype lookup_result = Unavailable | Missing | Found string

definition Lookup :: "'r redis_srv \<Rightarrow> string \<Rightarrow> 'r \<Rightarrow> lookup_result \<times> 'r" where
  "Lookup srv key r = (case srv (Call (CGet key)) r of
       (RepStr v, r') \<Rightarrow> (Found v, r') | (RepNil, r') \<Rightarrow> (Missing, r') | (_, r') \<Rightarrow> (Unavailable, r'))"

definition room_prefix :: "u64 \<Rightarrow> string" where
  "room_prefix meeting = ''room:'' @ to_string (unat meeting)"

text \<open>The script of ActivateMember with its keys and arguments.\<close>

definition activate_script :: "u64 \<Rightarrow> int \<Rightarrow> lua" where
  "activate_script meeting uid =
     (let user = int_to_string uid; room = room_prefix meeting in
      LIfZero (CSIsMember (room @ '':members'') user)
        (LReturn 0)
        (LCall (CHSet (room @ '':member:'' @ user)
                  [(''room_state'', ''active''), (''reconnect_deadline_at'', [])])
        (LCall (CZRem ''room:reconnect_deadlines'' (to_string (unat meeting) @ '':'' @ user))
        (LReturn 1))))"

definition ActivateMember :: "'r redis_srv \<Rightarrow> u64 \<Rightarrow> int \<Rightarrow> 'r \<Rightarrow> bool \<times> 'r" where
  "ActivateMember srv meeting uid r = (case srv (Eval (activate_script meeting uid)) r of
       (rep, r') \<Rightarrow> (rep = RepInt 1, r'))"

text \<open>A command whose reply is only checked for an exception.\<close>

definition did :: "'r redis_srv \<Rightarrow> redis_call \<Rightarrow> 'r \<Rightarrow> bool \<times> 'r" where
  "did srv c r = (case srv (Call c) r of (rep, r') \<Rightarrow> (rep \<noteq> RepErr, r'))"

definition Redis_Set :: "'r redis_srv \<Rightarrow> string \<Rightarrow> string \<Rightarrow> int \<Rightarrow> 'r \<Rightarrow> bool \<times> 'r" where
  "Redis_Set srv key val expire_seconds =
     did srv (CSet key val (if expire_seconds > 0 then Some (nat expire_seconds) else None))"

definition HSet :: "'r redis_srv \<Rightarrow> string \<Rightarrow> string \<Rightarrow> string \<Rightarrow> 'r \<Rightarrow> bool \<times> 'r" where
  "HSet srv key hkey val = did srv (CHSet key [(hkey, val)])"

definition HGet :: "'r redis_srv \<Rightarrow> string \<Rightarrow> string \<Rightarrow> 'r \<Rightarrow> string \<times> 'r" where
  "HGet srv key hkey r = (case srv (Call (CHGet key hkey)) r of
       (RepStr v, r') \<Rightarrow> (v, r') | (_, r') \<Rightarrow> ([], r'))"

definition SAdd :: "'r redis_srv \<Rightarrow> string \<Rightarrow> string \<Rightarrow> 'r \<Rightarrow> bool \<times> 'r" where
  "SAdd srv key member = did srv (CSAdd key member)"

definition SRem :: "'r redis_srv \<Rightarrow> string \<Rightarrow> string \<Rightarrow> 'r \<Rightarrow> bool \<times> 'r" where
  "SRem srv key member = did srv (CSRem key member)"

definition SIsMember :: "'r redis_srv \<Rightarrow> string \<Rightarrow> string \<Rightarrow> 'r \<Rightarrow> bool \<times> 'r" where
  "SIsMember srv key member r = (case srv (Call (CSIsMember key member)) r of
       (RepInt i, r') \<Rightarrow> (i \<noteq> 0, r') | (_, r') \<Rightarrow> (False, r'))"

definition ZAdd :: "'r redis_srv \<Rightarrow> string \<Rightarrow> string \<Rightarrow> int \<Rightarrow> 'r \<Rightarrow> bool \<times> 'r" where
  "ZAdd srv key member score = did srv (CZAdd key member score)"

definition ZRem :: "'r redis_srv \<Rightarrow> string \<Rightarrow> string \<Rightarrow> 'r \<Rightarrow> bool \<times> 'r" where
  "ZRem srv key member = did srv (CZRem key member)"

definition ZRangeByScore :: "'r redis_srv \<Rightarrow> string \<Rightarrow> int \<Rightarrow> 'r \<Rightarrow> string list option \<times> 'r" where
  "ZRangeByScore srv key max_score r = (case srv (Call (CZRangeByScore key 0 max_score)) r of
       (RepList ms, r') \<Rightarrow> (Some ms, r') | (_, r') \<Rightarrow> (None, r'))"

definition SCard :: "'r redis_srv \<Rightarrow> string \<Rightarrow> 'r \<Rightarrow> int \<times> 'r" where
  "SCard srv key r = (case srv (Call (CSCard key)) r of
       (RepInt i, r') \<Rightarrow> (i, r') | (_, r') \<Rightarrow> (0, r'))"

definition SMembers :: "'r redis_srv \<Rightarrow> string \<Rightarrow> 'r \<Rightarrow> string list option \<times> 'r" where
  "SMembers srv key r = (case srv (Call (CSMembers key)) r of
       (RepList ms, r') \<Rightarrow> (Some ms, r') | (_, r') \<Rightarrow> (None, r'))"

definition Redis_Del :: "'r redis_srv \<Rightarrow> string \<Rightarrow> 'r \<Rightarrow> bool \<times> 'r" where
  "Redis_Del srv key = did srv (CDel key)"

section \<open>The documented behaviour of the server\<close>

record redis_db =
  rd_str :: "string \<Rightarrow> string option"
  rd_hash :: "string \<Rightarrow> string \<Rightarrow> string option"
  rd_set :: "string \<Rightarrow> string list"
  rd_zset :: "string \<Rightarrow> (string \<times> int) list"

definition redis_empty :: redis_db where
  "redis_empty = \<lparr>rd_str = (\<lambda>_. None), rd_hash = (\<lambda>_ _. None), rd_set = (\<lambda>_. []), rd_zset = (\<lambda>_. [])\<rparr>"

fun redis_call_exec :: "redis_call \<Rightarrow> redis_db \<Rightarrow> redis_reply \<times> redis_db" where
  "redis_call_exec (CGet k) d = (case rd_str d k of None \<Rightarrow> RepNil | Some v \<Rightarrow> RepStr v, d)"
| "redis_call_exec (CSet k v _) d = (RepOk, d\<lparr>rd_str := (rd_str d)(k \<mapsto> v)\<rparr>)"
| "redis_call_exec (CHSet k fvs) d =
     (RepInt 0, d\<lparr>rd_hash := (rd_hash d)(k := (rd_hash d k)(map fst fvs [\<mapsto>] map snd fvs))\<rparr>)"
| "redis_call_exec (CHGet k f) d = (case rd_hash d k f of None \<Rightarrow> RepNil | Some v \<Rightarrow> RepStr v, d)"
| "redis_call_exec (CSAdd k m) d =
     (RepInt 1, d\<lparr>rd_set := (rd_set d)(k := List.insert m (rd_set d k))\<rparr>)"
| "redis_call_exec (CSRem k m) d =
     (RepInt 1, d\<lparr>rd_set := (rd_set d)(k := filter (\<lambda>x. x \<noteq> m) (rd_set d k))\<rparr>)"
| "redis_call_exec (CSIsMember k m) d = (RepInt (if m \<in> set (rd_set d k) then 1 else 0), d)"
| "redis_call_exec (CSCard k) d = (RepInt (int (length (rd_set d k))), d)"
| "redis_call_exec (CSMembers k) d = (RepList (rd_set d k), d)"
| "redis_call_exec (CZAdd k m s) d = (RepInt 1, d\<lparr>rd_zset := (rd_zset d)(k := AList.update m s (rd_zset d k))\<rparr>)"
| "redis_call_exec (CZRem k m) d = (RepInt 1, d\<lparr>rd_zset := (rd_zset d)(k := AList.delete m (rd_zset d k))\<rparr>)"
| "redis_call_exec (CZRangeByScore k lo hi) d =
     (RepList (map fst (sort_key snd (filter (\<lambda>(_, s). lo \<le> s \<and> s \<le> hi) (rd_zset d k)))), d)"
| "redis_call_exec (CDel k) d =
     (RepInt 1, \<lparr>rd_str = (rd_str d)(k := None), rd_hash = (rd_hash d)(k := (\<lambda>_. None)),
                 rd_set = (rd_set d)(k := []), rd_zset = (rd_zset d)(k := [])\<rparr>)"

fun lua_exec :: "lua \<Rightarrow> redis_db \<Rightarrow> redis_reply \<times> redis_db" where
  "lua_exec (LReturn i) d = (RepInt i, d)"
| "lua_exec (LIfZero c a b) d =
     (let (rep, d1) = redis_call_exec c d in lua_exec (if rep = RepInt 0 then a else b) d1)"
| "lua_exec (LCall c a) d = lua_exec a (snd (redis_call_exec c d))"

fun redis_exec :: "redis_cmd \<Rightarrow> redis_db \<Rightarrow> redis_reply \<times> redis_db" where
  "redis_exec (Call c) d = redis_call_exec c d"
| "redis_exec (Eval s) d = lua_exec s d"

text \<open>Replies agree up to the order of a set's members; HSET, SADD and the like
  count what changed, which the code never looks at.\<close>

fun reply_agrees :: "redis_reply \<Rightarrow> redis_reply \<Rightarrow> bool" where
  "reply_agrees (RepList xs) rep = (case rep of RepList ys \<Rightarrow> mset xs = mset ys | _ \<Rightarrow> False)"
| "reply_agrees a b = (a = b)"

definition redis_answers :: "'r redis_srv \<Rightarrow> ('r \<Rightarrow> redis_db) \<Rightarrow> bool" where
  "redis_answers srv view \<longleftrightarrow> (\<forall>c r. case srv c r of (rep, r') \<Rightarrow>
     (case redis_exec c (view r) of (rep0, d') \<Rightarrow>
        reply_agrees rep rep0 \<and> view r' = d'
      \<or> rep = RepErr \<and> (view r' = view r \<or> view r' = d')))"

lemma reply_agrees_refl [simp]: "reply_agrees rep rep"
  by (cases rep) simp_all

lemma redis_exec_answers: "redis_answers redis_exec (\<lambda>d. d)"
  by (auto simp: redis_answers_def split: prod.split)

lemma redis_answersD:
  assumes "redis_answers srv view" "srv c r = (rep, r')" "redis_exec c (view r) = (rep0, d')"
  shows "reply_agrees rep rep0 \<and> view r' = d' \<or> rep = RepErr \<and> (view r' = view r \<or> view r' = d')"
  using assms(1) unfolding redis_answers_def
  by (auto dest!: spec [of _ c] spec [of _ r] simp: assms(2,3))

end
