(* ===== verification/World.thy ===== *)
theory World
  imports MediaSignal MySqlStore RedisStore "HOL-Library.State_Monad"
begin

text \<open>
  The state the business layer of RealtimeServer works on (include/service/LogicSystem.h)
  and the environment its operations run in.  A handler is a program of the state
  monad over this state.  Sessions live in a heap indexed by numbers: a shared_ptr is
  an index, a weak_ptr an optional index, and lock() of an index whose session was
  destroyed is None.  Operation::Await is the call itself: Scheduler shows that an
  operation that holds its reservation is never refused, and that the operations of one
  meeting run one at a time although each suspends at every Await.  Threads of the
  other components only touch what the other theories describe.
\<close>

section \<open>Error codes and message ids\<close>

datatype error_code = SUCCESS | ERROR_JSON | ERROR_REDIS | ERROR_MYSQL | ERROR_NETWORK | RPCFailed
  | ERROR_PASSWORD | ERROR_MEETING_NOT_FOUND | ERROR_MEETING_STATUS | ERROR_MEETING_FULL
  | ERROR_MEETING_ACCESS | ERROR_VARIFY_EXPIRED | ERROR_VARIFYCODE | ERROR_USER_EXIST
  | ERROR_PASSWORD_INVALID | ERROR_TOKEN

fun code :: "error_code \<Rightarrow> int" where
  "code SUCCESS = 0" | "code ERROR_JSON = 1" | "code ERROR_REDIS = 2" | "code ERROR_MYSQL = 3"
| "code ERROR_NETWORK = 101" | "code RPCFailed = 102" | "code ERROR_PASSWORD = 103"
| "code ERROR_MEETING_NOT_FOUND = 104" | "code ERROR_MEETING_STATUS = 105"
| "code ERROR_MEETING_FULL = 106" | "code ERROR_MEETING_ACCESS = 107"
| "code ERROR_VARIFY_EXPIRED = 108" | "code ERROR_VARIFYCODE = 109" | "code ERROR_USER_EXIST = 110"
| "code ERROR_PASSWORD_INVALID = 111" | "code ERROR_TOKEN = 112"

abbreviation AUTH_LOGIN_REQUEST :: u16 where "AUTH_LOGIN_REQUEST \<equiv> 1010"
abbreviation AUTH_LOGIN_RESPONSE :: u16 where "AUTH_LOGIN_RESPONSE \<equiv> 1011"
abbreviation ID_CREATE_MEETING_REQUEST :: u16 where "ID_CREATE_MEETING_REQUEST \<equiv> 1012"
abbreviation ID_CREATE_MEETING_RESPONSE :: u16 where "ID_CREATE_MEETING_RESPONSE \<equiv> 1013"
abbreviation ID_PAST_MEETING_REQUEST :: u16 where "ID_PAST_MEETING_REQUEST \<equiv> 1014"
abbreviation ID_PAST_MEETING_RESPONSE :: u16 where "ID_PAST_MEETING_RESPONSE \<equiv> 1015"
abbreviation ID_JOIN_MEETING_REQUEST :: u16 where "ID_JOIN_MEETING_REQUEST \<equiv> 1016"
abbreviation ID_JOIN_MEETING_RESPONSE :: u16 where "ID_JOIN_MEETING_RESPONSE \<equiv> 1017"
abbreviation ID_START_MEETING_REQUEST :: u16 where "ID_START_MEETING_REQUEST \<equiv> 1018"
abbreviation ID_START_MEETING_RESPONSE :: u16 where "ID_START_MEETING_RESPONSE \<equiv> 1019"
abbreviation ID_MEETING_STARTED :: u16 where "ID_MEETING_STARTED \<equiv> 1020"
abbreviation ID_LEAVE_MEETING_REQUEST :: u16 where "ID_LEAVE_MEETING_REQUEST \<equiv> 1021"
abbreviation ID_LEAVE_MEETING_RESPONSE :: u16 where "ID_LEAVE_MEETING_RESPONSE \<equiv> 1022"
abbreviation ID_END_MEETING_REQUEST :: u16 where "ID_END_MEETING_REQUEST \<equiv> 1023"
abbreviation ID_END_MEETING_RESPONSE :: u16 where "ID_END_MEETING_RESPONSE \<equiv> 1024"
abbreviation ID_MEETING_ENDED :: u16 where "ID_MEETING_ENDED \<equiv> 1025"
abbreviation ID_SEND_MEETING_MESSAGE_REQUEST :: u16 where "ID_SEND_MEETING_MESSAGE_REQUEST \<equiv> 1026"
abbreviation ID_SEND_MEETING_MESSAGE_RESPONSE :: u16 where "ID_SEND_MEETING_MESSAGE_RESPONSE \<equiv> 1027"
abbreviation ID_MEETING_MESSAGE_PUSH :: u16 where "ID_MEETING_MESSAGE_PUSH \<equiv> 1028"
abbreviation ID_MEETING_MEMBER_JOINED :: u16 where "ID_MEETING_MEMBER_JOINED \<equiv> 1029"
abbreviation ID_MEETING_MEMBER_LEFT :: u16 where "ID_MEETING_MEMBER_LEFT \<equiv> 1030"
abbreviation ID_MEETING_MEMBER_RECONNECTING :: u16 where "ID_MEETING_MEMBER_RECONNECTING \<equiv> 1031"
abbreviation ID_MEETING_MEMBER_RECONNECTED :: u16 where "ID_MEETING_MEMBER_RECONNECTED \<equiv> 1032"
abbreviation ID_MEETING_MEMBER_TIMEOUT_LEFT :: u16 where "ID_MEETING_MEMBER_TIMEOUT_LEFT \<equiv> 1033"
abbreviation ID_GET_MEETING_GROUP_MESSAGES_REQUEST :: u16 where "ID_GET_MEETING_GROUP_MESSAGES_REQUEST \<equiv> 1034"
abbreviation ID_GET_MEETING_GROUP_MESSAGES_RESPONSE :: u16 where "ID_GET_MEETING_GROUP_MESSAGES_RESPONSE \<equiv> 1035"
abbreviation ID_GET_MEETING_PRIVATE_MESSAGES_REQUEST :: u16 where "ID_GET_MEETING_PRIVATE_MESSAGES_REQUEST \<equiv> 1036"
abbreviation ID_GET_MEETING_PRIVATE_MESSAGES_RESPONSE :: u16 where "ID_GET_MEETING_PRIVATE_MESSAGES_RESPONSE \<equiv> 1037"
abbreviation ID_MEDIA_OFFER_REQUEST :: u16 where "ID_MEDIA_OFFER_REQUEST \<equiv> 1038"
abbreviation ID_MEDIA_CANDIDATE_REQUEST :: u16 where "ID_MEDIA_CANDIDATE_REQUEST \<equiv> 1039"
abbreviation ID_MEDIA_ANSWER_RESPONSE :: u16 where "ID_MEDIA_ANSWER_RESPONSE \<equiv> 1040"
abbreviation ID_MEDIA_CANDIDATE_RESPONSE :: u16 where "ID_MEDIA_CANDIDATE_RESPONSE \<equiv> 1041"
abbreviation ID_MEDIA_RENEGOTIATION_OFFER :: u16 where "ID_MEDIA_RENEGOTIATION_OFFER \<equiv> 1042"
abbreviation ID_MEDIA_RENEGOTIATION_ANSWER_REQUEST :: u16 where "ID_MEDIA_RENEGOTIATION_ANSWER_REQUEST \<equiv> 1043"
abbreviation ID_AI_ASK_REQUEST :: u16 where "ID_AI_ASK_REQUEST \<equiv> 1044"
abbreviation ID_AI_ASK_RESPONSE :: u16 where "ID_AI_ASK_RESPONSE \<equiv> 1045"
abbreviation ID_RESUME_MEETING_REQUEST :: u16 where "ID_RESUME_MEETING_REQUEST \<equiv> 1046"
abbreviation ID_RESUME_MEETING_RESPONSE :: u16 where "ID_RESUME_MEETING_RESPONSE \<equiv> 1047"

abbreviation kDisconnected :: u16 where "kDisconnected \<equiv> 0xFFFE"
abbreviation kTimeout :: u16 where "kTimeout \<equiv> 0xFFFD"
abbreviation kMediaMessage :: u16 where "kMediaMessage \<equiv> 0xFFFC"
abbreviation kMediaUp :: u16 where "kMediaUp \<equiv> 0xFFFB"
abbreviation kMediaDown :: u16 where "kMediaDown \<equiv> 0xFFFA"

definition kReconnectGraceSeconds :: int where "kReconnectGraceSeconds = 45"

section \<open>State\<close>

record membership =
  mb_ticket :: string
  mb_auth_token :: string
  mb_last_request :: string
  mb_generation :: u64
  mb_session :: "nat option"
  mb_deadline :: int

definition Membership_new :: membership where
  "Membership_new = \<lparr>mb_ticket = [], mb_auth_token = [], mb_last_request = [], mb_generation = 1,
     mb_session = None, mb_deadline = 0\<rparr>"

text \<open>The members are an association list by user id.  The command queue of a room is the
  subject of Scheduler.\<close>

record room =
  rm_members :: "(int \<times> membership) list"
  rm_sessions :: "nat list"

definition Room_new :: room where
  "Room_new = \<lparr>rm_members = [], rm_sessions = []\<rparr>"

record presence =
  up_meeting :: u64
  up_joining :: nat
  up_joined :: bool

record signal =
  sg_session :: "nat option"
  sg_meeting :: u64
  sg_epoch :: u64

record 'r world =
  w_sessions :: "nat \<Rightarrow> session option"
  w_wake :: io_wakeup
  w_media :: media_client
  w_redis :: 'r
  w_db :: db
  w_users :: "int \<Rightarrow> presence option"
  w_signals :: "u64 \<Rightarrow> signal option"
  w_next_signal :: u64
  w_media_epoch :: u64
  w_rooms :: "u64 \<Rightarrow> room option"

datatype rand_result = RandBytes "u8 list" | RandIntr | RandFail

datatype ai_outcome = AiBusy | AiFailed | AiReply int string string

text \<open>What an operation reads from outside: the JSON reader and writer, the two
  stores, both clocks (each read at most once per operation; en_steady in
  milliseconds), the random source, crypt(3), the AI service, and whether pools and
  queues have room (en_route_busy: the storage pool refuses the look-up of a join request;
  en_pool_busy: it refuses the reservation of the operation; en_room_full: the room's
  queue refuses the command).\<close>

record 'r env =
  en_parse :: "string \<Rightarrow> json option"
  en_styled :: "json \<Rightarrow> string"
  en_redis :: "'r redis_srv"
  en_mysql :: mysql_cfg
  en_codes :: "string list"
  en_time :: int
  en_steady :: int
  en_random :: "rand_result list"
  en_crypt :: "string \<Rightarrow> string \<Rightarrow> string option"
  en_gensalt :: "string option"
  en_ai :: "(string \<Rightarrow> ai_outcome) option"
  en_route_busy :: bool
  en_pool_busy :: bool
  en_room_full :: bool

type_synonym ('r, 'a) prog = "('r world, 'a) state"

abbreviation ret :: "'a \<Rightarrow> ('s, 'a) state" where "ret \<equiv> State_Monad.return"

section \<open>Primitive steps\<close>

definition look :: "('s \<Rightarrow> 'a) \<Rightarrow> ('s, 'a) state" where
  "look f = State (\<lambda>w. (f w, w))"

definition modify :: "('s \<Rightarrow> 's) \<Rightarrow> ('s, unit) state" where
  "modify f = State (\<lambda>w. ((), f w))"

definition redis :: "('r \<Rightarrow> 'a \<times> 'r) \<Rightarrow> ('r, 'a) prog" where
  "redis f = State (\<lambda>w. let (a, r) = f (w_redis w) in (a, w\<lparr>w_redis := r\<rparr>))"

definition mysql :: "(db \<Rightarrow> 'a \<times> db) \<Rightarrow> ('r, 'a) prog" where
  "mysql f = State (\<lambda>w. let (a, d) = f (w_db w) in (a, w\<lparr>w_db := d\<rparr>))"

definition alive :: "nat \<Rightarrow> 'r world \<Rightarrow> bool" where
  "alive sid w \<longleftrightarrow> w_sessions w sid \<noteq> None"

text \<open>weak_ptr::lock.\<close>

definition lock :: "nat option \<Rightarrow> 'r world \<Rightarrow> nat option" where
  "lock p w = (case p of None \<Rightarrow> None | Some sid \<Rightarrow> if alive sid w then Some sid else None)"

definition sess :: "nat \<Rightarrow> 'r world \<Rightarrow> session" where
  "sess sid w = (case w_sessions w sid of Some s \<Rightarrow> s | None \<Rightarrow> Session_new 0 0)"

definition uid_of :: "nat \<Rightarrow> 'r world \<Rightarrow> int" where
  "uid_of sid w = s_user_id (sess sid w)"

definition meeting_of :: "nat \<Rightarrow> 'r world \<Rightarrow> u64" where
  "meeting_of sid w = s_meeting_id (sess sid w)"

definition set_sess :: "nat \<Rightarrow> (session \<Rightarrow> session) \<Rightarrow> 'r world \<Rightarrow> 'r world" where
  "set_sess sid f w = w\<lparr>w_sessions := (w_sessions w)(sid := map_option f (w_sessions w sid))\<rparr>"

definition send :: "nat \<Rightarrow> u16 \<Rightarrow> string \<Rightarrow> ('r, bool) prog" where
  "send sid rid text = State (\<lambda>w. case w_sessions w sid of
     None \<Rightarrow> (False, w)
   | Some s \<Rightarrow> (case Send rid text (s, Some (w_wake w)) of (ok, s', k) \<Rightarrow>
       (ok, w\<lparr>w_sessions := (w_sessions w)(sid \<mapsto> s'),
              w_wake := (case k of Some k' \<Rightarrow> k' | None \<Rightarrow> w_wake w)\<rparr>)))"

definition close_session :: "nat \<Rightarrow> ('r, unit) prog" where
  "close_session sid = State (\<lambda>w. case w_sessions w sid of
     None \<Rightarrow> ((), w)
   | Some s \<Rightarrow> (case RequestClose (s, Some (w_wake w)) of (s', k) \<Rightarrow>
       ((), w\<lparr>w_sessions := (w_sessions w)(sid \<mapsto> s'),
              w_wake := (case k of Some k' \<Rightarrow> k' | None \<Rightarrow> w_wake w)\<rparr>)))"

definition SendMediaSignal :: "string \<Rightarrow> u64 \<Rightarrow> ('r, bool) prog" where
  "SendMediaSignal text epoch = State (\<lambda>w. case Media_Send epoch text (w_media w, w_wake w) of
     (ok, m, k) \<Rightarrow> (ok, w\<lparr>w_media := m, w_wake := k\<rparr>))"

definition room_at :: "u64 \<Rightarrow> 'r world \<Rightarrow> room" where
  "room_at rid w = (case w_rooms w rid of Some r \<Rightarrow> r | None \<Rightarrow> Room_new)"

definition set_room :: "u64 \<Rightarrow> (room \<Rightarrow> room) \<Rightarrow> 'r world \<Rightarrow> 'r world" where
  "set_room rid f w = w\<lparr>w_rooms := (w_rooms w)(rid \<mapsto> f (room_at rid w))\<rparr>"

definition member_at :: "u64 \<Rightarrow> int \<Rightarrow> 'r world \<Rightarrow> membership option" where
  "member_at rid uid w = map_of (rm_members (room_at rid w)) uid"

definition set_member :: "u64 \<Rightarrow> int \<Rightarrow> membership option \<Rightarrow> 'r world \<Rightarrow> 'r world" where
  "set_member rid uid m = set_room rid (\<lambda>r. r\<lparr>rm_members :=
     (case m of Some v \<Rightarrow> AList.update uid v (rm_members r) | None \<Rightarrow> AList.delete uid (rm_members r))\<rparr>)"

definition set_room_sessions :: "u64 \<Rightarrow> (nat list \<Rightarrow> nat list) \<Rightarrow> 'r world \<Rightarrow> 'r world" where
  "set_room_sessions rid f = set_room rid (\<lambda>r. r\<lparr>rm_sessions := f (rm_sessions r)\<rparr>)"

end
