(* ===== verification/LogicCommon.thy ===== *)
theory LogicCommon
  imports World
begin

text \<open>
  The helpers of src/service/LogicSystem.cpp and the small critical sections of
  src/service/LogicDispatch.cpp that the handlers share: response texts, Redis keys,
  field conversions, the response a handler owes (Defer), the broadcast over a room's
  connections, the presence table (which meeting a user is in) and the table of media
  signals.
\<close>

section \<open>Keys, texts and conversions\<close>

definition RoomMembersKey :: "u64 \<Rightarrow> string" where
  "RoomMembersKey meeting = ''room:'' @ to_string (unat meeting) @ '':members''"

definition RoomMemberStateKey :: "u64 \<Rightarrow> int \<Rightarrow> string" where
  "RoomMemberStateKey meeting uid = ''room:'' @ to_string (unat meeting) @ '':member:'' @ int_to_string uid"

definition ReconnectDeadlineKey :: string where
  "ReconnectDeadlineKey = ''room:reconnect_deadlines''"

definition ReconnectDeadlineMember :: "u64 \<Rightarrow> int \<Rightarrow> string" where
  "ReconnectDeadlineMember meeting uid = to_string (unat meeting) @ '':'' @ int_to_string uid"

definition presence_key :: "string \<Rightarrow> string" where
  "presence_key uid_text = ''presence:'' @ uid_text"

fun MeetingStatusText :: "meeting_status \<Rightarrow> string" where
  "MeetingStatusText InProgress = ''in_progress''"
| "MeetingStatusText Ended = ''ended''"
| "MeetingStatusText _ = ''scheduled''"

fun status_number :: "meeting_status \<Rightarrow> int" where
  "status_number Scheduled = 0" | "status_number InProgress = 1"
| "status_number Ended = 2" | "status_number Cancelled = 3"

text \<open>A whole decimal string as a number; None is a parse failure or trailing text.\<close>

definition stoull_full :: "string \<Rightarrow> u64 option" where
  "stoull_full text = (case stoull text of
       Some (n, k) \<Rightarrow> if k = length text then Some n else None | None \<Rightarrow> None)"

definition ReadUInt64Value :: "json \<Rightarrow> u64 option" where
  "ReadUInt64Value v =
     (case int_of_json v of
        Some i \<Rightarrow> if - (2 ^ 63) \<le> i \<and> i < 2 ^ 64
                  then (if i < 0 then None else Some (of_int i)) else None
      | None \<Rightarrow> if is_string v then stoull_full (as_string v) else None)"

text \<open>static_cast<int> of a 64-bit value.\<close>

definition to_int32 :: "u64 \<Rightarrow> int" where
  "to_int32 n = sint (ucast n :: u32)"

text \<open>std::string::c_str as crypt sees it.\<close>

definition c_str :: "string \<Rightarrow> string" where
  "c_str s = takeWhile (\<lambda>c. of_char c \<noteq> (0 :: nat)) s"

fun random_bytes :: "nat \<Rightarrow> rand_result list \<Rightarrow> u8 list option" where
  "random_bytes 0 _ = Some []"
| "random_bytes n [] = None"
| "random_bytes n (RandIntr # rs) = random_bytes n rs"
| "random_bytes n (RandFail # rs) = None"
| "random_bytes n (RandBytes bs # rs) =
     (if bs = [] then None
      else map_option ((@) (take n bs)) (random_bytes (n - length (take n bs)) rs))"

definition hex_digit :: "nat \<Rightarrow> char" where
  "hex_digit d = ''0123456789abcdef'' ! d"

text \<open>None is the exception of a failing random source.\<close>

definition NewResumeTicket :: "'r env \<Rightarrow> string option" where
  "NewResumeTicket en = map_option
     (\<lambda>bs. concat (map (\<lambda>b. [hex_digit (unat b div 16), hex_digit (unat b mod 16)]) bs))
     (random_bytes 32 (en_random en))"

definition HashMeetingPassword :: "'r env \<Rightarrow> string \<Rightarrow> string" where
  "HashMeetingPassword en password = (case en_gensalt en of
       None \<Rightarrow> []
     | Some setting \<Rightarrow> (case en_crypt en (c_str password) setting of None \<Rightarrow> [] | Some h \<Rightarrow> h))"

definition CheckMeetingPassword :: "'r env \<Rightarrow> string \<Rightarrow> string \<Rightarrow> bool" where
  "CheckMeetingPassword en password password_hash =
     (if password = [] \<or> password_hash = [] then False
      else let result = (case en_crypt en (c_str password) (c_str password_hash) of
             None \<Rightarrow> [] | Some h \<Rightarrow> h)
           in result \<noteq> [] \<and> result = password_hash)"

definition ju64 :: "u64 \<Rightarrow> json" where "ju64 n = JInt (uint n)"
definition jid :: "u64 \<Rightarrow> json" where "jid n = JString (to_string (unat n))"

text \<open>An object with the given members, set in order.\<close>

definition jobj :: "(string \<times> json) list \<Rightarrow> json" where
  "jobj kvs = fold (\<lambda>(k, v). jset k v) kvs JNull"

definition MeetingMessageToJson :: "message_info \<Rightarrow> string \<Rightarrow> bool \<Rightarrow> json" where
  "MeetingMessageToJson m sender_name is_mine =
     jobj
      [(''message_id'', jid (mg_id m)), (''client_msg_id'', JString (mg_client_msg_id m)),
       (''meeting_id'', jid (mg_meeting m)),
       (''chat_type'', JString (if mg_receiver m \<noteq> None then ''private'' else ''group'')),
       (''sender_user_id'', JInt (mg_sender m)), (''sender_name'', JString sender_name),
       (''receiver_user_id'', case mg_receiver m of Some r \<Rightarrow> ju64 r | None \<Rightarrow> JNull),
       (''content'', JString (mg_content m)), (''created_at'', JString (mg_created_at m)),
       (''is_mine'', JBool is_mine)]"

definition parse_object :: "'r env \<Rightarrow> string \<Rightarrow> json option" where
  "parse_object en message = (case en_parse en message of
       Some v \<Rightarrow> if is_object v then Some v else None | None \<Rightarrow> None)"

definition str_field :: "json \<Rightarrow> string \<Rightarrow> string" where
  "str_field req k = as_string (jget req k)"

definition has_string :: "json \<Rightarrow> string \<Rightarrow> bool" where
  "has_string req k = is_string (jget req k)"

text \<open>A meeting id given as a decimal string, not zero.\<close>

definition meeting_id_text :: "string \<Rightarrow> u64 option" where
  "meeting_id_text text = (case stoull_full text of
       Some n \<Rightarrow> if n = 0 then None else Some n | None \<Rightarrow> None)"

section \<open>Responses\<close>

text \<open>How a handler's body ends: with the response value, by an exception when the
  response held this value, or with no response owed.\<close>

datatype outcome = Reply json | Throw json | NoReply

definition fail :: "error_code \<Rightarrow> json \<Rightarrow> ('r, outcome) prog" where
  "fail e v = ret (Reply (jset ''error'' (JInt (code e)) v))"

definition succeed :: "json \<Rightarrow> ('r, outcome) prog" where
  "succeed v = ret (Reply (jset ''error'' (JInt (code SUCCESS)) v))"

fun deferred :: "outcome \<Rightarrow> json option" where
  "deferred (Reply v) = Some v"
| "deferred (Throw v) = Some (jset ''error'' (JInt (code ERROR_NETWORK)) v)"
| "deferred NoReply = None"

definition respond :: "'r env \<Rightarrow> nat \<Rightarrow> u16 \<Rightarrow> ('r, outcome) prog \<Rightarrow> ('r, unit) prog" where
  "respond en sid rid body = do {
     r \<leftarrow> body;
     case deferred r of
       None \<Rightarrow> ret ()
     | Some v \<Rightarrow> do { _ \<leftarrow> send sid rid (en_styled en v); ret () }
   }"

text \<open>if (!session) return.\<close>

definition on_session :: "nat option \<Rightarrow> (nat \<Rightarrow> ('r, unit) prog) \<Rightarrow> ('r, unit) prog" where
  "on_session session f = (case session of None \<Rightarrow> ret () | Some sid \<Rightarrow> f sid)"

section \<open>Sequences of storage calls\<close>

text \<open>a && b && ..., which stops at the first failure.\<close>

fun conj_ok :: "('r, bool) prog list \<Rightarrow> ('r, bool) prog" where
  "conj_ok [] = ret True"
| "conj_ok (m # ms) = do { ok \<leftarrow> m; if ok then conj_ok ms else ret False }"

text \<open>ok = call && ok, for each call in turn: every call is made.\<close>

fun each_ok :: "bool \<Rightarrow> ('r, bool) prog list \<Rightarrow> ('r, bool) prog" where
  "each_ok ok [] = ret ok"
| "each_ok ok (m # ms) = do { b \<leftarrow> m; each_ok (b \<and> ok) ms }"

section \<open>Broadcast\<close>

text \<open>The loop over room.sessions: expired entries are dropped, the others get the
  message when cond holds.  The result is the list that remains.\<close>

fun push_to :: "(session \<Rightarrow> bool) \<Rightarrow> u16 \<Rightarrow> string \<Rightarrow> nat list \<Rightarrow> ('r, nat list) prog" where
  "push_to cond rid text [] = ret []"
| "push_to cond rid text (i # is) = do {
     up \<leftarrow> look (alive i);
     if \<not> up then push_to cond rid text is
     else do {
       s \<leftarrow> look (sess i);
       _ \<leftarrow> (if cond s then send i rid text else ret True);
       rest \<leftarrow> push_to cond rid text is;
       ret (i # rest)
     }
   }"

definition broadcast :: "u64 \<Rightarrow> (session \<Rightarrow> bool) \<Rightarrow> u16 \<Rightarrow> string \<Rightarrow> ('r, unit) prog" where
  "broadcast rid cond mid text = do {
     ids \<leftarrow> look (\<lambda>w. rm_sessions (room_at rid w));
     rest \<leftarrow> push_to cond mid text ids;
     modify (set_room_sessions rid (\<lambda>_. rest))
   }"

text \<open>erase(remove_if ...) with the expired entries and those in bad dropped.\<close>

definition drop_sessions :: "u64 \<Rightarrow> (nat \<Rightarrow> 'r world \<Rightarrow> bool) \<Rightarrow> ('r, unit) prog" where
  "drop_sessions rid bad =
     modify (\<lambda>w. set_room_sessions rid (filter (\<lambda>i. alive i w \<and> \<not> bad i w)) w)"

section \<open>The presence table\<close>

definition ReserveUser :: "int \<Rightarrow> u64 \<Rightarrow> ('r, bool) prog" where
  "ReserveUser uid meeting = State (\<lambda>w.
     let it = (case w_users w uid of Some p \<Rightarrow> p
               | None \<Rightarrow> \<lparr>up_meeting = meeting, up_joining = 0, up_joined = False\<rparr>)
     in if up_meeting it \<noteq> meeting then (False, w)
        else (True, w\<lparr>w_users := (w_users w)(uid \<mapsto> it\<lparr>up_joining := up_joining it + 1\<rparr>)\<rparr>))"

definition FinishJoin :: "int \<Rightarrow> u64 \<Rightarrow> bool \<Rightarrow> 'r world \<Rightarrow> 'r world" where
  "FinishJoin uid meeting joined w =
     (case w_users w uid of
        None \<Rightarrow> w
      | Some it \<Rightarrow>
          if up_meeting it \<noteq> meeting then w
          else let it' = it\<lparr>up_joining := size_sub (up_joining it) 1, up_joined := up_joined it \<or> joined\<rparr>
               in w\<lparr>w_users := (w_users w)(uid :=
                    if \<not> up_joined it' \<and> up_joining it' = 0 then None else Some it')\<rparr>)"

definition ReleaseUser :: "int \<Rightarrow> u64 \<Rightarrow> 'r world \<Rightarrow> 'r world" where
  "ReleaseUser uid meeting w =
     (case w_users w uid of
        Some it \<Rightarrow> if up_meeting it = meeting then w\<lparr>w_users := (w_users w)(uid := None)\<rparr> else w
      | None \<Rightarrow> w)"

definition ReleaseRoomUsers :: "u64 \<Rightarrow> 'r world \<Rightarrow> 'r world" where
  "ReleaseRoomUsers meeting w = w\<lparr>w_users := (\<lambda>uid. case w_users w uid of
       Some it \<Rightarrow> if up_meeting it = meeting then None else Some it | None \<Rightarrow> None)\<rparr>"

section \<open>The table of media signals\<close>

definition RegisterSignal :: "u64 \<Rightarrow> nat \<Rightarrow> u64 \<Rightarrow> ('r, u64) prog" where
  "RegisterSignal i sid meeting = State (\<lambda>w. (w_media_epoch w, w\<lparr>w_signals := (w_signals w)(i \<mapsto>
     \<lparr>sg_session = Some sid, sg_meeting = meeting, sg_epoch = w_media_epoch w\<rparr>)\<rparr>))"

definition FindSignal :: "u64 \<Rightarrow> 'r world \<Rightarrow> signal" where
  "FindSignal i w = (case w_signals w i of Some g \<Rightarrow> g
     | None \<Rightarrow> \<lparr>sg_session = None, sg_meeting = 0, sg_epoch = 0\<rparr>)"

definition RemoveSignal :: "u64 \<Rightarrow> 'r world \<Rightarrow> 'r world" where
  "RemoveSignal i w = w\<lparr>w_signals := (w_signals w)(i := None)\<rparr>"

definition ReleaseMediaSession :: "'r env \<Rightarrow> nat \<Rightarrow> ('r, unit) prog" where
  "ReleaseMediaSession en sid = do {
     i \<leftarrow> look (\<lambda>w. s_signal_id (sess sid w));
     if i = 0 then ret ()
     else do {
       binding \<leftarrow> look (FindSignal i);
       bound \<leftarrow> look (lock (sg_session binding));
       uid \<leftarrow> look (uid_of sid);
       _ \<leftarrow> (if sg_epoch binding \<noteq> 0 \<and> bound = Some sid
            then SendMediaSignal (en_styled en (jobj [(''signal_id'', ju64 i),
                   (''meeting_id'', ju64 (sg_meeting binding)), (''uid'', JInt uid),
                   (''signal_type'', JString ''leave'')])) (sg_epoch binding)
            else ret False);
       modify (RemoveSignal i);
       modify (set_sess sid (ClearMediaSignalId i))
     }
   }"

end
