(* ===== verification/AccountHandlers.thy ===== *)
theory AccountHandlers
  imports LogicCommon
begin

text \<open>
  The handlers of src/service/LogicSystem.cpp that need no room: login, the AI
  question, creating a meeting and the meeting history.
\<close>

section \<open>LoginHandler\<close>

definition recent_json :: "recent_meeting \<Rightarrow> json" where
  "recent_json m = jobj
     [(''meeting_code'', JString (rc_code m)), (''title'', JString (rc_title m)),
      (''creator_display_name'', JString (rc_creator_name m)),
      (''creator_avatar_url'', JString (rc_creator_avatar m)),
      (''status'', JInt (status_number (rc_status m))),
      (''requires_password'', JBool (rc_requires_password m)),
      (''max_participants'', JInt (int (rc_max_participants m))),
      (''scheduled_at'', JString (rc_scheduled_at m))]"

text \<open>session_info[''uid''].asInt() on a parsed document; None is the exception.\<close>

definition session_uid :: "json \<Rightarrow> int option" where
  "session_uid info = (if is_object info \<or> is_null info then as_int_conv (jget info ''uid'') else None)"

definition auth_key :: "string \<Rightarrow> string" where
  "auth_key token = ''auth::session:'' @ token"

text \<open>The second half: the identity is proved, the profile is read and bound.\<close>

definition login_profile :: "'r env \<Rightarrow> nat \<Rightarrow> string \<Rightarrow> string \<Rightarrow> int \<Rightarrow> ('r, outcome) prog" where
  "login_profile en sid token email user_id = do {
     found \<leftarrow> mysql (GetUserInfo (en_mysql en) email);
     case found of
       None \<Rightarrow> fail ERROR_MYSQL JNull
     | Some ui \<Rightarrow>
         if ui_uid ui \<noteq> user_id \<or> ui_username ui = [] then fail ERROR_MYSQL JNull
         else do {
           let res = jobj [(''email'', JString (ui_email ui)), (''username'', JString (ui_username ui))];
           recent \<leftarrow> mysql (GetMeetingRecently (en_mysql en) user_id);
           case recent of
             None \<Rightarrow> fail ERROR_MYSQL res
           | Some meetings \<Rightarrow> do {
               let res = jset ''meetings'' (JArray (map recent_json meetings)) res;
               closed \<leftarrow> look (\<lambda>w. IsClosed (sess sid w));
               if closed then ret (Reply res)
               else do {
                 modify (set_sess sid (SetAuthToken token));
                 modify (set_sess sid (SetUserId user_id));
                 succeed (jset ''capabilities'' (JArray [JString ''meeting_resume_v1'',
                   JString ''heartbeat_v1'', JString ''heartbeat_v2'']) res)
               }
             }
         }
   }"

definition login_body :: "'r env \<Rightarrow> nat \<Rightarrow> string \<Rightarrow> ('r, outcome) prog" where
  "login_body en sid message =
     (case parse_object en message of
        None \<Rightarrow> fail ERROR_JSON JNull
      | Some req \<Rightarrow>
          if \<not> is_int (jget req ''uid'') \<or> \<not> has_string req ''token'' \<or> \<not> has_string req ''email''
          then fail ERROR_JSON JNull
          else do {
            let uid = as_int (jget req ''uid'');
            let token = str_field req ''token'';
            found \<leftarrow> redis (Lookup (en_redis en) (auth_key token));
            case found of
              Missing \<Rightarrow> fail ERROR_TOKEN JNull
            | Unavailable \<Rightarrow> fail ERROR_REDIS JNull
            | Found text \<Rightarrow>
                (case en_parse en text of
                   None \<Rightarrow> fail ERROR_TOKEN JNull
                 | Some info \<Rightarrow>
                     (case session_uid info of
                        None \<Rightarrow> ret (Throw JNull)
                      | Some user_id \<Rightarrow> do {
                          bound \<leftarrow> look (uid_of sid);
                          if user_id \<le> 0 \<or> uid \<noteq> user_id \<or> (bound > 0 \<and> bound \<noteq> user_id)
                          then fail ERROR_TOKEN JNull
                          else login_profile en sid token (str_field req ''email'') user_id
                        }))
          })"

definition LoginHandler :: "'r env \<Rightarrow> nat option \<Rightarrow> string \<Rightarrow> ('r, unit) prog" where
  "LoginHandler en session message =
     on_session session (\<lambda>sid. respond en sid AUTH_LOGIN_RESPONSE (login_body en sid message))"

section \<open>AiAskHandler\<close>

definition kAiErrorEmptyQuestion :: int where "kAiErrorEmptyQuestion = 1001"
definition kAiErrorRequestFailed :: int where "kAiErrorRequestFailed = 2002"

text \<open>The error texts, in UTF-8.\<close>

definition msg_login_first :: string where
  "msg_login_first = map char_of ([232, 175, 183, 229, 133, 136, 231, 153, 187, 229, 189, 149, 229, 144, 142, 229, 134, 141,
     230, 143, 144, 233, 151, 174, 227, 128, 130] :: nat list)"

definition msg_bad_format :: string where
  "msg_bad_format = map char_of ([233, 151, 174, 233, 162, 152, 230, 160, 188, 229, 188, 143, 228, 184, 141, 230, 173, 163,
     231, 161, 174, 227, 128, 130] :: nat list)"

definition msg_empty_question :: string where
  "msg_empty_question = map char_of ([233, 151, 174, 233, 162, 152, 228, 184, 141, 232, 131, 189, 228, 184, 186, 231, 169, 186,
     227, 128, 130] :: nat list)"

definition msg_ai_unavailable :: string where
  "msg_ai_unavailable = map char_of ([65, 73, 32, 230, 156, 141, 229, 138, 161, 230, 154, 130, 230, 151, 182, 228, 184, 141,
     229, 143, 175, 231, 148, 168, 239, 188, 140, 232, 175, 183, 231, 168, 141, 229, 144, 142,
     229, 134, 141, 232, 175, 149, 227, 128, 130] :: nat list)"

definition ai_error :: "int \<Rightarrow> string \<Rightarrow> outcome" where
  "ai_error e text = Reply (jobj [(''error'', JInt e), (''error_message'', JString text)])"

definition ai_body :: "'r env \<Rightarrow> nat \<Rightarrow> string \<Rightarrow> ('r, outcome) prog" where
  "ai_body en sid message = do {
     uid \<leftarrow> look (uid_of sid);
     if uid \<le> 0 then ret (ai_error (code ERROR_TOKEN) msg_login_first)
     else case parse_object en message of
       None \<Rightarrow> ret (ai_error (code ERROR_JSON) msg_bad_format)
     | Some req \<Rightarrow>
         if \<not> has_string req ''question'' then ret (ai_error (code ERROR_JSON) msg_bad_format)
         else if str_field req ''question'' = [] then ret (ai_error kAiErrorEmptyQuestion msg_empty_question)
         else case en_ai en of
           None \<Rightarrow> ret (ai_error kAiErrorRequestFailed msg_ai_unavailable)
         | Some ask \<Rightarrow>
             (case ask (str_field req ''question'') of
                AiBusy \<Rightarrow> ret (Throw JNull)
              | AiFailed \<Rightarrow> ret (ai_error kAiErrorRequestFailed msg_ai_unavailable)
              | AiReply e answer error_message \<Rightarrow>
                  if e = 0 then ret (Reply (jobj [(''error'', JInt e), (''answer'', JString answer)]))
                  else ret (ai_error e error_message))
   }"

definition AiAskHandler :: "'r env \<Rightarrow> nat option \<Rightarrow> string \<Rightarrow> ('r, unit) prog" where
  "AiAskHandler en session message =
     on_session session (\<lambda>sid. respond en sid ID_AI_ASK_RESPONSE (ai_body en sid message))"

section \<open>CreateMeetingHandler\<close>

text \<open>A string member that may be null; None is another type.\<close>

definition optional_string :: "json \<Rightarrow> string \<Rightarrow> string option" where
  "optional_string req k =
     (if is_null (jget req k) then Some [] else if has_string req k then Some (str_field req k) else None)"

definition create_store :: "'r env \<Rightarrow> create_info \<Rightarrow> ('r, outcome) prog" where
  "create_store en ci = do {
     created \<leftarrow> mysql (Db_CreateMeeting (en_mysql en) (en_codes en) ci);
     if created = None then fail ERROR_MYSQL JNull
     else do {
       recent \<leftarrow> mysql (GetMeetingRecently (en_mysql en) (ci_user_id ci));
       case recent of
         None \<Rightarrow> succeed (jobj [(''meetings_sync'', JBool False)])
       | Some meetings \<Rightarrow>
           succeed (jobj [(''meetings'', JArray (map recent_json meetings)), (''meetings_sync'', JBool True)])
     }
   }"

definition create_body :: "'r env \<Rightarrow> nat \<Rightarrow> string \<Rightarrow> ('r, outcome) prog" where
  "create_body en sid message =
     (case parse_object en message of
        None \<Rightarrow> fail ERROR_JSON JNull
      | Some req \<Rightarrow>
          if \<not> has_string req ''title'' \<or> str_field req ''title'' = [] \<or> length (str_field req ''title'') > 200
          then fail ERROR_JSON JNull
          else case optional_string req ''scheduled_at'' of
            None \<Rightarrow> fail ERROR_JSON JNull
          | Some scheduled_at \<Rightarrow>
              (case optional_string req ''password'' of
                 None \<Rightarrow> fail ERROR_JSON JNull
               | Some password \<Rightarrow>
                   if length password > 72 then fail ERROR_PASSWORD JNull
                   else do {
                     uid \<leftarrow> look (uid_of sid);
                     if uid \<le> 0 then fail ERROR_TOKEN JNull
                     else if password \<noteq> [] \<and> HashMeetingPassword en password = []
                     then fail ERROR_PASSWORD JNull
                     else create_store en \<lparr>ci_user_id = uid, ci_title = str_field req ''title'',
                            ci_scheduled_at = scheduled_at,
                            ci_password_hash = (if password = [] then [] else HashMeetingPassword en password)\<rparr>
                   }))"

definition CreateMeetingHandler :: "'r env \<Rightarrow> nat option \<Rightarrow> string \<Rightarrow> ('r, unit) prog" where
  "CreateMeetingHandler en session message =
     on_session session (\<lambda>sid. respond en sid ID_CREATE_MEETING_RESPONSE (create_body en sid message))"

section \<open>GetPastMeetingHandler\<close>

definition history_json :: "history_meeting \<Rightarrow> json" where
  "history_json m = jobj
     [(''meeting_code'', JString (hm_code m)), (''title'', JString (hm_title m)),
      (''creator_display_name'', JString (hm_creator_name m)),
      (''creator_avatar_url'', JString (hm_creator_avatar m)),
      (''started_at'', JString (hm_started_at m)), (''ended_at'', JString (hm_ended_at m))]"

definition past_body :: "'r env \<Rightarrow> nat \<Rightarrow> ('r, outcome) prog" where
  "past_body en sid = do {
     uid \<leftarrow> look (uid_of sid);
     if uid \<le> 0 then fail ERROR_TOKEN JNull
     else do {
       history \<leftarrow> mysql (GetHistoryMeeting (en_mysql en) uid);
       case history of
         None \<Rightarrow> fail ERROR_MYSQL JNull
       | Some meetings \<Rightarrow> succeed (jobj [(''meetings'', JArray (map history_json meetings))])
     }
   }"

definition GetPastMeetingHandler :: "'r env \<Rightarrow> nat option \<Rightarrow> string \<Rightarrow> ('r, unit) prog" where
  "GetPastMeetingHandler en session message =
     on_session session (\<lambda>sid. respond en sid ID_PAST_MEETING_RESPONSE (past_body en sid))"

end
