(* ===== verification/RoomHandlers.thy ===== *)
theory RoomHandlers
  imports LogicCommon
begin

text \<open>
  The handlers of src/service/LogicSystem.cpp that change a room or a meeting's life
  cycle: starting, leaving and ending a meeting, the clean-up of a lost connection and
  the expiry of a member whose reconnection time is over.  rid is the id of the Room
  the operation runs in (0 for the ordinary one).
\<close>

section \<open>StartMeetingHandler\<close>

definition start_commit :: "'r env \<Rightarrow> u64 \<Rightarrow> int \<Rightarrow> u64 \<Rightarrow> ('r, outcome) prog" where
  "start_commit en rid uid meeting_id = do {
     (found, storage_error) \<leftarrow> mysql (GetMeetingInfoById meeting_id);
     case found of
       None \<Rightarrow> fail ERROR_MEETING_NOT_FOUND JNull
     | Some mi \<Rightarrow>
         if mi_creator mi \<noteq> of_int uid then fail ERROR_MEETING_ACCESS JNull
         else if mi_status mi \<noteq> Scheduled then fail ERROR_MEETING_STATUS JNull
         else do {
           ok \<leftarrow> mysql (Db_StartMeeting (en_mysql en) meeting_id uid);
           if \<not> ok then fail ERROR_MYSQL JNull
           else do {
             let note = jobj [(''meeting_id'', jid meeting_id), (''status'', JString ''in_progress'')];
             broadcast rid (\<lambda>_. True) ID_MEETING_STARTED (en_styled en note);
             ret (Reply (jobj [(''error'', JInt (code SUCCESS)), (''meeting_id'', jid meeting_id),
               (''status'', JString ''in_progress'')]))
           }
         }
   }"

text \<open>The common entry of start, leave and end: a decimal meeting id and a logged-in
  session.\<close>

definition with_meeting_id :: "'r env \<Rightarrow> nat \<Rightarrow> string \<Rightarrow> (u64 \<Rightarrow> int \<Rightarrow> ('r, outcome) prog)
    \<Rightarrow> ('r, outcome) prog" where
  "with_meeting_id en sid message f =
     (case parse_object en message of
        None \<Rightarrow> fail ERROR_JSON JNull
      | Some req \<Rightarrow>
          if \<not> has_string req ''meeting_id'' then fail ERROR_JSON JNull
          else case meeting_id_text (str_field req ''meeting_id'') of
            None \<Rightarrow> fail ERROR_JSON JNull
          | Some meeting_id \<Rightarrow> do {
              uid \<leftarrow> look (uid_of sid);
              if uid \<le> 0 then fail ERROR_TOKEN JNull else f meeting_id uid
            })"

definition start_body :: "'r env \<Rightarrow> u64 \<Rightarrow> nat \<Rightarrow> string \<Rightarrow> ('r, outcome) prog" where
  "start_body en rid sid message =
     with_meeting_id en sid message (\<lambda>meeting_id uid. start_commit en rid uid meeting_id)"

definition StartMeetingHandler :: "'r env \<Rightarrow> u64 \<Rightarrow> nat option \<Rightarrow> string \<Rightarrow> ('r, unit) prog" where
  "StartMeetingHandler en rid session message =
     on_session session (\<lambda>sid. respond en sid ID_START_MEETING_RESPONSE (start_body en rid sid message))"

section \<open>LeaveMeetingHandler\<close>

text \<open>The member and its presence are erased.\<close>

definition erase_member :: "u64 \<Rightarrow> int \<Rightarrow> u64 \<Rightarrow> ('r, unit) prog" where
  "erase_member rid uid meeting = do {
     modify (set_member rid uid None);
     modify (ReleaseUser uid meeting)
   }"

text \<open>The member's Redis records go; stops at the first failing call.\<close>

definition leave_redis :: "'r env \<Rightarrow> u64 \<Rightarrow> int \<Rightarrow> ('r, bool) prog" where
  "leave_redis en meeting uid =
     (let srv = en_redis en; text = int_to_string uid in conj_ok
        [redis (SRem srv (RoomMembersKey meeting) text),
         redis (Redis_Del srv (RoomMemberStateKey meeting uid)),
         redis (ZRem srv ReconnectDeadlineKey (ReconnectDeadlineMember meeting uid)),
         redis (HSet srv (presence_key text) ''status'' ''online''),
         redis (HSet srv (presence_key text) ''meeting_id'' [])])"

definition leave_notify :: "'r env \<Rightarrow> u64 \<Rightarrow> nat \<Rightarrow> u64 \<Rightarrow> int \<Rightarrow> ('r, unit) prog" where
  "leave_notify en rid sid meeting uid = do {
     none \<leftarrow> look (\<lambda>w. rm_sessions (room_at rid w) = []);
     if none then ret ()
     else do {
       drop_sessions rid (\<lambda>i _. i = sid);
       n \<leftarrow> redis (SCard (en_redis en) (RoomMembersKey meeting));
       broadcast rid (\<lambda>s. s_user_id s \<noteq> uid) ID_MEETING_MEMBER_LEFT
         (en_styled en (jobj [(''meeting_id'', jid meeting), (''user_id'', JInt uid),
            (''current_participants'', JInt n)]))
     }
   }"

definition leave_commit :: "'r env \<Rightarrow> u64 \<Rightarrow> nat \<Rightarrow> u64 \<Rightarrow> int \<Rightarrow> ('r, outcome) prog" where
  "leave_commit en rid sid meeting uid = do {
     ok \<leftarrow> leave_redis en meeting uid;
     if \<not> ok then fail ERROR_REDIS JNull
     else do {
       leave_notify en rid sid meeting uid;
       ReleaseMediaSession en sid;
       erase_member rid uid meeting;
       modify (set_sess sid (SetMeetingId 0));
       ret (Reply (jobj [(''error'', JInt (code SUCCESS)), (''meeting_id'', jid meeting)]))
     }
   }"

text \<open>A session that is not in the meeting: success when the meeting has ended.\<close>

definition leave_elsewhere :: "u64 \<Rightarrow> ('r, outcome) prog" where
  "leave_elsewhere meeting = do {
     (found, storage_error) \<leftarrow> mysql (GetMeetingInfoById meeting);
     if (case found of Some mi \<Rightarrow> mi_status mi = Ended | None \<Rightarrow> False)
     then ret (Reply (jobj [(''error'', JInt (code SUCCESS)), (''meeting_id'', jid meeting)]))
     else fail ERROR_MEETING_ACCESS JNull
   }"

definition leave_body :: "'r env \<Rightarrow> u64 \<Rightarrow> nat \<Rightarrow> string \<Rightarrow> ('r, outcome) prog" where
  "leave_body en rid sid message =
     with_meeting_id en sid message (\<lambda>meeting uid. do {
       current \<leftarrow> look (meeting_of sid);
       if current \<noteq> meeting then leave_elsewhere meeting
       else leave_commit en rid sid meeting uid
     })"

definition LeaveMeetingHandler :: "'r env \<Rightarrow> u64 \<Rightarrow> nat option \<Rightarrow> string \<Rightarrow> ('r, unit) prog" where
  "LeaveMeetingHandler en rid session message =
     on_session session (\<lambda>sid. respond en sid ID_LEAVE_MEETING_RESPONSE (leave_body en rid sid message))"

section \<open>EndMeetingHandler\<close>

text \<open>The records of one member; a member that is no number only clears the flag.\<close>

fun end_members :: "'r env \<Rightarrow> u64 \<Rightarrow> bool \<Rightarrow> string list \<Rightarrow> ('r, bool) prog" where
  "end_members en meeting ok [] = ret ok"
| "end_members en meeting ok (m # ms) =
     (case stoi m of
        None \<Rightarrow> end_members en meeting False ms
      | Some uid \<Rightarrow> do {
          ok' \<leftarrow> each_ok ok
            [redis (Redis_Del (en_redis en) (RoomMemberStateKey meeting uid)),
             redis (ZRem (en_redis en) ReconnectDeadlineKey (ReconnectDeadlineMember meeting uid)),
             redis (HSet (en_redis en) (presence_key m) ''status'' ''online''),
             redis (HSet (en_redis en) (presence_key m) ''meeting_id'' [])];
          end_members en meeting ok' ms
        })"

definition end_redis :: "'r env \<Rightarrow> u64 \<Rightarrow> ('r, bool) prog" where
  "end_redis en meeting = do {
     found \<leftarrow> redis (SMembers (en_redis en) (RoomMembersKey meeting));
     case found of
       None \<Rightarrow> ret False
     | Some ms \<Rightarrow> do {
         ok \<leftarrow> end_members en meeting True ms;
         each_ok ok [redis (Redis_Del (en_redis en) (RoomMembersKey meeting))]
       }
   }"

text \<open>Every connection of the room is told and leaves the meeting.\<close>

fun end_sessions :: "'r env \<Rightarrow> string \<Rightarrow> nat list \<Rightarrow> ('r, unit) prog" where
  "end_sessions en text [] = ret ()"
| "end_sessions en text (i # is) = do {
     up \<leftarrow> look (alive i);
     (if up then do {
        _ \<leftarrow> send i ID_MEETING_ENDED text;
        ReleaseMediaSession en i;
        modify (set_sess i (SetMeetingId 0))
      } else ret ());
     end_sessions en text is
   }"

definition end_commit :: "'r env \<Rightarrow> u64 \<Rightarrow> u64 \<Rightarrow> ('r, outcome) prog" where
  "end_commit en rid meeting = do {
     cleanup_ok \<leftarrow> end_redis en meeting;
     modify (set_room rid (\<lambda>r. r\<lparr>rm_members := []\<rparr>));
     modify (ReleaseRoomUsers meeting);
     ids \<leftarrow> look (\<lambda>w. rm_sessions (room_at rid w));
     end_sessions en (en_styled en (jobj [(''meeting_id'', jid meeting), (''status'', JString ''ended'')])) ids;
     modify (set_room_sessions rid (\<lambda>_. []));
     ret (Reply (jobj [(''error'', JInt (code SUCCESS)), (''meeting_id'', jid meeting),
       (''status'', JString ''ended''), (''cleanup_sync'', JBool cleanup_ok)]))
   }"

definition end_body :: "'r env \<Rightarrow> u64 \<Rightarrow> nat \<Rightarrow> string \<Rightarrow> ('r, outcome) prog" where
  "end_body en rid sid message =
     with_meeting_id en sid message (\<lambda>meeting uid. do {
       (found, storage_error) \<leftarrow> mysql (GetMeetingInfoById meeting);
       case found of
         None \<Rightarrow> fail ERROR_MEETING_NOT_FOUND JNull
       | Some mi \<Rightarrow>
           if mi_creator mi \<noteq> of_int uid then fail ERROR_MEETING_ACCESS JNull
           else if mi_status mi \<noteq> InProgress then fail ERROR_MEETING_STATUS JNull
           else do {
             ok \<leftarrow> mysql (Db_EndMeeting (en_mysql en) meeting uid);
             if \<not> ok then fail ERROR_MYSQL JNull else end_commit en rid meeting
           }
     })"

definition EndMeetingHandler :: "'r env \<Rightarrow> u64 \<Rightarrow> nat option \<Rightarrow> string \<Rightarrow> ('r, unit) prog" where
  "EndMeetingHandler en rid session message =
     on_session session (\<lambda>sid. respond en sid ID_END_MEETING_RESPONSE (end_body en rid sid message))"

section \<open>SessionDisconnectedHandler\<close>

text \<open>The three reconnection records; Some is the notification text.\<close>

definition disconnect_redis :: "'r env \<Rightarrow> u64 \<Rightarrow> int \<Rightarrow> ('r, string option) prog" where
  "disconnect_redis en meeting uid =
     (let srv = en_redis en; text = int_to_string uid; state_key = RoomMemberStateKey meeting uid;
          deadline = en_time en + kReconnectGraceSeconds in do {
        isin \<leftarrow> redis (SIsMember srv (RoomMembersKey meeting) text);
        if \<not> isin then ret None
        else do {
          st \<leftarrow> redis (HGet srv state_key ''room_state'');
          if st = ''reconnecting'' then ret None
          else do {
            ok \<leftarrow> conj_ok
              [redis (HSet srv state_key ''room_state'' ''reconnecting''),
               redis (HSet srv state_key ''reconnect_deadline_at'' (int_to_string deadline)),
               redis (ZAdd srv ReconnectDeadlineKey (ReconnectDeadlineMember meeting uid) deadline)];
            if ok then do {
              n \<leftarrow> redis (SCard srv (RoomMembersKey meeting));
              ret (Some (en_styled en (jobj [(''meeting_id'', jid meeting), (''user_id'', JInt uid),
                (''room_state'', JString ''reconnecting''), (''reconnect_deadline_at'', JInt deadline),
                (''current_participants'', JInt n)])))
            } else do {
              _ \<leftarrow> redis (HSet srv state_key ''room_state'' ''active'');
              _ \<leftarrow> redis (HSet srv state_key ''reconnect_deadline_at'' []);
              _ \<leftarrow> redis (ZRem srv ReconnectDeadlineKey (ReconnectDeadlineMember meeting uid));
              ret None
            }
          }
        }
      })"

definition grace_deadline :: "'r env \<Rightarrow> nat \<Rightarrow> int \<Rightarrow> u64 \<Rightarrow> 'r world \<Rightarrow> 'r world" where
  "grace_deadline en sid uid rid w =
     (case member_at rid uid w of
        Some m \<Rightarrow> if lock (mb_session m) w = Some sid
          then set_member rid uid (Some (m\<lparr>mb_deadline := en_steady en + kReconnectGraceSeconds * 1000\<rparr>)) w
          else w
      | None \<Rightarrow> w)"

text \<open>The lost connection is in the list, and no other connection of its user is.\<close>

definition lost_last :: "nat \<Rightarrow> int \<Rightarrow> u64 \<Rightarrow> 'r world \<Rightarrow> bool" where
  "lost_last sid uid rid w \<longleftrightarrow>
     (let up = filter (\<lambda>i. alive i w) (rm_sessions (room_at rid w)) in
      sid \<in> set up \<and> \<not> (\<exists>i \<in> set up. i \<noteq> sid \<and> uid_of i w = uid))"

definition SessionDisconnectedHandler :: "'r env \<Rightarrow> u64 \<Rightarrow> nat option \<Rightarrow> ('r, unit) prog" where
  "SessionDisconnectedHandler en rid session = on_session session (\<lambda>sid. do {
     meeting \<leftarrow> look (meeting_of sid);
     if meeting = 0 then ret ()
     else do {
       uid \<leftarrow> look (uid_of sid);
       none \<leftarrow> look (\<lambda>w. rm_sessions (room_at rid w) = []);
       (if none then ret ()
        else do {
         last_one \<leftarrow> look (lost_last sid uid rid);
         drop_sessions rid (\<lambda>i _. i = sid);
         modify (grace_deadline en sid uid rid);
         note \<leftarrow> (if last_one \<and> uid > 0 then disconnect_redis en meeting uid else ret None);
         case note of
           None \<Rightarrow> ret ()
         | Some text \<Rightarrow> broadcast rid (\<lambda>s. s_user_id s \<noteq> uid) ID_MEETING_MEMBER_RECONNECTING text
        });
       ReleaseMediaSession en sid;
       modify (set_sess sid (SetMeetingId 0))
     }
   })"

section \<open>ExpireMemberHandler and ReconnectTimeoutCheckHandler\<close>

text \<open>member.substr(member.find(':') + 1), the whole string without a colon.\<close>

definition after_colon :: "string \<Rightarrow> string" where
  "after_colon s = (if CHR '':'' \<in> set s then tl (dropWhile (\<lambda>c. c \<noteq> CHR '':'') s) else s)"

definition before_colon :: "string \<Rightarrow> string" where
  "before_colon s = takeWhile (\<lambda>c. c \<noteq> CHR '':'') s"

text \<open>The member leaves: Redis records, membership, presence, notification.\<close>

definition expire_commit :: "'r env \<Rightarrow> u64 \<Rightarrow> int \<Rightarrow> string \<Rightarrow> ('r, unit) prog" where
  "expire_commit en rid uid deadline_member =
     (let srv = en_redis en; text = int_to_string uid in do {
        ok \<leftarrow> conj_ok [redis (SRem srv (RoomMembersKey rid) text),
                        redis (ZRem srv ReconnectDeadlineKey deadline_member)];
        if \<not> ok then ret ()
        else do {
          _ \<leftarrow> redis (Redis_Del srv (RoomMemberStateKey rid uid));
          _ \<leftarrow> redis (HSet srv (presence_key text) ''status'' ''online'');
          _ \<leftarrow> redis (HSet srv (presence_key text) ''meeting_id'' []);
          erase_member rid uid rid;
          n \<leftarrow> redis (SCard srv (RoomMembersKey rid));
          broadcast rid (\<lambda>_. True) ID_MEETING_MEMBER_TIMEOUT_LEFT
            (en_styled en (jobj [(''meeting_id'', jid rid), (''user_id'', JInt uid),
               (''current_participants'', JInt n)]))
        }
      })"

definition ExpireMemberHandler :: "'r env \<Rightarrow> u64 \<Rightarrow> string \<Rightarrow> ('r, unit) prog" where
  "ExpireMemberHandler en rid deadline_member =
     (let srv = en_redis en;
          drop_index = (do { _ \<leftarrow> redis (ZRem srv ReconnectDeadlineKey deadline_member); ret () });
          uid = (case stoi (after_colon deadline_member) of Some u \<Rightarrow> u | None \<Rightarrow> 0) in
      if en_pool_busy en then ret ()
      else if uid \<le> 0 then drop_index
      else do {
        member \<leftarrow> look (member_at rid uid);
        if (case member of Some m \<Rightarrow> mb_deadline m > en_steady en | None \<Rightarrow> False) then ret ()
        else do {
          deadline_text \<leftarrow> redis (HGet srv (RoomMemberStateKey rid uid) ''reconnect_deadline_at'');
          let deadline = (case stoll deadline_text of Some d \<Rightarrow> d | None \<Rightarrow> 0);
          if deadline = 0 then drop_index
          else if deadline > en_time en then ret ()
          else do {
            st \<leftarrow> redis (HGet srv (RoomMemberStateKey rid uid) ''room_state'');
            if st \<noteq> ''reconnecting'' then drop_index
            else expire_commit en rid uid deadline_member
          }
        }
      })"

text \<open>The scan: which members have to be checked in which meeting.  A member without a
  meeting id is dropped from the index.\<close>

definition deadline_meeting :: "string \<Rightarrow> u64" where
  "deadline_meeting m = (if CHR '':'' \<in> set m
     then (case stoull (before_colon m) of Some (n, _) \<Rightarrow> n | None \<Rightarrow> 0) else 0)"

fun timeout_scan :: "'r env \<Rightarrow> string list \<Rightarrow> ('r, (u64 \<times> string) list) prog" where
  "timeout_scan en [] = ret []"
| "timeout_scan en (m # ms) =
     (if deadline_meeting m = 0 then do {
        _ \<leftarrow> redis (ZRem (en_redis en) ReconnectDeadlineKey m);
        timeout_scan en ms
      } else do {
        rest \<leftarrow> timeout_scan en ms;
        ret ((deadline_meeting m, m) # rest)
      })"

text \<open>The commands submitted to the rooms, in order.\<close>

definition ReconnectTimeoutCheckHandler :: "'r env \<Rightarrow> ('r, (u64 \<times> string) list) prog" where
  "ReconnectTimeoutCheckHandler en =
     (if en_pool_busy en then ret []
      else do {
        found \<leftarrow> redis (ZRangeByScore (en_redis en) ReconnectDeadlineKey (en_time en));
        case found of None \<Rightarrow> ret [] | Some ms \<Rightarrow> timeout_scan en ms
      })"

end
