(* ===== verification/JoinHandler.thy ===== *)
theory JoinHandler
  imports LogicCommon
begin

text \<open>
  Joining and resuming a meeting (JoinMeeetingHandler of src/service/LogicSystem.cpp),
  in the order of the code: validation, the resume credentials, the password, the
  Redis room, the writes that admit the member, the local membership, the response and
  the notifications.
\<close>

section \<open>Credentials\<close>

text \<open>The credentials of a resume request agree with the member's: the ticket, the
  login session, the grace period, and a generation that is the current one or the
  previous request repeated.\<close>

definition may_resume :: "'r env \<Rightarrow> string \<Rightarrow> string \<Rightarrow> string \<Rightarrow> u64 \<Rightarrow> membership \<Rightarrow> bool" where
  "may_resume en ticket token request_id known m \<longleftrightarrow>
     mb_ticket m = ticket \<and> mb_auth_token m \<noteq> [] \<and> mb_auth_token m = token
   \<and> \<not> (mb_deadline m \<noteq> 0 \<and> mb_deadline m \<le> en_steady en)
   \<and> (known = mb_generation m \<or> known < mb_generation m \<and> mb_last_request m = request_id)"

text \<open>The fields of a resume request: request id, ticket and known generation.\<close>

definition resume_fields :: "json \<Rightarrow> (string \<times> string \<times> u64) option" where
  "resume_fields req =
     (if \<not> has_string req ''request_id'' \<or> str_field req ''request_id'' = []
         \<or> length (str_field req ''request_id'') > 64 \<or> \<not> has_string req ''resume_ticket'' then None
      else case ReadUInt64Value (jget req ''membership_generation'') of
        None \<Rightarrow> None
      | Some known \<Rightarrow> Some (str_field req ''request_id'', str_field req ''resume_ticket'', known))"

text \<open>What the later steps need to know about the request.\<close>

record join_ctx =
  jc_rid :: u64
  jc_sid :: nat
  jc_uid :: int
  jc_resuming :: bool
  jc_request_id :: string
  jc_info :: meeting_info
  jc_value :: json

definition jc_text :: "join_ctx \<Rightarrow> string" where
  "jc_text c = int_to_string (jc_uid c)"

definition jc_key :: "join_ctx \<Rightarrow> string" where
  "jc_key c = RoomMembersKey (mi_id (jc_info c))"

definition jc_state_key :: "join_ctx \<Rightarrow> string" where
  "jc_state_key c = RoomMemberStateKey (mi_id (jc_info c)) (jc_uid c)"

section \<open>The membership\<close>

definition takeover :: "'r env \<Rightarrow> nat \<Rightarrow> ('r, unit) prog" where
  "takeover en previous = do {
     ReleaseMediaSession en previous;
     modify (set_sess previous (SetMeetingId 0));
     close_session previous
   }"

text \<open>The new membership record.\<close>

definition joined_membership :: "join_ctx \<Rightarrow> string \<Rightarrow> nat option \<Rightarrow> string \<Rightarrow> membership \<Rightarrow> membership" where
  "joined_membership c ticket previous token m0 =
     (let m = (if \<not> jc_resuming c then Membership_new\<lparr>mb_ticket := ticket, mb_auth_token := token\<rparr>
               else if previous \<noteq> Some (jc_sid c) then m0\<lparr>mb_generation := mb_generation m0 + 1\<rparr>
               else m0)
      in m\<lparr>mb_session := Some (jc_sid c), mb_deadline := 0,
           mb_last_request := (if jc_resuming c then jc_request_id c else [])\<rparr>)"

definition join_member :: "'r env \<Rightarrow> join_ctx \<Rightarrow> string \<Rightarrow> bool \<Rightarrow> ('r, membership) prog" where
  "join_member en c ticket is_reconnected = do {
     m0 \<leftarrow> look (\<lambda>w. case member_at (jc_rid c) (jc_uid c) w of Some m \<Rightarrow> m | None \<Rightarrow> Membership_new);
     previous \<leftarrow> look (lock (mb_session m0));
     (case previous of
        None \<Rightarrow> ret ()
      | Some p \<Rightarrow> if p \<noteq> jc_sid c then takeover en p else ret ());
     token \<leftarrow> look (\<lambda>w. s_auth_token (sess (jc_sid c) w));
     let m = joined_membership c ticket previous token m0;
     modify (set_member (jc_rid c) (jc_uid c) (Some m));
     modify (set_sess (jc_sid c) (SetMeetingId (mi_id (jc_info c))));
     drop_sessions (jc_rid c) (\<lambda>i w. i = jc_sid c \<or> is_reconnected \<and> uid_of i w = jc_uid c);
     modify (set_room_sessions (jc_rid c) (\<lambda>is. is @ [jc_sid c]));
     ret m
   }"

section \<open>The response\<close>

text \<open>One entry of the member list; a member that is no number gets a fallback entry.\<close>

definition member_json :: "'r env \<Rightarrow> join_ctx \<Rightarrow> string \<Rightarrow> ('r, json) prog" where
  "member_json en c member =
     (case stoull member of
        None \<Rightarrow> ret (jobj [(''user_id'', JString member), (''name'', JString (''Member '' @ member)),
                  (''is_self'', JBool False), (''room_state'', JString ''active'')])
      | Some (n, _) \<Rightarrow> do {
          st \<leftarrow> redis (HGet (en_redis en) (RoomMemberStateKey (mi_id (jc_info c)) (to_int32 n)) ''room_state'');
          name \<leftarrow> mysql (GetUserDisplayNameById (en_mysql en) (to_int32 n));
          ret (jobj [(''user_id'', ju64 n), (''is_self'', JBool (n = of_int (jc_uid c))),
             (''room_state'', JString (if st = [] then ''active'' else st)),
             (''name'', JString (case name of Some t \<Rightarrow> t | None \<Rightarrow> ''Member '' @ member))])
        })"

definition is_joined :: "join_ctx \<Rightarrow> string \<Rightarrow> bool" where
  "is_joined c member \<longleftrightarrow> (case stoull member of
       None \<Rightarrow> member = jc_text c | Some (n, _) \<Rightarrow> n = of_int (jc_uid c))"

text \<open>The member list and the entry of the member who joined (null if none).\<close>

fun member_list :: "'r env \<Rightarrow> join_ctx \<Rightarrow> string list \<Rightarrow> json list \<times> json
    \<Rightarrow> ('r, json list \<times> json) prog" where
  "member_list en c [] acc = ret acc"
| "member_list en c (m # ms) acc = do {
     v \<leftarrow> member_json en c m;
     member_list en c ms (fst acc @ [v], if is_joined c m then v else snd acc)
   }"

definition join_value :: "join_ctx \<Rightarrow> membership \<Rightarrow> string list \<Rightarrow> json list \<Rightarrow> json" where
  "join_value c m members array =
     (let mi = jc_info c in
      fold (\<lambda>(k, v). jset k v)
       [(''resume_ticket'', JString (mb_ticket m)), (''membership_generation'', jid (mb_generation m)),
        (''error'', JInt (code SUCCESS)), (''meeting_id'', jid (mi_id mi)),
        (''meeting_code'', JString (mi_code mi)), (''status'', JString (MeetingStatusText (mi_status mi))),
        (''role'', JString (if mi_creator mi = of_int (jc_uid c) then ''host'' else ''participant'')),
        (''members'', JArray array), (''title'', JString (mi_title mi)),
        (''creator_user_id'', ju64 (mi_creator mi)),
        (''max_participants'', JInt (int (mi_max_participants mi))),
        (''current_participants'', JInt (int (length members) mod 2 ^ 32)),
        (''member_uids'', JArray array)] (jc_value c))"

definition join_notify :: "'r env \<Rightarrow> join_ctx \<Rightarrow> bool \<Rightarrow> bool \<Rightarrow> string list \<Rightarrow> json \<Rightarrow> ('r, unit) prog" where
  "join_notify en c already is_reconnected members joined = do {
     (if \<not> already \<and> is_object joined
      then broadcast (jc_rid c) (\<lambda>s. s_user_id s \<noteq> jc_uid c) ID_MEETING_MEMBER_JOINED
        (en_styled en (jobj [(''meeting_id'', jid (mi_id (jc_info c))),
           (''member'', jset ''is_self'' (JBool False) joined),
           (''current_participants'', JInt (int (length members) mod 2 ^ 32))]))
      else ret ());
     (if is_reconnected
      then broadcast (jc_rid c) (\<lambda>s. s_user_id s \<noteq> jc_uid c) ID_MEETING_MEMBER_RECONNECTED
        (en_styled en (jobj [(''meeting_id'', jid (mi_id (jc_info c))), (''user_id'', JInt (jc_uid c)),
           (''room_state'', JString ''active'')]))
      else ret ())
   }"

definition join_finish :: "'r env \<Rightarrow> join_ctx \<Rightarrow> bool \<Rightarrow> bool \<Rightarrow> string \<Rightarrow> string list
    \<Rightarrow> ('r, outcome) prog" where
  "join_finish en c already is_reconnected ticket members = do {
     m \<leftarrow> join_member en c ticket is_reconnected;
     (array, joined) \<leftarrow> member_list en c members ([], JNull);
     join_notify en c already is_reconnected members joined;
     ret (Reply (join_value c m members array))
   }"

section \<open>The writes that admit a member\<close>

definition undo_add :: "'r env \<Rightarrow> join_ctx \<Rightarrow> bool \<Rightarrow> ('r, unit) prog" where
  "undo_add en c already =
     (if already then ret ()
      else do { _ \<leftarrow> redis (SRem (en_redis en) (jc_key c) (jc_text c)); ret () })"

definition join_write :: "'r env \<Rightarrow> join_ctx \<Rightarrow> bool \<Rightarrow> bool \<Rightarrow> string \<Rightarrow> ('r, outcome) prog" where
  "join_write en c already is_reconnected ticket =
     (let srv = en_redis en; v = jc_value c; pkey = presence_key (jc_text c) in do {
        added \<leftarrow> redis (SAdd srv (jc_key c) (jc_text c));
        if \<not> added then fail ERROR_REDIS v
        else do {
          part \<leftarrow> (if jc_resuming c then ret True
                  else mysql (UpdateMeetingPart (en_mysql en) (jc_info c) (jc_uid c)));
          if \<not> part then do { undo_add en c already; fail ERROR_MEETING_ACCESS v }
          else do {
            present \<leftarrow> conj_ok [redis (HSet srv pkey ''status'' ''in_meeting''),
                                redis (HSet srv pkey ''meeting_id'' (to_string (unat (mi_id (jc_info c)))))];
            if \<not> present then do { undo_add en c already; fail ERROR_REDIS v }
            else do {
              st \<leftarrow> (if already then ret True else redis (HSet srv (jc_state_key c) ''room_state'' ''active''));
              if \<not> st then do { undo_add en c False; fail ERROR_REDIS v }
              else do {
                act \<leftarrow> (if is_reconnected then redis (ActivateMember srv (mi_id (jc_info c)) (jc_uid c)) else ret True);
                if \<not> act then fail ERROR_REDIS v
                else do {
                  ms \<leftarrow> redis (SMembers srv (jc_key c));
                  case ms of
                    None \<Rightarrow> fail ERROR_REDIS v
                  | Some members \<Rightarrow> join_finish en c already is_reconnected ticket members
                }
              }
            }
          }
        }
      })"

text \<open>The ticket is prepared before the first write: an existing one when resuming.\<close>

definition join_ticket :: "'r env \<Rightarrow> join_ctx \<Rightarrow> bool \<Rightarrow> bool \<Rightarrow> ('r, outcome) prog" where
  "join_ticket en c already is_reconnected = do {
     member \<leftarrow> look (member_at (jc_rid c) (jc_uid c));
     case (if jc_resuming c then map_option mb_ticket member else NewResumeTicket en) of
       None \<Rightarrow> ret (Throw (jc_value c))
     | Some ticket \<Rightarrow> join_write en c already is_reconnected ticket
   }"

section \<open>The Redis room\<close>

text \<open>A member that is already in the room may join again only while it is
  reconnecting and its deadline has not passed.\<close>

definition join_room :: "'r env \<Rightarrow> join_ctx \<Rightarrow> ('r, outcome) prog" where
  "join_room en c =
     (let srv = en_redis en; v = jc_value c in do {
        ms \<leftarrow> redis (SMembers srv (jc_key c));
        case ms of
          None \<Rightarrow> fail ERROR_REDIS v
        | Some members \<Rightarrow> do {
            let already = (jc_text c \<in> set members);
            if \<not> already \<and> length members \<ge> mi_max_participants (jc_info c) then fail ERROR_MEETING_FULL v
            else if jc_resuming c \<and> \<not> already then fail ERROR_MEETING_ACCESS v
            else if already \<and> \<not> jc_resuming c then do {
              st \<leftarrow> redis (HGet srv (jc_state_key c) ''room_state'');
              if st \<noteq> ''reconnecting'' then fail ERROR_MEETING_ACCESS v
              else do {
                text \<leftarrow> redis (HGet srv (jc_state_key c) ''reconnect_deadline_at'');
                case stoll text of
                  None \<Rightarrow> fail ERROR_MEETING_ACCESS v
                | Some deadline \<Rightarrow>
                    if deadline \<le> en_time en then fail ERROR_MEETING_ACCESS v
                    else join_ticket en c already True
              }
            }
            else join_ticket en c already (jc_resuming c)
          }
      })"

section \<open>Validation\<close>

definition join_password :: "'r env \<Rightarrow> json \<Rightarrow> join_ctx \<Rightarrow> ('r, outcome) prog" where
  "join_password en req c =
     (if jc_resuming c \<or> \<not> mi_requires_password (jc_info c) then join_room en c
      else if \<not> has_string req ''password'' then fail ERROR_PASSWORD (jc_value c)
      else do {
        hash \<leftarrow> mysql (GetMeetingPasswordHash (mi_id (jc_info c)));
        case hash of
          None \<Rightarrow> fail ERROR_PASSWORD (jc_value c)
        | Some h \<Rightarrow> if CheckMeetingPassword en (str_field req ''password'') h then join_room en c
                   else fail ERROR_PASSWORD (jc_value c)
      })"

definition join_resume :: "'r env \<Rightarrow> json \<Rightarrow> join_ctx \<Rightarrow> ('r, outcome) prog" where
  "join_resume en req c =
     (case resume_fields req of
        None \<Rightarrow> fail ERROR_JSON (jc_value c)
      | Some (request_id, ticket, known) \<Rightarrow> do {
          let c' = c\<lparr>jc_request_id := request_id,
                     jc_value := jset ''request_id'' (JString request_id) (jc_value c)\<rparr>;
          member \<leftarrow> look (member_at (jc_rid c) (jc_uid c));
          token \<leftarrow> look (\<lambda>w. s_auth_token (sess (jc_sid c) w));
          if (case member of None \<Rightarrow> False | Some m \<Rightarrow> may_resume en ticket token request_id known m)
          then join_password en req c'
          else fail ERROR_MEETING_ACCESS (jc_value c')
        })"

definition join_info :: "'r env \<Rightarrow> u64 \<Rightarrow> bool \<Rightarrow> string \<Rightarrow> ('r, meeting_info option \<times> bool) prog" where
  "join_info en rid resuming meeting_code =
     (if resuming then mysql (GetMeetingInfoById rid)
      else do { found \<leftarrow> mysql (GetMeetingInfoByCode meeting_code); ret (found, False) })"

text \<open>The meeting exists, is the room's and is open.\<close>

definition join_meeting :: "'r env \<Rightarrow> u64 \<Rightarrow> nat \<Rightarrow> bool \<Rightarrow> json \<Rightarrow> int \<Rightarrow> ('r, outcome) prog" where
  "join_meeting en rid sid resuming req uid = do {
     (found, storage_error) \<leftarrow> join_info en rid resuming (str_field req ''meeting_code'');
     case found of
       None \<Rightarrow> fail (if storage_error then ERROR_MYSQL else ERROR_MEETING_NOT_FOUND) JNull
     | Some mi \<Rightarrow>
         if mi_id mi \<noteq> rid then fail ERROR_MEETING_NOT_FOUND JNull
         else if mi_status mi = Cancelled \<or> mi_status mi = Ended then fail ERROR_MEETING_STATUS JNull
         else do {
           let c = \<lparr>jc_rid = rid, jc_sid = sid, jc_uid = uid, jc_resuming = resuming,
                    jc_request_id = [], jc_info = mi, jc_value = JNull\<rparr>;
           if resuming then join_resume en req c else join_password en req c
         }
   }"

definition join_body :: "'r env \<Rightarrow> u64 \<Rightarrow> nat \<Rightarrow> bool \<Rightarrow> string \<Rightarrow> ('r, outcome) prog" where
  "join_body en rid sid resuming message =
     (case parse_object en message of
        None \<Rightarrow> fail ERROR_JSON JNull
      | Some req \<Rightarrow>
          if \<not> resuming \<and> \<not> has_string req ''meeting_code'' then fail ERROR_JSON JNull
          else if as_string_throws (jget req ''meeting_code'') then ret (Throw JNull)
          else if \<not> resuming \<and> str_field req ''meeting_code'' = [] then fail ERROR_JSON JNull
          else do {
            uid \<leftarrow> look (uid_of sid);
            if uid \<le> 0 then fail ERROR_TOKEN JNull
            else join_meeting en rid sid resuming req uid
          })"

text \<open>The response is owed; a session that cannot take it is closed.\<close>

definition JoinMeeetingHandler :: "'r env \<Rightarrow> u64 \<Rightarrow> nat option \<Rightarrow> bool \<Rightarrow> string \<Rightarrow> ('r, unit) prog" where
  "JoinMeeetingHandler en rid session resuming message = on_session session (\<lambda>sid. do {
     r \<leftarrow> join_body en rid sid resuming message;
     case deferred r of
       None \<Rightarrow> ret ()
     | Some v \<Rightarrow> do {
         ok \<leftarrow> send sid (if resuming then ID_RESUME_MEETING_RESPONSE else ID_JOIN_MEETING_RESPONSE)
                (en_styled en v);
         if ok then ret () else close_session sid
       }
   })"

end
