(* ===== verification/ChatHandlers.thy ===== *)
theory ChatHandlers
  imports LogicCommon
begin

text \<open>
  Chat in a meeting (src/service/LogicSystem.cpp): sending a group or private message,
  and reading the two histories.
\<close>

section \<open>SendMeetingMessageHandler\<close>

text \<open>target_user_id of a private message: a positive number.\<close>

definition private_target :: "json \<Rightarrow> u64 option" where
  "private_target v =
     (case int_of_json v of
        Some i \<Rightarrow> if - (2 ^ 31) \<le> i \<and> i < 2 ^ 64
                  then (if i \<le> 0 then None else Some (of_int i)) else None
      | None \<Rightarrow> None)"

record chat_request =
  cr_meeting_text :: string
  cr_private :: bool
  cr_content :: string
  cr_client_msg_id :: string
  cr_target :: u64

definition chat_ack :: "json \<Rightarrow> json" where
  "chat_ack req = jobj [(''meeting_id'', JString (str_field req ''meeting_id'')),
     (''client_msg_id'', JString (str_field req ''client_msg_id''))]"

definition chat_shape_ok :: "json \<Rightarrow> bool" where
  "chat_shape_ok req \<longleftrightarrow> has_string req ''meeting_id'' \<and> has_string req ''chat_type''
     \<and> has_string req ''content'' \<and> has_string req ''client_msg_id'' \<and> is_member req ''target_user_id''"

text \<open>The checks on the fields, up to the meeting id; None is ERROR_JSON.\<close>

definition chat_fields :: "json \<Rightarrow> chat_request option" where
  "chat_fields req =
     (let chat_type = str_field req ''chat_type''; content = str_field req ''content'';
          client_msg_id = str_field req ''client_msg_id'';
          mk = (\<lambda>priv target. \<lparr>cr_meeting_text = str_field req ''meeting_id'', cr_private = priv,
             cr_content = content, cr_client_msg_id = client_msg_id, cr_target = target\<rparr>) in
      if chat_type \<noteq> ''group'' \<and> chat_type \<noteq> ''private'' \<or> content = [] \<or> length content > 2000
         \<or> client_msg_id = [] \<or> length client_msg_id > 128 then None
      else if chat_type = ''group'' then
        (if is_null (jget req ''target_user_id'') then Some (mk False 0) else None)
      else map_option (mk True) (private_target (jget req ''target_user_id'')))"

definition chat_receives :: "chat_request \<Rightarrow> int \<Rightarrow> session \<Rightarrow> bool" where
  "chat_receives cr uid s \<longleftrightarrow>
     \<not> cr_private cr \<or> s_user_id s = uid \<or> s_user_id s = to_int32 (cr_target cr)"

text \<open>The message is stored first; what the store returns is pushed and answered.\<close>

definition chat_store :: "'r env \<Rightarrow> u64 \<Rightarrow> chat_request \<Rightarrow> json \<Rightarrow> u64 \<Rightarrow> int \<Rightarrow> string
    \<Rightarrow> ('r, outcome) prog" where
  "chat_store en rid cr ack meeting uid sender_name = do {
     stored \<leftarrow> mysql (SaveMeetingMessage (en_mysql en) \<lparr>mg_id = 0, mg_meeting = meeting, mg_sender = uid,
       mg_receiver = (if cr_private cr then Some (cr_target cr) else None),
       mg_client_msg_id = cr_client_msg_id cr, mg_content = cr_content cr, mg_content_type = 0,
       mg_created_at = []\<rparr>);
     case stored of
       None \<Rightarrow> fail ERROR_MYSQL ack
     | Some m \<Rightarrow> do {
         let message_value = MeetingMessageToJson m sender_name True;
         broadcast rid (chat_receives cr uid) ID_MEETING_MESSAGE_PUSH (en_styled en message_value);
         succeed message_value
       }
   }"

definition chat_send :: "'r env \<Rightarrow> u64 \<Rightarrow> chat_request \<Rightarrow> json \<Rightarrow> u64 \<Rightarrow> int \<Rightarrow> ('r, outcome) prog" where
  "chat_send en rid cr ack meeting uid =
     (let srv = en_redis en in do {
        here \<leftarrow> redis (SIsMember srv (RoomMembersKey meeting) (int_to_string uid));
        if \<not> here then fail ERROR_MEETING_ACCESS ack
        else do {
          there \<leftarrow> (if cr_private cr
                   then redis (SIsMember srv (RoomMembersKey meeting) (to_string (unat (cr_target cr))))
                   else ret True);
          if \<not> there then fail ERROR_MEETING_ACCESS ack
          else do {
            (found, storage_error) \<leftarrow> mysql (GetMeetingInfoById meeting);
            case found of
              None \<Rightarrow> fail ERROR_MEETING_NOT_FOUND ack
            | Some mi \<Rightarrow>
                if mi_status mi = Ended \<or> mi_status mi = Cancelled then fail ERROR_MEETING_STATUS ack
                else do {
                  name \<leftarrow> mysql (GetUserDisplayNameById (en_mysql en) uid);
                  case name of
                    None \<Rightarrow> fail ERROR_MYSQL ack
                  | Some sender_name \<Rightarrow> chat_store en rid cr ack meeting uid sender_name
                }
          }
        }
      })"

definition chat_body :: "'r env \<Rightarrow> u64 \<Rightarrow> nat \<Rightarrow> string \<Rightarrow> ('r, outcome) prog" where
  "chat_body en rid sid message =
     (case parse_object en message of
        None \<Rightarrow> fail ERROR_JSON JNull
      | Some req \<Rightarrow>
          if \<not> chat_shape_ok req then fail ERROR_JSON JNull
          else case chat_fields req of
            None \<Rightarrow> fail ERROR_JSON (chat_ack req)
          | Some cr \<Rightarrow>
              (case meeting_id_text (cr_meeting_text cr) of
                 None \<Rightarrow> fail ERROR_JSON (chat_ack req)
               | Some meeting \<Rightarrow> do {
                   uid \<leftarrow> look (uid_of sid);
                   current \<leftarrow> look (meeting_of sid);
                   if uid \<le> 0 then fail ERROR_TOKEN (chat_ack req)
                   else if current \<noteq> meeting then fail ERROR_MEETING_ACCESS (chat_ack req)
                   else chat_send en rid cr (chat_ack req) meeting uid
                 }))"

definition SendMeetingMessageHandler :: "'r env \<Rightarrow> u64 \<Rightarrow> nat option \<Rightarrow> string \<Rightarrow> ('r, unit) prog" where
  "SendMeetingMessageHandler en rid session message =
     on_session session (\<lambda>sid.
       respond en sid ID_SEND_MEETING_MESSAGE_RESPONSE (chat_body en rid sid message))"

section \<open>The history handlers\<close>

text \<open>An optional number: absent or null is the default.\<close>

definition optional_u64 :: "json \<Rightarrow> string \<Rightarrow> u64 \<Rightarrow> u64 option" where
  "optional_u64 req k dflt =
     (if is_member req k \<and> \<not> is_null (jget req k) then ReadUInt64Value (jget req k) else Some dflt)"

definition page_limit :: "json \<Rightarrow> nat option" where
  "page_limit req = (case optional_u64 req ''limit'' 50 of
       None \<Rightarrow> None | Some n \<Rightarrow> if n = 0 then None else Some (if n > 100 then 100 else unat n))"

definition nonzero_u64 :: "json \<Rightarrow> u64 option" where
  "nonzero_u64 v = (case ReadUInt64Value v of Some n \<Rightarrow> if n = 0 then None else Some n | None \<Rightarrow> None)"

definition unknown_user :: "int \<Rightarrow> string" where
  "unknown_user uid = map char_of ([231, 148, 168, 230, 136, 183, 32] :: nat list) @ int_to_string uid"

text \<open>The display name of a sender.  The variable is declared in the loop, and a lookup
  that fails leaves the fallback.\<close>

fun messages_json :: "'r env \<Rightarrow> int \<Rightarrow> message_info list \<Rightarrow> ('r, json list) prog" where
  "messages_json en uid [] = ret []"
| "messages_json en uid (m # ms) = do {
     name \<leftarrow> mysql (GetUserDisplayNameById (en_mysql en) (mg_sender m));
     rest \<leftarrow> messages_json en uid ms;
     ret (MeetingMessageToJson m (case name of Some t \<Rightarrow> t | None \<Rightarrow> unknown_user (mg_sender m))
            (mg_sender m = uid) # rest)
   }"

definition history_reply :: "'r env \<Rightarrow> int \<Rightarrow> json \<Rightarrow> message_info list option \<Rightarrow> ('r, outcome) prog" where
  "history_reply en uid v found = (case found of
       None \<Rightarrow> fail ERROR_MYSQL v
     | Some ms \<Rightarrow> do {
         array \<leftarrow> messages_json en uid ms;
         succeed (jset ''messages'' (JArray array) v)
       })"

definition group_fields :: "json \<Rightarrow> (u64 \<times> u64 \<times> nat) option" where
  "group_fields req =
     (if \<not> is_member req ''meeting_id'' then None
      else case nonzero_u64 (jget req ''meeting_id'') of
        None \<Rightarrow> None
      | Some meeting \<Rightarrow>
          (case optional_u64 req ''before_message_id'' 0 of
             None \<Rightarrow> None
           | Some before \<Rightarrow> map_option (\<lambda>limit. (meeting, before, limit)) (page_limit req)))"

definition group_body :: "'r env \<Rightarrow> nat \<Rightarrow> string \<Rightarrow> ('r, outcome) prog" where
  "group_body en sid message =
     (case Option.bind (parse_object en message) group_fields of
        None \<Rightarrow> fail ERROR_JSON JNull
      | Some (meeting, before, limit) \<Rightarrow> do {
          let v = jobj [(''meeting_id'', jid meeting), (''before_message_id'', ju64 before),
                   (''limit'', JInt (int limit))];
          uid \<leftarrow> look (uid_of sid);
          current \<leftarrow> look (meeting_of sid);
          if uid \<le> 0 then fail ERROR_TOKEN v
          else if current \<noteq> meeting then fail ERROR_MEETING_ACCESS v
          else do {
            here \<leftarrow> redis (SIsMember (en_redis en) (RoomMembersKey meeting) (int_to_string uid));
            if \<not> here then fail ERROR_MEETING_ACCESS v
            else do {
              found \<leftarrow> mysql (GetMeetingGroupMessages (en_mysql en) meeting before limit);
              history_reply en uid v found
            }
          }
        })"

definition GetMeetingGroupMessagesHandler :: "'r env \<Rightarrow> nat option \<Rightarrow> string \<Rightarrow> ('r, unit) prog" where
  "GetMeetingGroupMessagesHandler en session message =
     on_session session (\<lambda>sid.
       respond en sid ID_GET_MEETING_GROUP_MESSAGES_RESPONSE (group_body en sid message))"

definition private_fields :: "json \<Rightarrow> (u64 \<times> u64 \<times> u64 \<times> nat) option" where
  "private_fields req =
     (if \<not> is_member req ''meeting_id'' \<or> \<not> is_member req ''peer_user_id'' then None
      else case nonzero_u64 (jget req ''meeting_id'') of
        None \<Rightarrow> None
      | Some meeting \<Rightarrow>
          (case nonzero_u64 (jget req ''peer_user_id'') of
             None \<Rightarrow> None
           | Some peer \<Rightarrow>
               (case optional_u64 req ''before_message_id'' 0 of
                  None \<Rightarrow> None
                | Some before \<Rightarrow> map_option (\<lambda>limit. (meeting, peer, before, limit)) (page_limit req))))"

definition private_body :: "'r env \<Rightarrow> nat \<Rightarrow> string \<Rightarrow> ('r, outcome) prog" where
  "private_body en sid message =
     (case Option.bind (parse_object en message) private_fields of
        None \<Rightarrow> fail ERROR_JSON JNull
      | Some (meeting, peer, before, limit) \<Rightarrow> do {
          let v = jobj [(''meeting_id'', jid meeting), (''peer_user_id'', ju64 peer),
                   (''before_message_id'', ju64 before), (''limit'', JInt (int limit))];
          uid \<leftarrow> look (uid_of sid);
          current \<leftarrow> look (meeting_of sid);
          if uid \<le> 0 then fail ERROR_TOKEN v
          else if current \<noteq> meeting \<or> of_int uid = peer \<or> peer > 2147483647
          then fail ERROR_MEETING_ACCESS v
          else do {
            both \<leftarrow> conj_ok
              [redis (SIsMember (en_redis en) (RoomMembersKey meeting) (int_to_string uid)),
               redis (SIsMember (en_redis en) (RoomMembersKey meeting) (to_string (unat peer)))];
            if \<not> both then fail ERROR_MEETING_ACCESS v
            else do {
              found \<leftarrow> mysql (GetMeetingPrivateMessages (en_mysql en) meeting uid (to_int32 peer) before limit);
              history_reply en uid v found
            }
          }
        })"

definition GetMeetingPrivateMessagesHandler :: "'r env \<Rightarrow> nat option \<Rightarrow> string \<Rightarrow> ('r, unit) prog" where
  "GetMeetingPrivateMessagesHandler en session message =
     on_session session (\<lambda>sid.
       respond en sid ID_GET_MEETING_PRIVATE_MESSAGES_RESPONSE (private_body en sid message))"

end
