(* ===== verification/MediaHandlers.thy ===== *)
theory MediaHandlers
  imports LogicCommon
begin

text \<open>
  Media signalling (src/service/LogicSystem.cpp, LogicDispatch.cpp): the three client
  requests that are forwarded to MediaServer, the messages of MediaServer that are
  handed to the bound connection, and the events of the control connection.
\<close>

section \<open>Requests of the client\<close>

text \<open>The checks the three requests share: a meeting id and two string fields.\<close>

definition media_fields :: "'r env \<Rightarrow> string \<Rightarrow> string \<Rightarrow> string \<Rightarrow> (json \<times> u64) option" where
  "media_fields en message a b =
     (case parse_object en message of
        None \<Rightarrow> None
      | Some req \<Rightarrow>
          if \<not> is_member req ''meeting_id'' \<or> \<not> has_string req a \<or> \<not> has_string req b then None
          else map_option (Pair req) (case ReadUInt64Value (jget req ''meeting_id'') of
                 Some n \<Rightarrow> if n = 0 then None else Some n | None \<Rightarrow> None))"

text \<open>A member of a meeting in progress.\<close>

definition in_progress :: "'r env \<Rightarrow> u64 \<Rightarrow> int \<Rightarrow> ('r, outcome) prog \<Rightarrow> ('r, outcome) prog" where
  "in_progress en meeting uid f = do {
     here \<leftarrow> redis (SIsMember (en_redis en) (RoomMembersKey meeting) (int_to_string uid));
     if \<not> here then fail ERROR_MEETING_ACCESS JNull
     else do {
       (found, storage_error) \<leftarrow> mysql (GetMeetingInfoById meeting);
       case found of
         None \<Rightarrow> fail ERROR_MEETING_NOT_FOUND JNull
       | Some mi \<Rightarrow> if mi_status mi \<noteq> InProgress then fail ERROR_MEETING_STATUS JNull else f
     }
   }"

definition media_request :: "u64 \<Rightarrow> u64 \<Rightarrow> int \<Rightarrow> string \<Rightarrow> (string \<times> json) list \<Rightarrow> json" where
  "media_request signal_id meeting uid kind extra = jobj ([(''signal_id'', ju64 signal_id),
     (''meeting_id'', ju64 meeting), (''uid'', JInt uid), (''signal_type'', JString kind)] @ extra)"

text \<open>A new binding replaces the previous one of the session.\<close>

definition new_signal :: "nat \<Rightarrow> u64 \<Rightarrow> ('r, u64 \<times> u64) prog" where
  "new_signal sid meeting = do {
     previous \<leftarrow> look (\<lambda>w. s_signal_id (sess sid w));
     (if previous \<noteq> 0 then modify (RemoveSignal previous) else ret ());
     signal_id \<leftarrow> look w_next_signal;
     modify (\<lambda>w. w\<lparr>w_next_signal := w_next_signal w + 1\<rparr>);
     modify (set_sess sid (SetMediaSignalId signal_id));
     epoch \<leftarrow> RegisterSignal signal_id sid meeting;
     ret (signal_id, epoch)
   }"

definition offer_forward :: "'r env \<Rightarrow> nat \<Rightarrow> u64 \<Rightarrow> int \<Rightarrow> string \<Rightarrow> ('r, outcome) prog" where
  "offer_forward en sid meeting uid sdp = do {
     (signal_id, epoch) \<leftarrow> new_signal sid meeting;
     ok \<leftarrow> SendMediaSignal
        (en_styled en (media_request signal_id meeting uid ''offer'' [(''sdp'', JString sdp)])) epoch;
     if ok then ret NoReply
     else do {
       modify (RemoveSignal signal_id);
       modify (set_sess sid (SetMediaSignalId 0));
       fail ERROR_NETWORK JNull
     }
   }"

text \<open>The session checks of offer and candidate.\<close>

definition media_access :: "nat \<Rightarrow> u64 \<Rightarrow> (int \<Rightarrow> ('r, outcome) prog) \<Rightarrow> ('r, outcome) prog" where
  "media_access sid meeting f = do {
     uid \<leftarrow> look (uid_of sid);
     current \<leftarrow> look (meeting_of sid);
     if uid \<le> 0 then fail ERROR_TOKEN JNull
     else if current \<noteq> meeting then fail ERROR_MEETING_ACCESS JNull
     else f uid
   }"

definition offer_body :: "'r env \<Rightarrow> nat \<Rightarrow> string \<Rightarrow> ('r, outcome) prog" where
  "offer_body en sid message =
     (case media_fields en message ''type'' ''sdp'' of
        None \<Rightarrow> fail ERROR_JSON JNull
      | Some (req, meeting) \<Rightarrow>
          if str_field req ''type'' \<noteq> ''offer'' \<or> str_field req ''sdp'' = [] then fail ERROR_JSON JNull
          else media_access sid meeting (\<lambda>uid.
            in_progress en meeting uid (offer_forward en sid meeting uid (str_field req ''sdp''))))"

definition MediaOfferHandler :: "'r env \<Rightarrow> nat option \<Rightarrow> string \<Rightarrow> ('r, unit) prog" where
  "MediaOfferHandler en session message =
     on_session session (\<lambda>sid. respond en sid ID_MEDIA_ANSWER_RESPONSE (offer_body en sid message))"

text \<open>The binding of a session is valid in the current epoch.\<close>

definition bound_now :: "nat \<Rightarrow> u64 \<Rightarrow> 'r world \<Rightarrow> bool" where
  "bound_now sid signal_id w \<longleftrightarrow>
     \<not> (signal_id = 0 \<or> lock (sg_session (FindSignal signal_id w)) w \<noteq> Some sid
        \<or> sg_epoch (FindSignal signal_id w) \<noteq> w_media_epoch w)"

definition forward_bound :: "'r env \<Rightarrow> nat \<Rightarrow> u64 \<Rightarrow> int \<Rightarrow> string \<Rightarrow> (string \<times> json) list
    \<Rightarrow> ('r, bool) prog" where
  "forward_bound en sid meeting uid kind extra = do {
     signal_id \<leftarrow> look (\<lambda>w. s_signal_id (sess sid w));
     signal \<leftarrow> look (FindSignal signal_id);
     valid \<leftarrow> look (bound_now sid signal_id);
     if \<not> valid then ret False
     else SendMediaSignal (en_styled en (media_request signal_id meeting uid kind extra)) (sg_epoch signal)
   }"

definition MediaAnswerHandler :: "'r env \<Rightarrow> nat option \<Rightarrow> string \<Rightarrow> ('r, unit) prog" where
  "MediaAnswerHandler en session message = on_session session (\<lambda>sid.
     case media_fields en message ''type'' ''sdp'' of
       None \<Rightarrow> ret ()
     | Some (req, meeting) \<Rightarrow>
         if str_field req ''type'' \<noteq> ''answer'' \<or> str_field req ''sdp'' = [] then ret ()
         else do {
           uid \<leftarrow> look (uid_of sid);
           current \<leftarrow> look (meeting_of sid);
           if uid \<le> 0 \<or> current \<noteq> meeting then ret ()
           else do {
             here \<leftarrow> redis (SIsMember (en_redis en) (RoomMembersKey meeting) (int_to_string uid));
             if \<not> here then ret ()
             else do {
               _ \<leftarrow> forward_bound en sid meeting uid ''answer'' [(''sdp'', JString (str_field req ''sdp''))];
               ret ()
             }
           }
         })"

definition candidate_body :: "'r env \<Rightarrow> nat \<Rightarrow> string \<Rightarrow> ('r, outcome) prog" where
  "candidate_body en sid message =
     (case media_fields en message ''candidate'' ''mid'' of
        None \<Rightarrow> fail ERROR_JSON JNull
      | Some (req, meeting) \<Rightarrow>
          if str_field req ''candidate'' = [] \<or> str_field req ''mid'' = [] then fail ERROR_JSON JNull
          else media_access sid meeting (\<lambda>uid. in_progress en meeting uid (do {
            ok \<leftarrow> forward_bound en sid meeting uid ''candidate''
               [(''candidate'', JString (str_field req ''candidate'')), (''mid'', JString (str_field req ''mid''))];
            if ok then ret NoReply else fail ERROR_NETWORK JNull
          })))"

definition MediaCandidateHandler :: "'r env \<Rightarrow> nat option \<Rightarrow> string \<Rightarrow> ('r, unit) prog" where
  "MediaCandidateHandler en session message =
     on_session session (\<lambda>sid. respond en sid ID_MEDIA_CANDIDATE_RESPONSE (candidate_body en sid message))"

section \<open>Messages and events of MediaServer\<close>

text \<open>What a message of MediaServer becomes for the client.\<close>

definition media_push :: "json \<Rightarrow> (u16 \<times> json) option" where
  "media_push msg =
     (let kind = str_field msg ''signal_type''; ok = (''error'', JInt (code SUCCESS)) in
      if kind = ''offer'' \<and> has_string msg ''sdp''
      then Some (ID_MEDIA_RENEGOTIATION_OFFER,
        jobj [ok, (''type'', JString ''offer''), (''sdp'', JString (str_field msg ''sdp''))])
      else if kind = ''answer'' \<and> has_string msg ''sdp''
      then Some (ID_MEDIA_ANSWER_RESPONSE,
        jobj [ok, (''type'', JString ''answer''), (''sdp'', JString (str_field msg ''sdp''))])
      else if kind = ''candidate'' \<and> has_string msg ''candidate'' \<and> has_string msg ''mid''
      then Some (ID_MEDIA_CANDIDATE_RESPONSE,
        jobj [ok, (''candidate'', JString (str_field msg ''candidate'')), (''mid'', JString (str_field msg ''mid''))])
      else None)"

definition MediaSignalResponseHandler :: "'r env \<Rightarrow> u64 \<Rightarrow> string \<Rightarrow> ('r, unit) prog" where
  "MediaSignalResponseHandler en rid message =
     (case parse_object en message of
        None \<Rightarrow> ret ()
      | Some msg \<Rightarrow>
          if \<not> is_member msg ''signal_id'' \<or> \<not> has_string msg ''signal_type'' then ret ()
          else case ReadUInt64Value (jget msg ''signal_id'') of
            None \<Rightarrow> ret ()
          | Some signal_id \<Rightarrow> do {
              signal \<leftarrow> look (FindSignal signal_id);
              epoch \<leftarrow> look w_media_epoch;
              if sg_epoch signal = 0 \<or> sg_epoch signal \<noteq> epoch then ret ()
              else do {
                client \<leftarrow> look (lock (sg_session signal));
                case client of
                  None \<Rightarrow> modify (RemoveSignal signal_id)
                | Some sid \<Rightarrow> do {
                    s \<leftarrow> look (sess sid);
                    current \<leftarrow> look (\<lambda>w. IsCurrent (sg_epoch signal) (w_media w));
                    if IsClosed s \<or> s_meeting_id s \<noteq> rid \<or> s_signal_id s \<noteq> signal_id \<or> \<not> current then ret ()
                    else case media_push msg of
                      None \<Rightarrow> ret ()
                    | Some (mid, v) \<Rightarrow> do { _ \<leftarrow> send sid mid (en_styled en v); ret () }
                  }
              }
            })"

text \<open>A queued event of the control connection.\<close>

record media_node =
  mn_id :: u16
  mn_epoch :: u64
  mn_message :: string

definition clear_bindings :: "'r world \<Rightarrow> 'r world" where
  "clear_bindings w = w\<lparr>w_sessions := (\<lambda>sid. case w_sessions w sid of
       None \<Rightarrow> None
     | Some s \<Rightarrow> if (case w_signals w (s_signal_id s) of Some g \<Rightarrow> sg_session g = Some sid | None \<Rightarrow> False)
                 then Some (ClearMediaSignalId (s_signal_id s) s) else Some s),
     w_signals := (\<lambda>_. None)\<rparr>"

definition AcceptMediaEvent :: "media_node \<Rightarrow> ('r, bool) prog" where
  "AcceptMediaEvent node = State (\<lambda>w.
     let current = w_media_epoch w in
     if mn_id node = kMediaMessage then (mn_epoch node = current \<and> IsCurrent current (w_media w), w)
     else if mn_epoch node < current \<or> mn_id node = kMediaUp \<and> mn_epoch node = current then (False, w)
     else (False, (clear_bindings w)\<lparr>w_media_epoch := mn_epoch node\<rparr>))"

text \<open>The room part of a message: the event is still current and the binding is the
  one the control queue saw.\<close>

definition media_in_room :: "'r env \<Rightarrow> media_node \<Rightarrow> u64 \<Rightarrow> signal \<Rightarrow> u64 \<Rightarrow> ('r, unit) prog" where
  "media_in_room en node i signal rid = do {
     ok \<leftarrow> AcceptMediaEvent node;
     if \<not> ok then ret ()
     else do {
       current \<leftarrow> look (FindSignal i);
       now \<leftarrow> look (lock (sg_session current));
       before \<leftarrow> look (lock (sg_session signal));
       if sg_epoch current \<noteq> sg_epoch signal \<or> now \<noteq> before then ret ()
       else MediaSignalResponseHandler en rid (mn_message node)
     }
   }"

text \<open>The control part: Some is the room the event is submitted to.\<close>

definition media_control :: "'r env \<Rightarrow> media_node \<Rightarrow> ('r, (u64 \<times> u64 \<times> signal) option) prog" where
  "media_control en node = do {
     ok \<leftarrow> AcceptMediaEvent node;
     if \<not> ok then ret None
     else case parse_object en (mn_message node) of
       None \<Rightarrow> ret None
     | Some msg \<Rightarrow>
         if \<not> is_uint64 (jget msg ''signal_id'') then ret None
         else do {
           let i = as_uint64 (jget msg ''signal_id'');
           signal \<leftarrow> look (FindSignal i);
           if sg_epoch signal \<noteq> mn_epoch node \<or> sg_meeting signal = 0 then ret None
           else ret (Some (sg_meeting signal, i, signal))
         }
   }"

end
