(* ===== verification/Dispatch.thy ===== *)
theory Dispatch
  imports AccountHandlers RoomHandlers JoinHandler ChatHandlers MediaHandlers
begin

text \<open>
  How a message reaches its handler (src/service/LogicDispatch.cpp): Route runs in the
  connection's queue and finds the meeting, SubmitRoom runs the command in the room's
  queue, Dispatch checks the caller and calls the handler.  The last section is the
  business layer as a step relation.
\<close>

section \<open>ReplyError\<close>

definition ResponseId :: "u16 \<Rightarrow> u16" where
  "ResponseId request =
     (if request = AUTH_LOGIN_REQUEST then AUTH_LOGIN_RESPONSE
      else if request = ID_CREATE_MEETING_REQUEST then ID_CREATE_MEETING_RESPONSE
      else if request = ID_PAST_MEETING_REQUEST then ID_PAST_MEETING_RESPONSE
      else if request = ID_JOIN_MEETING_REQUEST then ID_JOIN_MEETING_RESPONSE
      else if request = ID_RESUME_MEETING_REQUEST then ID_RESUME_MEETING_RESPONSE
      else if request = ID_START_MEETING_REQUEST then ID_START_MEETING_RESPONSE
      else if request = ID_LEAVE_MEETING_REQUEST then ID_LEAVE_MEETING_RESPONSE
      else if request = ID_END_MEETING_REQUEST then ID_END_MEETING_RESPONSE
      else if request = ID_SEND_MEETING_MESSAGE_REQUEST then ID_SEND_MEETING_MESSAGE_RESPONSE
      else if request = ID_GET_MEETING_GROUP_MESSAGES_REQUEST then ID_GET_MEETING_GROUP_MESSAGES_RESPONSE
      else if request = ID_GET_MEETING_PRIVATE_MESSAGES_REQUEST then ID_GET_MEETING_PRIVATE_MESSAGES_RESPONSE
      else if request = ID_MEDIA_OFFER_REQUEST then ID_MEDIA_ANSWER_RESPONSE
      else if request = ID_MEDIA_CANDIDATE_REQUEST then ID_MEDIA_CANDIDATE_RESPONSE
      else if request = ID_AI_ASK_REQUEST then ID_AI_ASK_RESPONSE
      else 0)"

text \<open>The two sides are one critical step: the frame is built and queued.\<close>

definition ReplyError :: "'r env \<Rightarrow> nat \<Rightarrow> u16 \<Rightarrow> error_code \<Rightarrow> ('r, unit) prog" where
  "ReplyError en sid mid e =
     (if ResponseId mid = 0 then ret ()
      else do {
        _ \<leftarrow> send sid (ResponseId mid) (en_styled en (jobj [(''error'', JInt (code e))]));
        ret ()
      })"

section \<open>The handler table\<close>

definition handled :: "u16 \<Rightarrow> bool" where
  "handled mid \<longleftrightarrow> mid \<in> set [AUTH_LOGIN_REQUEST, ID_AI_ASK_REQUEST, ID_CREATE_MEETING_REQUEST,
     ID_PAST_MEETING_REQUEST, ID_JOIN_MEETING_REQUEST, ID_RESUME_MEETING_REQUEST,
     ID_START_MEETING_REQUEST, ID_LEAVE_MEETING_REQUEST, ID_END_MEETING_REQUEST,
     ID_SEND_MEETING_MESSAGE_REQUEST, ID_GET_MEETING_GROUP_MESSAGES_REQUEST,
     ID_GET_MEETING_PRIVATE_MESSAGES_REQUEST, ID_MEDIA_OFFER_REQUEST, ID_MEDIA_CANDIDATE_REQUEST,
     ID_MEDIA_RENEGOTIATION_ANSWER_REQUEST, kMediaMessage, kDisconnected, kTimeout]"

definition handler :: "'r env \<Rightarrow> u64 \<Rightarrow> nat \<Rightarrow> u16 \<Rightarrow> string \<Rightarrow> ('r, unit) prog" where
  "handler en rid sid mid message =
     (if mid = AUTH_LOGIN_REQUEST then LoginHandler en (Some sid) message
      else if mid = ID_AI_ASK_REQUEST then AiAskHandler en (Some sid) message
      else if mid = ID_CREATE_MEETING_REQUEST then CreateMeetingHandler en (Some sid) message
      else if mid = ID_PAST_MEETING_REQUEST then GetPastMeetingHandler en (Some sid) message
      else if mid = ID_JOIN_MEETING_REQUEST then JoinMeeetingHandler en rid (Some sid) False message
      else if mid = ID_RESUME_MEETING_REQUEST then JoinMeeetingHandler en rid (Some sid) True message
      else if mid = ID_START_MEETING_REQUEST then StartMeetingHandler en rid (Some sid) message
      else if mid = ID_LEAVE_MEETING_REQUEST then LeaveMeetingHandler en rid (Some sid) message
      else if mid = ID_END_MEETING_REQUEST then EndMeetingHandler en rid (Some sid) message
      else if mid = ID_SEND_MEETING_MESSAGE_REQUEST then SendMeetingMessageHandler en rid (Some sid) message
      else if mid = ID_GET_MEETING_GROUP_MESSAGES_REQUEST then GetMeetingGroupMessagesHandler en (Some sid) message
      else if mid = ID_GET_MEETING_PRIVATE_MESSAGES_REQUEST then GetMeetingPrivateMessagesHandler en (Some sid) message
      else if mid = ID_MEDIA_OFFER_REQUEST then MediaOfferHandler en (Some sid) message
      else if mid = ID_MEDIA_CANDIDATE_REQUEST then MediaCandidateHandler en (Some sid) message
      else if mid = ID_MEDIA_RENEGOTIATION_ANSWER_REQUEST then MediaAnswerHandler en (Some sid) message
      else if mid = kMediaMessage then MediaSignalResponseHandler en rid message
      else if mid = kDisconnected then SessionDisconnectedHandler en rid (Some sid)
      else if mid = kTimeout then do { _ \<leftarrow> ReconnectTimeoutCheckHandler en; ret () }
      else ret ())"

section \<open>Dispatch\<close>

text \<open>A connection that another one of its user has replaced in this room.\<close>

definition replaced :: "u64 \<Rightarrow> nat \<Rightarrow> 'r world \<Rightarrow> bool" where
  "replaced rid sid w \<longleftrightarrow> (case member_at rid (uid_of sid w) w of
       None \<Rightarrow> False | Some m \<Rightarrow> lock (mb_session m) w \<noteq> Some sid)"

text \<open>The meeting id in the message: None when there is none to compare.\<close>

definition requested_meeting :: "'r env \<Rightarrow> string \<Rightarrow> (unit + u64) option" where
  "requested_meeting en message =
     (case parse_object en message of
        None \<Rightarrow> None
      | Some req \<Rightarrow>
          if \<not> is_member req ''meeting_id'' then None
          else let v = jget req ''meeting_id'' in
            Some (case (if is_string v then map_option fst (stoull (as_string v)) else as_uint64_conv v) of
                    None \<Rightarrow> Inl () | Some n \<Rightarrow> Inr n))"

definition dispatch_call :: "'r env \<Rightarrow> u64 \<Rightarrow> nat \<Rightarrow> u16 \<Rightarrow> string \<Rightarrow> ('r, unit) prog" where
  "dispatch_call en rid sid mid message =
     (if mid = ID_JOIN_MEETING_REQUEST \<or> mid = ID_RESUME_MEETING_REQUEST then do {
        uid \<leftarrow> look (uid_of sid);
        ok \<leftarrow> ReserveUser uid rid;
        if \<not> ok then ReplyError en sid mid ERROR_MEETING_ACCESS
        else do {
          handler en rid sid mid message;
          modify (\<lambda>w. FinishJoin uid rid (meeting_of sid w = rid) w)
        }
      } else handler en rid sid mid message)"

definition dispatch_checked :: "'r env \<Rightarrow> u64 \<Rightarrow> nat \<Rightarrow> u16 \<Rightarrow> string \<Rightarrow> ('r, unit) prog" where
  "dispatch_checked en rid sid mid message =
     (case (if rid \<noteq> 0 \<and> mid \<noteq> ID_JOIN_MEETING_REQUEST \<and> mid \<noteq> kDisconnected
            then requested_meeting en message else None) of
        Some (Inl _) \<Rightarrow> ReplyError en sid mid ERROR_JSON
      | Some (Inr n) \<Rightarrow> if n \<noteq> rid then ReplyError en sid mid ERROR_MEETING_ACCESS
                       else dispatch_call en rid sid mid message
      | None \<Rightarrow> dispatch_call en rid sid mid message)"

definition Dispatch :: "'r env \<Rightarrow> u64 \<Rightarrow> nat \<Rightarrow> u16 \<Rightarrow> string \<Rightarrow> ('r, unit) prog" where
  "Dispatch en rid sid mid message =
     (if \<not> handled mid then ret ()
      else do {
        closed \<leftarrow> look (\<lambda>w. IsClosed (sess sid w));
        old \<leftarrow> look (replaced rid sid);
        if mid \<noteq> kDisconnected \<and> closed then ret ()
        else if rid \<noteq> 0 \<and> mid \<noteq> ID_JOIN_MEETING_REQUEST \<and> mid \<noteq> ID_RESUME_MEETING_REQUEST
             \<and> mid \<noteq> kDisconnected \<and> old
        then ReplyError en sid mid ERROR_MEETING_ACCESS
        else if mid \<noteq> ID_AI_ASK_REQUEST \<and> mid \<noteq> kMediaMessage \<and> mid \<noteq> kDisconnected \<and> en_pool_busy en
        then ReplyError en sid mid ERROR_NETWORK
        else dispatch_checked en rid sid mid message
      })"

section \<open>Rooms\<close>

text \<open>A command in the queue of a room; a room without members and connections is
  dropped when it is idle, which an empty room at the next access cannot be told from.\<close>

definition drop_idle :: "u64 \<Rightarrow> 'r world \<Rightarrow> 'r world" where
  "drop_idle rid w =
     (if rm_sessions (room_at rid w) = [] \<and> rm_members (room_at rid w) = []
      then w\<lparr>w_rooms := (w_rooms w)(rid := None)\<rparr> else w)"

definition in_room :: "u64 \<Rightarrow> ('r, unit) prog \<Rightarrow> ('r, unit) prog" where
  "in_room rid command = do {
     modify (set_room rid (\<lambda>r. r));
     command;
     modify (drop_idle rid)
   }"

text \<open>The result tells whether the queue took the command.\<close>

definition SubmitRoom :: "bool \<Rightarrow> u64 \<Rightarrow> ('r, unit) prog \<Rightarrow> ('r, bool) prog" where
  "SubmitRoom full rid command = (if full then ret False else do { in_room rid command; ret True })"

text \<open>Room ordinary(m_scheduler, 0): a room of this operation only.\<close>

definition ordinary :: "('r, unit) prog \<Rightarrow> ('r, unit) prog" where
  "ordinary command = do {
     modify (\<lambda>w. w\<lparr>w_rooms := (w_rooms w)(0 \<mapsto> Room_new)\<rparr>);
     command;
     modify (\<lambda>w. w\<lparr>w_rooms := (w_rooms w)(0 := None)\<rparr>)
   }"

section \<open>Route\<close>

definition no_meeting_needed :: "u16 \<Rightarrow> bool" where
  "no_meeting_needed mid \<longleftrightarrow> mid = AUTH_LOGIN_REQUEST \<or> mid = ID_CREATE_MEETING_REQUEST
     \<or> mid = ID_PAST_MEETING_REQUEST \<or> mid = ID_AI_ASK_REQUEST \<or> mid = kDisconnected"

text \<open>The meeting a message of a session outside a meeting names, 0 for none.\<close>

definition named_meeting :: "'r env \<Rightarrow> string \<Rightarrow> u64" where
  "named_meeting en message =
     (case parse_object en message of
        None \<Rightarrow> 0
      | Some req \<Rightarrow>
          let v = jget req ''meeting_id'' in
          if is_string v then (case stoull_full (as_string v) of Some n \<Rightarrow> n | None \<Rightarrow> 0)
          else if is_uint64 v then as_uint64 v else 0)"

definition route_to :: "'r env \<Rightarrow> u64 \<Rightarrow> nat \<Rightarrow> u16 \<Rightarrow> string \<Rightarrow> ('r, unit) prog" where
  "route_to en meeting sid mid message =
     (if meeting = 0 then ordinary (Dispatch en 0 sid mid message)
      else do {
        accepted \<leftarrow> SubmitRoom (en_room_full en \<and> mid \<noteq> kDisconnected) meeting
                      (Dispatch en meeting sid mid message);
        if accepted then ret () else ReplyError en sid mid ERROR_NETWORK
      })"

text \<open>The meeting code of a join request.\<close>

definition join_code :: "'r env \<Rightarrow> string \<Rightarrow> string option" where
  "join_code en message =
     (case parse_object en message of
        None \<Rightarrow> None
      | Some req \<Rightarrow> if has_string req ''meeting_code'' \<and> str_field req ''meeting_code'' \<noteq> []
                   then Some (str_field req ''meeting_code'') else None)"

definition route_join :: "'r env \<Rightarrow> u64 \<Rightarrow> int \<Rightarrow> nat \<Rightarrow> string \<Rightarrow> ('r, unit) prog" where
  "route_join en meeting uid sid message =
     (if meeting \<noteq> 0 then ReplyError en sid ID_JOIN_MEETING_REQUEST ERROR_MEETING_ACCESS
      else if uid \<le> 0 then ReplyError en sid ID_JOIN_MEETING_REQUEST ERROR_JSON
      else case join_code en message of
        None \<Rightarrow> ReplyError en sid ID_JOIN_MEETING_REQUEST ERROR_JSON
      | Some meeting_code \<Rightarrow>
          if en_route_busy en then ReplyError en sid ID_JOIN_MEETING_REQUEST ERROR_NETWORK
          else do {
            found \<leftarrow> mysql (GetMeetingInfoByCode meeting_code);
            case found of
              None \<Rightarrow> ReplyError en sid ID_JOIN_MEETING_REQUEST ERROR_MEETING_NOT_FOUND
            | Some mi \<Rightarrow> route_to en (mi_id mi) sid ID_JOIN_MEETING_REQUEST message
          })"

definition Route :: "'r env \<Rightarrow> nat \<Rightarrow> u16 \<Rightarrow> string \<Rightarrow> ('r, unit) prog" where
  "Route en sid mid message = do {
     closed \<leftarrow> look (\<lambda>w. IsClosed (sess sid w));
     if mid \<noteq> kDisconnected \<and> closed then ret ()
     else do {
       meeting \<leftarrow> look (meeting_of sid);
       uid \<leftarrow> look (uid_of sid);
       if mid = ID_JOIN_MEETING_REQUEST then route_join en meeting uid sid message
       else if meeting = 0 \<and> \<not> no_meeting_needed mid
       then route_to en (named_meeting en message) sid mid message
       else route_to en meeting sid mid message
     }
   }"

section \<open>The business layer as a step relation\<close>

text \<open>The operations of the business layer in any order, each in its own environment.
  What the other components do to the state (I/O on sessions, the media connection, other
  users of the stores) is a step that leaves rooms and presence alone and keeps the
  identity and the meeting of a session, and a closed session stays closed.  A session may
  be destroyed; a new one has neither user nor meeting and an index nothing refers to.\<close>

definition same_identity :: "session \<Rightarrow> session \<Rightarrow> bool" where
  "same_identity s s' \<longleftrightarrow> s_user_id s' = s_user_id s \<and> s_meeting_id s' = s_meeting_id s
     \<and> s_auth_token s' = s_auth_token s \<and> s_signal_id s' = s_signal_id s \<and> (IsClosed s \<longrightarrow> IsClosed s')"

definition new_session :: "session \<Rightarrow> bool" where
  "new_session s \<longleftrightarrow> s_user_id s = 0 \<and> s_meeting_id s = 0 \<and> s_auth_token s = [] \<and> s_signal_id s = 0"

definition referred :: "nat \<Rightarrow> 'r world \<Rightarrow> bool" where
  "referred sid w \<longleftrightarrow> (\<exists>rid. sid \<in> set (rm_sessions (room_at rid w)))
     \<or> (\<exists>rid uid m. member_at rid uid w = Some m \<and> mb_session m = Some sid)
     \<or> (\<exists>i g. w_signals w i = Some g \<and> sg_session g = Some sid)"

definition outside :: "'r world \<Rightarrow> 'r world \<Rightarrow> bool" where
  "outside w w' \<longleftrightarrow> w_rooms w' = w_rooms w \<and> w_users w' = w_users w
     \<and> w_signals w' = w_signals w \<and> w_next_signal w' = w_next_signal w \<and> w_media_epoch w' = w_media_epoch w
     \<and> (\<forall>sid. case w_sessions w' sid of
          None \<Rightarrow> True
        | Some s' \<Rightarrow> (case w_sessions w sid of
            Some s \<Rightarrow> same_identity s s'
          | None \<Rightarrow> new_session s' \<and> \<not> referred sid w))"

inductive logic_step :: "'r world \<Rightarrow> 'r world \<Rightarrow> bool" where
  ls_route: "alive sid w \<Longrightarrow> logic_step w (snd (run_state (Route en sid mid message) w))"
| ls_timer: "logic_step w (snd (run_state (ReconnectTimeoutCheckHandler en) w))"
| ls_expire: "rid \<noteq> 0 \<Longrightarrow>
    logic_step w (snd (run_state (SubmitRoom full rid (ExpireMemberHandler en rid member)) w))"
| ls_control: "logic_step w (snd (run_state (media_control en node) w))"
| ls_media: "rid \<noteq> 0 \<Longrightarrow>
    logic_step w (snd (run_state (SubmitRoom full rid (media_in_room en node i signal rid)) w))"
| ls_outside: "outside w w' \<Longrightarrow> logic_step w w'"

definition logic_start :: "'r world \<Rightarrow> bool" where
  "logic_start w \<longleftrightarrow> w_sessions w = (\<lambda>_. None) \<and> w_rooms w = (\<lambda>_. None) \<and> w_users w = (\<lambda>_. None)
     \<and> w_signals w = (\<lambda>_. None)"

inductive logic_reach :: "'r world \<Rightarrow> bool" where
  lr_start: "logic_start w \<Longrightarrow> logic_reach w"
| lr_step: "logic_reach w \<Longrightarrow> logic_step w w' \<Longrightarrow> logic_reach w'"

end
