(* ===== verification/Frames.thy ===== *)
theory Frames
  imports Dispatch
begin

text \<open>
  Proof support for the handlers.  keeps R m says that the program m moves the state
  along the relation R.  Three locales state what R must allow, each extending the
  one before: basic_frame (R is a preorder: the control structure), store_frame (any
  change of the two stores) and quiet_frame (also the media connection, session
  attributes other than the meeting, and dropping entries of a room's connection list).
  Inside them every handler, or part of one, that does nothing else is shown to keep R.
  The properties interpret them with the relations they need.
\<close>

named_theorems keeps_intros "programs that keep a relation"

definition keeps :: "('s \<Rightarrow> 's \<Rightarrow> bool) \<Rightarrow> ('s, 'a) state \<Rightarrow> bool" where
  "keeps R m \<longleftrightarrow> (\<forall>s. R s (snd (run_state m s)))"

lemma keepsI: "(\<And>s. R s (snd (run_state m s))) \<Longrightarrow> keeps R m"
  by (simp add: keeps_def)

lemma keepsD: "keeps R m \<Longrightarrow> R s (snd (run_state m s))"
  by (simp add: keeps_def)

section \<open>Running the primitives\<close>

lemma run_prims [simp]:
  "run_state (look f) w = (f w, w)"
  "run_state (modify g) w = ((), g w)"
  by (simp_all add: look_def modify_def)

lemma run_redis: "run_state (redis f) w = (fst (f (w_redis w)), w\<lparr>w_redis := snd (f (w_redis w))\<rparr>)"
  by (simp add: redis_def case_prod_beta)

lemma run_mysql: "run_state (mysql f) w = (fst (f (w_db w)), w\<lparr>w_db := snd (f (w_db w))\<rparr>)"
  by (simp add: mysql_def case_prod_beta)

lemma snd_bind: "snd (run_state (State_Monad.bind m f) w)
    = snd (run_state (f (fst (run_state m w))) (snd (run_state m w)))"
  by (simp add: case_prod_beta)

lemma fst_bind: "fst (run_state (State_Monad.bind m f) w)
    = fst (run_state (f (fst (run_state m w))) (snd (run_state m w)))"
  by (simp add: case_prod_beta)

text \<open>What a step on a session leaves: its meeting, and closed stays closed.\<close>

definition quiet_session :: "session \<Rightarrow> session \<Rightarrow> bool" where
  "quiet_session s s' \<longleftrightarrow> s_meeting_id s' = s_meeting_id s \<and> (IsClosed s \<longrightarrow> IsClosed s')"

lemma quiet_session_refl [simp]: "quiet_session s s"
  by (simp add: quiet_session_def)

lemma Send_quiet: "Send mid p (s, k) = (b, s', k') \<Longrightarrow> quiet_session s s'"
  by (auto simp: Send_def quiet_session_def IsClosed_def enqueue_frame_def Let_def
      split: if_splits prod.splits)

lemma RequestClose_quiet: "RequestClose (s, k) = (s', k') \<Longrightarrow> quiet_session s s'"
  by (auto simp: RequestClose_def quiet_session_def IsClosed_def)

lemma attr_quiet [simp]:
  "quiet_session s (SetUserId u s)" "quiet_session s (SetAuthToken t s)"
  "quiet_session s (SetMediaSignalId g s)" "quiet_session s (ClearMediaSignalId g s)"
  by (auto simp: quiet_session_def IsClosed_def SetUserId_def SetAuthToken_def SetMediaSignalId_def
      ClearMediaSignalId_def)

definition quiet_sessions :: "(nat \<Rightarrow> session option) \<Rightarrow> (nat \<Rightarrow> session option) \<Rightarrow> bool" where
  "quiet_sessions a b \<longleftrightarrow> (\<forall>sid. rel_option quiet_session (a sid) (b sid))"

lemma quiet_sessions_refl: "quiet_sessions a a"
  by (simp add: quiet_sessions_def option.rel_refl)

lemma quiet_sessions_upd: "a sid = Some s \<Longrightarrow> quiet_session s s' \<Longrightarrow> quiet_sessions a (a(sid \<mapsto> s'))"
  by (auto simp: quiet_sessions_def option.rel_refl)

lemma run_send:
  obtains (dead) "w_sessions w sid = None" "run_state (send sid mid tx) w = (False, w)"
  | (sent) s ok s' k where "w_sessions w sid = Some s" "Send mid tx (s, Some (w_wake w)) = (ok, s', k)"
      "run_state (send sid mid tx) w = (ok, w\<lparr>w_sessions := (w_sessions w)(sid \<mapsto> s'),
        w_wake := (case k of Some k' \<Rightarrow> k' | None \<Rightarrow> w_wake w)\<rparr>)"
proof (cases "w_sessions w sid")
  case None
  then show ?thesis by (intro dead) (simp_all add: send_def)
next
  case (Some s)
  obtain ok s' k where "Send mid tx (s, Some (w_wake w)) = (ok, s', k)"
    by (cases "Send mid tx (s, Some (w_wake w))") auto
  with Some show ?thesis by (intro sent) (simp_all add: send_def)
qed

lemma send_rooms [simp]: "w_rooms (snd (run_state (send sid mid tx) w)) = w_rooms w"
  by (cases rule: run_send [of w sid mid tx]) simp_all

lemma send_alive [simp]: "alive i (snd (run_state (send sid mid tx) w)) = alive i w"
  by (cases rule: run_send [of w sid mid tx]) (simp_all add: alive_def)

lemma push_to_keep:
  "fst (run_state (push_to cond mid tx ids) w) = filter (\<lambda>i. alive i w) ids"
  "w_rooms (snd (run_state (push_to cond mid tx ids) w)) = w_rooms w"
proof (induction ids arbitrary: w)
  case (Cons i ids)
  { case 1 show ?case by (simp add: Cons case_prod_beta) }
  { case 2 show ?case by (simp add: Cons case_prod_beta) }
qed simp_all

lemma room_at_cong: "w_rooms w = w_rooms w' \<Longrightarrow> room_at rid w = room_at rid w'"
  by (simp add: room_at_def)

section \<open>The frames\<close>

text \<open>Control structure: R only has to be a preorder.\<close>

locale basic_frame =
  fixes R :: "'r world \<Rightarrow> 'r world \<Rightarrow> bool"
  assumes R_refl: "R w w"
    and R_trans: "R w w' \<Longrightarrow> R w' w'' \<Longrightarrow> R w w''"
begin

lemma k_ret [keeps_intros]: "keeps R (ret a)"
  by (simp add: keeps_def R_refl)

lemma k_look [keeps_intros]: "keeps R (look f)"
  by (simp add: keeps_def R_refl)

lemma k_bind [keeps_intros]: "keeps R m \<Longrightarrow> (\<And>a. keeps R (f a)) \<Longrightarrow> keeps R (State_Monad.bind m f)"
  unfolding keeps_def snd_bind by (blast intro: R_trans)

lemma k_if [keeps_intros]: "(b \<Longrightarrow> keeps R m) \<Longrightarrow> (\<not> b \<Longrightarrow> keeps R m') \<Longrightarrow> keeps R (if b then m else m')"
  by simp

lemma k_option [keeps_intros]: "keeps R m \<Longrightarrow> (\<And>a. keeps R (f a)) \<Longrightarrow> keeps R (case x of None \<Rightarrow> m | Some a \<Rightarrow> f a)"
  by (cases x) simp_all

lemma k_prod [keeps_intros]: "(\<And>a b. keeps R (f a b)) \<Longrightarrow> keeps R (case p of (a, b) \<Rightarrow> f a b)"
  by (cases p) simp

lemma k_lookup [keeps_intros]: "keeps R a \<Longrightarrow> keeps R b \<Longrightarrow> (\<And>t. keeps R (c t)) \<Longrightarrow>
    keeps R (case l of Unavailable \<Rightarrow> a | Missing \<Rightarrow> b | Found t \<Rightarrow> c t)"
  by (cases l) simp_all

lemma k_let [keeps_intros]: "(\<And>a. keeps R (f a)) \<Longrightarrow> keeps R (Let a f)"
  by simp

lemma k_fail [keeps_intros]: "keeps R (fail e v)" "keeps R (succeed v)"
  by (simp_all add: fail_def succeed_def k_ret)

lemma k_conj_ok [keeps_intros]: "(\<And>m. m \<in> set ms \<Longrightarrow> keeps R m) \<Longrightarrow> keeps R (conj_ok ms)"
  by (induction ms) (auto intro!: keeps_intros)

lemma k_each_ok [keeps_intros]: "(\<And>m. m \<in> set ms \<Longrightarrow> keeps R m) \<Longrightarrow> keeps R (each_ok ok ms)"
  by (induction ms arbitrary: ok) (auto intro!: keeps_intros)

lemma k_on_session [keeps_intros]: "(\<And>sid. keeps R (f sid)) \<Longrightarrow> keeps R (on_session session f)"
  by (auto simp: on_session_def intro!: keeps_intros)

lemma k_with_meeting_id [keeps_intros]:
  "(\<And>m u. keeps R (f m u)) \<Longrightarrow> keeps R (with_meeting_id en sid message f)"
  by (auto simp: with_meeting_id_def intro!: keeps_intros)

lemma k_media_access [keeps_intros]: "(\<And>u. keeps R (f u)) \<Longrightarrow> keeps R (media_access sid meeting f)"
  by (auto simp: media_access_def intro!: keeps_intros)

end

text \<open>Storage: R allows any change of the two stores.\<close>

locale store_frame = basic_frame R for R :: "'r world \<Rightarrow> 'r world \<Rightarrow> bool" +
  assumes R_store: "R w (w\<lparr>w_redis := r, w_db := d\<rparr>)"
begin

lemma R_storeI: "w' = w\<lparr>w_redis := w_redis w', w_db := w_db w'\<rparr> \<Longrightarrow> R w w'"
  by (erule ssubst) (rule R_store)

lemma k_redis [keeps_intros]: "keeps R (redis f)"
  by (auto simp: keeps_def run_redis intro!: R_storeI)

lemma k_mysql [keeps_intros]: "keeps R (mysql f)"
  by (auto simp: keeps_def run_mysql intro!: R_storeI)

lemma k_messages_json [keeps_intros]: "keeps R (messages_json en uid ms)"
  by (induction ms) (auto intro!: keeps_intros)

lemma k_history_reply [keeps_intros]: "keeps R (history_reply en uid v found)"
  by (auto simp: history_reply_def intro!: keeps_intros)

lemma k_in_progress [keeps_intros]: "keeps R f \<Longrightarrow> keeps R (in_progress en meeting uid f)"
  by (auto simp: in_progress_def intro!: keeps_intros)

lemma k_timeout_scan [keeps_intros]: "keeps R (timeout_scan en ms)"
  by (induction ms) (auto intro!: keeps_intros)

lemma k_Timeout [keeps_intros]: "keeps R (ReconnectTimeoutCheckHandler en)"
  by (auto simp: ReconnectTimeoutCheckHandler_def intro!: keeps_intros)

lemma k_leave_redis [keeps_intros]: "keeps R (leave_redis en meeting uid)"
  by (auto simp: leave_redis_def intro!: keeps_intros)

lemma k_leave_elsewhere [keeps_intros]: "keeps R (leave_elsewhere meeting)"
  by (auto simp: leave_elsewhere_def intro!: keeps_intros)

lemma k_end_members [keeps_intros]: "keeps R (end_members en meeting ok ms)"
  by (induction ms arbitrary: ok) (auto intro!: keeps_intros)

lemma k_end_redis [keeps_intros]: "keeps R (end_redis en meeting)"
  by (auto simp: end_redis_def intro!: keeps_intros)

lemma k_disconnect_redis [keeps_intros]: "keeps R (disconnect_redis en meeting uid)"
  by (auto simp: disconnect_redis_def intro!: keeps_intros)

lemma k_member_json [keeps_intros]: "keeps R (member_json en c member)"
  by (auto simp: member_json_def intro!: keeps_intros)

lemma k_member_list [keeps_intros]: "keeps R (member_list en c ms acc)"
  by (induction ms arbitrary: acc) (auto intro!: keeps_intros)

lemma k_undo_add [keeps_intros]: "keeps R (undo_add en c already)"
  by (auto simp: undo_add_def intro!: keeps_intros)

lemma k_join_info [keeps_intros]: "keeps R (join_info en rid resuming meeting_code)"
  by (auto simp: join_info_def intro!: keeps_intros)

end

text \<open>Quiet handlers.\<close>

locale quiet_frame = basic_frame R for R :: "'r world \<Rightarrow> 'r world \<Rightarrow> bool" +
  assumes R_env: "R w (w\<lparr>w_wake := k, w_media := m, w_redis := r, w_db := d, w_signals := g,
        w_next_signal := n, w_media_epoch := e\<rparr>)"
    and R_sessions: "quiet_sessions (w_sessions w) ss \<Longrightarrow> R w (w\<lparr>w_sessions := ss\<rparr>)"
    and R_prune: "R w (set_room_sessions rid (filter P) w)"
begin

lemma R_envI:
  "w' = w\<lparr>w_wake := w_wake w', w_media := w_media w', w_redis := w_redis w', w_db := w_db w',
     w_signals := w_signals w', w_next_signal := w_next_signal w', w_media_epoch := w_media_epoch w'\<rparr>
   \<Longrightarrow> R w w'"
  by (erule ssubst) (rule R_env)

end

sublocale quiet_frame \<subseteq> store_frame
  by unfold_locales (auto intro!: R_envI)

context quiet_frame
begin

lemma R_wake: "R w (w\<lparr>w_wake := k\<rparr>)"
  by (rule R_envI) simp

lemma k_send [keeps_intros]: "keeps R (send sid mid tx)"
proof (rule keepsI)
  fix w show "R w (snd (run_state (send sid mid tx) w))"
  proof (cases rule: run_send [of w sid mid tx])
    case dead then show ?thesis by (simp add: R_refl)
  next
    case (sent s ok s' k)
    have "R w (w\<lparr>w_sessions := (w_sessions w)(sid \<mapsto> s')\<rparr>)"
      using sent by (intro R_sessions quiet_sessions_upd Send_quiet)
    then show ?thesis unfolding sent(3) snd_conv
      by (rule R_trans) (use R_wake [of "w\<lparr>w_sessions := (w_sessions w)(sid \<mapsto> s')\<rparr>"] in simp)
  qed
qed

lemma k_close [keeps_intros]: "keeps R (close_session sid)"
proof (rule keepsI)
  fix w show "R w (snd (run_state (close_session sid) w))"
  proof (cases "w_sessions w sid")
    case None then show ?thesis by (simp add: close_session_def R_refl)
  next
    case (Some s)
    obtain s' k where r: "RequestClose (s, Some (w_wake w)) = (s', k)"
      by (cases "RequestClose (s, Some (w_wake w))")
    have "R w (w\<lparr>w_sessions := (w_sessions w)(sid \<mapsto> s')\<rparr>)"
      using Some r by (intro R_sessions quiet_sessions_upd RequestClose_quiet)
    then have "R w ((w\<lparr>w_sessions := (w_sessions w)(sid \<mapsto> s')\<rparr>)\<lparr>w_wake :=
        (case k of Some k' \<Rightarrow> k' | None \<Rightarrow> w_wake w)\<rparr>)"
      by (rule R_trans) (rule R_wake)
    then show ?thesis using Some r by (simp add: close_session_def)
  qed
qed

lemma k_media [keeps_intros]: "keeps R (SendMediaSignal tx epoch)"
  by (auto simp: keeps_def SendMediaSignal_def split: prod.splits intro!: R_envI)

lemma R_signals: "R w (w\<lparr>w_signals := g, w_next_signal := n, w_media_epoch := e\<rparr>)"
  by (rule R_envI) simp

lemma k_RegisterSignal [keeps_intros]: "keeps R (RegisterSignal i sid meeting)"
  by (auto simp: keeps_def RegisterSignal_def intro!: R_envI)

lemma k_RemoveSignal [keeps_intros]: "keeps R (modify (RemoveSignal i))"
  by (auto simp: keeps_def RemoveSignal_def intro!: R_envI)

lemma k_next_signal [keeps_intros]: "keeps R (modify (\<lambda>w. w\<lparr>w_next_signal := w_next_signal w + 1\<rparr>))"
  by (auto simp: keeps_def intro!: R_envI)

lemma k_set_sess: "(\<And>s. quiet_session s (f s)) \<Longrightarrow> keeps R (modify (set_sess sid f))"
  unfolding keeps_def set_sess_def run_prims snd_conv
  by (intro allI R_sessions) (auto simp: quiet_sessions_def option.rel_refl option.rel_map)

lemma k_attrs [keeps_intros]:
  "keeps R (modify (set_sess sid (SetUserId u)))" "keeps R (modify (set_sess sid (SetAuthToken t)))"
  "keeps R (modify (set_sess sid (SetMediaSignalId g)))"
  "keeps R (modify (set_sess sid (ClearMediaSignalId g)))"
  by (rule k_set_sess, simp)+

lemma k_drop_sessions [keeps_intros]: "keeps R (drop_sessions rid bad)"
  unfolding keeps_def drop_sessions_def by (simp add: R_prune)

lemma k_push_to [keeps_intros]: "keeps R (push_to cond mid tx ids)"
  by (induction ids) (auto intro!: keeps_intros)

lemma k_broadcast [keeps_intros]: "keeps R (broadcast rid cond mid tx)"
proof (rule keepsI)
  fix w :: "'r world"
  let ?p = "push_to cond mid tx (rm_sessions (room_at rid w)) :: ('r, nat list) prog"
  let ?w = "snd (run_state ?p w)"
  have eq: "room_at rid ?w = room_at rid w" by (intro room_at_cong push_to_keep)
  have "R w ?w" by (rule keepsD [OF k_push_to])
  moreover have "R ?w (set_room_sessions rid (filter (\<lambda>i. alive i w)) ?w)" by (rule R_prune)
  ultimately have "R w (set_room_sessions rid (filter (\<lambda>i. alive i w)) ?w)" by (rule R_trans)
  then show "R w (snd (run_state (broadcast rid cond mid tx) w))"
    by (simp add: broadcast_def case_prod_beta push_to_keep set_room_sessions_def set_room_def eq)
qed

lemma k_respond [keeps_intros]: "keeps R body \<Longrightarrow> keeps R (respond en sid mid body)"
  by (auto simp: respond_def intro!: keeps_intros)

lemma k_ReleaseMediaSession [keeps_intros]: "keeps R (ReleaseMediaSession en sid)"
  by (auto simp: ReleaseMediaSession_def intro!: keeps_intros)

lemma k_ReplyError [keeps_intros]: "keeps R (ReplyError en sid mid e)"
  by (auto simp: ReplyError_def intro!: keeps_intros)

lemma k_Login [keeps_intros]: "keeps R (LoginHandler en session message)"
  by (auto simp: LoginHandler_def login_body_def login_profile_def intro!: keeps_intros)

lemma k_AiAsk [keeps_intros]: "keeps R (AiAskHandler en session message)"
  unfolding AiAskHandler_def ai_body_def
  by (intro keeps_intros) (auto intro!: keeps_intros split: ai_outcome.splits)

lemma k_Create [keeps_intros]: "keeps R (CreateMeetingHandler en session message)"
  by (auto simp: CreateMeetingHandler_def create_body_def create_store_def intro!: keeps_intros)

lemma k_Past [keeps_intros]: "keeps R (GetPastMeetingHandler en session message)"
  by (auto simp: GetPastMeetingHandler_def past_body_def intro!: keeps_intros)

lemma k_Start [keeps_intros]: "keeps R (StartMeetingHandler en rid session message)"
  by (auto simp: StartMeetingHandler_def start_body_def start_commit_def intro!: keeps_intros)

lemma k_Chat [keeps_intros]: "keeps R (SendMeetingMessageHandler en rid session message)"
  by (auto simp: SendMeetingMessageHandler_def chat_body_def chat_send_def chat_store_def
      intro!: keeps_intros)

lemma k_Group [keeps_intros]: "keeps R (GetMeetingGroupMessagesHandler en session message)"
  by (auto simp: GetMeetingGroupMessagesHandler_def group_body_def intro!: keeps_intros)

lemma k_Private [keeps_intros]: "keeps R (GetMeetingPrivateMessagesHandler en session message)"
  by (auto simp: GetMeetingPrivateMessagesHandler_def private_body_def intro!: keeps_intros)

lemma k_forward_bound [keeps_intros]: "keeps R (forward_bound en sid meeting uid kind extra)"
  by (auto simp: forward_bound_def intro!: keeps_intros)

lemma k_Offer [keeps_intros]: "keeps R (MediaOfferHandler en session message)"
  by (auto simp: MediaOfferHandler_def offer_body_def offer_forward_def new_signal_def intro!: keeps_intros)

lemma k_Answer [keeps_intros]: "keeps R (MediaAnswerHandler en session message)"
  by (auto simp: MediaAnswerHandler_def intro!: keeps_intros)

lemma k_Candidate [keeps_intros]: "keeps R (MediaCandidateHandler en session message)"
  by (auto simp: MediaCandidateHandler_def candidate_body_def intro!: keeps_intros)

lemma k_MediaResponse [keeps_intros]: "keeps R (MediaSignalResponseHandler en rid message)"
  by (auto simp: MediaSignalResponseHandler_def intro!: keeps_intros)

lemma k_AcceptMediaEvent [keeps_intros]: "keeps R (AcceptMediaEvent node)"
proof (rule keepsI)
  fix w
  have "R w (w\<lparr>w_sessions := w_sessions (clear_bindings w)\<rparr>)"
    by (intro R_sessions) (auto simp: quiet_sessions_def clear_bindings_def split: option.split)
  then have "R w ((w\<lparr>w_sessions := w_sessions (clear_bindings w)\<rparr>)\<lparr>w_signals := (\<lambda>_. None),
      w_next_signal := w_next_signal w, w_media_epoch := mn_epoch node\<rparr>)"
    by (rule R_trans) (rule R_signals)
  then have "R w ((clear_bindings w)\<lparr>w_media_epoch := mn_epoch node\<rparr>)"
    by (simp add: clear_bindings_def)
  then show "R w (snd (run_state (AcceptMediaEvent node) w))"
    by (auto simp: AcceptMediaEvent_def Let_def R_refl)
qed

lemma k_media_in_room [keeps_intros]: "keeps R (media_in_room en node i signal rid)"
  by (auto simp: media_in_room_def intro!: keeps_intros)

lemma k_media_control [keeps_intros]: "keeps R (media_control en node)"
  by (auto simp: media_control_def intro!: keeps_intros)

text \<open>The parts of the other handlers.\<close>

lemma k_leave_notify [keeps_intros]: "keeps R (leave_notify en rid sid meeting uid)"
  by (auto simp: leave_notify_def intro!: keeps_intros)

lemma k_join_notify [keeps_intros]: "keeps R (join_notify en c already rec members joined)"
  by (auto simp: join_notify_def intro!: keeps_intros)

end

end
