(* ===== verification/Presence.thy ===== *)
theory Presence
  imports Frames
begin

text \<open>
  Two invariants of the business layer, for every order of operations and whatever the
  stores answer: a member of a room is registered in the presence table with that room
  (so a user is a member of one meeting at most), and an open connection listed in a
  room is a connection whose current meeting is that room (so a broadcast reaches
  nobody else).
\<close>

section \<open>The invariants\<close>

definition presence_ok :: "'r world \<Rightarrow> bool" where
  "presence_ok w \<longleftrightarrow> (\<forall>rid uid m. member_at rid uid w = Some m \<longrightarrow>
     (\<exists>p. w_users w uid = Some p \<and> up_meeting p = rid \<and> up_joined p))"

definition listed :: "u64 \<Rightarrow> 'r world \<Rightarrow> nat set" where
  "listed rid w = set (rm_sessions (room_at rid w))"

definition open_at :: "nat \<Rightarrow> 'r world \<Rightarrow> bool" where
  "open_at sid w \<longleftrightarrow> alive sid w \<and> \<not> IsClosed (sess sid w)"

definition places_ok :: "'r world \<Rightarrow> bool" where
  "places_ok w \<longleftrightarrow> (\<forall>rid sid. sid \<in> listed rid w \<longrightarrow> open_at sid w \<longrightarrow> meeting_of sid w = rid)"

definition inv :: "'r world \<Rightarrow> bool" where
  "inv w \<longleftrightarrow> presence_ok w \<and> places_ok w \<and> listed 0 w = {}"

section \<open>Moves\<close>

text \<open>Steps that leave members and presence alone, add no connection to a room and take
  at most the connections of S out of their meeting.\<close>

definition move_session :: "bool \<Rightarrow> session \<Rightarrow> session \<Rightarrow> bool" where
  "move_session b s s' \<longleftrightarrow> (s_meeting_id s' = s_meeting_id s \<or> b \<and> s_meeting_id s' = 0)
     \<and> (IsClosed s \<longrightarrow> IsClosed s')"

definition moves :: "nat set \<Rightarrow> 'r world \<Rightarrow> 'r world \<Rightarrow> bool" where
  "moves S w w' \<longleftrightarrow> (\<forall>r u. member_at r u w' = member_at r u w) \<and> w_users w' = w_users w
     \<and> (\<forall>i. rel_option (move_session (i \<in> S)) (w_sessions w i) (w_sessions w' i))
     \<and> (\<forall>r. listed r w' \<subseteq> listed r w)"

lemma move_session_refl [simp]: "move_session b s s"
  by (simp add: move_session_def)

lemma quiet_move: "quiet_session s s' \<Longrightarrow> move_session b s s'"
  by (simp add: quiet_session_def move_session_def)

lemma moves_trans:
  assumes "moves S w w'" "moves S w' w''" shows "moves S w w''"
proof -
  have "rel_option (move_session (i \<in> S)) (w_sessions w i) (w_sessions w'' i)" for i
  proof -
    have "rel_option (move_session (i \<in> S)) (w_sessions w i) (w_sessions w' i)"
      "rel_option (move_session (i \<in> S)) (w_sessions w' i) (w_sessions w'' i)"
      using assms by (auto simp: moves_def)
    then show ?thesis by (fastforce simp: option_rel_Some1 move_session_def elim: option.rel_cases)
  qed
  then show ?thesis using assms by (fastforce simp: moves_def)
qed

lemma room_fields [simp]:
  "room_at r (w\<lparr>w_sessions := ss\<rparr>) = room_at r w" "room_at r (w\<lparr>w_wake := k\<rparr>) = room_at r w"
  "room_at r (w\<lparr>w_media := md\<rparr>) = room_at r w" "room_at r (w\<lparr>w_redis := rd\<rparr>) = room_at r w"
  "room_at r (w\<lparr>w_db := d\<rparr>) = room_at r w" "room_at r (w\<lparr>w_users := us\<rparr>) = room_at r w"
  "room_at r (w\<lparr>w_signals := g\<rparr>) = room_at r w" "room_at r (w\<lparr>w_next_signal := n\<rparr>) = room_at r w"
  "room_at r (w\<lparr>w_media_epoch := e\<rparr>) = room_at r w"
  by (simp_all add: room_at_def)

lemma room_set_room [simp]: "room_at r (set_room rid f w) = (if r = rid then f (room_at rid w) else room_at r w)"
  by (simp add: room_at_def set_room_def)

lemma set_room_other [simp]:
  "w_users (set_room rid f w) = w_users w" "w_sessions (set_room rid f w) = w_sessions w"
  by (simp_all add: set_room_def)

lemma member_rooms: "(\<And>r. room_at r w' = room_at r w) \<Longrightarrow> member_at r u w' = member_at r u w"
  by (simp add: member_at_def)

interpretation mv: quiet_frame "moves S" for S
proof
  fix w :: "'a world" and w' w'' k m r d g n e ss rid P
  show "moves S w w" by (auto simp: moves_def option.rel_refl)
  show "moves S w w' \<Longrightarrow> moves S w' w'' \<Longrightarrow> moves S w w''" by (rule moves_trans)
  show "moves S w (w\<lparr>w_wake := k, w_media := m, w_redis := r, w_db := d, w_signals := g,
      w_next_signal := n, w_media_epoch := e\<rparr>)"
    by (auto simp: moves_def option.rel_refl member_at_def listed_def)
  show "quiet_sessions (w_sessions w) ss \<Longrightarrow> moves S w (w\<lparr>w_sessions := ss\<rparr>)"
    by (auto simp: moves_def member_at_def listed_def quiet_sessions_def
        intro: option.rel_mono_strong quiet_move)
  show "moves S w (set_room_sessions rid (filter P) w)"
    by (auto simp: moves_def option.rel_refl member_at_def listed_def set_room_sessions_def)
qed

lemma keepsM: "keeps (moves S) m \<Longrightarrow> moves S w (snd (run_state m w))"
  by (simp add: keeps_def)

lemma set_sess_moves: "moves {i} w (set_sess i (SetMeetingId 0) w)"
proof -
  have "rel_option (move_session (j \<in> {i})) (w_sessions w j) (w_sessions (set_sess i (SetMeetingId 0) w) j)" for j
    by (cases "j = i"; cases "w_sessions w j")
      (simp_all add: set_sess_def move_session_def SetMeetingId_def IsClosed_def)
  then show ?thesis
    by (simp add: moves_def listed_def member_at_def set_sess_def)
qed

lemma moves_session:
  assumes "moves S w w'"
  shows "alive i w' = alive i w"
    and "i \<notin> S \<Longrightarrow> meeting_of i w' = meeting_of i w"
    and "meeting_of i w' = meeting_of i w \<or> meeting_of i w' = 0"
    and "open_at i w' \<Longrightarrow> open_at i w"
proof -
  have r: "rel_option (move_session (i \<in> S)) (w_sessions w i) (w_sessions w' i)"
    using assms by (simp add: moves_def)
  show "alive i w' = alive i w" "i \<notin> S \<Longrightarrow> meeting_of i w' = meeting_of i w"
    "meeting_of i w' = meeting_of i w \<or> meeting_of i w' = 0" "open_at i w' \<Longrightarrow> open_at i w"
    using r by (auto simp: alive_def meeting_of_def open_at_def sess_def move_session_def
        elim!: option.rel_cases)
qed

lemma moves_listed: "moves S w w' \<Longrightarrow> i \<in> listed r w' \<Longrightarrow> i \<in> listed r w"
  unfolding moves_def by blast

lemma moves_member: "moves S w w' \<Longrightarrow> member_at r u w' = member_at r u w"
  unfolding moves_def by blast

lemma moves_users: "moves S w w' \<Longrightarrow> w_users w' = w_users w"
  by (simp add: moves_def)

text \<open>A move keeps the invariant when the connections that left are listed nowhere or closed.\<close>

lemma inv_moves:
  assumes "inv w" "moves S w w'"
    and "\<And>i r. i \<in> S \<Longrightarrow> i \<in> listed r w' \<Longrightarrow> open_at i w' \<Longrightarrow> False"
  shows "inv w'"
proof -
  have "presence_ok w'"
    using assms(1,2) by (simp add: inv_def presence_ok_def moves_users [OF assms(2)] moves_member [OF assms(2)])
  moreover have "meeting_of i w' = r" if "i \<in> listed r w'" "open_at i w'" for i r
  proof -
    have "i \<notin> S" using assms(3) that by blast
    moreover have "meeting_of i w = r"
      using moves_session(4) [OF assms(2) that(2)] moves_listed [OF assms(2) that(1)] assms(1)
      by (simp add: inv_def places_ok_def)
    ultimately show ?thesis using moves_session(2) [OF assms(2)] by simp
  qed
  moreover have "listed 0 w' = {}"
    using assms(1) moves_listed [OF assms(2), of _ 0] by (auto simp: inv_def places_ok_def)
  ultimately show ?thesis by (simp add: inv_def places_ok_def)
qed

lemma inv_quiet: "inv w \<Longrightarrow> moves {} w w' \<Longrightarrow> inv w'"
  by (erule inv_moves) auto

lemma keeps_inv: "keeps (moves {}) m \<Longrightarrow> inv w \<Longrightarrow> inv (snd (run_state m w))"
  by (blast intro: inv_quiet keepsM)

section \<open>Leaving a room\<close>

lemma member_set_member [simp]:
  "member_at r u (set_member rid uid m w) = (if r = rid \<and> u = uid then m else member_at r u w)"
  by (simp add: set_member_def member_at_def delete_conv update_conv split: option.split)

lemma set_member_other [simp]:
  "w_users (set_member rid uid m w) = w_users w" "w_sessions (set_member rid uid m w) = w_sessions w"
  "listed r (set_member rid uid m w) = listed r w"
  by (simp_all add: set_member_def listed_def split: option.split)

lemma sess_cong:
  "w_sessions w' = w_sessions w \<Longrightarrow> meeting_of i w' = meeting_of i w"
  "w_sessions w' = w_sessions w \<Longrightarrow> open_at i w' = open_at i w"
  "w_sessions w' = w_sessions w \<Longrightarrow> alive i w' = alive i w"
  by (simp_all add: meeting_of_def open_at_def sess_def alive_def)

lemma places_cong:
  "w_sessions w' = w_sessions w \<Longrightarrow> (\<And>r. listed r w' = listed r w) \<Longrightarrow> places_ok w' = places_ok w"
  by (simp add: places_ok_def sess_cong [of w' w])

lemma ReleaseUser_other [simp]:
  "w_sessions (ReleaseUser uid rid w) = w_sessions w" "room_at r (ReleaseUser uid rid w) = room_at r w"
  by (simp_all add: ReleaseUser_def split: option.split)

lemma inv_remove:
  assumes "inv w" shows "inv (ReleaseUser uid rid (set_member rid uid None w))"
proof -
  let ?w = "ReleaseUser uid rid (set_member rid uid None w)"
  have "\<exists>p. w_users ?w u = Some p \<and> up_meeting p = r \<and> up_joined p"
    if "member_at r u ?w = Some m" for r u m
  proof -
    have "\<not> (r = rid \<and> u = uid)" "member_at r u w = Some m"
      using that by (auto simp: member_rooms [of ?w "set_member rid uid None w"] split: if_splits)
    then obtain p where "w_users w u = Some p" "up_meeting p = r" "up_joined p"
      using assms by (auto simp: inv_def presence_ok_def)
    then show ?thesis using \<open>\<not> (r = rid \<and> u = uid)\<close>
      by (auto simp: ReleaseUser_def split: option.split)
  qed
  moreover have "places_ok ?w"
    using assms by (subst places_cong [of ?w w]) (auto simp: inv_def listed_def set_member_def split: option.split)
  moreover have "listed 0 ?w = {}"
    using assms by (auto simp: inv_def listed_def set_member_def split: option.splits if_splits)
  ultimately show ?thesis by (auto simp: inv_def presence_ok_def)
qed

lemma inv_depart:
  assumes "inv w" "meeting_of sid w = rid" "sid \<notin> listed rid w"
  shows "inv (set_sess sid (SetMeetingId 0) w)"
proof (rule inv_moves [OF assms(1), of "{sid}"])
  show mv: "moves {sid} w (set_sess sid (SetMeetingId 0) w)"
    by (rule set_sess_moves)
  fix i r assume "i \<in> {sid}" "i \<in> listed r (set_sess sid (SetMeetingId 0) w)"
    "open_at i (set_sess sid (SetMeetingId 0) w)"
  then have "sid \<in> listed r w" "open_at sid w"
    using moves_listed [OF mv] moves_session(4) [OF mv] by auto
  then show False using assms by (auto simp: inv_def places_ok_def)
qed

lemma drop_sessions_listed:
  "listed r (snd (run_state (drop_sessions rid bad) w))
     = (if r = rid then {i \<in> listed rid w. alive i w \<and> \<not> bad i w} else listed r w)"
  by (auto simp: drop_sessions_def listed_def set_room_sessions_def)

lemma leave_notify_drops: "sid \<notin> listed rid (snd (run_state (leave_notify en rid sid meeting uid) w))"
proof (cases "rm_sessions (room_at rid w) = []")
  case True
  then show ?thesis by (simp add: leave_notify_def listed_def)
next
  case False
  let ?w = "snd (run_state (drop_sessions rid (\<lambda>i _. i = sid)) w)"
  let ?rest = "do {
       n \<leftarrow> redis (SCard (en_redis en) (RoomMembersKey meeting));
       broadcast rid (\<lambda>s. s_user_id s \<noteq> uid) ID_MEETING_MEMBER_LEFT
         (en_styled en (jobj [(''meeting_id'', jid meeting), (''user_id'', JInt uid),
            (''current_participants'', JInt n)]))
     }"
  have "snd (run_state (leave_notify en rid sid meeting uid) w) = snd (run_state ?rest ?w)"
    using False by (simp add: leave_notify_def case_prod_beta)
  moreover have "moves {} ?w (snd (run_state ?rest ?w))"
    by (rule keepsM) (intro keeps_intros)
  moreover have "sid \<notin> listed rid ?w" by (simp add: drop_sessions_listed)
  ultimately show ?thesis using moves_listed by metis
qed

lemma inv_leave:
  assumes "inv w" "meeting_of sid w = rid" "sid \<notin> listed rid w"
  shows "inv (set_sess sid (SetMeetingId 0) (ReleaseUser uid rid (set_member rid uid None w)))"
proof -
  let ?w = "ReleaseUser uid rid (set_member rid uid None w)"
  have s: "w_sessions ?w = w_sessions w" by simp
  have "listed rid ?w = listed rid (set_member rid uid None w)"
    by (simp add: listed_def)
  then have "sid \<notin> listed rid ?w" "meeting_of sid ?w = rid"
    using assms(2,3) sess_cong(1) [OF s] by simp_all
  then show ?thesis by (rule inv_depart [OF inv_remove [OF assms(1)], rotated])
qed

lemma leave_commit_inv:
  assumes "inv w" "meeting_of sid w = rid"
  shows "inv (snd (run_state (leave_commit en rid sid rid uid) w))"
proof -
  obtain ok w1 where r1: "run_state (leave_redis en rid uid) w = (ok, w1)"
    by (cases "run_state (leave_redis en rid uid) w")
  have m1: "moves {} w w1"
    using keepsM [OF mv.k_leave_redis, of "{}" w en rid uid] by (simp add: r1)
  show ?thesis
  proof (cases ok)
    case False
    then show ?thesis using inv_quiet [OF assms(1) m1]
      by (simp add: leave_commit_def r1 fail_def)
  next
    case True
    let ?w2 = "snd (run_state (leave_notify en rid sid rid uid) w1)"
    let ?w3 = "snd (run_state (ReleaseMediaSession en sid) ?w2)"
    have m2: "moves {} w1 ?w2" and m3: "moves {} ?w2 ?w3"
      by (intro keepsM keeps_intros)+
    have m: "moves {} w ?w3" using moves_trans [OF moves_trans [OF m1 m2] m3] .
    have "sid \<notin> listed rid ?w3" using leave_notify_drops moves_listed [OF m3] by metis
    moreover have "meeting_of sid ?w3 = rid" using moves_session(2) [OF m] assms(2) by simp
    ultimately have "inv (set_sess sid (SetMeetingId 0) (ReleaseUser uid rid (set_member rid uid None ?w3)))"
      by (intro inv_leave inv_quiet [OF assms(1) m])
    then show ?thesis using True by (simp add: leave_commit_def erase_member_def r1 case_prod_beta)
  qed
qed

section \<open>Losing a connection\<close>

lemma grace_other:
  "w_sessions (grace_deadline en sid uid rid w) = w_sessions w"
  "w_users (grace_deadline en sid uid rid w) = w_users w"
  "listed r (grace_deadline en sid uid rid w) = listed r w"
  "(member_at r u (grace_deadline en sid uid rid w) = None) = (member_at r u w = None)"
  by (simp_all add: grace_deadline_def split: option.split)

lemma inv_grace:
  assumes "inv w" shows "inv (grace_deadline en sid uid rid w)"
proof -
  have "presence_ok (grace_deadline en sid uid rid w)"
    unfolding presence_ok_def grace_other
  proof (intro allI impI)
    fix r u m assume "member_at r u (grace_deadline en sid uid rid w) = Some m"
    then have "member_at r u w \<noteq> None" using grace_other(4) by (metis option.distinct(1))
    then show "\<exists>p. w_users w u = Some p \<and> up_meeting p = r \<and> up_joined p"
      using assms by (auto simp: inv_def presence_ok_def)
  qed
  then show ?thesis
    using assms places_cong [of "grace_deadline en sid uid rid w" w] by (simp add: inv_def grace_other)
qed

text \<open>What happens to the room before the session leaves it.\<close>

definition disconnect_room :: "'r env \<Rightarrow> u64 \<Rightarrow> nat \<Rightarrow> u64 \<Rightarrow> int \<Rightarrow> ('r, unit) prog" where
  "disconnect_room en rid sid meeting uid = do {
     last_one \<leftarrow> look (lost_last sid uid rid);
     drop_sessions rid (\<lambda>i _. i = sid);
     modify (grace_deadline en sid uid rid);
     note \<leftarrow> (if last_one \<and> uid > 0 then disconnect_redis en meeting uid else ret None);
     case note of
       None \<Rightarrow> ret ()
     | Some tx \<Rightarrow> broadcast rid (\<lambda>s. s_user_id s \<noteq> uid) ID_MEETING_MEMBER_RECONNECTING tx
   }"

text \<open>The room after the entry is dropped and the deadline set.\<close>

definition disconnect_mark :: "'r env \<Rightarrow> u64 \<Rightarrow> nat \<Rightarrow> int \<Rightarrow> 'r world \<Rightarrow> 'r world" where
  "disconnect_mark en rid sid uid w =
     grace_deadline en sid uid rid (snd (run_state (drop_sessions rid (\<lambda>i _. i = sid)) w))"

lemma disconnect_room_moves:
  "moves {} (disconnect_mark en rid sid uid w) (snd (run_state (disconnect_room en rid sid meeting uid) w))"
proof -
  let ?rest = "do {
     note \<leftarrow> (if lost_last sid uid rid w \<and> uid > 0 then disconnect_redis en meeting uid else ret None);
     case note of
       None \<Rightarrow> ret ()
     | Some tx \<Rightarrow> broadcast rid (\<lambda>s. s_user_id s \<noteq> uid) ID_MEETING_MEMBER_RECONNECTING tx
   }"
  have "snd (run_state (disconnect_room en rid sid meeting uid) w)
      = snd (run_state ?rest (disconnect_mark en rid sid uid w))"
    by (simp add: disconnect_room_def disconnect_mark_def case_prod_beta)
  moreover have "keeps (moves {}) ?rest" by (intro keeps_intros)
  ultimately show ?thesis by (simp add: keeps_def)
qed

lemma drop_moves: "moves {} w (snd (run_state (drop_sessions rid bad) w))"
  by (intro keepsM keeps_intros)

lemma disconnect_mark_fields:
  "w_users (disconnect_mark en rid sid uid w) = w_users w" "sid \<notin> listed rid (disconnect_mark en rid sid uid w)"
  "meeting_of i (disconnect_mark en rid sid uid w) = meeting_of i w" "alive i (disconnect_mark en rid sid uid w) = alive i w"
proof -
  let ?w1 = "snd (run_state (drop_sessions rid (\<lambda>i _. i = sid)) w)"
  note m = drop_moves [of w rid "\<lambda>i _. i = sid"]
  have s: "w_sessions (disconnect_mark en rid sid uid w) = w_sessions ?w1"
    by (simp add: disconnect_mark_def grace_other)
  show "w_users (disconnect_mark en rid sid uid w) = w_users w" "sid \<notin> listed rid (disconnect_mark en rid sid uid w)"
    by (simp_all add: disconnect_mark_def grace_other moves_users [OF m] drop_sessions_listed)
  show "meeting_of i (disconnect_mark en rid sid uid w) = meeting_of i w" "alive i (disconnect_mark en rid sid uid w) = alive i w"
    using moves_session(1,2) [OF m, of i] sess_cong(1,3) [OF s, of i] by simp_all
qed

lemma disconnect_room_inv:
  assumes "inv w"
  shows "inv (snd (run_state (disconnect_room en rid sid meeting uid) w))"
    and "sid \<notin> listed rid (snd (run_state (disconnect_room en rid sid meeting uid) w))"
    and "meeting_of i (snd (run_state (disconnect_room en rid sid meeting uid) w)) = meeting_of i w"
proof -
  note m = disconnect_room_moves [where en = en and rid = rid and sid = sid and uid = uid and w = w and meeting = meeting]
  have "inv (disconnect_mark en rid sid uid w)"
    unfolding disconnect_mark_def by (intro inv_grace inv_quiet [OF assms drop_moves])
  then show "inv (snd (run_state (disconnect_room en rid sid meeting uid) w))"
    by (rule inv_quiet [OF _ m])
  show "sid \<notin> listed rid (snd (run_state (disconnect_room en rid sid meeting uid) w))"
    using moves_listed [OF m, of sid rid] disconnect_mark_fields(2) [of sid rid en uid w] by blast
  show "meeting_of i (snd (run_state (disconnect_room en rid sid meeting uid) w)) = meeting_of i w"
    using moves_session(2) [OF m, of i] disconnect_mark_fields(3) [of i en rid sid uid w] by simp
qed

lemma SessionDisconnected_unfold:
  "snd (run_state (SessionDisconnectedHandler en rid (Some sid)) w) =
     (if meeting_of sid w = 0 then w
      else let w1 = (if rm_sessions (room_at rid w) = [] then w
                     else snd (run_state (disconnect_room en rid sid (meeting_of sid w) (uid_of sid w)) w))
           in set_sess sid (SetMeetingId 0) (snd (run_state (ReleaseMediaSession en sid) w1)))"
  by (simp add: SessionDisconnectedHandler_def on_session_def disconnect_room_def case_prod_beta Let_def)

lemma SessionDisconnected_inv:
  assumes "inv w" "meeting_of sid w = 0 \<or> meeting_of sid w = rid"
  shows "inv (snd (run_state (SessionDisconnectedHandler en rid (Some sid)) w))"
proof (cases "meeting_of sid w = 0")
  case True
  then show ?thesis using assms(1) by (simp add: SessionDisconnected_unfold)
next
  case False
  then have m: "meeting_of sid w = rid" using assms(2) by simp
  let ?d = "snd (run_state (disconnect_room en rid sid (meeting_of sid w) (uid_of sid w)) w)"
  define w1 where "w1 = (if rm_sessions (room_at rid w) = [] then w else ?d)"
  have w1: "inv w1" "sid \<notin> listed rid w1" "meeting_of sid w1 = rid"
    using assms(1) disconnect_room_inv [OF assms(1), where en = en and rid = rid and sid = sid] m
    by (auto simp: w1_def listed_def)
  let ?w2 = "snd (run_state (ReleaseMediaSession en sid) w1)"
  have m2: "moves {} w1 ?w2" by (intro keepsM keeps_intros)
  have "inv (set_sess sid (SetMeetingId 0) ?w2)"
    using inv_quiet [OF w1(1) m2] moves_session(2) [OF m2, of sid] w1 moves_listed [OF m2]
    by (intro inv_depart [of _ sid rid]) auto
  then show ?thesis using False by (simp add: SessionDisconnected_unfold w1_def Let_def)
qed

section \<open>Expiry\<close>

text \<open>Programs that preserve the invariant.\<close>

interpretation sf: quiet_frame "\<lambda>w w'. inv w \<longrightarrow> inv w'"
  by unfold_locales (blast intro: inv_quiet mv.R_env mv.R_sessions mv.R_prune)+

lemma safeD: "keeps (\<lambda>w w'. inv w \<longrightarrow> inv w') m \<Longrightarrow> inv w \<Longrightarrow> inv (snd (run_state m w))"
  by (simp add: keeps_def)

lemma erase_member_safe [keeps_intros]: "keeps (\<lambda>w w'. inv w \<longrightarrow> inv w') (erase_member rid uid rid)"
  by (simp add: keeps_def erase_member_def inv_remove)

lemma ExpireMember_safe [keeps_intros]: "keeps (\<lambda>w w'. inv w \<longrightarrow> inv w') (ExpireMemberHandler en rid member)"
  unfolding ExpireMemberHandler_def expire_commit_def Let_def
  by (intro keeps_intros) (auto intro!: keeps_intros)

end
