(* ===== verification/PresenceSteps.thy ===== *)
theory PresenceSteps
  imports Presence
begin

text \<open>
  The invariants of Presence for the remaining operations: ending a meeting, joining
  and resuming, dispatch and routing, and from them for every reachable state of the
  business layer.
\<close>

lemma placesD: "inv w \<Longrightarrow> i \<in> listed r w \<Longrightarrow> open_at i w \<Longrightarrow> meeting_of i w = r"
  by (simp add: inv_def places_ok_def)

section \<open>Ending a meeting\<close>

text \<open>The loop in words: every live connection of the list leaves its meeting.\<close>

definition end_one :: "'r env \<Rightarrow> string \<Rightarrow> nat \<Rightarrow> 'r world \<Rightarrow> 'r world" where
  "end_one en tx i w = (if alive i w
     then set_sess i (SetMeetingId 0) (snd (run_state (ReleaseMediaSession en i)
            (snd (run_state (send i ID_MEETING_ENDED tx) w)))) else w)"

lemma end_sessions_fold: "snd (run_state (end_sessions en tx is) w) = fold (end_one en tx) is w"
proof (induction "is" arbitrary: w)
  case Nil
  then show ?case by simp
next
  case (Cons i "is")
  have "snd (run_state (end_sessions en tx (i # is)) w) = snd (run_state (end_sessions en tx is) (end_one en tx i w))"
    by (cases "alive i w") (simp_all add: end_one_def case_prod_beta)
  then show ?case by (simp add: Cons)
qed

lemma end_one_moves: "moves {i} w (end_one en tx i w)"
proof -
  have "moves {i} w (snd (run_state (send i ID_MEETING_ENDED tx) w))" (is "moves _ _ ?w1")
    by (intro keepsM keeps_intros)
  moreover have "moves {i} ?w1 (snd (run_state (ReleaseMediaSession en i) ?w1))" (is "moves _ _ ?w2")
    by (intro keepsM keeps_intros)
  moreover have "moves {i} ?w2 (set_sess i (SetMeetingId 0) ?w2)"
    by (rule set_sess_moves)
  ultimately show ?thesis
    unfolding end_one_def by (auto intro: moves_trans mv.R_refl)
qed

lemma moves_mono:
  assumes "moves S w w'" "S \<subseteq> T" shows "moves T w w'"
proof -
  have "rel_option (move_session (i \<in> T)) (w_sessions w i) (w_sessions w' i)" for i
  proof -
    have "rel_option (move_session (i \<in> S)) (w_sessions w i) (w_sessions w' i)"
      using assms(1) by (simp add: moves_def)
    then show ?thesis
      by (rule option.rel_mono_strong) (use assms(2) in \<open>auto simp: move_session_def\<close>)
  qed
  then show ?thesis using assms(1) by (simp add: moves_def)
qed

lemma end_fold_moves: "moves (set is) w (fold (end_one en tx) is w)"
proof (induction "is" arbitrary: w)
  case Nil
  then show ?case by (simp add: mv.R_refl)
next
  case (Cons i "is")
  have "moves (set (i # is)) w (end_one en tx i w)"
    by (rule moves_mono [OF end_one_moves]) simp
  moreover have "moves (set (i # is)) (end_one en tx i w) (fold (end_one en tx) is (end_one en tx i w))"
    by (rule moves_mono [OF Cons]) auto
  ultimately show ?case unfolding fold.simps comp_apply by (rule moves_trans)
qed

lemma end_one_out: "alive i w \<Longrightarrow> meeting_of i (end_one en tx i w) = 0"
proof -
  assume up: "alive i w"
  let ?w1 = "snd (run_state (send i ID_MEETING_ENDED tx) w)"
  let ?w2 = "snd (run_state (ReleaseMediaSession en i) ?w1)"
  have "moves {} ?w1 ?w2" by (intro keepsM keeps_intros)
  then have "alive i ?w2" using moves_session(1) [of "{}" ?w1 ?w2 i] up by simp
  then show ?thesis using up
    by (auto simp: end_one_def set_sess_def meeting_of_def sess_def alive_def SetMeetingId_def)
qed

text \<open>After the loop every live connection of the list is out of its meeting.\<close>

lemma end_fold_out:
  "i \<in> set is \<Longrightarrow> alive i w \<Longrightarrow> meeting_of i (fold (end_one en tx) is w) = 0"
proof (induction "is" arbitrary: w)
  case (Cons j "is")
  let ?w = "end_one en tx j w"
  have up: "alive i ?w" using Cons.prems by (simp add: moves_session(1) [OF end_one_moves])
  show ?case
  proof (cases "i \<in> set is")
    case True
    then show ?thesis using Cons.IH up by simp
  next
    case False
    then have "meeting_of i ?w = 0" using Cons.prems end_one_out by auto
    then show ?thesis
      using moves_session(3) [OF end_fold_moves, of i en tx "is" ?w] by simp
  qed
qed simp

lemma ReleaseRoomUsers_other:
  "w_sessions (ReleaseRoomUsers rid w) = w_sessions w" "room_at r (ReleaseRoomUsers rid w) = room_at r w"
  by (simp_all add: ReleaseRoomUsers_def)

lemma inv_clear:
  assumes "inv w"
  shows "inv (ReleaseRoomUsers rid (set_room rid (\<lambda>r. r\<lparr>rm_members := []\<rparr>) w))" (is "inv ?w")
proof -
  have rm: "member_at r u ?w = (if r = rid then None else member_at r u w)" for r u
    by (simp add: member_at_def ReleaseRoomUsers_other)
  have "presence_ok ?w"
    unfolding presence_ok_def rm
  proof (intro allI impI)
    fix r u m assume "(if r = rid then None else member_at r u w) = Some m"
    then have "r \<noteq> rid" "member_at r u w = Some m" by (auto split: if_splits)
    then obtain p where "w_users w u = Some p" "up_meeting p = r" "up_joined p"
      using assms by (auto simp: inv_def presence_ok_def)
    then show "\<exists>p. w_users ?w u = Some p \<and> up_meeting p = r \<and> up_joined p"
      using \<open>r \<noteq> rid\<close> by (simp add: ReleaseRoomUsers_def)
  qed
  moreover have "places_ok ?w = places_ok w"
    by (rule places_cong) (simp_all add: ReleaseRoomUsers_other listed_def)
  moreover have "listed 0 ?w = listed 0 w" by (simp add: ReleaseRoomUsers_other listed_def)
  ultimately show ?thesis using assms by (simp add: inv_def)
qed

lemma inv_end_sessions:
  assumes "inv w" "ids = rm_sessions (room_at rid w)"
  shows "inv (set_room_sessions rid (\<lambda>_. []) (fold (end_one en tx) ids w))" (is "inv ?w'")
proof -
  let ?w1 = "fold (end_one en tx) ids w"
  have none: "filter (\<lambda>_. False) = (\<lambda>_ :: nat list. [])" by auto
  have m1: "moves (set ids) w ?w1" by (rule end_fold_moves)
  have "moves (set ids) ?w1 ?w'"
    using mv.R_prune [of "set ids" ?w1 rid "\<lambda>_. False"] by (simp only: none)
  with m1 have m: "moves (set ids) w ?w'" by (rule moves_trans)
  show ?thesis
  proof (rule inv_moves [OF assms(1) m])
    fix i r assume i: "i \<in> set ids" and l: "i \<in> listed r ?w'" and opn: "open_at i ?w'"
    have "r \<noteq> rid" using l by (auto simp: listed_def set_room_sessions_def)
    moreover have "i \<in> listed r w" "i \<in> listed rid w" "open_at i w"
      using i assms(2) moves_listed [OF m l] moves_session(4) [OF m opn] by (simp_all add: listed_def)
    ultimately show False using placesD [OF assms(1), of i r] placesD [OF assms(1), of i rid] by simp
  qed
qed

lemma end_commit_run:
  "snd (run_state (end_commit en rid meeting) w) =
     (let w1 = snd (run_state (end_redis en meeting) w);
          w2 = ReleaseRoomUsers meeting (set_room rid (\<lambda>r. r\<lparr>rm_members := []\<rparr>) w1);
          tx = en_styled en (jobj [(''meeting_id'', jid meeting), (''status'', JString ''ended'')])
      in set_room_sessions rid (\<lambda>_. []) (fold (end_one en tx) (rm_sessions (room_at rid w2)) w2))"
  by (simp add: end_commit_def case_prod_beta Let_def end_sessions_fold)

lemma end_commit_inv:
  assumes "inv w" shows "inv (snd (run_state (end_commit en rid rid) w))"
proof -
  have "moves {} w (snd (run_state (end_redis en rid) w))" by (intro keepsM keeps_intros)
  then show ?thesis
    unfolding end_commit_run Let_def by (intro inv_end_sessions inv_clear inv_quiet [OF assms] refl)
qed

section \<open>Joining\<close>

text \<open>What a join can do to the state w0: nothing that matters (a move), or admit the
  session: its meeting is the room, and at most the user's membership there changed.\<close>

definition admitted :: "u64 \<Rightarrow> int \<Rightarrow> nat \<Rightarrow> 'r world \<Rightarrow> 'r world \<Rightarrow> bool" where
  "admitted rid uid sid w0 w \<longleftrightarrow> (\<forall>r u. (r, u) \<noteq> (rid, uid) \<longrightarrow> member_at r u w = member_at r u w0)
     \<and> w_users w = w_users w0 \<and> meeting_of sid w = rid \<and> places_ok w \<and> (rid \<noteq> 0 \<longrightarrow> listed 0 w = {})"

definition joins :: "u64 \<Rightarrow> int \<Rightarrow> nat \<Rightarrow> 'r world \<Rightarrow> ('r, 'a) prog \<Rightarrow> bool" where
  "joins rid uid sid w0 m \<longleftrightarrow> (\<forall>w. moves {} w0 w \<longrightarrow>
     moves {} w0 (snd (run_state m w)) \<or> admitted rid uid sid w0 (snd (run_state m w)))"

named_theorems joins_intros "programs that only join"

lemma joins_quiet: "keeps (moves {}) m \<Longrightarrow> joins rid uid sid w0 m"
  unfolding joins_def by (blast intro: moves_trans keepsM)

lemma joins_bind [joins_intros]:
  "keeps (moves {}) m \<Longrightarrow> (\<And>a. joins rid uid sid w0 (f a)) \<Longrightarrow> joins rid uid sid w0 (State_Monad.bind m f)"
  unfolding joins_def snd_bind by (blast intro: moves_trans keepsM)

lemma joins_if [joins_intros]:
  "(b \<Longrightarrow> joins rid uid sid w0 m) \<Longrightarrow> (\<not> b \<Longrightarrow> joins rid uid sid w0 m') \<Longrightarrow>
   joins rid uid sid w0 (if b then m else m')"
  by simp

lemma joins_case [joins_intros]:
  "(x = None \<Longrightarrow> joins rid uid sid w0 m) \<Longrightarrow> (\<And>a. x = Some a \<Longrightarrow> joins rid uid sid w0 (f a)) \<Longrightarrow>
   joins rid uid sid w0 (case x of None \<Rightarrow> m | Some a \<Rightarrow> f a)"
  by (cases x) simp_all

lemma joins_prod [joins_intros]:
  "(\<And>a b. joins rid uid sid w0 (f a b)) \<Longrightarrow> joins rid uid sid w0 (case p of (a, b) \<Rightarrow> f a b)"
  by (cases p) simp

lemma joins_let [joins_intros]: "joins rid uid sid w0 (f a) \<Longrightarrow> joins rid uid sid w0 (Let a f)"
  by simp

lemma joins_fail [joins_intros]: "joins rid uid sid w0 (fail e v)" "joins rid uid sid w0 (ret x)"
  by (intro joins_quiet keeps_intros)+

lemma admitted_moves:
  assumes "admitted rid uid sid w0 w" "moves {} w w'" shows "admitted rid uid sid w0 w'"
proof -
  have z: "rid \<noteq> 0 \<longrightarrow> listed 0 w' = {}"
    using assms moves_listed [OF assms(2), of _ 0] by (auto simp: admitted_def)
  have "meeting_of i w' = r" if "i \<in> listed r w'" "open_at i w'" for i r
    using assms moves_listed [OF assms(2) that(1)] moves_session(2) [OF assms(2), of i]
      moves_session(4) [OF assms(2) that(2)] by (simp add: admitted_def places_ok_def)
  then have "places_ok w'" by (simp add: places_ok_def)
  then show ?thesis using z assms moves_session(2) [OF assms(2), of sid]
    by (simp add: admitted_def moves_users [OF assms(2)] moves_member [OF assms(2)])
qed

lemma close_session_closed: "\<not> open_at p (snd (run_state (close_session p) w))"
proof (cases "w_sessions w p")
  case None
  then show ?thesis by (simp add: close_session_def open_at_def alive_def)
next
  case (Some s)
  obtain s' k where r: "RequestClose (s, Some (w_wake w)) = (s', k)"
    by (cases "RequestClose (s, Some (w_wake w))")
  then have "IsClosed s'" using RequestClose_closed [of "(s, Some (w_wake w))"] by simp
  then show ?thesis using Some r by (simp add: close_session_def open_at_def sess_def)
qed

lemma takeover_moves:
  "moves {p} w (snd (run_state (takeover en p) w))"
  "\<not> open_at p (snd (run_state (takeover en p) w))"
proof -
  let ?w1 = "snd (run_state (ReleaseMediaSession en p) w)"
  let ?w2 = "set_sess p (SetMeetingId 0) ?w1"
  have run: "snd (run_state (takeover en p) w) = snd (run_state (close_session p) ?w2)"
    by (simp add: takeover_def case_prod_beta)
  have "moves {p} w ?w1" by (intro keepsM keeps_intros)
  moreover have "moves {p} ?w1 ?w2" by (rule set_sess_moves)
  moreover have "moves {p} ?w2 (snd (run_state (close_session p) ?w2))" by (intro keepsM keeps_intros)
  ultimately show "moves {p} w (snd (run_state (takeover en p) w))"
    unfolding run by (blast intro: moves_trans)
  show "\<not> open_at p (snd (run_state (takeover en p) w))"
    unfolding run by (rule close_session_closed)
qed

text \<open>The membership is bound: the session was open, in no other meeting.\<close>

lemma join_member_admits:
  assumes inv: "inv w0" and mv: "moves {} w0 w" and sid: "open_at sid w0" "alive sid w0"
    and m: "meeting_of sid w0 = 0 \<or> meeting_of sid w0 = rid"
    and c: "jc_rid c = rid" "jc_sid c = sid" "jc_uid c = uid" "mi_id (jc_info c) = rid"
  shows "admitted rid uid sid w0 (snd (run_state (join_member en c ticket rec) w))"
proof -
  have "inv w" by (rule inv_quiet [OF inv mv])
  let ?m0 = "case member_at rid uid w of Some m \<Rightarrow> m | None \<Rightarrow> Membership_new"
  define prev where "prev = lock (mb_session ?m0) w"
  define w1 where "w1 = (case prev of None \<Rightarrow> w
     | Some p \<Rightarrow> if p \<noteq> sid then snd (run_state (takeover en p) w) else w)"
  obtain S where S: "moves S w w1" "sid \<notin> S" "\<And>i. i \<in> S \<Longrightarrow> \<not> open_at i w1"
  proof (cases "\<exists>p. prev = Some p \<and> p \<noteq> sid")
    case True
    then obtain p where p: "prev = Some p" "p \<noteq> sid" by blast
    show ?thesis
      by (rule that [of "{p}"]) (use p takeover_moves [where p = p and w = w and en = en] in \<open>auto simp: w1_def\<close>)
  next
    case False
    then have "w1 = w" by (auto simp: w1_def split: option.split)
    then show ?thesis by (intro that [of "{}"]) (simp_all add: mv.R_refl)
  qed
  have "inv w1" using S(3) by (intro inv_moves [OF \<open>inv w\<close> S(1)]) auto
  let ?mm = "joined_membership c ticket prev (s_auth_token (sess sid w1)) ?m0"
  define w2 where "w2 = set_sess sid (SetMeetingId rid) (set_member rid uid (Some ?mm) w1)"
  define w3 where "w3 = set_room_sessions rid (filter (\<lambda>i. alive i w2 \<and> \<not> (i = sid \<or> rec \<and> uid_of i w2 = uid))) w2"
  define w4 where "w4 = set_room_sessions rid (\<lambda>is. is @ [sid]) w3"
  have run: "snd (run_state (join_member en c ticket rec) w) = w4"
    using c by (simp add: join_member_def w4_def w3_def w2_def w1_def prev_def drop_sessions_def
        case_prod_beta Let_def split: option.split)
  have alive1: "alive sid w1"
    using sid moves_session(1) [OF S(1), of sid] moves_session(1) [OF mv, of sid] by simp
  have room2: "room_at r w2 = (if r = rid then (room_at rid w1)\<lparr>rm_members :=
      AList.update uid ?mm (rm_members (room_at rid w1))\<rparr> else room_at r w1)" for r
    by (simp add: w2_def set_sess_def set_member_def)
  have sessions: "w_sessions w4 = w_sessions w2" by (simp add: w4_def w3_def set_room_sessions_def)
  have other: "w_sessions w2 i = w_sessions w1 i" if "i \<noteq> sid" for i
    using that by (simp add: w2_def set_sess_def)
  obtain s where s: "w_sessions w1 sid = Some s" using alive1 by (auto simp: alive_def)
  then have s4: "w_sessions w4 sid = Some (SetMeetingId rid s)"
    by (simp add: sessions w2_def set_sess_def)
  have self: "meeting_of sid w4 = rid"
    by (simp add: s4 meeting_of_def sess_def SetMeetingId_def)
  have open_self: "open_at sid w4 = open_at sid w1"
    by (simp add: s s4 open_at_def sess_def alive_def SetMeetingId_def IsClosed_def)
  have places: "meeting_of i w4 = r" if l: "i \<in> listed r w4" and opn: "open_at i w4" for i r
  proof (cases "i = sid")
    case True
    show ?thesis
    proof (cases "r = rid")
      case True
      then show ?thesis using \<open>i = sid\<close> self by simp
    next
      case False
      then have "sid \<in> listed r w1"
        using l \<open>i = sid\<close> by (simp add: w4_def w3_def set_room_sessions_def listed_def room2)
      then have "meeting_of sid w1 = r"
        using placesD [OF \<open>inv w1\<close>] open_self opn \<open>i = sid\<close> by simp
      then have "r = 0"
        using m False moves_session(2) [OF S(1) S(2)] moves_session(2) [OF mv, of sid] by auto
      then show ?thesis
        using \<open>sid \<in> listed r w1\<close> \<open>inv w1\<close> by (simp add: inv_def)
    qed
  next
    case False
    then have eq: "w_sessions w4 i = w_sessions w1 i" using other sessions by simp
    have "i \<in> listed r w1"
      using l False by (auto simp: w4_def w3_def set_room_sessions_def listed_def room2 split: if_splits)
    moreover have "open_at i w1" using opn eq by (simp add: open_at_def alive_def sess_def)
    ultimately have "meeting_of i w1 = r" by (rule placesD [OF \<open>inv w1\<close>])
    then show ?thesis using eq by (simp add: meeting_of_def sess_def)
  qed
  have z: "rid \<noteq> 0 \<longrightarrow> listed 0 w4 = {}"
    using \<open>inv w1\<close> by (auto simp: w4_def w3_def set_room_sessions_def listed_def room2 inv_def)
  have "places_ok w4" using places by (simp add: places_ok_def)
  moreover have "member_at r u w4 = member_at r u w0" if "(r, u) \<noteq> (rid, uid)" for r u
  proof -
    have "member_at r u w4 = member_at r u w1"
      using that by (auto simp: member_at_def w4_def w3_def set_room_sessions_def room2 update_conv)
    then show ?thesis by (simp add: moves_member [OF S(1)] moves_member [OF mv])
  qed
  moreover have "w_users w4 = w_users w0"
    by (simp add: w4_def w3_def w2_def set_room_sessions_def set_sess_def moves_users [OF S(1)]
        moves_users [OF mv])
  ultimately show ?thesis unfolding run admitted_def using self z by simp
qed

text \<open>The parts of the handler down to the membership.\<close>

lemma joins_after:
  assumes "\<And>w. moves {} w0 w \<Longrightarrow> admitted rid uid sid w0 (snd (run_state m w))"
    and "\<And>a. keeps (moves {}) (f a)"
  shows "joins rid uid sid w0 (State_Monad.bind m f)"
  unfolding joins_def snd_bind using assms by (blast intro: admitted_moves keepsM)

text \<open>The situation in which a room runs a join: the session is open and in no other
  meeting.\<close>

definition join_ready :: "u64 \<Rightarrow> nat \<Rightarrow> 'r world \<Rightarrow> bool" where
  "join_ready rid sid w \<longleftrightarrow> inv w \<and> open_at sid w \<and> (meeting_of sid w = 0 \<or> meeting_of sid w = rid)"

definition ctx_ok :: "u64 \<Rightarrow> int \<Rightarrow> nat \<Rightarrow> join_ctx \<Rightarrow> bool" where
  "ctx_ok rid uid sid c \<longleftrightarrow> jc_rid c = rid \<and> jc_sid c = sid \<and> jc_uid c = uid \<and> mi_id (jc_info c) = rid"

lemma join_finish_joins:
  assumes "join_ready rid sid w0" "ctx_ok rid uid sid c"
  shows "joins rid uid sid w0 (join_finish en c already rec ticket members)"
  unfolding join_finish_def
proof (rule joins_after)
  fix w assume "moves {} w0 w"
  then show "admitted rid uid sid w0 (snd (run_state (join_member en c ticket rec) w))"
    using assms by (intro join_member_admits) (auto simp: join_ready_def ctx_ok_def open_at_def)
qed (intro keeps_intros)

lemma join_write_joins:
  assumes "join_ready rid sid w0" "ctx_ok rid uid sid c"
  shows "joins rid uid sid w0 (join_write en c already rec ticket)"
  unfolding join_write_def Let_def
  by (intro joins_intros join_finish_joins [OF assms] keeps_intros) (auto intro!: keeps_intros)

lemma join_ticket_joins:
  assumes "join_ready rid sid w0" "ctx_ok rid uid sid c"
  shows "joins rid uid sid w0 (join_ticket en c already rec)"
  unfolding join_ticket_def
  by (intro joins_intros join_write_joins [OF assms] keeps_intros)

lemma join_room_joins:
  assumes "join_ready rid sid w0" "ctx_ok rid uid sid c"
  shows "joins rid uid sid w0 (join_room en c)"
  unfolding join_room_def Let_def
  by (intro joins_intros join_ticket_joins [OF assms] keeps_intros)

lemma join_password_joins:
  assumes "join_ready rid sid w0" "ctx_ok rid uid sid c"
  shows "joins rid uid sid w0 (join_password en req c)"
  unfolding join_password_def
  by (intro joins_intros join_room_joins [OF assms] keeps_intros)

lemma join_resume_joins:
  assumes "join_ready rid sid w0" "ctx_ok rid uid sid c"
  shows "joins rid uid sid w0 (join_resume en req c)"
proof -
  have "ctx_ok rid uid sid (c\<lparr>jc_request_id := r, jc_value := v\<rparr>)" for r v
    using assms(2) by (simp add: ctx_ok_def)
  then show ?thesis
    unfolding join_resume_def Let_def
    by (intro joins_intros join_password_joins [OF assms(1)] keeps_intros)
qed

lemma join_meeting_joins:
  assumes "join_ready rid sid w0"
  shows "joins rid uid sid w0 (join_meeting en rid sid resuming req uid)"
  unfolding join_meeting_def Let_def
  by (intro joins_intros join_resume_joins [OF assms] join_password_joins [OF assms] keeps_intros)
    (simp_all add: ctx_ok_def)

text \<open>The user of the session is read once; presence was reserved for the same one.\<close>

lemma join_body_cases:
  obtains (stop) v where "run_state (join_body en rid sid resuming message) w = (v, w)"
  | (meeting) req where "parse_object en message = Some req" "0 < uid_of sid w"
      "run_state (join_body en rid sid resuming message) w
        = run_state (join_meeting en rid sid resuming req (uid_of sid w)) w"
proof (cases "parse_object en message")
  case None
  then show ?thesis by (intro stop) (simp add: join_body_def fail_def)
next
  case (Some req)
  let ?early = "\<not> resuming \<and> \<not> has_string req ''meeting_code'' \<or> as_string_throws (jget req ''meeting_code'')
     \<or> \<not> resuming \<and> str_field req ''meeting_code'' = [] \<or> uid_of sid w \<le> 0"
  show ?thesis
  proof (cases ?early)
    case True
    then obtain v where "run_state (join_body en rid sid resuming message) w = (v, w)"
      using Some by (fastforce simp: join_body_def fail_def)
    then show ?thesis by (rule stop)
  next
    case False
    then show ?thesis using Some by (intro meeting [of req]) (auto simp: join_body_def)
  qed
qed

lemma join_body_joins:
  assumes "join_ready rid sid w0"
  shows "moves {} w0 (snd (run_state (join_body en rid sid resuming message) w0))
    \<or> admitted rid (uid_of sid w0) sid w0 (snd (run_state (join_body en rid sid resuming message) w0))"
proof (cases rule: join_body_cases [of en rid sid resuming message w0])
  case (stop v)
  then show ?thesis by (simp add: mv.R_refl)
next
  case (meeting req)
  then show ?thesis
    using join_meeting_joins [OF assms, of "uid_of sid w0" en resuming req] mv.R_refl [of "{}" w0]
    unfolding joins_def by simp
qed

lemma respond_join:
  assumes "join_ready rid sid w"
  shows "moves {} w (snd (run_state (JoinMeeetingHandler en rid (Some sid) resuming message) w))
    \<or> admitted rid (uid_of sid w) sid w (snd (run_state (JoinMeeetingHandler en rid (Some sid) resuming message) w))"
proof -
  let ?b = "join_body en rid sid resuming message"
  let ?rest = "\<lambda>r. case deferred r of
       None \<Rightarrow> ret ()
     | Some v \<Rightarrow> do {
         ok \<leftarrow> send sid (if resuming then ID_RESUME_MEETING_RESPONSE else ID_JOIN_MEETING_RESPONSE)
                (en_styled en v);
         if ok then ret () else close_session sid
       }"
  have run: "snd (run_state (JoinMeeetingHandler en rid (Some sid) resuming message) w)
    = snd (run_state (?rest (fst (run_state ?b w))) (snd (run_state ?b w)))"
    by (simp add: JoinMeeetingHandler_def on_session_def case_prod_beta)
  have "keeps (moves {}) (?rest r)" for r by (intro keeps_intros)
  then show ?thesis
    unfolding run using join_body_joins [OF assms, of en resuming message]
    by (blast intro: moves_trans admitted_moves keepsM)
qed

section \<open>Dispatch\<close>

text \<open>The invariant while room rid is in use: only the ordinary room may list sessions
  under the id 0.\<close>

definition inv_at :: "u64 \<Rightarrow> 'r world \<Rightarrow> bool" where
  "inv_at rid w \<longleftrightarrow> presence_ok w \<and> places_ok w \<and> (rid \<noteq> 0 \<longrightarrow> listed 0 w = {})"

lemma inv_inv_at: "inv w \<Longrightarrow> inv_at rid w"
  by (simp add: inv_def inv_at_def)

lemma ReserveUser_cases:
  obtains (refused) "run_state (ReserveUser uid rid) w = (False, w)"
  | (reserved) p w1 where "run_state (ReserveUser uid rid) w = (True, w1)"
      "w1 = w\<lparr>w_users := (w_users w)(uid \<mapsto> p)\<rparr>" "up_meeting p = rid"
      "\<And>q. w_users w uid = Some q \<Longrightarrow> up_joined p = up_joined q \<and> up_meeting q = rid"
proof (cases "w_users w uid")
  case None
  then show ?thesis by (intro reserved) (auto simp: ReserveUser_def Let_def)
next
  case (Some q)
  show ?thesis
  proof (cases "up_meeting q = rid")
    case True
    then show ?thesis using Some
      by (intro reserved [of _ "q\<lparr>up_joining := up_joining q + 1\<rparr>"]) (auto simp: ReserveUser_def Let_def)
  next
    case False
    then show ?thesis using Some by (intro refused) (simp add: ReserveUser_def Let_def)
  qed
qed

lemma inv_users:
  assumes "inv w" "\<And>u p. w_users w u = Some p \<Longrightarrow>
      \<exists>q. us u = Some q \<and> up_meeting q = up_meeting p \<and> (up_joined p \<longrightarrow> up_joined q)"
  shows "inv (w\<lparr>w_users := us\<rparr>)"
proof -
  have "presence_ok (w\<lparr>w_users := us\<rparr>)"
    using assms by (fastforce simp: inv_def presence_ok_def member_at_def)
  moreover have "places_ok (w\<lparr>w_users := us\<rparr>) = places_ok w"
    by (rule places_cong) (simp_all add: listed_def)
  ultimately show ?thesis using assms(1) by (simp add: inv_def listed_def)
qed

text \<open>The end of a join: presence covers whatever the handler did.\<close>

lemma FinishJoin_inv:
  assumes inv: "inv w1" and p: "w_users w1 uid = Some p" "up_meeting p = rid"
    and step: "moves {} w1 w2 \<or> admitted rid uid sid w1 w2"
  shows "inv_at rid (FinishJoin uid rid (meeting_of sid w2 = rid) w2)"
proof -
  let ?w = "FinishJoin uid rid (meeting_of sid w2 = rid) w2"
  have users: "w_users w2 = w_users w1"
    using step by (auto simp: admitted_def dest: moves_users)
  have p2: "w_users w2 uid = Some p" using p users by simp
  have other: "member_at r u w2 = member_at r u w1" if "(r, u) \<noteq> (rid, uid)" for r u
    using step that by (auto simp: admitted_def dest: moves_member)
  have self: "member_at rid uid w2 = member_at rid uid w1 \<or> meeting_of sid w2 = rid"
    using step by (auto simp: admitted_def dest: moves_member)
  have places: "places_ok w2 \<and> (rid \<noteq> 0 \<longrightarrow> listed 0 w2 = {})"
    using step inv_quiet [OF inv] by (auto simp: admitted_def inv_def)
  have rooms: "room_at r ?w = room_at r w2" "w_sessions ?w = w_sessions w2" for r
    using p2 by (simp_all add: FinishJoin_def Let_def)
  have mem: "member_at r u ?w = member_at r u w2" for r u by (rule member_rooms) (rule rooms)
  have "places_ok ?w = places_ok w2" by (rule places_cong) (simp_all add: rooms listed_def)
  moreover have "listed 0 ?w = listed 0 w2" by (simp add: rooms listed_def)
  moreover have "presence_ok ?w"
    unfolding presence_ok_def mem
  proof (intro allI impI)
    fix r u m assume m: "member_at r u w2 = Some m"
    show "\<exists>q. w_users ?w u = Some q \<and> up_meeting q = r \<and> up_joined q"
    proof (cases "u = uid")
      case False
      then obtain q where "w_users w1 u = Some q" "up_meeting q = r" "up_joined q"
        using m other [of r u] inv by (auto simp: inv_def presence_ok_def)
      then show ?thesis using False users p2 p by (simp add: FinishJoin_def Let_def)
    next
      case True
      show ?thesis
      proof (cases "r = rid \<and> meeting_of sid w2 = rid")
        case True
        then show ?thesis using p2 p \<open>u = uid\<close> by (simp add: FinishJoin_def Let_def)
      next
        case False
        then have "member_at r uid w1 = Some m" using other [of r uid] self m \<open>u = uid\<close> by (cases "r = rid") auto
        then obtain q where "w_users w1 uid = Some q" "up_meeting q = r" "up_joined q"
          using inv unfolding inv_def presence_ok_def by blast
        then have "up_meeting p = r" "up_joined p" using p by simp_all
        then show ?thesis using p2 p \<open>u = uid\<close> by (simp add: FinishJoin_def Let_def)
      qed
    qed
  qed
  ultimately show ?thesis using places by (simp add: inv_at_def)
qed

text \<open>A message that names a meeting names the room it runs in.\<close>

definition names_room :: "'r env \<Rightarrow> u64 \<Rightarrow> string \<Rightarrow> bool" where
  "names_room en rid message \<longleftrightarrow> (\<forall>req m. parse_object en message = Some req \<longrightarrow>
     has_string req ''meeting_id'' \<longrightarrow> meeting_id_text (str_field req ''meeting_id'') = Some m \<longrightarrow> m = rid)"

lemma with_meeting_id_cases:
  obtains (stop) e where "e \<noteq> SUCCESS"
      "run_state (with_meeting_id en sid message f) w = (Reply (jset ''error'' (JInt (code e)) JNull), w)"
  | (call) req m where "parse_object en message = Some req" "has_string req ''meeting_id''"
      "meeting_id_text (str_field req ''meeting_id'') = Some m" "0 < uid_of sid w"
      "run_state (with_meeting_id en sid message f) w = run_state (f m (uid_of sid w)) w"
proof (cases "parse_object en message")
  case None
  then show ?thesis by (intro stop [of ERROR_JSON]) (simp_all add: with_meeting_id_def fail_def)
next
  case (Some req)
  consider "\<not> has_string req ''meeting_id'' \<or> meeting_id_text (str_field req ''meeting_id'') = None"
    | m where "has_string req ''meeting_id''" "meeting_id_text (str_field req ''meeting_id'') = Some m"
    by blast
  then show ?thesis
  proof cases
    case 1
    then show ?thesis using Some
      by (intro stop [of ERROR_JSON]) (auto simp: with_meeting_id_def fail_def split: option.split)
  next
    case 2
    then show ?thesis using Some
      by (cases "uid_of sid w \<le> 0")
        (auto simp: with_meeting_id_def fail_def intro: call stop [of ERROR_TOKEN])
  qed
qed

lemma with_meeting_id_inv:
  assumes "inv w" "names_room en rid message"
    and "\<And>uid. 0 < uid \<Longrightarrow> uid = uid_of sid w \<Longrightarrow> inv (snd (run_state (f rid uid) w))"
  shows "inv (snd (run_state (with_meeting_id en sid message f) w))"
proof (cases rule: with_meeting_id_cases [of en sid message f w])
  case (stop e)
  then show ?thesis using assms(1) by simp
next
  case (call req m)
  then have "m = rid" using assms(2) by (auto simp: names_room_def)
  then show ?thesis using call assms(3) [of "uid_of sid w"] by simp
qed

lemma respond_inv:
  assumes "inv (snd (run_state body w))"
  shows "inv (snd (run_state (respond en sid mid body) w))"
proof -
  have "snd (run_state (respond en sid mid body) w)
    = snd (run_state (case deferred (fst (run_state body w)) of
         None \<Rightarrow> ret () | Some v \<Rightarrow> do { _ \<leftarrow> send sid mid (en_styled en v); ret () }) (snd (run_state body w)))"
    by (simp add: respond_def case_prod_beta)
  then show ?thesis
    by (simp only:) (rule keeps_inv [OF _ assms], intro keeps_intros)
qed

lemma leave_body_inv:
  assumes "inv w" "names_room en rid message"
  shows "inv (snd (run_state (leave_body en rid sid message) w))"
  unfolding leave_body_def
proof (rule with_meeting_id_inv [OF assms])
  fix uid
  have "inv (snd (run_state (leave_elsewhere rid) w))"
    by (intro keeps_inv assms(1) keeps_intros)
  then show "inv (snd (run_state (do {
       current \<leftarrow> look (meeting_of sid);
       if current \<noteq> rid then leave_elsewhere rid
       else leave_commit en rid sid rid uid }) w))"
    using leave_commit_inv [OF assms(1)] by simp
qed

lemma end_body_inv:
  assumes "inv w" "names_room en rid message"
  shows "inv (snd (run_state (end_body en rid sid message) w))"
  unfolding end_body_def
proof (rule with_meeting_id_inv [OF assms])
  fix uid
  have q: "keeps (\<lambda>w w'. inv w \<longrightarrow> inv w') (do {
       (found, storage_error) \<leftarrow> mysql (GetMeetingInfoById rid);
       case found of
         None \<Rightarrow> fail ERROR_MEETING_NOT_FOUND JNull
       | Some mi \<Rightarrow>
           if mi_creator mi \<noteq> of_int uid then fail ERROR_MEETING_ACCESS JNull
           else if mi_status mi \<noteq> InProgress then fail ERROR_MEETING_STATUS JNull
           else do {
             ok \<leftarrow> mysql (Db_EndMeeting (en_mysql en) rid uid);
             if \<not> ok then fail ERROR_MYSQL JNull else end_commit en rid rid
           } })"
  proof -
    have "keeps (\<lambda>w w'. inv w \<longrightarrow> inv w') (end_commit en rid rid)"
      by (simp add: keeps_def end_commit_inv)
    then show ?thesis by (intro keeps_intros)
  qed
  show "inv (snd (run_state (do {
       (found, storage_error) \<leftarrow> mysql (GetMeetingInfoById rid);
       case found of
         None \<Rightarrow> fail ERROR_MEETING_NOT_FOUND JNull
       | Some mi \<Rightarrow>
           if mi_creator mi \<noteq> of_int uid then fail ERROR_MEETING_ACCESS JNull
           else if mi_status mi \<noteq> InProgress then fail ERROR_MEETING_STATUS JNull
           else do {
             ok \<leftarrow> mysql (Db_EndMeeting (en_mysql en) rid uid);
             if \<not> ok then fail ERROR_MYSQL JNull else end_commit en rid rid
           } }) w))"
    by (rule safeD [OF q assms(1)])
qed

end
