(* ===== verification/LogicProps.thy ===== *)
theory LogicProps
  imports PresenceSteps
begin

text \<open>
  The properties of the business layer: the invariants of Presence over every reachable
  state, and what single operations guarantee.
\<close>

section \<open>Every step keeps the invariant\<close>

lemma handler_inv:
  assumes "inv w" "mid \<noteq> ID_JOIN_MEETING_REQUEST" "mid \<noteq> ID_RESUME_MEETING_REQUEST"
    and "mid = ID_LEAVE_MEETING_REQUEST \<or> mid = ID_END_MEETING_REQUEST \<Longrightarrow> names_room en rid message"
    and "mid = kDisconnected \<Longrightarrow> meeting_of sid w = 0 \<or> meeting_of sid w = rid"
  shows "inv (snd (run_state (handler en rid sid mid message) w))"
proof -
  consider "mid = ID_LEAVE_MEETING_REQUEST" | "mid = ID_END_MEETING_REQUEST" | "mid = kDisconnected"
    | "mid \<noteq> ID_LEAVE_MEETING_REQUEST" "mid \<noteq> ID_END_MEETING_REQUEST" "mid \<noteq> kDisconnected"
    by blast
  then show ?thesis
  proof cases
    case 1
    then show ?thesis
      using respond_inv [OF leave_body_inv [OF assms(1) assms(4)]]
      by (simp add: handler_def LeaveMeetingHandler_def on_session_def)
  next
    case 2
    then show ?thesis
      using respond_inv [OF end_body_inv [OF assms(1) assms(4)]]
      by (simp add: handler_def EndMeetingHandler_def on_session_def)
  next
    case 3
    then show ?thesis
      using SessionDisconnected_inv [OF assms(1) assms(5)] by (simp add: handler_def)
  next
    case 4
    have "keeps (moves {}) (handler en rid sid mid message)"
      unfolding handler_def using 4 assms(2,3) by (simp only: simp_thms if_False) (intro keeps_intros)
    then show ?thesis by (rule keeps_inv [OF _ assms(1)])
  qed
qed

lemma join_ids: "handler en rid sid ID_JOIN_MEETING_REQUEST message = JoinMeeetingHandler en rid (Some sid) False message"
  "handler en rid sid ID_RESUME_MEETING_REQUEST message = JoinMeeetingHandler en rid (Some sid) True message"
  by (simp_all add: handler_def)

lemma dispatch_call_inv:
  assumes "inv w" "open_at sid w \<or> mid = kDisconnected" "meeting_of sid w = 0 \<or> meeting_of sid w = rid"
    and names: "mid = ID_LEAVE_MEETING_REQUEST \<or> mid = ID_END_MEETING_REQUEST \<Longrightarrow> names_room en rid message"
  shows "inv_at rid (snd (run_state (dispatch_call en rid sid mid message) w))"
proof (cases "mid = ID_JOIN_MEETING_REQUEST \<or> mid = ID_RESUME_MEETING_REQUEST")
  case False
  then show ?thesis
    using assms handler_inv [OF assms(1), of mid en rid message sid]
    by (simp add: dispatch_call_def inv_inv_at)
next
  case True
  let ?uid = "uid_of sid w"
  show ?thesis
  proof (cases rule: ReserveUser_cases [of ?uid rid w])
    case refused
    have "inv (snd (run_state (ReplyError en sid mid ERROR_MEETING_ACCESS) w))"
      by (intro keeps_inv assms(1) keeps_intros)
    then show ?thesis using True refused by (auto simp: dispatch_call_def inv_inv_at)
  next
    case (reserved p w1)
    have "inv w1" unfolding reserved(2)
      using reserved(3,4) by (intro inv_users [OF assms(1)]) auto
    have same: "uid_of sid w1 = ?uid" "meeting_of sid w1 = meeting_of sid w" "open_at sid w1 = open_at sid w"
      unfolding reserved(2) by (simp_all add: uid_of_def meeting_of_def open_at_def alive_def sess_def)
    have "open_at sid w" using assms(2) True by auto
    then have "join_ready rid sid w1"
      using \<open>inv w1\<close> assms(3) by (simp add: join_ready_def same)
    moreover obtain resuming where h: "handler en rid sid mid message
        = JoinMeeetingHandler en rid (Some sid) resuming message"
      using True join_ids by blast
    ultimately have "moves {} w1 (snd (run_state (handler en rid sid mid message) w1))
      \<or> admitted rid ?uid sid w1 (snd (run_state (handler en rid sid mid message) w1))"
      using respond_join [of rid sid w1 en resuming message] by (simp only: h same)
    moreover have "w_users w1 ?uid = Some p" by (simp add: reserved(2))
    ultimately have "inv_at rid (FinishJoin ?uid rid
        (meeting_of sid (snd (run_state (handler en rid sid mid message) w1)) = rid)
        (snd (run_state (handler en rid sid mid message) w1)))"
      by (intro FinishJoin_inv [OF \<open>inv w1\<close> _ reserved(3)])
    then show ?thesis using True reserved(1) by (auto simp: dispatch_call_def case_prod_beta)
  qed
qed

lemma ReplyError_inv: "inv w \<Longrightarrow> inv_at rid (snd (run_state (ReplyError en sid mid e) w))"
  by (intro inv_inv_at keeps_inv keeps_intros)

lemma names_requested:
  assumes "requested_meeting en message = None \<or> requested_meeting en message = Some (Inr rid)"
  shows "names_room en rid message"
  unfolding names_room_def
proof (intro allI impI)
  fix req m
  assume p: "parse_object en message = Some req" and s: "has_string req ''meeting_id''"
    and m: "meeting_id_text (str_field req ''meeting_id'') = Some m"
  obtain tx where tx: "jget req ''meeting_id'' = JString tx"
    using s by (cases "jget req ''meeting_id''") (auto simp: has_string_def)
  then have "is_member req ''meeting_id''"
    by (cases req) (auto split: option.splits)
  moreover obtain k where "stoull tx = Some (m, k)"
    using m tx by (auto simp: meeting_id_text_def stoull_full_def str_field_def split: option.splits if_splits)
  ultimately have "requested_meeting en message = Some (Inr m)"
    using p tx by (simp add: requested_meeting_def Let_def)
  then show "m = rid" using assms by auto
qed

lemma Dispatch_inv:
  assumes "inv w" "alive sid w" "meeting_of sid w = 0 \<or> meeting_of sid w = rid"
    and "rid = 0 \<Longrightarrow> mid = ID_LEAVE_MEETING_REQUEST \<or> mid = ID_END_MEETING_REQUEST \<Longrightarrow> names_room en rid message"
  shows "inv_at rid (snd (run_state (Dispatch en rid sid mid message) w))"
proof (cases "handled mid \<and> (mid = kDisconnected \<or> open_at sid w)")
  case False
  then have "snd (run_state (Dispatch en rid sid mid message) w) = w"
    using assms(2) by (auto simp: Dispatch_def open_at_def)
  then show ?thesis using assms(1) by (simp add: inv_inv_at)
next
  case True
  have call: "inv_at rid (snd (run_state (dispatch_call en rid sid mid message) w))"
    if "mid = ID_LEAVE_MEETING_REQUEST \<or> mid = ID_END_MEETING_REQUEST \<Longrightarrow> names_room en rid message"
    using True assms that by (intro dispatch_call_inv) auto
  have "inv_at rid (snd (run_state (dispatch_checked en rid sid mid message) w))"
  proof (cases "rid \<noteq> 0 \<and> mid \<noteq> ID_JOIN_MEETING_REQUEST \<and> mid \<noteq> kDisconnected")
    case False
    then have "inv_at rid (snd (run_state (dispatch_call en rid sid mid message) w))"
      using assms(4) by (intro call) auto
    then show ?thesis using False by (auto simp: dispatch_checked_def)
  next
    case True
    show ?thesis
    proof (cases "requested_meeting en message = None \<or> requested_meeting en message = Some (Inr rid)")
      case True
      then have "inv_at rid (snd (run_state (dispatch_call en rid sid mid message) w))"
        by (intro call names_requested)
      moreover have "inv_at rid (snd (run_state (ReplyError en sid mid ERROR_MEETING_ACCESS) w))"
        by (rule ReplyError_inv [OF assms(1)])
      ultimately show ?thesis using True by (auto simp: dispatch_checked_def)
    next
      case False
      then show ?thesis using True ReplyError_inv [OF assms(1), of rid en sid mid]
        by (auto simp: dispatch_checked_def split: sum.split option.split)
    qed
  qed
  then show ?thesis
    using ReplyError_inv [OF assms(1), of rid en sid mid] inv_inv_at [OF assms(1)]
    by (auto simp: Dispatch_def)
qed

section \<open>Rooms and routing\<close>

lemma inv_rooms:
  assumes "inv_at r0 w" "w_sessions w' = w_sessions w" "w_users w' = w_users w" "listed 0 w' = {}"
    and "\<And>r. room_at r w' = room_at r w \<or> room_at r w' = Room_new"
  shows "inv w'"
proof -
  have "member_at r u w' = Some m \<Longrightarrow> member_at r u w = Some m" for r u m
    using assms(5) [of r] by (auto simp: member_at_def Room_new_def)
  then have "presence_ok w'" using assms(1,3) by (fastforce simp: inv_at_def presence_ok_def)
  moreover have "listed r w' \<subseteq> listed r w" for r
    using assms(5) [of r] by (auto simp: listed_def Room_new_def)
  then have "places_ok w'"
    using assms(1) sess_cong [OF assms(2)] by (fastforce simp: inv_at_def places_ok_def)
  ultimately show ?thesis using assms(4) by (simp add: inv_def)
qed

lemma room_empty: "rm_sessions r = [] \<Longrightarrow> rm_members r = [] \<Longrightarrow> r = Room_new"
  by (simp add: Room_new_def)

lemma drop_idle_rooms [simp]: "room_at r (drop_idle rid w) = room_at r w"
  using room_empty [of "room_at rid w"] by (auto simp: drop_idle_def) (auto simp: room_at_def)

lemma drop_idle_other [simp]:
  "w_sessions (drop_idle rid w) = w_sessions w" "w_users (drop_idle rid w) = w_users w"
  by (simp_all add: drop_idle_def)

lemma in_room_inv:
  assumes "inv w" "rid \<noteq> 0"
    and "\<And>v. inv v \<Longrightarrow> w_sessions v = w_sessions w \<Longrightarrow> inv_at rid (snd (run_state command v))"
  shows "inv (snd (run_state (in_room rid command) w))"
proof -
  let ?w1 = "set_room rid (\<lambda>r. r) w"
  let ?w2 = "snd (run_state command ?w1)"
  have "inv ?w1"
    by (rule inv_rooms [OF inv_inv_at [OF assms(1), of rid]]) (use assms(1) in \<open>auto simp: inv_def listed_def\<close>)
  then have i2: "inv_at rid ?w2" by (intro assms(3)) simp_all
  have "inv (drop_idle rid ?w2)"
    by (rule inv_rooms [OF i2])
      (use i2 assms(2) in \<open>auto simp: inv_at_def listed_def\<close>)
  then show ?thesis by (simp add: in_room_def case_prod_beta)
qed

lemma SubmitRoom_inv:
  assumes "inv w" "rid \<noteq> 0"
    and "\<And>v. inv v \<Longrightarrow> w_sessions v = w_sessions w \<Longrightarrow> inv_at rid (snd (run_state command v))"
  shows "inv (snd (run_state (SubmitRoom full rid command) w))"
  using in_room_inv [OF assms] assms(1) by (simp add: SubmitRoom_def case_prod_beta)

lemma ordinary_inv:
  assumes "inv w"
    and "\<And>v. inv v \<Longrightarrow> w_sessions v = w_sessions w \<Longrightarrow> inv_at 0 (snd (run_state command v))"
  shows "inv (snd (run_state (ordinary command) w))"
proof -
  let ?w1 = "w\<lparr>w_rooms := (w_rooms w)(0 \<mapsto> Room_new)\<rparr>"
  let ?w2 = "snd (run_state command ?w1)"
  have "inv ?w1"
    by (rule inv_rooms [OF inv_inv_at [OF assms(1), of 0]]) (auto simp: room_at_def listed_def Room_new_def)
  then have i2: "inv_at 0 ?w2" by (intro assms(2)) simp_all
  have "inv (?w2\<lparr>w_rooms := (w_rooms ?w2)(0 := None)\<rparr>)"
    by (rule inv_rooms [OF i2]) (auto simp: room_at_def listed_def Room_new_def)
  then show ?thesis by (simp add: ordinary_def case_prod_beta)
qed

lemma route_to_inv:
  assumes "inv w" "alive sid w" "meeting_of sid w = 0 \<or> meeting_of sid w = meeting"
    and "meeting = 0 \<Longrightarrow> mid = ID_LEAVE_MEETING_REQUEST \<or> mid = ID_END_MEETING_REQUEST \<Longrightarrow> names_room en 0 message"
  shows "inv (snd (run_state (route_to en meeting sid mid message) w))"
proof (cases "meeting = 0")
  case True
  have "inv_at 0 (snd (run_state (Dispatch en 0 sid mid message) v))"
    if v: "inv v" "w_sessions v = w_sessions w" for v
    using assms True by (intro Dispatch_inv v(1)) (simp_all add: sess_cong [OF v(2)])
  then have "inv (snd (run_state (ordinary (Dispatch en 0 sid mid message)) w))"
    by (intro ordinary_inv assms(1))
  then show ?thesis using True by (simp add: route_to_def)
next
  case False
  let ?s = "SubmitRoom (en_room_full en \<and> mid \<noteq> kDisconnected) meeting (Dispatch en meeting sid mid message)"
  have "inv_at meeting (snd (run_state (Dispatch en meeting sid mid message) v))"
    if v: "inv v" "w_sessions v = w_sessions w" for v
    using assms False by (intro Dispatch_inv v(1)) (simp_all add: sess_cong [OF v(2)])
  then have i: "inv (snd (run_state ?s w))"
    by (intro SubmitRoom_inv assms(1) False)
  have "inv (snd (run_state (ReplyError en sid mid ERROR_NETWORK) (snd (run_state ?s w))))"
    by (intro keeps_inv i keeps_intros)
  then show ?thesis using False i by (simp add: route_to_def case_prod_beta)
qed

lemma route_to_quiet:
  assumes "inv w" "alive sid w" "meeting_of sid w = 0"
  shows "inv (snd (run_state (route_join en 0 uid sid message) w))"
proof -
  let ?r = "\<lambda>e. ReplyError en sid ID_JOIN_MEETING_REQUEST e"
  have e: "inv (snd (run_state (?r e) v))" if "inv v" for e v by (intro keeps_inv that keeps_intros)
  show ?thesis
  proof (cases "uid \<le> 0 \<or> join_code en message = None \<or> en_route_busy en")
    case True
    then show ?thesis using e [OF assms(1)] by (auto simp: route_join_def split: option.split)
  next
    case False
    then obtain mc where mc: "join_code en message = Some mc" by auto
    let ?w1 = "snd (run_state (mysql (GetMeetingInfoByCode mc)) w)"
    have m: "moves {} w ?w1" by (intro keepsM keeps_intros)
    then have i1: "inv ?w1" by (rule inv_quiet [OF assms(1)])
    have "inv (snd (run_state (route_to en (mi_id mi) sid ID_JOIN_MEETING_REQUEST message) ?w1))" for mi
      using i1 moves_session(1,2) [OF m, of sid] assms(2,3) by (intro route_to_inv) auto
    then show ?thesis using False mc e [OF i1]
      by (auto simp: route_join_def case_prod_beta split: option.split)
  qed
qed

lemma named_zero:
  "named_meeting en message = 0 \<Longrightarrow> names_room en 0 message"
  by (auto simp: named_meeting_def names_room_def meeting_id_text_def has_string_def str_field_def Let_def
      split: option.splits if_splits)

lemma Route_inv:
  assumes "inv w" "alive sid w"
  shows "inv (snd (run_state (Route en sid mid message) w))"
proof (cases "mid \<noteq> kDisconnected \<and> IsClosed (sess sid w)")
  case True
  then show ?thesis using assms(1) by (simp add: Route_def)
next
  case False
  have closed: "mid = kDisconnected \<or> \<not> IsClosed (sess sid w)" using False by blast
  have "inv (snd (run_state (route_join en (meeting_of sid w) (uid_of sid w) sid message) w))"
    if "meeting_of sid w \<noteq> 0"
    using that keeps_inv [OF mv.k_ReplyError assms(1)] by (simp add: route_join_def)
  moreover have "inv (snd (run_state (route_join en 0 (uid_of sid w) sid message) w))" if "meeting_of sid w = 0"
    by (rule route_to_quiet [OF assms that])
  moreover have "inv (snd (run_state (route_to en (named_meeting en message) sid mid message) w))"
    if "meeting_of sid w = 0"
    using assms that named_zero by (intro route_to_inv) auto
  moreover have "inv (snd (run_state (route_to en (meeting_of sid w) sid mid message) w))"
    if "meeting_of sid w \<noteq> 0 \<or> no_meeting_needed mid"
    using assms that by (intro route_to_inv) (auto simp: no_meeting_needed_def)
  ultimately show ?thesis using closed
    by (cases "meeting_of sid w = 0") (auto simp: Route_def)
qed

section \<open>Reachable states\<close>

lemma outside_inv:
  assumes "inv w" "outside w w'" shows "inv w'"
proof -
  have rooms: "room_at r w' = room_at r w" for r using assms(2) by (simp add: room_at_def outside_def)
  have "meeting_of i w' = r" if l: "i \<in> listed r w'" and opn: "open_at i w'" for i r
  proof -
    obtain s' where s': "w_sessions w' i = Some s'" using opn by (auto simp: open_at_def alive_def)
    have o: "case w_sessions w i of Some s \<Rightarrow> same_identity s s' | None \<Rightarrow> new_session s' \<and> \<not> referred i w"
      using assms(2) s' by (auto simp: outside_def dest!: spec [of _ i])
    have li: "i \<in> listed r w" using l by (simp add: listed_def rooms)
    show ?thesis
    proof (cases "w_sessions w i")
      case None
      then show ?thesis using o li by (auto simp: referred_def listed_def)
    next
      case (Some s)
      then have "open_at i w" "meeting_of i w' = meeting_of i w"
        using o opn s' by (auto simp: open_at_def alive_def sess_def meeting_of_def same_identity_def)
      then show ?thesis using placesD [OF assms(1) li] by simp
    qed
  qed
  moreover have "presence_ok w'"
    using assms by (simp add: inv_def presence_ok_def member_at_def rooms) (simp add: outside_def)
  ultimately show ?thesis using assms(1) by (simp add: inv_def places_ok_def listed_def rooms)
qed

lemma logic_step_inv: "logic_step w w' \<Longrightarrow> inv w \<Longrightarrow> inv w'"
proof (induction rule: logic_step.induct)
  case (ls_route sid w en mid message)
  then show ?case by (rule Route_inv [rotated])
next
  case (ls_timer w en)
  then show ?case by (rule keeps_inv [OF mv.k_Timeout])
next
  case (ls_expire rid w full en member)
  have "inv_at rid (snd (run_state (ExpireMemberHandler en rid member) v))" if "inv v" for v
    by (rule inv_inv_at [OF safeD [OF ExpireMember_safe that]])
  then show ?case by (intro SubmitRoom_inv ls_expire)
next
  case (ls_control w en node)
  then show ?case by (rule keeps_inv [OF mv.k_media_control])
next
  case (ls_media rid w full en node i signal)
  have "inv_at rid (snd (run_state (media_in_room en node i signal rid) v))" if "inv v" for v
    by (rule inv_inv_at [OF keeps_inv [OF mv.k_media_in_room that]])
  then show ?case by (intro SubmitRoom_inv ls_media)
next
  case (ls_outside w w')
  then show ?case by (rule outside_inv [rotated])
qed

lemma logic_reach_inv: "logic_reach w \<Longrightarrow> inv w"
proof (induction rule: logic_reach.induct)
  case (lr_start w)
  then show ?case
    by (simp add: logic_start_def inv_def presence_ok_def places_ok_def listed_def member_at_def
        room_at_def Room_new_def)
next
  case (lr_step w w')
  then show ?case using logic_step_inv by blast
qed

end
