(* ===== verification/Demo.thy ===== *)
theory Demo
  imports LogicProps MySqlProps
begin

text \<open>
  A concrete run of the business layer for the witnesses: users 1 and 2 hold a login
  session, meeting 5 of user 1 exists, and the connections 10 and 20 log in and join
  through Route, with the Redis instance of RedisStore.
\<close>

definition demo_json :: "string \<Rightarrow> json option" where
  "demo_json = map_of
     [(''L1'', JObject [(''uid'', JInt 1), (''token'', JString ''t1''), (''email'', JString ''a'')]),
      (''L2'', JObject [(''uid'', JInt 2), (''token'', JString ''t2''), (''email'', JString ''b'')]),
      (''U1'', JObject [(''uid'', JInt 1)]), (''U2'', JObject [(''uid'', JInt 2)]),
      (''J'', JObject [(''meeting_code'', JString ''12345678'')]),
      (''R'', JObject []),
      (''M'', JObject [(''meeting_id'', JString ''5'')]),
      (''G'', JObject [(''meeting_id'', JString ''5''), (''chat_type'', JString ''group''), (''content'', JString ''hi''),
         (''client_msg_id'', JString ''c1''), (''target_user_id'', JNull)]),
      (''P'', JObject [(''meeting_id'', JString ''5''), (''chat_type'', JString ''private''), (''content'', JString ''hi''),
         (''client_msg_id'', JString ''c1''), (''target_user_id'', JInt 2)])]"

definition demo_env :: "redis_db env" where
  "demo_env = \<lparr>en_parse = demo_json, en_styled = (\<lambda>_. ''{}''), en_redis = redis_exec,
     en_mysql = demo_cfg, en_codes = [], en_time = 1000, en_steady = 1000,
     en_random = [RandBytes (replicate 32 7)], en_crypt = (\<lambda>_ _. None), en_gensalt = None,
     en_ai = None, en_route_busy = False, en_pool_busy = False, en_room_full = False\<rparr>"

definition demo_redis :: redis_db where
  "demo_redis = redis_empty\<lparr>rd_str := [auth_key ''t1'' \<mapsto> ''U1'', auth_key ''t2'' \<mapsto> ''U2'']\<rparr>"

definition demo_start :: "redis_db world" where
  "demo_start = \<lparr>w_sessions = (\<lambda>_. None), w_wake = IoWakeup_new, w_media = MediaSignalClient_new,
     w_redis = demo_redis, w_db = demo_db, w_users = (\<lambda>_. None), w_signals = (\<lambda>_. None),
     w_next_signal = 1, w_media_epoch = 0, w_rooms = (\<lambda>_. None)\<rparr>"

definition demo_connected :: "redis_db world" where
  "demo_connected = demo_start\<lparr>w_sessions := [10 \<mapsto> Session_new 10 0, 20 \<mapsto> Session_new 20 0]\<rparr>"

fun demo_run :: "(nat \<times> u16 \<times> string) list \<Rightarrow> redis_db world \<Rightarrow> redis_db world" where
  "demo_run [] w = w"
| "demo_run ((sid, mid, tx) # cs) w =
     (if alive sid w then demo_run cs (snd (run_state (Route demo_env sid mid tx) w)) else w)"

lemma demo_connected_reach: "logic_reach demo_connected"
proof -
  have "logic_reach demo_start"
    by (rule lr_start) (simp add: logic_start_def demo_start_def)
  moreover have "outside demo_start demo_connected"
    by (auto simp: outside_def demo_connected_def demo_start_def new_session_def Session_new_def
        referred_def room_at_def Room_new_def member_at_def)
  ultimately show ?thesis using lr_step ls_outside by blast
qed

lemma demo_run_reach: "logic_reach w \<Longrightarrow> logic_reach (demo_run cs w)"
proof (induction cs w rule: demo_run.induct)
  case (2 sid mid tx cs w)
  show ?case
  proof (cases "alive sid w")
    case True
    then have "logic_reach (snd (run_state (Route demo_env sid mid tx) w))"
      by (rule lr_step [OF 2(2) ls_route])
    then show ?thesis using 2(1) True by simp
  next
    case False
    then show ?thesis using 2(2) by simp
  qed
qed simp

section \<open>Evaluation\<close>

text \<open>The simplifier runs a program from the front: nothing is rewritten inside a program
  before it is run.\<close>

lemma bind_stop: "State_Monad.bind m f = State_Monad.bind m f"
  by (rule refl)

lemma run_simps:
  "run_state (ret a) w = (a, w)"
  "run_state (State_Monad.bind m f) w = (case run_state m w of (a, w') \<Rightarrow> run_state (f a) w')"
  by (simp_all add: State_Monad.return_def State_Monad.bind_def)

lemma demo_env_fields:
  "en_parse demo_env = demo_json" "en_styled demo_env v = ''{}''" "en_redis demo_env = redis_exec"
  "en_mysql demo_env = demo_cfg" "en_time demo_env = 1000" "en_steady demo_env = 1000"
  "\<not> en_route_busy demo_env" "\<not> en_pool_busy demo_env" "\<not> en_room_full demo_env"
  by (simp_all add: demo_env_def)

definition demo_ticket :: string where
  "demo_ticket = concat (replicate 32 ''07'')"

lemma random_bytes_full: "bs \<noteq> [] \<Longrightarrow> length bs = n \<Longrightarrow> random_bytes n (RandBytes bs # rs) = Some bs"
  by (cases n) simp_all

lemma demo_NewResumeTicket: "NewResumeTicket demo_env = Some demo_ticket"
  by (simp add: NewResumeTicket_def demo_env_def random_bytes_full demo_ticket_def hex_digit_def)

lemma demo_numbers:
  "to_string (Suc 0) = ''1''" "to_string 1 = ''1''" "to_string 2 = ''2''" "to_string 5 = ''5''"
  "int_to_string 1 = ''1''" "int_to_string 2 = ''2''" "int_to_string 1000 = ''1000''" "int_to_string 1045 = ''1045''"
  by (simp_all add: int_to_string_def to_string.simps digit_char_def char_of_def bit_0)

lemma demo_parsed:
  "stoull ''1'' = Some (1, Suc 0)" "stoull ''2'' = Some (2, Suc 0)" "stoull ''5'' = Some (5, Suc 0)"
  by (simp_all add: stoull_def parse_number_def is_space_def is_digit_def digits_val_def digit_val_def)

lemma demo_stoi: "stoi ''1'' = Some 1" "stoi ''2'' = Some 2"
  by (simp_all add: stoi_def stoll_def parse_number_def is_space_def is_digit_def digits_val_def digit_val_def)

lemma demo_narrow: "to_int32 1 = 1" "to_int32 2 = 2"
  by (simp_all add: to_int32_def)

lemmas eval_basic = look_def modify_def redis_def mysql_def run_simps demo_env_fields Let_def
  alive_def lock_def sess_def uid_of_def meeting_of_def set_sess_def room_at_def Room_new_def
  set_room_def member_at_def set_member_def set_room_sessions_def IsClosed_def SetAuthToken_def
  SetUserId_def SetMeetingId_def Session_new_def Membership_new_def

lemmas eval_data = demo_json_def parse_object_def has_string_def str_field_def is_int_def as_int_def
  is_null_def session_uid_def auth_key_def presence_key_def RoomMembersKey_def RoomMemberStateKey_def
  ReconnectDeadlineMember_def jobj_def ju64_def jid_def jc_key_def jc_text_def jc_state_key_def
  demo_numbers demo_parsed demo_narrow

lemmas eval_send = send_def Send_def frame_of_def enqueue_frame_def notify_opt_def Notify_def
  WakeLocked_def IoWakeup_new_def kMaxPendingBytes_def kMaxPendingFrames_def efd_max_def size_sub_def
  succeed_def fail_def respond_def on_session_def broadcast_def drop_sessions_def ReplyError_def ResponseId_def

lemmas eval_db = query_def statement_def next_fault_def pop_fault_def demo_db_def demo_user_def
  demo_cfg_def find_user_by_email_def find_user_def GetUserInfo_def GetMeetingRecently_def joined_rows_def
  GetMeetingInfoByCode_def code_key_def find_meeting_def info_of_def text_of_def UpdateMeetingPart_def
  upsert_participant_def rejoin_def GetUserDisplayNameById_def display_name_def GetMeetingInfoById_def

lemmas eval_redis = Lookup_def SMembers_def did_def SAdd_def SRem_def HSet_def HGet_def SIsMember_def
  SCard_def ZAdd_def ZRem_def Redis_Del_def ActivateMember_def demo_redis_def redis_empty_def

lemmas eval_route = Route_def route_to_def route_join_def join_code_def no_meeting_needed_def
  named_meeting_def ordinary_def SubmitRoom_def in_room_def drop_idle_def Dispatch_def handled_def replaced_def
  dispatch_checked_def requested_meeting_def dispatch_call_def handler_def ReserveUser_def FinishJoin_def

lemmas eval_login = LoginHandler_def login_body_def login_profile_def

lemmas eval_join = JoinMeeetingHandler_def join_body_def join_meeting_def join_info_def
  join_password_def join_resume_def resume_fields_def join_room_def join_ticket_def demo_NewResumeTicket join_write_def undo_add_def
  join_finish_def join_member_def joined_membership_def member_json_def is_joined_def join_value_def
  join_notify_def

lemmas eval_chat = SendMeetingMessageHandler_def chat_body_def chat_shape_ok_def chat_fields_def chat_ack_def
  meeting_id_text_def stoull_full_def chat_send_def chat_store_def chat_receives_def SaveMeetingMessage_def
  MeetingMessageToJson_def private_target_def valid_message_def insert_message_def row_of_def same_key_def
  LoadMeetingMessageById_def FillMeetingMessage_def

lemmas demo_eval = eval_basic eval_data eval_send eval_db eval_redis eval_route

section \<open>Two members\<close>

definition demo_conn :: "u64 \<Rightarrow> int \<Rightarrow> string \<Rightarrow> u64 \<Rightarrow> u16 list \<Rightarrow> session" where
  "demo_conn t uid token meeting sent = (Session_new t 0)\<lparr>s_user_id := uid, s_auth_token := token,
     s_meeting_id := meeting, s_pending := map (\<lambda>mid. frame_of mid ''{}'') sent,
     s_pending_bytes := sum_list (map (\<lambda>mid. length (frame_of mid ''{}'')) sent), s_pending_frames := length sent\<rparr>"

definition demo_member :: "nat \<Rightarrow> string \<Rightarrow> membership" where
  "demo_member sid token = Membership_new\<lparr>mb_ticket := demo_ticket, mb_auth_token := token, mb_session := Some sid\<rparr>"

definition demo_logged_in :: "redis_db world" where
  "demo_logged_in = demo_run [(10, AUTH_LOGIN_REQUEST, ''L1''), (20, AUTH_LOGIN_REQUEST, ''L2'')] demo_connected"

definition demo_wake :: io_wakeup where
  "demo_wake = \<lparr>wk_open = True, wk_efd = Suc (Suc 0), wk_stopping = False, wk_pending = {20, 10}, wk_ready = [10, 20]\<rparr>"

lemma demo_logged_in_eq:
  "demo_logged_in = demo_start\<lparr>w_sessions :=
     [10 \<mapsto> demo_conn 10 1 ''t1'' 0 [AUTH_LOGIN_RESPONSE], 20 \<mapsto> demo_conn 20 2 ''t2'' 0 [AUTH_LOGIN_RESPONSE]],
     w_wake := demo_wake\<rparr>"
  unfolding demo_logged_in_def
  by (simp add: demo_eval eval_login demo_connected_def demo_start_def demo_conn_def demo_wake_def
      cong: bind_stop)

text \<open>Both users are in meeting 5.\<close>

definition demo_joined :: "redis_db world" where
  "demo_joined = demo_run [(10, ID_JOIN_MEETING_REQUEST, ''J''), (20, ID_JOIN_MEETING_REQUEST, ''J'')]
     demo_logged_in"

lemma demo_logged_in_reach: "logic_reach demo_logged_in"
  unfolding demo_logged_in_def by (intro demo_run_reach demo_connected_reach)

lemma demo_joined_reach: "logic_reach demo_joined"
  unfolding demo_joined_def by (intro demo_run_reach demo_logged_in_reach)

definition demo_part :: "nat \<Rightarrow> participant_row" where
  "demo_part uid = \<lparr>pr_meeting = 5, pr_user = uid, pr_status = 1, pr_planned_at = 1000,
     pr_joined_at = Some 1000, pr_left_at = None\<rparr>"

definition demo_joined_redis :: redis_db where
  "demo_joined_redis = demo_redis\<lparr>
     rd_hash := (\<lambda>_ _. None)
       (''presence:1'' := [''status'' \<mapsto> ''in_meeting'', ''meeting_id'' \<mapsto> ''5''],
        ''room:5:member:1'' := [''room_state'' \<mapsto> ''active''],
        ''presence:2'' := [''status'' \<mapsto> ''in_meeting'', ''meeting_id'' \<mapsto> ''5''],
        ''room:5:member:2'' := [''room_state'' \<mapsto> ''active'']),
     rd_set := (\<lambda>_. [])(''room:5:members'' := [''2'', ''1''])\<rparr>"

lemma demo_joined_eq:
  "demo_joined = demo_start\<lparr>w_sessions :=
      [10 \<mapsto> demo_conn 10 1 ''t1'' 5 [AUTH_LOGIN_RESPONSE, ID_JOIN_MEETING_RESPONSE, ID_MEETING_MEMBER_JOINED],
       20 \<mapsto> demo_conn 20 2 ''t2'' 5 [AUTH_LOGIN_RESPONSE, ID_JOIN_MEETING_RESPONSE]],
     w_wake := demo_wake, w_redis := demo_joined_redis,
     w_db := demo_db\<lparr>db_participants := [demo_part 1, demo_part 2]\<rparr>,
     w_users := [1 \<mapsto> \<lparr>up_meeting = 5, up_joining = 0, up_joined = True\<rparr>,
                 2 \<mapsto> \<lparr>up_meeting = 5, up_joining = 0, up_joined = True\<rparr>],
     w_rooms := [5 \<mapsto> \<lparr>rm_members = [(1, demo_member 10 ''t1''), (2, demo_member 20 ''t2'')],
                      rm_sessions = [10, 20]\<rparr>]\<rparr>"
  unfolding demo_joined_def demo_logged_in_eq
  by (simp add: demo_eval eval_join demo_start_def demo_conn_def demo_wake_def demo_member_def
      demo_part_def demo_joined_redis_def cong: bind_stop)

lemmas demo_state = demo_start_def demo_conn_def demo_wake_def demo_member_def demo_part_def
  demo_joined_redis_def

end
