(* ===== verification/Isolation.thy ===== *)
theory Isolation
  imports LogicProps Demo
begin

text \<open>
  Which connections an operation can touch.  good rid uid T w says that the connections
  of room rid, and the one that user uid's membership refers to, are in T; touches says
  that a program started in such a state changes no connection outside T.  Every
  request handler is shown to touch the requester and the connections of its room only.
\<close>

section \<open>The relation\<close>

definition good :: "u64 \<Rightarrow> int \<Rightarrow> nat set \<Rightarrow> 'r world \<Rightarrow> bool" where
  "good rid uid T w \<longleftrightarrow> listed rid w \<subseteq> T
     \<and> (\<forall>m p. member_at rid uid w = Some m \<longrightarrow> mb_session m = Some p \<longrightarrow> p \<in> T)"

definition touches :: "u64 \<Rightarrow> int \<Rightarrow> nat set \<Rightarrow> 'r world \<Rightarrow> 'r world \<Rightarrow> bool" where
  "touches rid uid T w w' \<longleftrightarrow> (good rid uid T w \<longrightarrow>
     good rid uid T w' \<and> (\<forall>i. i \<notin> T \<longrightarrow> w_sessions w' i = w_sessions w i))"

lemma touchesI:
  "(good rid uid T w \<Longrightarrow> good rid uid T w' \<and> (\<forall>i. i \<notin> T \<longrightarrow> w_sessions w' i = w_sessions w i))
     \<Longrightarrow> touches rid uid T w w'"
  by (simp add: touches_def)

lemma good_cong: "w_rooms w' = w_rooms w \<Longrightarrow> good rid uid T w' = good rid uid T w"
  by (simp add: good_def listed_def member_at_def room_at_def)

lemma touches_rooms:
  "w_rooms w' = w_rooms w \<Longrightarrow> (\<And>i. i \<notin> T \<Longrightarrow> w_sessions w' i = w_sessions w i) \<Longrightarrow> touches rid uid T w w'"
  by (simp add: touches_def good_cong [of w' w])

interpretation to: store_frame "touches rid uid T" for rid uid T
proof
  fix w w' w'' :: "'a world" and r d
  show "touches rid uid T w w" by (simp add: touches_def)
  show "touches rid uid T w w' \<Longrightarrow> touches rid uid T w' w'' \<Longrightarrow> touches rid uid T w w''"
    by (simp add: touches_def)
  show "touches rid uid T w (w\<lparr>w_redis := r, w_db := d\<rparr>)" by (rule touches_rooms) simp_all
qed

section \<open>Primitive programs\<close>

lemma touches_send: "sid \<in> T \<Longrightarrow> keeps (touches rid uid T) (send sid mid tx)"
proof (rule keepsI)
  fix w assume "sid \<in> T"
  then show "touches rid uid T w (snd (run_state (send sid mid tx) w))"
    by (cases rule: run_send [of w sid mid tx]) (auto intro!: touches_rooms)
qed

lemma touches_close: "sid \<in> T \<Longrightarrow> keeps (touches rid uid T) (close_session sid)"
  by (auto simp: keeps_def close_session_def split: option.split prod.split intro!: touches_rooms)

lemma touches_set_sess: "sid \<in> T \<Longrightarrow> keeps (touches rid uid T) (modify (set_sess sid f))"
  by (auto simp: keeps_def set_sess_def intro!: touches_rooms)

lemma touches_tables [keeps_intros]:
  "keeps (touches rid uid T) (SendMediaSignal tx epoch)"
  "keeps (touches rid uid T) (RegisterSignal i sid meeting)"
  "keeps (touches rid uid T) (modify (RemoveSignal i))"
  "keeps (touches rid uid T) (modify (\<lambda>w. w\<lparr>w_next_signal := w_next_signal w + 1\<rparr>))"
  "keeps (touches rid uid T) (modify (ReleaseUser u m))"
  "keeps (touches rid uid T) (modify (ReleaseRoomUsers m))"
  by (auto simp: keeps_def SendMediaSignal_def RegisterSignal_def RemoveSignal_def ReleaseUser_def
      ReleaseRoomUsers_def split: prod.split option.split intro!: touches_rooms)

lemma touches_ReserveUser [keeps_intros]: "keeps (touches rid uid T) (ReserveUser u m)"
  by (auto simp: keeps_def ReserveUser_def Let_def split: option.split intro!: touches_rooms)

lemma touches_FinishJoin: "touches rid uid T w (FinishJoin u m b w)"
  by (auto simp: FinishJoin_def Let_def split: option.split intro!: touches_rooms)

lemma touches_push:
  "set ids \<subseteq> T \<Longrightarrow> keeps (touches rid uid T) (push_to cond mid tx ids)"
  by (induction ids) (auto intro!: keeps_intros touches_send)

lemma good_set_room_sessions:
  "good rid uid T w \<Longrightarrow> set (f (rm_sessions (room_at rid w))) \<subseteq> T \<Longrightarrow> good rid uid T (set_room_sessions rid f w)"
  by (simp add: good_def listed_def member_at_def set_room_sessions_def)

lemma touches_broadcast [keeps_intros]: "keeps (touches rid uid T) (broadcast rid cond mid tx)"
proof (rule keepsI, rule touchesI)
  fix w :: "'a world" assume g: "good rid uid T w"
  let ?ids = "rm_sessions (room_at rid w)"
  let ?p = "push_to cond mid tx ?ids"
  let ?w = "snd (run_state ?p w)"
  have ids: "set ?ids \<subseteq> T" using g by (simp add: good_def listed_def)
  then have "touches rid uid T w ?w" by (rule keepsD [OF touches_push])
  then have 1: "good rid uid T ?w \<and> (\<forall>i. i \<notin> T \<longrightarrow> w_sessions ?w i = w_sessions w i)"
    using g by (simp add: touches_def)
  then have "good rid uid T (set_room_sessions rid (\<lambda>_. fst (run_state ?p w)) ?w)"
    using ids by (intro good_set_room_sessions) (auto simp: push_to_keep)
  then show "good rid uid T (snd (run_state (broadcast rid cond mid tx) w))
      \<and> (\<forall>i. i \<notin> T \<longrightarrow> w_sessions (snd (run_state (broadcast rid cond mid tx) w)) i = w_sessions w i)"
    using 1 by (simp add: broadcast_def case_prod_beta set_room_sessions_def)
qed

lemma touches_drop [keeps_intros]: "keeps (touches rid uid T) (drop_sessions rid bad)"
  by (auto simp: keeps_def drop_sessions_def touches_def good_def listed_def member_at_def set_room_sessions_def)

lemma touches_append: "sid \<in> T \<Longrightarrow> keeps (touches rid uid T) (modify (set_room_sessions rid (\<lambda>is. is @ [sid])))"
  by (auto simp: keeps_def touches_def good_def listed_def member_at_def set_room_sessions_def)

lemma touches_member:
  "(\<And>v p. m = Some v \<Longrightarrow> mb_session v = Some p \<Longrightarrow> p \<in> T) \<Longrightarrow>
     keeps (touches rid uid T) (modify (set_member rid u m))"
  by (auto simp: keeps_def touches_def good_def)

lemma touches_clear [keeps_intros]:
  "keeps (touches rid uid T) (modify (set_room rid (\<lambda>r. r\<lparr>rm_members := []\<rparr>)))"
  "keeps (touches rid uid T) (modify (set_room_sessions rid (\<lambda>_. [])))"
  by (auto simp: keeps_def touches_def good_def listed_def member_at_def set_room_sessions_def)

lemma touches_grace [keeps_intros]: "keeps (touches rid uid T) (modify (grace_deadline en sid u rid))"
  by (auto simp: keeps_def grace_deadline_def touches_def good_def listed_def split: option.split)
    (auto simp: set_member_def)

section \<open>The handlers\<close>

lemma touches_release: "sid \<in> T \<Longrightarrow> keeps (touches rid uid T) (ReleaseMediaSession en sid)"
  by (auto simp: ReleaseMediaSession_def intro!: keeps_intros touches_set_sess)

lemma touches_respond:
  "sid \<in> T \<Longrightarrow> keeps (touches rid uid T) body \<Longrightarrow> keeps (touches rid uid T) (respond en sid mid body)"
  by (auto simp: respond_def intro!: keeps_intros touches_send)

lemma touches_ReplyError: "sid \<in> T \<Longrightarrow> keeps (touches rid uid T) (ReplyError en sid mid e)"
  by (auto simp: ReplyError_def intro!: keeps_intros touches_send)

lemmas touches_own = touches_send touches_close touches_set_sess touches_append touches_release
  touches_respond touches_ReplyError

lemma touches_forward [keeps_intros]: "keeps (touches rid uid T) (forward_bound en sid meeting u kind extra)"
  by (auto simp: forward_bound_def intro!: keeps_intros)

lemma touches_leave_notify [keeps_intros]: "keeps (touches rid uid T) (leave_notify en rid sid meeting u)"
  by (auto simp: leave_notify_def intro!: keeps_intros)

lemma touches_erase [keeps_intros]: "keeps (touches rid uid T) (erase_member rid u m)"
  by (auto simp: erase_member_def intro!: keeps_intros touches_member)

lemma touches_join_notify [keeps_intros]:
  "jc_rid c = rid \<Longrightarrow> keeps (touches rid uid T) (join_notify en c already rec members joined)"
  by (auto simp: join_notify_def intro!: keeps_intros)

lemma touches_quiet_handlers:
  assumes "sid \<in> T"
  shows "keeps (touches rid uid T) (LoginHandler en (Some sid) message)"
    and "keeps (touches rid uid T) (AiAskHandler en (Some sid) message)"
    and "keeps (touches rid uid T) (CreateMeetingHandler en (Some sid) message)"
    and "keeps (touches rid uid T) (GetPastMeetingHandler en (Some sid) message)"
    and "keeps (touches rid uid T) (GetMeetingGroupMessagesHandler en (Some sid) message)"
    and "keeps (touches rid uid T) (GetMeetingPrivateMessagesHandler en (Some sid) message)"
  using assms
  by (auto simp: LoginHandler_def login_body_def login_profile_def CreateMeetingHandler_def
      create_body_def create_store_def GetPastMeetingHandler_def past_body_def AiAskHandler_def ai_body_def
      GetMeetingGroupMessagesHandler_def group_body_def GetMeetingPrivateMessagesHandler_def private_body_def
      on_session_def intro!: keeps_intros touches_own split: ai_outcome.splits)

lemma touches_room_handlers:
  assumes "sid \<in> T"
  shows "keeps (touches rid uid T) (StartMeetingHandler en rid (Some sid) message)"
    and "keeps (touches rid uid T) (LeaveMeetingHandler en rid (Some sid) message)"
    and "keeps (touches rid uid T) (SendMeetingMessageHandler en rid (Some sid) message)"
    and "keeps (touches rid uid T) (SessionDisconnectedHandler en rid (Some sid))"
    and "keeps (touches rid uid T) (MediaOfferHandler en (Some sid) message)"
    and "keeps (touches rid uid T) (MediaAnswerHandler en (Some sid) message)"
    and "keeps (touches rid uid T) (MediaCandidateHandler en (Some sid) message)"
  using assms
  by (auto simp: StartMeetingHandler_def start_body_def start_commit_def LeaveMeetingHandler_def
      leave_body_def leave_commit_def SendMeetingMessageHandler_def chat_body_def chat_send_def
      chat_store_def SessionDisconnectedHandler_def MediaOfferHandler_def offer_body_def
      offer_forward_def new_signal_def MediaAnswerHandler_def MediaCandidateHandler_def candidate_body_def
      on_session_def intro!: keeps_intros touches_own)

lemma touches_end_sessions: "set ids \<subseteq> T \<Longrightarrow> keeps (touches rid uid T) (end_sessions en tx ids)"
  by (induction ids) (auto intro!: keeps_intros touches_own)

lemma touches_after:
  assumes "\<And>w. good rid uid T w \<Longrightarrow> keeps (touches rid uid T) (f (g w))"
  shows "keeps (touches rid uid T) (State_Monad.bind (look g) f)"
  using assms by (auto simp: keeps_def touches_def)

lemma touches_end_commit [keeps_intros]: "keeps (touches rid uid T) (end_commit en rid meeting)"
  unfolding end_commit_def
  by (intro keeps_intros touches_after touches_end_sessions) (auto simp: good_def listed_def)

lemma touches_End: "sid \<in> T \<Longrightarrow> keeps (touches rid uid T) (EndMeetingHandler en rid (Some sid) message)"
  by (auto simp: EndMeetingHandler_def end_body_def on_session_def intro!: keeps_intros touches_own)

section \<open>Joining\<close>

lemma touches_join_member:
  assumes "sid \<in> T" "ctx_ok rid uid sid c"
  shows "keeps (touches rid uid T) (join_member en c ticket rec)"
proof -
  let ?m0 = "\<lambda>w. case member_at rid uid w of Some m \<Rightarrow> m | None \<Rightarrow> Membership_new"
  have prev: "p \<in> T" if "good rid uid T w" "lock (mb_session (?m0 w)) w = Some p" for w :: "'a world" and p
    using that by (auto simp: good_def lock_def Membership_new_def split: option.splits if_splits)
  have m: "mb_session (joined_membership c ticket previous token m0) = Some sid" for previous token m0
    using assms(2) by (simp add: joined_membership_def Let_def ctx_ok_def)
  have rest: "keeps (touches rid uid T) (do {
     (case previous of
        None \<Rightarrow> ret ()
      | Some p \<Rightarrow> if p \<noteq> jc_sid c then takeover en p else ret ());
     token \<leftarrow> look (\<lambda>w. s_auth_token (sess (jc_sid c) w));
     let m = joined_membership c ticket previous token m0;
     modify (set_member (jc_rid c) (jc_uid c) (Some m));
     modify (set_sess (jc_sid c) (SetMeetingId (mi_id (jc_info c))));
     drop_sessions (jc_rid c) (\<lambda>i w. i = jc_sid c \<or> rec \<and> uid_of i w = jc_uid c);
     modify (set_room_sessions (jc_rid c) (\<lambda>is. is @ [jc_sid c]));
     ret m })" if "\<And>p. previous = Some p \<Longrightarrow> p \<in> T" for previous m0
    using that assms unfolding ctx_ok_def takeover_def Let_def
    by (cases previous) (auto intro!: keeps_intros touches_own touches_member simp: m)
  show ?thesis
  proof (rule keepsI, rule touchesI)
    fix w :: "'a world" assume g: "good rid uid T w"
    from rest [of "lock (mb_session (?m0 w)) w" "?m0 w", OF prev [OF g]]
    have "touches rid uid T w (snd (run_state (join_member en c ticket rec) w))"
      using assms(2) by (simp add: keeps_def join_member_def ctx_ok_def case_prod_beta Let_def)
    then show "good rid uid T (snd (run_state (join_member en c ticket rec) w))
      \<and> (\<forall>i. i \<notin> T \<longrightarrow> w_sessions (snd (run_state (join_member en c ticket rec) w)) i = w_sessions w i)"
      using g by (simp add: touches_def)
  qed
qed

lemma touches_join:
  assumes "sid \<in> T"
  shows "keeps (touches rid uid T) (join_meeting en rid sid resuming req uid)"
proof -
  have mem: "keeps (touches (jc_rid c) (jc_uid c) T) (join_member en c ticket rec)"
    if "ctx_ok rid uid sid c" for c ticket rec
    using touches_join_member [OF assms that] that by (simp add: ctx_ok_def)
  have room: "keeps (touches rid uid T) (join_room en c)" if "ctx_ok rid uid sid c" for c
    unfolding join_room_def join_ticket_def join_write_def join_finish_def Let_def
    using that mem [OF that] by (auto intro!: keeps_intros simp: ctx_ok_def)
  have pw: "keeps (touches rid uid T) (join_password en req c)" if "ctx_ok rid uid sid c" for c
    using room [OF that] by (auto simp: join_password_def intro!: keeps_intros)
  have "keeps (touches rid uid T) (join_resume en req c)" if "ctx_ok rid uid sid c" for c
    using that unfolding join_resume_def Let_def by (intro keeps_intros pw) (auto simp: ctx_ok_def)
  with pw show ?thesis
    unfolding join_meeting_def Let_def by (intro keeps_intros) (auto simp: ctx_ok_def)
qed

lemma touches_JoinMeeeting:
  assumes "sid \<in> T"
  shows "touches rid (uid_of sid w) T w (snd (run_state (JoinMeeetingHandler en rid (Some sid) resuming message) w))"
proof -
  let ?b = "join_body en rid sid resuming message"
  let ?w = "snd (run_state ?b w)"
  let ?rest = "\<lambda>r. case deferred r of
       None \<Rightarrow> ret ()
     | Some v \<Rightarrow> do {
         ok \<leftarrow> send sid (if resuming then ID_RESUME_MEETING_RESPONSE else ID_JOIN_MEETING_RESPONSE) (en_styled en v);
         if ok then ret () else close_session sid
       }"
  have "touches rid (uid_of sid w) T w ?w"
    using keepsD [OF touches_join [OF assms], of rid "uid_of sid w" w en resuming]
    by (cases rule: join_body_cases [of en rid sid resuming message w]) (auto simp: touches_def)
  moreover have "keeps (touches rid (uid_of sid w) T) (?rest r)" for r
    by (intro keeps_intros touches_own assms)
  then have "touches rid (uid_of sid w) T ?w (snd (run_state (?rest (fst (run_state ?b w))) ?w))"
    by (rule keepsD)
  ultimately show ?thesis
    unfolding JoinMeeetingHandler_def on_session_def option.case snd_bind by (rule to.R_trans)
qed

lemma touches_Dispatch:
  assumes "sid \<in> T" "mid \<noteq> kMediaMessage"
  shows "touches rid (uid_of sid w) T w (snd (run_state (Dispatch en rid sid mid message) w))"
proof -
  let ?R = "touches rid (uid_of sid w) T"
  have handler: "?R v (snd (run_state (handler en rid sid mid message) v))"
    if "uid_of sid v = uid_of sid w" for v
  proof (cases "mid = ID_JOIN_MEETING_REQUEST \<or> mid = ID_RESUME_MEETING_REQUEST")
    case True
    then show ?thesis using touches_JoinMeeeting [OF assms(1), of rid v] that
      by (auto simp: join_ids)
  next
    case False
    have "keeps ?R (handler en rid sid mid message)"
      unfolding handler_def using False assms
      by (auto intro!: touches_quiet_handlers touches_room_handlers touches_End keeps_intros)
    then show ?thesis by (rule keepsD)
  qed
  have err: "?R v (snd (run_state (ReplyError en sid mid e) v))" for v e
    by (rule keepsD [OF touches_ReplyError [OF assms(1)]])
  have call: "?R w (snd (run_state (dispatch_call en rid sid mid message) w))"
  proof (cases "mid = ID_JOIN_MEETING_REQUEST \<or> mid = ID_RESUME_MEETING_REQUEST")
    case False
    then show ?thesis using handler [of w] by (simp add: dispatch_call_def)
  next
    case True
    show ?thesis
    proof (cases rule: ReserveUser_cases [of "uid_of sid w" rid w])
      case refused
      then show ?thesis using True err [of w] by (simp add: dispatch_call_def)
    next
      case (reserved p w1)
      have "?R w w1" unfolding reserved(2) by (rule touches_rooms) simp_all
      moreover have "?R w1 (snd (run_state (handler en rid sid mid message) w1))"
        using reserved(2) by (intro handler) (simp add: uid_of_def sess_def)
      ultimately have "?R w (FinishJoin (uid_of sid w) rid
          (meeting_of sid (snd (run_state (handler en rid sid mid message) w1)) = rid)
          (snd (run_state (handler en rid sid mid message) w1)))"
        by (blast intro: to.R_trans touches_FinishJoin)
      then show ?thesis using True reserved(1) by (simp add: dispatch_call_def case_prod_beta)
    qed
  qed
  have "?R w (snd (run_state (dispatch_checked en rid sid mid message) w))"
    using call err [of w] by (auto simp: dispatch_checked_def split: option.split sum.split)
  then show ?thesis using err [of w] to.R_refl [of rid "uid_of sid w" T w] by (auto simp: Dispatch_def)
qed

section \<open>Properties\<close>

text \<open>C12: A user is a member of one meeting at most, in every reachable state of the
  business layer and whatever the stores answered: a member of a room is registered in
  the presence table as joined to exactly that room.\<close>

theorem one_meeting_per_user:
  assumes "logic_reach w" "member_at rid uid w = Some m" "member_at rid' uid w = Some m'"
  shows "rid = rid' \<and> (\<exists>p. w_users w uid = Some p \<and> up_meeting p = rid \<and> up_joined p)"
proof -
  have p: "presence_ok w" using logic_reach_inv [OF assms(1)] by (simp add: inv_def)
  obtain p where "w_users w uid = Some p \<and> up_meeting p = rid \<and> up_joined p"
    using p assms(2) unfolding presence_ok_def by blast
  moreover obtain p' where "w_users w uid = Some p' \<and> up_meeting p' = rid'"
    using p assms(3) unfolding presence_ok_def by blast
  ultimately show ?thesis by auto
qed

theorem one_meeting_per_user_witness:
  "member_at 5 1 demo_joined = Some (demo_member 10 ''t1'')
   \<and> (\<exists>p. w_users demo_joined 1 = Some p \<and> up_meeting p = 5 \<and> up_joined p)"
proof -
  have m: "member_at 5 1 demo_joined = Some (demo_member 10 ''t1'')"
    by (simp add: demo_joined_eq member_at_def room_at_def)
  then show ?thesis using one_meeting_per_user [OF demo_joined_reach m m] by blast
qed

text \<open>C13: Meetings are isolated: whatever a connection sends into room rid, and when it
  is lost, the other connections it changes (messages queued, closed, taken out of the
  meeting) are connections of that room, and open ones are currently in that meeting;
  the one exception is the earlier connection of the same user's membership.\<close>

theorem room_isolation:
  assumes "logic_reach w" "mid \<noteq> kMediaMessage" "i \<noteq> sid"
    and "w_sessions (snd (run_state (Dispatch en rid sid mid message) w)) i \<noteq> w_sessions w i"
  shows "i \<in> listed rid w \<and> (open_at i w \<longrightarrow> meeting_of i w = rid)
    \<or> (\<exists>m. member_at rid (uid_of sid w) w = Some m \<and> mb_session m = Some i)"
proof (rule ccontr)
  assume no: "\<not> ?thesis"
  let ?T = "insert sid (listed rid w \<union> {p. \<exists>m. member_at rid (uid_of sid w) w = Some m \<and> mb_session m = Some p})"
  have "good rid (uid_of sid w) ?T w" by (auto simp: good_def)
  moreover have "touches rid (uid_of sid w) ?T w (snd (run_state (Dispatch en rid sid mid message) w))"
    by (rule touches_Dispatch [OF _ assms(2)]) simp
  ultimately have "i \<in> ?T" using assms(4) by (auto simp: touches_def)
  then have "i \<in> listed rid w" using no assms(3) by blast
  moreover have "open_at i w \<longrightarrow> meeting_of i w = rid"
    using placesD [OF logic_reach_inv [OF assms(1)] \<open>i \<in> listed rid w\<close>] by blast
  ultimately show False using no by blast
qed

lemma demo_group_message:
  "w_sessions (snd (run_state (Dispatch demo_env 5 10 ID_SEND_MEETING_MESSAGE_REQUEST ''G'') demo_joined)) 20
     = Some (demo_conn 20 2 ''t2'' 5 [AUTH_LOGIN_RESPONSE, ID_JOIN_MEETING_RESPONSE, ID_MEETING_MESSAGE_PUSH])"
  by (simp add: demo_joined_eq demo_eval eval_chat demo_state cong: bind_stop)

lemma demo_joined_sessions:
  "w_sessions demo_joined 10 = Some (demo_conn 10 1 ''t1'' 5
     [AUTH_LOGIN_RESPONSE, ID_JOIN_MEETING_RESPONSE, ID_MEETING_MEMBER_JOINED])"
  "w_sessions demo_joined 20 = Some (demo_conn 20 2 ''t2'' 5 [AUTH_LOGIN_RESPONSE, ID_JOIN_MEETING_RESPONSE])"
  by (simp_all add: demo_joined_eq)

theorem room_isolation_witness:
  "20 \<in> listed 5 demo_joined \<and> (open_at 20 demo_joined \<longrightarrow> meeting_of 20 demo_joined = 5)
   \<or> (\<exists>m. member_at 5 (uid_of 10 demo_joined) demo_joined = Some m \<and> mb_session m = Some 20)"
  by (rule room_isolation [OF demo_joined_reach, of ID_SEND_MEETING_MESSAGE_REQUEST 20 10 demo_env 5 "''G''"])
    (simp_all add: demo_group_message demo_joined_sessions demo_conn_def frame_of_def Session_new_def)

end
