(* ===== verification/AccessProps.thy ===== *)
theory AccessProps
  imports Isolation
begin

text \<open>
  Who may do what in a meeting: private messages, replaced connections, resume
  credentials, malformed requests, and the resume request that names no meeting.
\<close>

section \<open>Steps on the own connection\<close>

text \<open>Nothing but the outgoing queue and the closing of connection sid changes.\<close>

definition own_only :: "nat \<Rightarrow> 'r world \<Rightarrow> 'r world \<Rightarrow> bool" where
  "own_only sid w w' \<longleftrightarrow> w_media w' = w_media w \<and> w_redis w' = w_redis w \<and> w_db w' = w_db w
     \<and> w_users w' = w_users w \<and> w_signals w' = w_signals w \<and> w_next_signal w' = w_next_signal w
     \<and> w_media_epoch w' = w_media_epoch w \<and> w_rooms w' = w_rooms w
     \<and> (\<forall>i. i \<noteq> sid \<longrightarrow> w_sessions w' i = w_sessions w i)
     \<and> rel_option (\<lambda>s s'. s_user_id s' = s_user_id s \<and> s_meeting_id s' = s_meeting_id s
          \<and> s_auth_token s' = s_auth_token s \<and> s_signal_id s' = s_signal_id s)
        (w_sessions w sid) (w_sessions w' sid)"

interpretation ow: basic_frame "own_only sid" for sid
proof
  fix w w' w'' :: "'a world"
  show "own_only sid w w" by (simp add: own_only_def option.rel_refl)
  show "own_only sid w w' \<Longrightarrow> own_only sid w' w'' \<Longrightarrow> own_only sid w w''"
    unfolding own_only_def
    by (cases "w_sessions w sid"; cases "w_sessions w' sid"; cases "w_sessions w'' sid")
      simp_all
qed

lemma Send_identity:
  "Send mid p (s, k) = (b, s', k') \<Longrightarrow> s_user_id s' = s_user_id s \<and> s_meeting_id s' = s_meeting_id s
     \<and> s_auth_token s' = s_auth_token s \<and> s_signal_id s' = s_signal_id s"
  by (auto simp: Send_def enqueue_frame_def Let_def split: if_splits prod.splits)

lemma own_send [keeps_intros]: "keeps (own_only sid) (send sid mid tx)"
proof (rule keepsI)
  fix w show "own_only sid w (snd (run_state (send sid mid tx) w))"
    by (cases rule: run_send [of w sid mid tx])
      (auto simp: own_only_def option.rel_refl dest!: Send_identity)
qed

lemma own_close [keeps_intros]: "keeps (own_only sid) (close_session sid)"
  by (auto simp: keeps_def close_session_def own_only_def RequestClose_def option.rel_refl split: option.split prod.split)

lemma own_respond [keeps_intros]: "keeps (own_only sid) body \<Longrightarrow> keeps (own_only sid) (respond en sid mid body)"
  by (auto simp: respond_def intro!: keeps_intros)

lemma own_ReplyError [keeps_intros]: "keeps (own_only sid) (ReplyError en sid mid e)"
  by (auto simp: ReplyError_def intro!: keeps_intros)

lemma own_ai [keeps_intros]: "keeps (own_only sid) (ai_body en sid message)"
  unfolding ai_body_def by (intro keeps_intros) (auto intro!: keeps_intros split: ai_outcome.splits)

lemma malformed_bodies:
  assumes "parse_object en message = None"
  shows "login_body en sid message = fail ERROR_JSON JNull"
    and "create_body en sid message = fail ERROR_JSON JNull"
    and "join_body en rid sid resuming message = fail ERROR_JSON JNull"
    and "with_meeting_id en sid message f = fail ERROR_JSON JNull"
    and "chat_body en rid sid message = fail ERROR_JSON JNull"
    and "group_body en sid message = fail ERROR_JSON JNull"
    and "private_body en sid message = fail ERROR_JSON JNull"
    and "offer_body en sid message = fail ERROR_JSON JNull"
    and "candidate_body en sid message = fail ERROR_JSON JNull"
    and "MediaSignalResponseHandler en rid message = ret ()"
    and "MediaAnswerHandler en (Some sid) message = ret ()"
  by (simp_all add: assms login_body_def create_body_def join_body_def with_meeting_id_def chat_body_def
      group_body_def private_body_def offer_body_def media_fields_def candidate_body_def
      MediaSignalResponseHandler_def MediaAnswerHandler_def on_session_def)

lemma malformed_handler:
  assumes "parse_object en message = None"
    and "mid \<notin> {ID_PAST_MEETING_REQUEST, kDisconnected, kTimeout}"
  shows "keeps (own_only sid) (handler en rid sid mid message)"
  unfolding handler_def using assms(2)
  by (simp add: malformed_bodies [OF assms(1)] on_session_def LoginHandler_def AiAskHandler_def
      CreateMeetingHandler_def JoinMeeetingHandler_def StartMeetingHandler_def start_body_def
      LeaveMeetingHandler_def leave_body_def EndMeetingHandler_def end_body_def
      SendMeetingMessageHandler_def GetMeetingGroupMessagesHandler_def
      GetMeetingPrivateMessagesHandler_def MediaOfferHandler_def MediaCandidateHandler_def)
    (auto intro!: keeps_intros)

text \<open>The presence entry of uid after a resume that was reserved and finished without joining: it
  says joined to rid, unless it names another meeting (the count of joins in progress, a size_t, is as before).\<close>

definition marked_joined :: "int \<Rightarrow> u64 \<Rightarrow> (int \<Rightarrow> presence option) \<Rightarrow> int \<Rightarrow> presence option" where
  "marked_joined uid rid us =
     (case us uid of
        None \<Rightarrow> us(uid \<mapsto> \<lparr>up_meeting = rid, up_joining = 0, up_joined = True\<rparr>)
      | Some p \<Rightarrow> if up_meeting p = rid then us(uid \<mapsto> p\<lparr>up_joining := up_joining p mod 2 ^ 64, up_joined := True\<rparr>) else us)"

text \<open>A whole request changes nothing but the own connection's queue and closing: as own_only, for
  the rooms of meetings; with b the own presence entry may be marked.\<close>

definition own_request :: "bool \<Rightarrow> nat \<Rightarrow> 'r world \<Rightarrow> 'r world \<Rightarrow> bool" where
  "own_request b sid w w' \<longleftrightarrow>
     own_only sid w (w'\<lparr>w_rooms := w_rooms w, w_users := w_users w\<rparr>)
     \<and> (\<forall>r. r \<noteq> 0 \<longrightarrow> room_at r w' = room_at r w)
     \<and> (w_users w' = w_users w \<or> b \<and> w_users w' = marked_joined (uid_of sid w) (meeting_of sid w) (w_users w))"

lemma own_only_identity: "own_only sid w w' \<Longrightarrow> uid_of sid w' = uid_of sid w \<and> meeting_of sid w' = meeting_of sid w"
  by (cases "w_sessions w sid"; cases "w_sessions w' sid") (auto simp: own_only_def uid_of_def meeting_of_def sess_def)

lemma own_request_only: "own_only sid w w' \<Longrightarrow> own_request b sid w w'"
  by (simp add: own_request_def own_only_def room_at_def)

lemma own_request_identity: "own_request b sid w w' \<Longrightarrow> uid_of sid w' = uid_of sid w \<and> meeting_of sid w' = meeting_of sid w"
  by (auto simp: own_request_def dest!: own_only_identity) (simp_all add: uid_of_def meeting_of_def sess_def)

lemma own_request_trans:
  assumes "own_request b sid w w'" "own_request b sid w' w''"
  shows "own_request b sid w w''"
proof -
  have twice: "marked_joined u r (marked_joined u r us) = marked_joined u r us" for u r us
    by (auto simp: marked_joined_def split: option.split)
  have "own_only sid w (w''\<lparr>w_rooms := w_rooms w, w_users := w_users w\<rparr>)"
    using assms ow.R_trans [of sid w "w'\<lparr>w_rooms := w_rooms w, w_users := w_users w\<rparr>" "w''\<lparr>w_rooms := w_rooms w, w_users := w_users w\<rparr>"]
    by (simp add: own_request_def own_only_def)
  then show ?thesis using assms own_request_identity [OF assms(1)] twice by (auto simp: own_request_def)
qed

interpretation oq: basic_frame "own_request b sid" for b sid
proof
  fix w w' w'' :: "'a world"
  show "own_request b sid w w" by (rule own_request_only) (rule ow.R_refl)
  show "own_request b sid w w' \<Longrightarrow> own_request b sid w' w'' \<Longrightarrow> own_request b sid w w''" by (rule own_request_trans)
qed

lemma own_request_keeps: "keeps (own_only sid) m \<Longrightarrow> keeps (own_request b sid) m"
  by (auto simp: keeps_def intro: own_request_only)

lemma own_request_rooms:
  assumes "w_sessions w' = w_sessions w" "w_users w' = w_users w" "\<And>r. r \<noteq> 0 \<Longrightarrow> room_at r w' = room_at r w"
    "w'\<lparr>w_rooms := w_rooms w\<rparr> = w"
  shows "own_request b sid w w'"
proof -
  have "w'\<lparr>w_rooms := w_rooms w, w_users := w_users w\<rparr> = w" using assms(2,4) by (metis (lifting) world.update_convs(6) world.surjective)
  then show ?thesis using assms by (simp add: own_request_def own_only_def option.rel_refl)
qed

lemma size_sub_Suc: "size_sub (Suc n) (Suc 0) = n mod 2 ^ 64"
  by (simp add: size_sub_def nat_mod_distrib)

text \<open>Reserving and finishing without joining, with the meeting the connection is in.\<close>

lemma resume_marks:
  assumes "meeting_of sid w = rid" "ReserveUser (uid_of sid w) rid = State f" "f w = (True, w1)" "own_only sid w1 w2"
  shows "own_request True sid w (FinishJoin (uid_of sid w) rid (meeting_of sid w2 = rid) w2)"
proof -
  let ?uid = "uid_of sid w"
  let ?it = "case w_users w ?uid of Some p \<Rightarrow> p | None \<Rightarrow> \<lparr>up_meeting = rid, up_joining = 0, up_joined = False\<rparr>"
  have r: "up_meeting ?it = rid" "w1 = w\<lparr>w_users := (w_users w)(?uid \<mapsto> ?it\<lparr>up_joining := up_joining ?it + 1\<rparr>)\<rparr>"
    using assms(2,3) by (auto simp: ReserveUser_def Let_def split: if_splits)
  have m: "meeting_of sid w2 = rid" "w_users w2 = w_users w1"
    using own_only_identity [OF assms(4)] assms(1,4) r(2) by (simp_all add: own_only_def meeting_of_def sess_def)
  have u: "w_users (FinishJoin ?uid rid True w2) = marked_joined ?uid rid (w_users w)"
    using r m(2) by (auto simp: FinishJoin_def marked_joined_def Let_def size_sub_Suc split: option.splits)
  have "(FinishJoin ?uid rid True w2)\<lparr>w_users := us\<rparr> = w2\<lparr>w_users := us\<rparr>" for us
    by (simp add: FinishJoin_def Let_def split: option.split)
  then have "own_only sid w ((FinishJoin ?uid rid True w2)\<lparr>w_rooms := w_rooms w, w_users := w_users w\<rparr>)"
    using assms(4) r(2) by (simp add: own_only_def FinishJoin_def Let_def split: option.split)
  moreover have "room_at r (FinishJoin ?uid rid True w2) = room_at r w" for r
    using assms(4) r(2) by (simp add: own_only_def room_at_def FinishJoin_def Let_def split: option.split)
  ultimately show ?thesis using u m(1) assms(1) by (simp add: own_request_def)
qed

lemma Dispatch_malformed:
  assumes "parse_object en message = None" "mid \<notin> {ID_PAST_MEETING_REQUEST, kDisconnected, kTimeout, ID_JOIN_MEETING_REQUEST}"
    and "mid = ID_RESUME_MEETING_REQUEST \<Longrightarrow> meeting_of sid v = rid"
  shows "own_request (mid = ID_RESUME_MEETING_REQUEST) sid v (snd (run_state (Dispatch en rid sid mid message) v))"
proof -
  have h: "keeps (own_only sid) (handler en rid sid mid message)" using malformed_handler assms(1,2) by blast
  have n: "requested_meeting en message = None" by (simp add: requested_meeting_def assms(1))
  have e: "keeps (own_request b sid) (ReplyError en sid m er)" for b m er by (rule own_request_keeps [OF own_ReplyError])
  show ?thesis
  proof (cases "mid = ID_RESUME_MEETING_REQUEST")
    case False
    then have "dispatch_checked en rid sid mid message = handler en rid sid mid message"
      using assms(2) by (simp add: dispatch_checked_def dispatch_call_def n)
    then have "own_request False sid v (snd (run_state (dispatch_checked en rid sid mid message) v))"
      using keepsD [OF own_request_keeps [OF h], of False v] by simp
    then show ?thesis using False keepsD [OF e, of False v] assms(2)
      by (auto simp: Dispatch_def case_prod_beta oq.R_refl)
  next
    case True
    obtain ok w1 where r: "run_state (ReserveUser (uid_of sid v) rid) v = (ok, w1)" by fastforce
    have c: "own_request True sid v (snd (run_state (dispatch_call en rid sid mid message) v))"
    proof (cases ok)
      case ok: True
      let ?w2 = "snd (run_state (handler en rid sid mid message) w1)"
      have "own_only sid w1 ?w2" by (rule keepsD [OF h])
      from resume_marks [OF assms(3) [OF True] _ _ this, of "run_state (ReserveUser (uid_of sid v) rid)"]
      show ?thesis using r ok True by (simp add: dispatch_call_def case_prod_beta)
    next
      case False
      then have "w1 = v" using r by (auto simp: ReserveUser_def Let_def split: if_splits)
      then show ?thesis using r False True keepsD [OF e, of True v] by (simp add: dispatch_call_def case_prod_beta)
    qed
    show ?thesis using True c keepsD [OF e, of True v] oq.R_refl [of True sid v]
      by (auto simp: Dispatch_def dispatch_checked_def n handled_def case_prod_beta)
  qed
qed

lemma own_request_around:
  assumes "own_request b sid w w1" "own_request b sid w1 w2" "own_request b sid w2 w3"
  shows "own_request b sid w w3"
  using own_request_trans [OF own_request_trans [OF assms(1,2)] assms(3)] .

lemma route_to_malformed:
  assumes "\<And>v. meeting_of sid v = meeting_of sid w \<Longrightarrow> own_request b sid v (snd (run_state (Dispatch en rid sid mid message) v))"
  shows "own_request b sid w (snd (run_state (route_to en rid sid mid message) w))"
proof (cases "rid = 0")
  case True
  let ?v = "w\<lparr>w_rooms := (w_rooms w)(0 \<mapsto> Room_new)\<rparr>"
  let ?x = "snd (run_state (Dispatch en rid sid mid message) ?v)"
  have "own_request b sid w ?v" by (rule own_request_rooms) (simp_all add: room_at_def)
  moreover have "own_request b sid ?v ?x" by (rule assms) (simp add: meeting_of_def sess_def)
  moreover have "own_request b sid ?x (?x\<lparr>w_rooms := (w_rooms ?x)(0 := None)\<rparr>)"
    by (rule own_request_rooms) (simp_all add: room_at_def)
  ultimately have "own_request b sid w (?x\<lparr>w_rooms := (w_rooms ?x)(0 := None)\<rparr>)" by (rule own_request_around)
  then show ?thesis using True by (simp add: route_to_def ordinary_def case_prod_beta)
next
  case False
  let ?v = "set_room rid (\<lambda>r. r) w"
  let ?x = "snd (run_state (Dispatch en rid sid mid message) ?v)"
  have "own_request b sid w ?v" by (rule own_request_rooms) (simp_all add: set_room_def room_at_def)
  moreover have "own_request b sid ?v ?x" by (rule assms) (simp add: meeting_of_def sess_def)
  moreover have "own_request b sid ?x (drop_idle rid ?x)"
    by (rule own_request_rooms) (simp_all, simp add: drop_idle_def)
  ultimately have "own_request b sid w (drop_idle rid ?x)" by (rule own_request_around)
  then show ?thesis using False keepsD [OF own_request_keeps [OF own_ReplyError], of b sid w en mid ERROR_NETWORK]
    by (simp add: route_to_def SubmitRoom_def in_room_def case_prod_beta)
qed

text \<open>C18: A request that is not a JSON object changes nothing, from its arrival (Route) to its end.  For
  every request of a client but the history of meetings, which has no body, and in every state:
  the rooms of all meetings, the stores, the bindings, the media connection and all other
  connections are as they were, and so are the requester's user, meeting, token and binding; at most
  its own queue and closing changed, by an error response.  So is the table of presence, with one
  exception: a resume request marks the requester's entry as joined to the meeting its connection
  is in, unless the entry names another meeting.  For a member that is so already; for a connection
  outside any meeting it is meeting 0, the defect of resume_without_meeting_locks_out below.\<close>

theorem malformed_request_harmless:
  assumes "parse_object en message = None"
    and "mid \<notin> {ID_PAST_MEETING_REQUEST, kDisconnected, kTimeout}"
  shows "own_request (mid = ID_RESUME_MEETING_REQUEST) sid w (snd (run_state (Route en sid mid message) w))"
proof -
  have e: "own_request b sid w (snd (run_state (ReplyError en sid m er) w))" for b m er
    by (rule keepsD [OF own_request_keeps [OF own_ReplyError]])
  have j: "join_code en message = None" and n: "named_meeting en message = 0"
    by (simp_all add: join_code_def named_meeting_def assms(1))
  show ?thesis
  proof (cases "mid = ID_JOIN_MEETING_REQUEST")
    case True
    then show ?thesis using e oq.R_refl [of False sid w] by (simp add: Route_def route_join_def j)
  next
    case False
    have "own_request (mid = ID_RESUME_MEETING_REQUEST) sid w
        (snd (run_state (route_to en (meeting_of sid w) sid mid message) w))"
      by (rule route_to_malformed) (use Dispatch_malformed [OF assms(1)] assms(2) False in blast)
    then show ?thesis using False n oq.R_refl [of _ sid w] by (auto simp: Route_def)
  qed
qed

theorem malformed_request_harmless_witness:
  "own_request True 10 demo_joined (snd (run_state (Route demo_env 10 ID_RESUME_MEETING_REQUEST ''?'') demo_joined))
   \<and> marked_joined 1 5 (w_users demo_joined) = w_users demo_joined
   \<and> own_request False 10 demo_joined (snd (run_state (Route demo_env 10 ID_LEAVE_MEETING_REQUEST ''?'') demo_joined))"
proof -
  have p: "parse_object demo_env ''?'' = None" by (simp add: parse_object_def demo_env_fields demo_json_def)
  have "marked_joined 1 5 (w_users demo_joined) = w_users demo_joined" by (auto simp: marked_joined_def demo_joined_eq)
  then show ?thesis
    using malformed_request_harmless [OF p, of ID_RESUME_MEETING_REQUEST 10 demo_joined]
      malformed_request_harmless [OF p, of ID_LEAVE_MEETING_REQUEST 10 demo_joined] by simp
qed

text \<open>C19: A connection that another one of the same user has replaced in the room can do
  nothing there any more: until it joins or resumes, its requests leave rooms,
  presence, stores, bindings and all other connections unchanged.\<close>

theorem replaced_connection_refused:
  assumes "replaced rid sid w" "rid \<noteq> 0"
    and "mid \<notin> {ID_JOIN_MEETING_REQUEST, ID_RESUME_MEETING_REQUEST, kDisconnected}"
  shows "own_only sid w (snd (run_state (Dispatch en rid sid mid message) w))"
  using assms keepsD [OF own_ReplyError, of sid w en mid ERROR_MEETING_ACCESS] ow.R_refl [of sid w]
  by (auto simp: Dispatch_def)

text \<open>A second connection of user 1.\<close>

definition demo_second :: "redis_db world" where
  "demo_second = demo_joined\<lparr>w_sessions := (w_sessions demo_joined)(30 \<mapsto> demo_conn 30 1 ''t1'' 5 [])\<rparr>"

theorem replaced_connection_refused_witness:
  "own_only 30 demo_second (snd (run_state (Dispatch demo_env 5 30 ID_LEAVE_MEETING_REQUEST ''M'') demo_second))"
  by (rule replaced_connection_refused)
    (simp_all add: replaced_def demo_second_def demo_joined_eq member_at_def room_at_def uid_of_def
      sess_def demo_conn_def Session_new_def demo_member_def Membership_new_def lock_def alive_def)

section \<open>Private messages\<close>

text \<open>Only connections of the room whose user satisfies P change.\<close>

definition pushes :: "(int \<Rightarrow> bool) \<Rightarrow> u64 \<Rightarrow> 'r world \<Rightarrow> 'r world \<Rightarrow> bool" where
  "pushes P rid w w' \<longleftrightarrow> (\<forall>i. uid_of i w' = uid_of i w) \<and> listed rid w' \<subseteq> listed rid w
     \<and> (\<forall>i. w_sessions w' i \<noteq> w_sessions w i \<longrightarrow> i \<in> listed rid w \<and> P (uid_of i w))"

interpretation pu: store_frame "pushes P rid" for P rid
proof
  fix w w' w'' :: "'a world" and r d
  show "pushes P rid w w" by (simp add: pushes_def)
  show "pushes P rid w w' \<Longrightarrow> pushes P rid w' w'' \<Longrightarrow> pushes P rid w w''"
    unfolding pushes_def by (metis subsetD order_trans)
  show "pushes P rid w (w\<lparr>w_redis := r, w_db := d\<rparr>)"
    by (simp add: pushes_def uid_of_def sess_def listed_def)
qed

lemma send_uid: "uid_of i (snd (run_state (send sid mid tx) w)) = uid_of i w"
  by (cases rule: run_send [of w sid mid tx]) (auto simp: uid_of_def sess_def dest!: Send_identity)

lemma send_other: "i \<noteq> sid \<Longrightarrow> w_sessions (snd (run_state (send sid mid tx) w)) i = w_sessions w i"
  by (cases rule: run_send [of w sid mid tx]) auto

lemma push_to_changes:
  fixes w :: "'r world" and P mid tx
  defines "w' \<equiv> \<lambda>ids (w :: 'r world). snd (run_state (push_to (\<lambda>s. P (s_user_id s)) mid tx ids) w)"
  shows "uid_of i (w' ids w) = uid_of i w
    \<and> (w_sessions (w' ids w) i \<noteq> w_sessions w i \<longrightarrow> i \<in> set ids \<and> P (uid_of i w))"
proof (induction ids arbitrary: w)
  case Nil
  then show ?case by (simp add: w'_def)
next
  case (Cons j ids)
  let ?v = "snd (run_state (send j mid tx) w)"
  consider "\<not> alive j w" | "alive j w" "P (uid_of j w)" | "alive j w" "\<not> P (uid_of j w)" by blast
  then show ?case
  proof cases
    case 2
    then have "w' (j # ids) w = w' ids ?v"
      by (simp add: w'_def uid_of_def case_prod_beta)
    then show ?thesis using Cons [of ?v] 2 send_uid [of i j mid tx w] send_other [of i j mid tx w]
      by (cases "i = j") auto
  qed (use Cons [of w] in \<open>auto simp: w'_def uid_of_def case_prod_beta\<close>)
qed

lemma pushes_broadcast [keeps_intros]:
  "keeps (pushes P rid) (broadcast rid (\<lambda>s. P (s_user_id s)) mid tx)"
proof (rule keepsI)
  fix w :: "'a world"
  let ?ids = "rm_sessions (room_at rid w)"
  let ?p = "push_to (\<lambda>s. P (s_user_id s)) mid tx ?ids"
  have run: "snd (run_state (broadcast rid (\<lambda>s. P (s_user_id s)) mid tx) w)
      = set_room_sessions rid (\<lambda>_. filter (\<lambda>i. alive i w) ?ids) (snd (run_state ?p w))"
    by (simp add: broadcast_def case_prod_beta push_to_keep)
  show "pushes P rid w (snd (run_state (broadcast rid (\<lambda>s. P (s_user_id s)) mid tx) w))"
    using push_to_changes [of _ P mid tx ?ids w]
    by (auto simp: run pushes_def listed_def set_room_sessions_def uid_of_def sess_def)
qed

lemma chat_body_pushes:
  assumes "parse_object en message = Some req" "chat_fields req = Some cr"
  shows "pushes (\<lambda>u. \<not> cr_private cr \<or> u = uid_of sid w \<or> u = to_int32 (cr_target cr)) rid w
    (snd (run_state (chat_body en rid sid message) w))"
proof -
  let ?P = "\<lambda>u. \<not> cr_private cr \<or> u = uid_of sid w \<or> u = to_int32 (cr_target cr)"
  have send: "keeps (pushes ?P rid) (chat_send en rid cr ack meeting (uid_of sid w))" for ack meeting
    unfolding chat_send_def chat_store_def chat_receives_def Let_def
    by (intro keeps_intros pushes_broadcast [of ?P])
  show ?thesis
  proof (cases "chat_shape_ok req \<and> uid_of sid w > 0 \<and> meeting_id_text (cr_meeting_text cr) = Some (meeting_of sid w)")
    case True
    then show ?thesis
      using keepsD [OF send] by (simp add: chat_body_def assms)
  next
    case False
    then show ?thesis using pu.R_refl [of ?P rid w]
      by (auto simp: chat_body_def assms fail_def split: option.split)
  qed
qed

text \<open>C20: A private message is private: sending one leaves every connection other than the
  sender's untouched unless it is a connection of that room whose user is the sender (the
  user of the session, whatever the message claims) or the named target.\<close>

theorem private_message_confidential:
  assumes "parse_object en message = Some req" "chat_fields req = Some cr" "cr_private cr"
    and "i \<noteq> sid" "uid_of i w \<noteq> uid_of sid w" "uid_of i w \<noteq> to_int32 (cr_target cr)"
  shows "w_sessions (snd (run_state (SendMeetingMessageHandler en rid (Some sid) message) w)) i = w_sessions w i"
proof -
  let ?v = "snd (run_state (chat_body en rid sid message) w)"
  have "w_sessions ?v i = w_sessions w i"
    using chat_body_pushes [OF assms(1,2), of sid w rid] assms(3,5,6) unfolding pushes_def by metis
  then show ?thesis
    using assms(4) by (simp add: SendMeetingMessageHandler_def on_session_def respond_def case_prod_beta
        send_other split: option.split)
qed

text \<open>User 2 sends a private message to user 2; the connection of user 1 gets nothing.\<close>

theorem private_message_confidential_witness:
  "w_sessions (snd (run_state (SendMeetingMessageHandler demo_env 5 (Some 20) ''P'') demo_joined)) 10
     = w_sessions demo_joined 10
   \<and> w_sessions (snd (run_state (SendMeetingMessageHandler demo_env 5 (Some 20) ''P'') demo_joined)) 20
     \<noteq> w_sessions demo_joined 20"
proof
  let ?req = "JObject [(''meeting_id'', JString ''5''), (''chat_type'', JString ''private''), (''content'', JString ''hi''),
         (''client_msg_id'', JString ''c1''), (''target_user_id'', JInt 2)]"
  have p: "parse_object demo_env ''P'' = Some ?req"
    by (simp add: parse_object_def demo_env_fields demo_json_def)
  have c: "chat_fields ?req = Some \<lparr>cr_meeting_text = ''5'', cr_private = True, cr_content = ''hi'',
      cr_client_msg_id = ''c1'', cr_target = 2\<rparr>"
    by (simp add: chat_fields_def str_field_def private_target_def)
  show "w_sessions (snd (run_state (SendMeetingMessageHandler demo_env 5 (Some 20) ''P'') demo_joined)) 10
     = w_sessions demo_joined 10"
    by (rule private_message_confidential [OF p c])
      (simp_all add: uid_of_def sess_def demo_joined_sessions demo_conn_def Session_new_def demo_narrow)
  show "w_sessions (snd (run_state (SendMeetingMessageHandler demo_env 5 (Some 20) ''P'') demo_joined)) 20
     \<noteq> w_sessions demo_joined 20"
    by (simp add: demo_joined_eq demo_eval eval_chat demo_state cong: bind_stop)
qed

section \<open>Resuming\<close>

lemma run_fail [simp]: "run_state (fail e v) w = (Reply (jset ''error'' (JInt (code e)) v), w)"
  by (simp add: fail_def)

lemma join_resume_refused:
  assumes "\<And>q ticket known m. resume_fields req = Some (q, ticket, known) \<Longrightarrow>
      member_at (jc_rid c) (jc_uid c) w = Some m \<Longrightarrow>
      \<not> may_resume en ticket (s_auth_token (sess (jc_sid c) w)) q known m"
  shows "snd (run_state (join_resume en req c) w) = w"
  using assms by (auto simp: join_resume_def Let_def split: option.split)

lemma join_meeting_refused:
  assumes "\<And>q ticket known m. resume_fields req = Some (q, ticket, known) \<Longrightarrow>
      member_at rid uid w = Some m \<Longrightarrow> \<not> may_resume en ticket (s_auth_token (sess sid w)) q known m"
  shows "snd (run_state (join_meeting en rid sid True req uid) w)
    = w\<lparr>w_db := snd (GetMeetingInfoById rid (w_db w))\<rparr>"
proof -
  let ?w = "w\<lparr>w_db := snd (GetMeetingInfoById rid (w_db w))\<rparr>"
  have "snd (run_state (join_resume en req c) ?w) = ?w"
    if "jc_rid c = rid" "jc_uid c = uid" "jc_sid c = sid" for c
    using assms that by (intro join_resume_refused) (auto simp: member_at_def sess_def)
  then show ?thesis
    by (simp add: join_meeting_def join_info_def Let_def run_mysql case_prod_beta split: option.split)
qed

lemma GetMeetingInfoById_tables: "tables (snd (GetMeetingInfoById i d)) = tables d"
  using query_tables [of "find_meeting i" d]
  by (cases "query (find_meeting i) d")
    (auto simp: GetMeetingInfoById_def split: sum.split option.split)

text \<open>C16: Nobody takes over a membership without its credentials: a resume request whose
  ticket, login session, grace period or generation does not agree with the member's
  changes no room, no presence, no stored data and no other connection, and the
  requester stays in the meeting it was in.\<close>

theorem resume_needs_credentials:
  fixes w :: "'r world"
  assumes "\<And>req q ticket known m. parse_object en message = Some req \<Longrightarrow>
      resume_fields req = Some (q, ticket, known) \<Longrightarrow> member_at rid (uid_of sid w) w = Some m \<Longrightarrow>
      \<not> (mb_ticket m = ticket \<and> s_auth_token (sess sid w) \<noteq> [] \<and> mb_auth_token m = s_auth_token (sess sid w)
        \<and> (mb_deadline m = 0 \<or> en_steady en < mb_deadline m)
        \<and> (mb_generation m = known \<or> known < mb_generation m \<and> mb_last_request m = q))"
  defines "w' \<equiv> snd (run_state (JoinMeeetingHandler en rid (Some sid) True message) w)"
  shows "w_rooms w' = w_rooms w \<and> w_users w' = w_users w \<and> w_redis w' = w_redis w
    \<and> tables (w_db w') = tables (w_db w) \<and> w_signals w' = w_signals w
    \<and> (\<forall>i. i \<noteq> sid \<longrightarrow> w_sessions w' i = w_sessions w i) \<and> meeting_of sid w' = meeting_of sid w"
proof -
  let ?b = "join_body en rid sid True message"
  let ?v = "snd (run_state ?b w)"
  let ?rest = "\<lambda>r. case deferred r of
       None \<Rightarrow> ret ()
     | Some v \<Rightarrow> do {
         ok \<leftarrow> send sid ID_RESUME_MEETING_RESPONSE (en_styled en v);
         if ok then ret () else close_session sid
       }"
  have v: "\<exists>d. ?v = w\<lparr>w_db := d\<rparr> \<and> tables d = tables (w_db w)"
  proof (cases rule: join_body_cases [of en rid sid True message w])
    case (stop v)
    then show ?thesis by (intro exI [of _ "w_db w"]) simp
  next
    case (meeting req)
    have "\<not> may_resume en ticket (s_auth_token (sess sid w)) q known m"
      if "parse_object en message = Some req" "resume_fields req = Some (q, ticket, known)" "member_at rid (uid_of sid w) w = Some m"
      for q ticket known m
      using assms(1) [OF that] unfolding may_resume_def by (metis linorder_not_le)
    then show ?thesis using meeting join_meeting_refused [of req rid "uid_of sid w" w en sid]
      by (auto simp: GetMeetingInfoById_tables)
  qed
  have "keeps (own_only sid) (?rest r)" for r by (intro keeps_intros)
  then have "own_only sid ?v w'"
    unfolding w'_def JoinMeeetingHandler_def on_session_def option.case snd_bind if_True by (rule keepsD)
  moreover from this have "meeting_of sid w' = meeting_of sid ?v"
    by (auto simp: own_only_def meeting_of_def sess_def elim!: option.rel_cases)
  ultimately show ?thesis using v by (auto simp: own_only_def meeting_of_def sess_def)
qed

text \<open>With the right user, login session and generation, but another ticket.\<close>

definition guess_env :: "redis_db env" where
  "guess_env = demo_env\<lparr>en_parse := (\<lambda>_. Some (JObject [(''request_id'', JString ''q''),
     (''resume_ticket'', JString ''guess''), (''membership_generation'', JString ''1'')]))\<rparr>"

theorem resume_needs_credentials_witness:
  "w_rooms (snd (run_state (JoinMeeetingHandler guess_env 5 (Some 30) True ''R'') demo_second)) = w_rooms demo_second"
proof (rule resume_needs_credentials [THEN conjunct1])
  fix req q ticket known m
  assume a: "parse_object guess_env ''R'' = Some req" "resume_fields req = Some (q, ticket, known)"
    "member_at 5 (uid_of 30 demo_second) demo_second = Some m"
  then have "ticket = ''guess''"
    by (auto simp: guess_env_def parse_object_def resume_fields_def has_string_def str_field_def split: if_splits option.splits)
  moreover have "mb_ticket m = demo_ticket"
    using a(3) by (auto simp: demo_second_def demo_joined_eq member_at_def room_at_def uid_of_def sess_def demo_conn_def demo_member_def)
  moreover have "demo_ticket \<noteq> ''guess''"
    by (simp add: demo_ticket_def numeral_eq_Suc)
  ultimately show "\<not> (mb_ticket m = ticket \<and> s_auth_token (sess 30 demo_second) \<noteq> [] \<and> mb_auth_token m = s_auth_token (sess 30 demo_second)
      \<and> (mb_deadline m = 0 \<or> en_steady guess_env < mb_deadline m)
      \<and> (mb_generation m = known \<or> known < mb_generation m \<and> mb_last_request m = q))" by simp
qed

section \<open>A resume request that names no meeting\<close>

text \<open>A resume request without a meeting id locks its user out.  Sent by a connection
  outside any meeting it is dispatched with meeting 0, and the presence table registers
  the user as joined to meeting 0, although the request is refused; from then on
  every join to a real meeting is refused as long as that entry stands.\<close>

theorem resume_without_meeting_locks_out:
  assumes "logic_reach w" "open_at sid w" "meeting_of sid w = 0"
    and "w_users w (uid_of sid w) = None" "named_meeting en message = 0" "\<not> en_pool_busy en"
  shows "\<exists>p. w_users (snd (run_state (Route en sid ID_RESUME_MEETING_REQUEST message) w)) (uid_of sid w) = Some p
    \<and> up_meeting p = 0 \<and> up_joined p
    \<and> (\<forall>v rid. w_users v (uid_of sid w) = Some p \<and> rid \<noteq> 0 \<longrightarrow> run_state (ReserveUser (uid_of sid w) rid) v = (False, v))"
proof -
  let ?uid = "uid_of sid w"
  let ?h = "handler en 0 sid ID_RESUME_MEETING_REQUEST message"
  let ?v = "w\<lparr>w_rooms := (w_rooms w)(0 \<mapsto> Room_new)\<rparr>"
  let ?p = "\<lparr>up_meeting = 0, up_joining = Suc 0, up_joined = False\<rparr>"
  let ?u = "?v\<lparr>w_users := (w_users w)(?uid \<mapsto> ?p)\<rparr>"
  let ?x = "snd (run_state ?h ?u)"
  have i0: "inv w" by (rule logic_reach_inv [OF assms(1)])
  have v: "inv ?v"
    by (rule inv_rooms [OF inv_inv_at [OF i0, of 0]]) (auto simp: room_at_def listed_def Room_new_def)
  then have u: "inv ?u" using assms(4) by (intro inv_users [OF v]) auto
  have opn: "open_at sid ?u" "meeting_of sid ?u = 0" "uid_of sid ?u = ?uid"
    using assms(2,3) by (simp_all add: open_at_def alive_def sess_def meeting_of_def uid_of_def)
  then have "join_ready 0 sid ?u" using u by (simp add: join_ready_def)
  then have x: "moves {} ?u ?x \<or> admitted 0 ?uid sid ?u ?x"
    using respond_join [of 0 sid ?u en True message] opn(3) by (simp add: join_ids)
  then have xm: "meeting_of sid ?x = 0" and xu: "w_users ?x = (w_users w)(?uid \<mapsto> ?p)"
    using moves_session(2) [of "{}" ?u ?x sid] opn(2) moves_users [of "{}" ?u ?x] by (auto simp: admitted_def)
  let ?q = "\<lparr>up_meeting = 0, up_joining = 0, up_joined = True\<rparr> :: presence"
  have f: "w_users (FinishJoin ?uid 0 (meeting_of sid ?x = 0) ?x) ?uid = Some ?q"
    by (simp add: FinishJoin_def xm xu Let_def)
  have r: "run_state (ReserveUser ?uid 0) ?v = (True, ?u)"
    using assms(4) by (simp add: ReserveUser_def Let_def)
  have res: "snd (run_state (Dispatch en 0 sid ID_RESUME_MEETING_REQUEST message) ?v)
      = FinishJoin ?uid 0 (meeting_of sid ?x = 0) ?x"
    using assms(2,6) r
    by (simp add: Dispatch_def handled_def dispatch_checked_def dispatch_call_def case_prod_beta
        open_at_def uid_of_def sess_def alive_def)
  have "w_users (snd (run_state (Route en sid ID_RESUME_MEETING_REQUEST message) w)) ?uid = Some ?q"
    using assms(2,3,5) f
    by (simp add: Route_def no_meeting_needed_def route_to_def ordinary_def case_prod_beta res open_at_def)
  then show ?thesis
    by (intro exI [of _ ?q]) (simp add: ReserveUser_def Let_def)
qed

theorem resume_without_meeting_locks_out_witness:
  "\<exists>p. w_users (snd (run_state (Route demo_env 10 ID_RESUME_MEETING_REQUEST ''R'') demo_logged_in)) 1 = Some p
    \<and> up_meeting p = 0 \<and> up_joined p
    \<and> (\<forall>v rid. w_users v 1 = Some p \<and> rid \<noteq> 0 \<longrightarrow> run_state (ReserveUser 1 rid) v = (False, v))"
proof -
  have s: "uid_of 10 demo_logged_in = 1" "open_at 10 demo_logged_in" "meeting_of 10 demo_logged_in = 0"
    "w_users demo_logged_in 1 = None"
    by (simp_all add: demo_logged_in_eq demo_start_def uid_of_def open_at_def meeting_of_def alive_def sess_def
        demo_conn_def Session_new_def IsClosed_def)
  show ?thesis
    by (rule resume_without_meeting_locks_out [where sid = 10 and w = demo_logged_in, unfolded s(1)])
      (simp_all add: s demo_logged_in_reach demo_env_fields named_meeting_def parse_object_def demo_json_def
        is_uint64_def)
qed

end
