(* ===== verification/LifeProps.thy ===== *)
theory LifeProps
  imports Isolation
begin

text \<open>
  What leaving, ending, losing a connection and expiring do to a meeting.
\<close>

section \<open>Steps on the stores only\<close>

definition store_only :: "'r world \<Rightarrow> 'r world \<Rightarrow> bool" where
  "store_only w w' \<longleftrightarrow> w_sessions w' = w_sessions w \<and> w_rooms w' = w_rooms w \<and> w_users w' = w_users w
     \<and> w_signals w' = w_signals w \<and> w_media w' = w_media w \<and> w_media_epoch w' = w_media_epoch w"

interpretation so: store_frame store_only
  by unfold_locales (simp_all add: store_only_def)

lemma keepsSO: "keeps store_only m \<Longrightarrow> store_only w (snd (run_state m w))"
  by (simp add: keeps_def)

lemma store_only_local:
  assumes "store_only w w'"
  shows "member_at r u w' = member_at r u w" "listed r w' = listed r w" "room_at r w' = room_at r w"
    "meeting_of i w' = meeting_of i w" "uid_of i w' = uid_of i w" "alive i w' = alive i w" "sess i w' = sess i w"
  using assms
  by (simp_all add: store_only_def member_at_def listed_def room_at_def meeting_of_def uid_of_def alive_def sess_def)

lemma code_SUCCESS: "(code e = code SUCCESS) = (e = SUCCESS)"
  by (cases e) simp_all

lemma code_zero [simp]: "(code e = 0) = (e = SUCCESS)"
  using code_SUCCESS [of e] by simp

lemma jget_error [simp]: "jget (jset ''error'' v JNull) ''error'' = v"
  by simp

section \<open>Leaving\<close>

text \<open>One Send of a session changes it from s to s'.\<close>

definition told :: "u16 \<Rightarrow> string \<Rightarrow> session \<Rightarrow> session \<Rightarrow> bool" where
  "told mid tx s s' \<longleftrightarrow> (\<exists>k. s' = fst (snd (Send mid tx (s, Some k))))"

text \<open>Every connection has been sent the text n i times.\<close>

definition notified :: "u16 \<Rightarrow> string \<Rightarrow> (nat \<Rightarrow> nat) \<Rightarrow> (nat \<Rightarrow> session option) \<Rightarrow> (nat \<Rightarrow> session option) \<Rightarrow> bool" where
  "notified mid tx n a b \<longleftrightarrow> (\<forall>i. rel_option (told mid tx ^^ n i) (a i) (b i))"

lemma told_identity: "told mid tx s s' \<Longrightarrow> s_user_id s' = s_user_id s \<and> s_meeting_id s' = s_meeting_id s"
  by (auto simp: told_def Send_def enqueue_frame_def Let_def split: prod.splits)

lemma told_times: "(told mid tx ^^ n) s s' \<Longrightarrow> s_user_id s' = s_user_id s \<and> s_meeting_id s' = s_meeting_id s"
  by (induction n arbitrary: s') (auto dest: told_identity)

lemma send_told:
  "rel_option (told mid tx ^^ (if i = j then 1 else 0)) (w_sessions w i) (w_sessions (snd (run_state (send j mid tx) w)) i)"
proof (cases rule: run_send [of w j mid tx])
  case (sent s ok s' k)
  moreover have "told mid tx s s'" unfolding told_def by (rule exI [of _ "w_wake w"]) (simp add: sent(2))
  ultimately show ?thesis by (auto simp: option.rel_refl)
qed (simp add: option.rel_refl)

lemma notified_refl: "(\<And>i. n i = 0) \<Longrightarrow> notified mid tx n a a"
  by (simp add: notified_def option.rel_refl)

lemma notified_user: "notified mid tx n (w_sessions w) (w_sessions w') \<Longrightarrow> uid_of i w' = uid_of i w"
  unfolding notified_def uid_of_def sess_def
  by (drule spec [of _ i], cases "w_sessions w i"; cases "w_sessions w' i") (auto dest: told_times)

lemma notified_meeting: "notified mid tx n (w_sessions w) (w_sessions w') \<Longrightarrow> meeting_of i w' = meeting_of i w"
  unfolding notified_def meeting_of_def sess_def
  by (drule spec [of _ i], cases "w_sessions w i"; cases "w_sessions w' i") (auto dest: told_times)

lemma notified_trans:
  assumes "notified mid tx m a b" "notified mid tx n b c" "\<And>i. k i = m i + n i"
  shows "notified mid tx k a c"
  using assms unfolding notified_def
  by (auto simp: relpowp_add option.rel_compp)

lemma push_to_told:
  "notified mid tx (\<lambda>i. if P (uid_of i w) then count_list (filter (\<lambda>j. alive j w) ids) i else 0)
     (w_sessions w) (w_sessions (snd (run_state (push_to (\<lambda>s. P (s_user_id s)) mid tx ids) w)))"
proof (induction ids arbitrary: w)
  case (Cons j ids)
  let ?v = "snd (run_state (send j mid tx) w)"
  show ?case
  proof (cases "alive j w \<and> P (uid_of j w)")
    case True
    have n: "notified mid tx (\<lambda>i. if i = j then 1 else 0) (w_sessions w) (w_sessions ?v)"
      unfolding notified_def using send_told by blast
    have "snd (run_state (push_to (\<lambda>s. P (s_user_id s)) mid tx (j # ids)) w)
        = snd (run_state (push_to (\<lambda>s. P (s_user_id s)) mid tx ids) ?v)"
      using True by (simp add: uid_of_def case_prod_beta)
    then show ?thesis using notified_trans [OF n Cons [of ?v]] True by (auto simp: notified_user [OF n])
  next
    case False
    then have "snd (run_state (push_to (\<lambda>s. P (s_user_id s)) mid tx (j # ids)) w)
        = snd (run_state (push_to (\<lambda>s. P (s_user_id s)) mid tx ids) w)"
      by (auto simp: uid_of_def case_prod_beta)
    moreover have "(if P (uid_of i w) then count_list (filter (\<lambda>j. alive j w) (j # ids)) i else 0)
        = (if P (uid_of i w) then count_list (filter (\<lambda>j. alive j w) ids) i else 0)" for i
      using False by auto
    ultimately show ?thesis using Cons [of w] by simp
  qed
qed (simp add: notified_refl)

definition left_text :: "'r env \<Rightarrow> u64 \<Rightarrow> int \<Rightarrow> int \<Rightarrow> string" where
  "left_text en meeting uid n = en_styled en (jobj [(''meeting_id'', jid meeting), (''user_id'', JInt uid),
     (''current_participants'', JInt n)])"

text \<open>The connections that stay on the list, and how often each is told that uid has left.\<close>

definition staying :: "nat \<Rightarrow> u64 \<Rightarrow> 'r world \<Rightarrow> nat list" where
  "staying sid rid w = filter (\<lambda>i. i \<noteq> sid \<and> alive i w) (rm_sessions (room_at rid w))"

definition told_times_left :: "nat \<Rightarrow> u64 \<Rightarrow> int \<Rightarrow> 'r world \<Rightarrow> nat \<Rightarrow> nat" where
  "told_times_left sid rid uid w i = (if uid_of i w \<noteq> uid then count_list (staying sid rid w) i else 0)"

lemma leave_notify_effects:
  fixes w :: "'r world" and en rid sid meeting uid
  defines "v \<equiv> snd (run_state (leave_notify en rid sid meeting uid) w)"
  shows "rm_sessions (room_at rid v) = staying sid rid w" "r \<noteq> rid \<Longrightarrow> room_at r v = room_at r w"
    "\<exists>n. notified ID_MEETING_MEMBER_LEFT (left_text en meeting uid n) (told_times_left sid rid uid w) (w_sessions w) (w_sessions v)"
proof -
  have "rm_sessions (room_at rid v) = staying sid rid w \<and> (r \<noteq> rid \<longrightarrow> room_at r v = room_at r w) \<and>
    (\<exists>n. notified ID_MEETING_MEMBER_LEFT (left_text en meeting uid n) (told_times_left sid rid uid w) (w_sessions w) (w_sessions v))"
  proof (cases "rm_sessions (room_at rid w) = []")
    case True
    have "v = w" "staying sid rid w = []" using True by (simp_all add: v_def leave_notify_def staying_def)
    then have "notified mid tx (told_times_left sid rid uid w) (w_sessions w) (w_sessions v)" for mid tx
      by (auto simp: told_times_left_def intro: notified_refl)
    then show ?thesis using \<open>v = w\<close> \<open>staying sid rid w = []\<close> True by simp
  next
    case False
    define w1 where "w1 = snd (run_state (drop_sessions rid (\<lambda>i _. i = sid)) w)"
    obtain n w2 where r2: "run_state (redis (SCard (en_redis en) (RoomMembersKey meeting))) w1 = (n, w2)" by fastforce
    define w3 where "w3 = snd (run_state (push_to (\<lambda>s. s_user_id s \<noteq> uid) ID_MEETING_MEMBER_LEFT (left_text en meeting uid n)
      (staying sid rid w)) w2)"
    have s1: "w_sessions w1 = w_sessions w" "rm_sessions (room_at rid w1) = staying sid rid w"
      "r \<noteq> rid \<Longrightarrow> room_at r w1 = room_at r w"
      by (simp_all add: w1_def drop_sessions_def set_room_sessions_def set_room_def room_at_def staying_def conj_commute)
    have s2: "w_sessions w2 = w_sessions w" "w_rooms w2 = w_rooms w1" using r2 s1 by (auto simp: run_redis)
    have same: "alive i w2 = alive i w" "uid_of i w2 = uid_of i w" for i using s2 by (simp_all add: alive_def uid_of_def sess_def)
    have stay: "filter (\<lambda>i. alive i w2) (staying sid rid w) = staying sid rid w" by (auto simp: staying_def same filter_id_conv)
    have v: "v = set_room_sessions rid (\<lambda>_. staying sid rid w) w3"
      using False s1(2) room_at_cong [OF s2(2), of rid] push_to_keep(1) [of _ _ _ "staying sid rid w" w2]
      by (simp add: v_def leave_notify_def broadcast_def case_prod_beta w1_def [symmetric] r2 left_text_def w3_def stay)
    have rooms: "w_rooms w3 = w_rooms w1" unfolding w3_def push_to_keep s2(2) ..
    have "notified ID_MEETING_MEMBER_LEFT (left_text en meeting uid n) (told_times_left sid rid uid w) (w_sessions w) (w_sessions w3)"
      using push_to_told [of ID_MEETING_MEMBER_LEFT "left_text en meeting uid n" "\<lambda>u. u \<noteq> uid" w2 "staying sid rid w"]
      unfolding w3_def told_times_left_def [abs_def] same(2) s2(1) stay .
    then show ?thesis using s1(3) room_at_cong [OF rooms] by (auto simp: v set_room_sessions_def set_room_def room_at_def)
  qed
  then show "rm_sessions (room_at rid v) = staying sid rid w" "r \<noteq> rid \<Longrightarrow> room_at r v = room_at r w"
    "\<exists>n. notified ID_MEETING_MEMBER_LEFT (left_text en meeting uid n) (told_times_left sid rid uid w) (w_sessions w) (w_sessions v)"
    by blast+
qed

lemma ReleaseMediaSession_local:
  "w_rooms (snd (run_state (ReleaseMediaSession en sid) w)) = w_rooms w"
  "i \<noteq> sid \<Longrightarrow> w_sessions (snd (run_state (ReleaseMediaSession en sid) w)) i = w_sessions w i"
  by (simp_all add: ReleaseMediaSession_def case_prod_beta set_sess_def RemoveSignal_def SendMediaSignal_def)

text \<open>The states of a leave that succeeds: the Redis records are gone (w1), the others are told (w2),
  the media session is released (w3), and the member is erased (w').\<close>

lemma leave_commit_cases:
  assumes "run_state (leave_commit en rid sid rid uid) w = (Reply v, w')"
  obtains (failed) "jget v ''error'' \<noteq> JInt 0" "store_only w w'"
  | (left) w1 w2 w3 where "jget v ''error'' = JInt 0" "store_only w w1"
      "w2 = snd (run_state (leave_notify en rid sid rid uid) w1)" "w3 = snd (run_state (ReleaseMediaSession en sid) w2)"
      "w' = set_sess sid (SetMeetingId 0) (ReleaseUser uid rid (set_member rid uid None w3))"
proof -
  obtain ok w1 where r1: "run_state (leave_redis en rid uid) w = (ok, w1)" by fastforce
  have s1: "store_only w w1" using keepsSO [OF so.k_leave_redis, of w en rid uid] by (simp add: r1)
  show thesis
  proof (cases ok)
    case True
    then show thesis using assms s1
      by (intro left [of w1]) (auto simp: leave_commit_def erase_member_def r1 case_prod_beta jobj_def)
  qed (use assms s1 in \<open>auto simp: leave_commit_def r1 fail_def intro!: failed\<close>)
qed

lemma leave_commit_rooms:
  assumes "store_only w w1" "w2 = snd (run_state (leave_notify en rid sid rid uid) w1)"
    "w3 = snd (run_state (ReleaseMediaSession en sid) w2)"
    "w' = set_sess sid (SetMeetingId 0) (ReleaseUser uid rid (set_member rid uid None w3))"
  shows "rm_sessions (room_at rid w') = staying sid rid w" "r \<noteq> rid \<Longrightarrow> room_at r w' = room_at r w"
    "\<exists>n. notified ID_MEETING_MEMBER_LEFT (left_text en rid uid n) (told_times_left sid rid uid w)
        ((w_sessions w)(sid := None)) ((w_sessions w')(sid := None))"
proof -
  note nt = leave_notify_effects [where en = en and rid = rid and sid = sid and meeting = rid and uid = uid and w = w1,
      folded assms(2)]
  have st: "staying sid rid w1 = staying sid rid w" using store_only_local [OF assms(1)] by (simp add: staying_def)
  then have st': "told_times_left sid rid uid w1 = told_times_left sid rid uid w"
    using store_only_local [OF assms(1)] by (auto simp: told_times_left_def fun_eq_iff)
  have w3: "room_at r w3 = room_at r w2" for r
    by (rule room_at_cong) (simp add: assms(3) ReleaseMediaSession_local)
  have rooms: "r \<noteq> rid \<Longrightarrow> room_at r w' = room_at r w3" "rm_sessions (room_at rid w') = rm_sessions (room_at rid w3)" for r
    by (simp_all add: assms(4) set_sess_def set_member_def set_room_def room_at_def ReleaseUser_def split: option.split)
  show "rm_sessions (room_at rid w') = staying sid rid w" using rooms(2) w3 nt(1) st by simp
  show "room_at r w' = room_at r w" if "r \<noteq> rid"
    using rooms(1) [OF that] w3 [of r] nt(2) [OF that] store_only_local(3) [OF assms(1)] by simp
  have "(w_sessions w')(sid := None) = (w_sessions w2)(sid := None)"
    using ReleaseMediaSession_local(2) [of _ sid en w2]
    by (auto simp: assms(3,4) set_sess_def ReleaseUser_def set_member_def set_room_def split: option.split)
  then show "\<exists>n. notified ID_MEETING_MEMBER_LEFT (left_text en rid uid n) (told_times_left sid rid uid w)
      ((w_sessions w)(sid := None)) ((w_sessions w')(sid := None))"
    using nt(3) assms(1) by (auto simp: st' store_only_def notified_def)
qed

lemma leave_commit_effects:
  assumes "run_state (leave_commit en rid sid rid uid) w = (Reply v, w')"
  shows "if jget v ''error'' = JInt 0
    then member_at rid uid w' = None \<and> sid \<notin> listed rid w' \<and> (alive sid w \<longrightarrow> meeting_of sid w' = 0)
      \<and> (\<forall>p. w_users w' uid = Some p \<longrightarrow> up_meeting p \<noteq> rid)
      \<and> (\<forall>r u. (r, u) \<noteq> (rid, uid) \<longrightarrow> member_at r u w' = member_at r u w)
      \<and> (\<forall>u. u \<noteq> uid \<longrightarrow> w_users w' u = w_users w u)
      \<and> (\<forall>i. i \<noteq> sid \<longrightarrow> meeting_of i w' = meeting_of i w)
      \<and> rm_sessions (room_at rid w') = staying sid rid w
      \<and> (\<forall>r. r \<noteq> rid \<longrightarrow> room_at r w' = room_at r w)
      \<and> (\<exists>n. notified ID_MEETING_MEMBER_LEFT (left_text en rid uid n) (told_times_left sid rid uid w)
            ((w_sessions w)(sid := None)) ((w_sessions w')(sid := None)))
    else store_only w w'"
  using assms
proof (cases rule: leave_commit_cases)
  case (left w1 w2 w3)
  note l = leave_commit_rooms [OF left(2-5)]
  have "moves {} w1 w2" "moves {} w2 w3" unfolding left(3,4) by (intro keepsM keeps_intros)+
  then have m: "moves {} w1 w3" by (rule moves_trans)
  have us: "w_users w3 = w_users w" using moves_users [OF m] left(2) by (simp add: store_only_def)
  have mem: "member_at r u w' = (if r = rid \<and> u = uid then None else member_at r u w)" for r u
    using moves_member [OF m, of r u] store_only_local(1) [OF left(2), of r u]
    by (simp add: left(5) set_sess_def member_rooms [of "ReleaseUser uid rid (set_member rid uid None w3)" "set_member rid uid None w3"]
        member_rooms [of "w\<lparr>w_sessions := s\<rparr>" w for w s])
  have mt: "i \<noteq> sid \<Longrightarrow> meeting_of i w' = meeting_of i w" for i
    using moves_session(2) [OF m, of i] store_only_local(4) [OF left(2), of i]
    by (simp add: left(5) set_sess_def meeting_of_def sess_def)
  have "alive sid w \<Longrightarrow> alive sid w3" using moves_session(1) [OF m] store_only_local(6) [OF left(2)] by simp
  then have "alive sid w \<longrightarrow> meeting_of sid w' = 0"
    by (auto simp: left(5) set_sess_def meeting_of_def sess_def alive_def SetMeetingId_def)
  moreover have "\<forall>p. w_users w' uid = Some p \<longrightarrow> up_meeting p \<noteq> rid" "\<forall>u. u \<noteq> uid \<longrightarrow> w_users w' u = w_users w u"
    by (auto simp: left(5) set_sess_def ReleaseUser_def us split: option.split)
  moreover have "sid \<notin> listed rid w'" by (simp add: listed_def l(1) staying_def)
  ultimately show ?thesis using left(1) l mt by (simp add: mem)
qed simp

lemma leave_elsewhere_effects:
  assumes "run_state (leave_elsewhere meeting) w = (Reply v, w')"
  shows "store_only w w'" "jget v ''error'' = JInt 0 \<longleftrightarrow>
    (\<exists>mi. fst (fst (GetMeetingInfoById meeting (w_db w))) = Some mi \<and> mi_status mi = Ended)"
  using assms by (auto simp: leave_elsewhere_def run_mysql case_prod_beta fail_def store_only_def jobj_def
      split: option.splits if_splits)

text \<open>C14: Leaving is all or nothing.  Take a leave request that is answered (rid is the room the
  request was routed to, which is the meeting it names).  If the connection is in that meeting and
  the answer is success, then the user is no member any more and its presence entry no longer names
  the meeting; the connection is out of the meeting; the room's list of connections is the old one
  without this connection and without destroyed ones, in the same order; every connection that stays
  on it, unless it is one of the same user, has been sent the notice that the user left, once for
  each place it has on the list, and no other connection has been sent or has lost anything; no other
  member, presence, connection's meeting or room changed.  In every other case nothing in memory
  changes, no room, presence, connection or binding: a connection that is not in the meeting is
  answered success if the stored meeting has ended, as the client may leave after the end, and an
  error otherwise; a connection in the meeting is answered an error when a record in Redis could not
  be removed.\<close>

theorem leave_all_or_nothing:
  assumes "names_room en rid message" and "run_state (leave_body en rid sid message) w = (Reply v, w')"
  shows "if jget v ''error'' = JInt 0 \<and> meeting_of sid w = rid
    then member_at rid (uid_of sid w) w' = None \<and> sid \<notin> listed rid w' \<and> (alive sid w \<longrightarrow> meeting_of sid w' = 0)
      \<and> (\<forall>p. w_users w' (uid_of sid w) = Some p \<longrightarrow> up_meeting p \<noteq> rid)
      \<and> (\<forall>r u. (r, u) \<noteq> (rid, uid_of sid w) \<longrightarrow> member_at r u w' = member_at r u w)
      \<and> (\<forall>u. u \<noteq> uid_of sid w \<longrightarrow> w_users w' u = w_users w u)
      \<and> (\<forall>i. i \<noteq> sid \<longrightarrow> meeting_of i w' = meeting_of i w)
      \<and> rm_sessions (room_at rid w') = staying sid rid w
      \<and> (\<forall>r. r \<noteq> rid \<longrightarrow> room_at r w' = room_at r w)
      \<and> (\<exists>n. notified ID_MEETING_MEMBER_LEFT (left_text en rid (uid_of sid w) n) (told_times_left sid rid (uid_of sid w) w)
            ((w_sessions w)(sid := None)) ((w_sessions w')(sid := None)))
    else store_only w w' \<and> (jget v ''error'' = JInt 0 \<longrightarrow>
      (\<exists>mi. fst (fst (GetMeetingInfoById rid (w_db w))) = Some mi \<and> mi_status mi = Ended))"
proof -
  let ?f = "\<lambda>meeting uid. do {
       current \<leftarrow> look (meeting_of sid);
       if current \<noteq> meeting then leave_elsewhere meeting
       else leave_commit en rid sid meeting uid }"
  show ?thesis
  proof (cases rule: with_meeting_id_cases [of en sid message ?f w])
    case (stop e)
    then show ?thesis using assms(2) by (auto simp: leave_body_def so.R_refl)
  next
    case (call req m)
    then have m: "m = rid" using assms(1) by (auto simp: names_room_def)
    show ?thesis
    proof (cases "meeting_of sid w = rid")
      case True
      then have "run_state (leave_commit en rid sid rid (uid_of sid w)) w = (Reply v, w')"
        using call(5) m assms(2) by (simp add: leave_body_def)
      from leave_commit_effects [OF this] show ?thesis using True by (cases "jget v ''error'' = JInt 0") simp_all
    next
      case False
      then have "run_state (leave_elsewhere rid) w = (Reply v, w')" using call(5) m assms(2) by (simp add: leave_body_def)
      from leave_elsewhere_effects [OF this] show ?thesis using False by simp
    qed
  qed
qed

theorem leave_all_or_nothing_witness:
  "\<exists>v w'. run_state (leave_body demo_env 5 10 ''M'') demo_joined = (Reply v, w') \<and> jget v ''error'' = JInt 0
    \<and> member_at 5 1 w' = None \<and> member_at 5 2 w' = Some (demo_member 20 ''t2'') \<and> rm_sessions (room_at 5 w') = [20]
    \<and> (\<exists>n s. w_sessions w' 20 = Some s \<and> told ID_MEETING_MEMBER_LEFT (left_text demo_env 5 1 n)
          (demo_conn 20 2 ''t2'' 5 [AUTH_LOGIN_RESPONSE, ID_JOIN_MEETING_RESPONSE]) s)"
proof -
  obtain v w' where r: "run_state (leave_body demo_env 5 10 ''M'') demo_joined = (Reply v, w')"
    and v: "jget v ''error'' = JInt 0"
    by (simp add: leave_body_def leave_commit_def leave_redis_def leave_notify_def leave_elsewhere_def
        with_meeting_id_def meeting_id_text_def stoull_full_def ReleaseMediaSession_def erase_member_def
        ReleaseUser_def demo_joined_eq demo_eval demo_state ReconnectDeadlineKey_def cong: bind_stop)
  have n: "names_room demo_env 5 ''M''"
    by (auto simp: names_room_def parse_object_def demo_env_fields demo_json_def str_field_def
        meeting_id_text_def stoull_full_def demo_parsed)
  have "meeting_of 10 demo_joined = 5" "uid_of 10 demo_joined = 1"
    by (simp_all add: meeting_of_def uid_of_def sess_def demo_joined_sessions demo_conn_def Session_new_def)
  moreover have "member_at 5 2 demo_joined = Some (demo_member 20 ''t2'')"
    by (simp add: demo_joined_eq member_at_def room_at_def)
  moreover have "staying 10 5 demo_joined = [20]" "told_times_left 10 5 1 demo_joined 20 = 1"
    by (simp_all add: staying_def told_times_left_def uid_of_def sess_def alive_def demo_joined_sessions demo_conn_def
        Session_new_def) (simp_all add: demo_joined_eq room_at_def)
  moreover have "\<exists>s. w_sessions w' 20 = Some s \<and> told ID_MEETING_MEMBER_LEFT t s0 s"
    if "notified ID_MEETING_MEMBER_LEFT t f ((w_sessions demo_joined)(10 := None)) ((w_sessions w')(10 := None))"
      "f 20 = 1" "w_sessions demo_joined 20 = Some s0" for t f s0
    using that by (auto simp: notified_def option_rel_Some1 relpowp_1 dest!: spec [of _ 20])
  ultimately show ?thesis using leave_all_or_nothing [OF n r] r v demo_joined_sessions(2) by fastforce
qed

section \<open>Ending\<close>







section \<open>Losing the connection\<close>

lemma grace_member:
  "member_at r u (grace_deadline en sid uid rid w) =
     (if r = rid \<and> u = uid \<and> (\<exists>m. member_at rid uid w = Some m \<and> lock (mb_session m) w = Some sid)
      then map_option (\<lambda>m. m\<lparr>mb_deadline := en_steady en + kReconnectGraceSeconds * 1000\<rparr>) (member_at r u w)
      else member_at r u w)"
  by (auto simp: grace_deadline_def split: option.split)

lemma disconnect_room_members:
  "member_at r u (snd (run_state (disconnect_room en rid sid meeting uid) w)) = member_at r u (grace_deadline en sid uid rid w)"
proof -
  let ?w1 = "snd (run_state (drop_sessions rid (\<lambda>i _. i = sid)) w)"
  note m = drop_moves [of w rid "\<lambda>i _. i = sid"]
  have lk: "lock p ?w1 = lock p w" for p
    using moves_session(1) [OF m] by (cases p) (simp_all add: lock_def)
  have "member_at r u (disconnect_mark en rid sid uid w) = member_at r u (grace_deadline en sid uid rid w)"
    unfolding disconnect_mark_def grace_member moves_member [OF m] lk ..
  then show ?thesis by (simp only: moves_member [OF disconnect_room_moves])
qed

lemma disconnect_room_fields:
  "w_users (snd (run_state (disconnect_room en rid sid meeting uid) w)) = w_users w"
  "alive i (snd (run_state (disconnect_room en rid sid meeting uid) w)) = alive i w"
  "sid \<notin> listed rid (snd (run_state (disconnect_room en rid sid meeting uid) w))"
proof -
  note m = disconnect_room_moves [where en = en and rid = rid and sid = sid and uid = uid and w = w and meeting = meeting]
  show "w_users (snd (run_state (disconnect_room en rid sid meeting uid) w)) = w_users w"
    "alive i (snd (run_state (disconnect_room en rid sid meeting uid) w)) = alive i w"
    by (simp_all add: moves_users [OF m] moves_session(1) [OF m] disconnect_mark_fields)
  show "sid \<notin> listed rid (snd (run_state (disconnect_room en rid sid meeting uid) w))"
    using moves_listed [OF m] disconnect_mark_fields(2) by blast
qed

text \<open>Losing a connection keeps the membership.  The connection leaves the room's list
  and the meeting; presence is unchanged; every membership keeps its ticket, login session
  and generation, and only the one this connection holds gets a deadline, 45 seconds ahead;
  and delivering the event a second time changes nothing.\<close>

theorem disconnect_keeps_membership:
  fixes w :: "'r world" and en
  assumes "alive sid w" "meeting_of sid w = rid" "rid \<noteq> 0"
  defines "w' \<equiv> snd (run_state (SessionDisconnectedHandler en rid (Some sid)) w)"
  shows "sid \<notin> listed rid w' \<and> meeting_of sid w' = 0 \<and> w_users w' = w_users w
    \<and> (\<forall>r u. member_at r u w' = member_at r u w
        \<or> r = rid \<and> u = uid_of sid w \<and> (\<exists>m. member_at r u w = Some m \<and> mb_session m = Some sid
            \<and> member_at r u w' = Some (m\<lparr>mb_deadline := en_steady en + 45000\<rparr>)))
    \<and> snd (run_state (SessionDisconnectedHandler en2 rid2 (Some sid)) w') = w'"
proof -
  let ?d = "snd (run_state (disconnect_room en rid sid rid (uid_of sid w)) w)"
  define w1 where "w1 = (if rm_sessions (room_at rid w) = [] then w else ?d)"
  let ?w2 = "snd (run_state (ReleaseMediaSession en sid) w1)"
  have w': "w' = set_sess sid (SetMeetingId 0) ?w2"
    using assms(2,3) by (simp add: w'_def SessionDisconnected_unfold w1_def Let_def)
  have m: "moves {} w1 ?w2" by (intro keepsM keeps_intros)
  have l1: "sid \<notin> listed rid w1"
    using disconnect_room_fields(3) [of sid rid en rid "uid_of sid w" w] by (auto simp: w1_def listed_def)
  have out: "meeting_of sid w' = 0"
  proof -
    have "alive sid ?w2" using assms(1) moves_session(1) [OF m, of sid]
      by (simp add: w1_def disconnect_room_fields split: if_splits)
    then show ?thesis by (auto simp: w' set_sess_def meeting_of_def sess_def alive_def SetMeetingId_def)
  qed
  have mem: "member_at r u w' = member_at r u w1" for r u
    using moves_member [OF m, of r u] by (simp add: w' set_sess_def member_at_def room_at_def)
  have grace: "member_at r u w1 = member_at r u w
        \<or> r = rid \<and> u = uid_of sid w \<and> (\<exists>m. member_at r u w = Some m \<and> mb_session m = Some sid
            \<and> member_at r u w1 = Some (m\<lparr>mb_deadline := en_steady en + 45000\<rparr>))" for r u
    by (auto simp: w1_def disconnect_room_members grace_member kReconnectGraceSeconds_def lock_def
        split: option.splits if_splits)
  have "sid \<notin> listed rid w'"
    using l1 moves_listed [OF m, of sid rid] by (auto simp: w' set_sess_def listed_def)
  moreover have "w_users w' = w_users w"
    using moves_users [OF m] by (simp add: w' set_sess_def w1_def disconnect_room_fields)
  moreover have "snd (run_state (SessionDisconnectedHandler en2 rid2 (Some sid)) w') = w'"
    using out by (simp add: SessionDisconnected_unfold)
  ultimately show ?thesis using out grace by (simp add: mem)
qed

theorem disconnect_keeps_membership_witness:
  "snd (run_state (SessionDisconnectedHandler demo_env 5 (Some 10))
       (snd (run_state (SessionDisconnectedHandler demo_env 5 (Some 10)) demo_joined)))
     = snd (run_state (SessionDisconnectedHandler demo_env 5 (Some 10)) demo_joined)"
proof -
  have "alive 10 demo_joined" "meeting_of 10 demo_joined = 5"
    by (simp_all add: alive_def meeting_of_def sess_def demo_joined_sessions demo_conn_def Session_new_def)
  then show ?thesis
    using disconnect_keeps_membership [of 10 demo_joined 5 demo_env demo_env 5] by simp
qed

section \<open>Expiry\<close>

lemma expire_commit_member:
  "member_at r u (snd (run_state (expire_commit en rid uid dm) w))
     \<in> (if r = rid \<and> u = uid then {None, member_at r u w} else {member_at r u w})"
proof -
  let ?ok = "conj_ok [redis (SRem (en_redis en) (RoomMembersKey rid) (int_to_string uid)),
                      redis (ZRem (en_redis en) ReconnectDeadlineKey dm)]"
  let ?note = "\<lambda>n. broadcast rid (\<lambda>_. True) ID_MEETING_MEMBER_TIMEOUT_LEFT
            (en_styled en (jobj [(''meeting_id'', jid rid), (''user_id'', JInt uid),
               (''current_participants'', JInt n)]))"
  have n: "member_at x y (snd (run_state (?note k) v)) = member_at x y v" for k v x y
  proof -
    have "moves {} v (snd (run_state (?note k) v))" by (intro keepsM keeps_intros)
    then show ?thesis by (rule moves_member)
  qed
  have s: "store_only v (snd (run_state ?ok v))" for v
    by (rule keepsSO, rule so.k_conj_ok) (auto intro: so.k_redis)
  have r: "member_at x y (v\<lparr>w_redis := d\<rparr>) = member_at x y v" for v :: "'a world" and x y d
    by (simp add: member_at_def room_at_def)
  have e: "member_at x y (ReleaseUser a b v) = member_at x y v" for x y a b and v :: "'a world"
    by (simp add: ReleaseUser_def member_at_def room_at_def split: option.split)
  show ?thesis
    using store_only_local(1) [OF s [of w], of r u]
    by (auto simp: expire_commit_def Let_def case_prod_beta run_redis erase_member_def n r e)
qed

text \<open>C17: A member is given up only after the grace time.  When the expiry check of an
  entry of the deadline index changes a membership, it removes it, the entry names that
  user and the command that room, the member's own deadline has passed on the steady
  clock, the stored deadline is set and has passed on the wall clock, and the stored state
  is still "reconnecting"; every other membership of every room is unchanged.\<close>

theorem expire_respects_grace:
  fixes w :: "'r world" and en
  assumes "member_at r u w = Some m"
    and "member_at r u (snd (run_state (ExpireMemberHandler en rid dm) w)) \<noteq> Some m"
  defines "deadline \<equiv> HGet (en_redis en) (RoomMemberStateKey rid u) ''reconnect_deadline_at'' (w_redis w)"
  shows "member_at r u (snd (run_state (ExpireMemberHandler en rid dm) w)) = None
    \<and> r = rid \<and> stoi (after_colon dm) = Some u \<and> 0 < u \<and> mb_deadline m \<le> en_steady en
    \<and> (\<exists>d. stoll (fst deadline) = Some d \<and> d \<noteq> 0 \<and> d \<le> en_time en)
    \<and> fst (HGet (en_redis en) (RoomMemberStateKey rid u) ''room_state'' (snd deadline)) = ''reconnecting''"
proof -
  have red: "member_at x y (v\<lparr>w_redis := d\<rparr>) = member_at x y v" for v :: "'r world" and x y d
    by (simp add: member_at_def room_at_def)
  define uid where "uid = (case stoi (after_colon dm) of Some u \<Rightarrow> u | None \<Rightarrow> 0)"
  let ?g = "HGet (en_redis en) (RoomMemberStateKey rid uid) ''reconnect_deadline_at'' (w_redis w)"
  let ?s = "HGet (en_redis en) (RoomMemberStateKey rid uid) ''room_state'' (snd ?g)"
  let ?late = "case member_at rid uid w of Some m \<Rightarrow> mb_deadline m > en_steady en | None \<Rightarrow> False"
  let ?d = "case stoll (fst ?g) of Some d \<Rightarrow> d | None \<Rightarrow> 0"
  let ?final = "member_at r u (snd (run_state (expire_commit en rid uid dm) (w\<lparr>w_redis := snd ?s\<rparr>)))"
  have "\<not> en_pool_busy en \<and> 0 < uid \<and> \<not> ?late \<and> ?d \<noteq> 0 \<and> ?d \<le> en_time en
      \<and> fst ?s = ''reconnecting'' \<and> member_at r u (snd (run_state (ExpireMemberHandler en rid dm) w)) = ?final"
    using assms(1,2)
    by (simp add: ExpireMemberHandler_def uid_def [symmetric] Let_def case_prod_beta run_redis red split: if_splits)
  moreover from this have "r = rid" "u = uid" "?final = None"
    using assms(1,2) expire_commit_member [of r u en rid uid dm "w\<lparr>w_redis := snd ?s\<rparr>"]
    by (auto simp: red split: if_splits)
  ultimately show ?thesis
    using assms(1) by (auto simp: uid_def deadline_def split: option.splits)
qed

text \<open>The member of user 2 in the demonstration, with a deadline that has passed.\<close>

definition demo_grace :: "redis_db world" where
  "demo_grace = demo_joined\<lparr>w_redis := (w_redis demo_joined)\<lparr>rd_hash := (\<lambda>k.
     if k = RoomMemberStateKey 5 2 then [''room_state'' \<mapsto> ''reconnecting'', ''reconnect_deadline_at'' \<mapsto> ''7''] else Map.empty)\<rparr>\<rparr>"

theorem expire_respects_grace_witness:
  "member_at 5 2 (snd (run_state (ExpireMemberHandler demo_env 5 ''5:2'') demo_grace)) = None"
proof -
  have m: "member_at 5 2 demo_grace = Some (demo_member 20 ''t2'')"
    by (simp add: demo_grace_def demo_joined_eq member_at_def room_at_def)
  have n: "after_colon ''5:2'' = ''2''" "stoll ''7'' = Some 7"
    by (simp_all add: after_colon_def stoll_def parse_number_def is_space_def is_digit_def digits_val_def digit_val_def)
  have "member_at 5 2 (snd (run_state (ExpireMemberHandler demo_env 5 ''5:2'') demo_grace)) \<noteq> Some (demo_member 20 ''t2'')"
    by (simp add: ExpireMemberHandler_def expire_commit_def n demo_stoi demo_grace_def demo_joined_eq
        erase_member_def ReleaseUser_def demo_eval demo_state ReconnectDeadlineKey_def cong: bind_stop)
  from expire_respects_grace [OF m this] show ?thesis by blast
qed

end
