(* ===== verification/BindingProps.thy ===== *)
theory BindingProps
  imports LifeProps
begin

text \<open>
  What an event of the media control connection may change, and the helpers of the
  business layer: resume tickets, the index of reconnection deadlines, and the script
  that activates a member.
\<close>

section \<open>Messages of MediaServer\<close>

lemma media_response_session:
  assumes "w_sessions (snd (run_state (MediaSignalResponseHandler en rid message) w)) j \<noteq> w_sessions w j"
  obtains msg k where "parse_object en message = Some msg" "ReadUInt64Value (jget msg ''signal_id'') = Some k"
    "sg_epoch (FindSignal k w) = w_media_epoch w" "IsCurrent (w_media_epoch w) (w_media w)"
    "lock (sg_session (FindSignal k w)) w = Some j" "s_signal_id (sess j w) = k" "meeting_of j w = rid"
    "\<not> IsClosed (sess j w)"
proof (cases "parse_object en message")
  case None
  then show ?thesis using assms by (simp add: MediaSignalResponseHandler_def)
next
  case (Some msg)
  then obtain k where k: "ReadUInt64Value (jget msg ''signal_id'') = Some k"
    using assms by (fastforce simp: MediaSignalResponseHandler_def split: if_splits option.splits)
  let ?g = "FindSignal k w"
  have e: "sg_epoch ?g = w_media_epoch w"
    using assms Some k by (auto simp: MediaSignalResponseHandler_def split: if_splits)
  obtain i where i: "lock (sg_session ?g) w = Some i"
    using assms Some k e
    by (cases "lock (sg_session ?g) w") (auto simp: MediaSignalResponseHandler_def RemoveSignal_def split: if_splits)
  have other: "i = j" if "w_sessions (snd (run_state (send i mid tx) w)) j \<noteq> w_sessions w j" for mid tx
    using that by (cases rule: run_send [of w i mid tx]) (auto split: if_splits)
  have "\<not> IsClosed (sess i w) \<and> s_meeting_id (sess i w) = rid \<and> s_signal_id (sess i w) = k
      \<and> IsCurrent (sg_epoch ?g) (w_media w) \<and> i = j"
    using assms Some k e i
    by (auto simp: MediaSignalResponseHandler_def case_prod_beta split: if_splits option.splits dest: other)
  then have "\<not> IsClosed (sess j w)" "meeting_of j w = rid" "s_signal_id (sess j w) = k"
    "IsCurrent (w_media_epoch w) (w_media w)" "lock (sg_session ?g) w = Some j"
    using e i by (auto simp add: meeting_of_def)
  then show ?thesis using that [OF Some k e] by blast
qed

text \<open>C21: A message of MediaServer reaches only the connection it is bound to.  When an
  event of the media control connection changes a client connection in its room step, the
  event belongs to the present connection epoch, its signal id is bound in that epoch to
  this very connection, and the connection is open, still holds that signal id and is in
  the meeting of the room.\<close>

theorem media_message_bound:
  assumes "mn_id node = kMediaMessage"
    and "w_sessions (snd (run_state (media_in_room en node i signal rid) w)) j \<noteq> w_sessions w j"
  shows "mn_epoch node = w_media_epoch w \<and> IsCurrent (mn_epoch node) (w_media w)
    \<and> (\<exists>msg k. parse_object en (mn_message node) = Some msg \<and> ReadUInt64Value (jget msg ''signal_id'') = Some k
        \<and> sg_epoch (FindSignal k w) = mn_epoch node \<and> lock (sg_session (FindSignal k w)) w = Some j
        \<and> s_signal_id (sess j w) = k \<and> meeting_of j w = rid \<and> \<not> IsClosed (sess j w))"
proof -
  let ?ok = "mn_epoch node = w_media_epoch w \<and> IsCurrent (w_media_epoch w) (w_media w)"
  have a: "run_state (AcceptMediaEvent node) w = (?ok, w)"
    using assms(1) by (simp add: AcceptMediaEvent_def Let_def)
  have "?ok \<and> w_sessions (snd (run_state (MediaSignalResponseHandler en rid (mn_message node)) w)) j \<noteq> w_sessions w j"
    using assms(2) by (auto simp: media_in_room_def a split: if_splits)
  then show ?thesis by (auto elim!: media_response_session)
qed

text \<open>Connection 10 of the demonstration, bound to signal 7 in epoch 3.\<close>

definition demo_bound :: "redis_db world" where
  "demo_bound = demo_joined\<lparr>w_media_epoch := 3,
     w_media := (w_media demo_joined)\<lparr>mc_started := True, mc_connected := True, mc_epoch := 3\<rparr>,
     w_signals := [7 \<mapsto> \<lparr>sg_session = Some 10, sg_meeting = 5, sg_epoch = 3\<rparr>],
     w_sessions := [10 \<mapsto> (demo_conn 10 1 ''t1'' 5 [])\<lparr>s_signal_id := 7\<rparr>]\<rparr>"

definition demo_answer :: json where
  "demo_answer = JObject [(''signal_id'', JInt 7), (''signal_type'', JString ''answer''), (''sdp'', JString ''v=0'')]"

definition demo_node :: media_node where
  "demo_node = \<lparr>mn_id = kMediaMessage, mn_epoch = 3, mn_message = ''S''\<rparr>"

theorem media_message_bound_witness:
  "lock (sg_session (FindSignal 7 demo_bound)) demo_bound = Some 10"
proof -
  let ?en = "demo_env\<lparr>en_parse := \<lambda>_. Some demo_answer\<rparr>"
  let ?g = "\<lparr>sg_session = Some 10, sg_meeting = 5, sg_epoch = 3\<rparr>"
  have "w_sessions (snd (run_state (media_in_room ?en demo_node 7 ?g 5) demo_bound)) 10 \<noteq> w_sessions demo_bound 10"
    by (simp add: media_in_room_def AcceptMediaEvent_def MediaSignalResponseHandler_def media_push_def
        demo_bound_def demo_node_def demo_answer_def FindSignal_def ReadUInt64Value_def IsCurrent_def
        demo_joined_eq demo_eval demo_state cong: bind_stop)
  then have "\<exists>msg k. parse_object ?en (mn_message demo_node) = Some msg \<and> ReadUInt64Value (jget msg ''signal_id'') = Some k
      \<and> lock (sg_session (FindSignal k demo_bound)) demo_bound = Some 10"
    using media_message_bound [of demo_node ?en 7 ?g 5 demo_bound 10] by (auto simp: demo_node_def)
  then show ?thesis
    by (simp add: parse_object_def demo_answer_def ReadUInt64Value_def)
qed

section \<open>Resume tickets\<close>

lemma hex_digit_in: "d < 16 \<Longrightarrow> hex_digit d \<in> set ''0123456789abcdef''"
  unfolding hex_digit_def by (rule nth_mem) simp

lemma hex_digit_inj: "c < 16 \<Longrightarrow> d < 16 \<Longrightarrow> hex_digit c = hex_digit d \<Longrightarrow> c = d"
  unfolding hex_digit_def by (subst (asm) nth_eq_iff_index_eq) simp_all

definition hex_pair :: "u8 \<Rightarrow> string" where
  "hex_pair b = [hex_digit (unat b div 16), hex_digit (unat b mod 16)]"

lemma unat_u8_less: "unat (b :: u8) < 256"
  using unsigned_less [of b, where ?'a = nat] by simp

lemma hex_pair_length: "length (hex_pair b) = 2"
  by (simp add: hex_pair_def)

lemma hex_pair_inj:
  assumes "hex_pair a = hex_pair b"
  shows "a = b"
proof -
  have "unat a div 16 = unat b div 16"
    using assms unat_u8_less [of a] unat_u8_less [of b]
    by (intro hex_digit_inj) (simp_all add: hex_pair_def)
  moreover have "unat a mod 16 = unat b mod 16"
    using assms by (intro hex_digit_inj) (simp_all add: hex_pair_def)
  ultimately have "unat a = unat b" by (metis div_mult_mod_eq)
  then show ?thesis by (simp add: word_unat_eq_iff)
qed

lemma concat_pairs_inj: "concat (map hex_pair as) = concat (map hex_pair bs) \<Longrightarrow> as = bs"
proof (induction as arbitrary: bs)
  case Nil
  then show ?case by (cases bs) (simp_all add: hex_pair_def)
next
  case (Cons a as)
  then obtain b bs' where b: "bs = b # bs'" by (cases bs) (auto simp: hex_pair_def)
  then have "hex_pair a = hex_pair b" "concat (map hex_pair as) = concat (map hex_pair bs')"
    using Cons.prems by (simp_all add: hex_pair_length)
  then show ?case using Cons.IH b hex_pair_inj by blast
qed

lemma random_bytes_length: "random_bytes n rs = Some bs \<Longrightarrow> length bs = n"
proof (induction n rs arbitrary: bs rule: random_bytes.induct)
  case (5 n b rs)
  let ?c = "take (Suc n) b"
  from 5(2) obtain ds where b: "b \<noteq> []" and d: "random_bytes (Suc n - length ?c) rs = Some ds" "bs = ?c @ ds"
    by (auto split: if_split_asm)
  then have "length ds = Suc n - length ?c" by (intro 5(1))
  then show ?case by (simp add: d(2))
qed simp_all

lemma ticket_pairs: "NewResumeTicket en = map_option (\<lambda>bs. concat (map hex_pair bs)) (random_bytes 32 (en_random en))"
  by (simp add: NewResumeTicket_def hex_pair_def [abs_def])

text \<open>C23: A resume ticket is 64 lower-case hexadecimal digits and loses nothing of the
  32 random bytes: two tickets are equal only when all the bytes are.\<close>

theorem resume_ticket_shape:
  assumes "NewResumeTicket en = Some t" "NewResumeTicket en' = Some t'"
  shows "length t = 64 \<and> set t \<subseteq> set ''0123456789abcdef''
    \<and> (t = t' \<longleftrightarrow> random_bytes 32 (en_random en) = random_bytes 32 (en_random en'))"
proof -
  obtain bs bs' where b: "random_bytes 32 (en_random en) = Some bs" "t = concat (map hex_pair bs)"
    and b': "random_bytes 32 (en_random en') = Some bs'" "t' = concat (map hex_pair bs')"
    using assms by (auto simp: ticket_pairs)
  have "length (concat (map hex_pair cs)) = 2 * length cs" for cs
    by (induction cs) (simp_all add: hex_pair_def)
  then have "length t = 64" using random_bytes_length [OF b(1)] by (simp add: b(2))
  moreover have "set t \<subseteq> set ''0123456789abcdef''"
  proof -
    have "set (hex_pair x) \<subseteq> set ''0123456789abcdef''" for x
      unfolding hex_pair_def using hex_digit_in [of "unat x div 16"] hex_digit_in [of "unat x mod 16"] unat_u8_less [of x]
      by (simp only: list.set insert_subset empty_subsetI simp_thms)
    then show ?thesis by (simp only: b(2) set_concat set_map) blast
  qed
  moreover have "t = t' \<longleftrightarrow> bs = bs'" using concat_pairs_inj by (auto simp: b(2) b'(2))
  ultimately show ?thesis by (simp add: b(1) b'(1))
qed

theorem resume_ticket_shape_witness: "length demo_ticket = 64 \<and> set demo_ticket \<subseteq> set ''0123456789abcdef''"
  using resume_ticket_shape [OF demo_NewResumeTicket demo_NewResumeTicket] by simp

definition delivers :: "rand_result \<Rightarrow> bool" where
  "delivers r = (case r of RandBytes bs \<Rightarrow> bs \<noteq> [] | _ \<Rightarrow> False)"

text \<open>C24: Drawing a ticket ends.  When every read of the random source either delivers at
  least one byte or is interrupted by a signal, 32 delivering reads are enough for a
  ticket, however many interruptions and short reads lie between them.\<close>

theorem resume_ticket_terminates:
  assumes "\<forall>r \<in> set (en_random en). delivers r \<or> r = RandIntr" "32 \<le> length (filter delivers (en_random en))"
  shows "\<exists>t. NewResumeTicket en = Some t"
proof -
  have "\<exists>bs. random_bytes n rs = Some bs"
    if "\<forall>r \<in> set rs. delivers r \<or> r = RandIntr" "n \<le> length (filter delivers rs)" for n rs
    using that
  proof (induction n rs rule: random_bytes.induct)
    case (5 n b rs)
    then have "b \<noteq> []" by (simp add: delivers_def)
    moreover from this have "Suc n - length (take (Suc n) b) \<le> n" by (cases b) simp_all
    ultimately show ?case using 5 by (simp add: delivers_def)
  qed (simp_all add: delivers_def)
  then show ?thesis using assms by (simp add: ticket_pairs)
qed

theorem resume_ticket_terminates_witness:
  "\<exists>t. NewResumeTicket (demo_env\<lparr>en_random := RandIntr # replicate 32 (RandBytes [7])\<rparr>) = Some t"
  by (rule resume_ticket_terminates) (simp_all add: delivers_def)

section \<open>The index of deadlines\<close>

lemma colon_not_digit: "\<not> is_digit (CHR '':'')"
  by (simp add: is_digit_def)

lemma no_colon: "CHR '':'' \<notin> set (to_string n)"
  using to_string_digits colon_not_digit by blast

text \<open>An entry of the deadline index names its meeting and its user: reading back
  what was written gives the same meeting, and the same user when the id is a positive
  32-bit number.\<close>

theorem deadline_member_round_trip:
  assumes "0 \<le> uid" "uid < 2 ^ 31"
  shows "deadline_meeting (ReconnectDeadlineMember meeting uid) = meeting
    \<and> stoi (after_colon (ReconnectDeadlineMember meeting uid)) = Some uid"
proof -
  have p: "\<And>c. c \<in> set (to_string (unat meeting)) \<Longrightarrow> c \<noteq> CHR '':''" using no_colon by metis
  have "takeWhile (\<lambda>c. c \<noteq> CHR '':'') (ReconnectDeadlineMember meeting uid) = to_string (unat meeting)"
    "dropWhile (\<lambda>c. c \<noteq> CHR '':'') (ReconnectDeadlineMember meeting uid) = '':'' @ int_to_string uid"
    unfolding ReconnectDeadlineMember_def using p
    by (subst takeWhile_append2 dropWhile_append2; simp)+
  moreover have "stoi (int_to_string uid) = Some uid"
    using stoi_to_string [of "nat uid"] assms by (simp add: int_to_string_def)
  ultimately show ?thesis
    by (simp add: deadline_meeting_def before_colon_def after_colon_def stoull_to_string)
      (simp add: ReconnectDeadlineMember_def)
qed

theorem deadline_member_round_trip_witness:
  "deadline_meeting (ReconnectDeadlineMember 5 7) = 5 \<and> stoi (after_colon (ReconnectDeadlineMember 5 7)) = Some 7"
  by (rule deadline_member_round_trip) simp_all

section \<open>The atomic script\<close>

definition activated :: "u64 \<Rightarrow> int \<Rightarrow> redis_db \<Rightarrow> redis_db" where
  "activated meeting uid d = d\<lparr>
     rd_hash := (rd_hash d)(RoomMemberStateKey meeting uid :=
       (rd_hash d (RoomMemberStateKey meeting uid))(''room_state'' \<mapsto> ''active'', ''reconnect_deadline_at'' \<mapsto> [])),
     rd_zset := (rd_zset d)(ReconnectDeadlineKey :=
       AList.delete (ReconnectDeadlineMember meeting uid) (rd_zset d ReconnectDeadlineKey))\<rparr>"

lemma activate_keys:
  "room_prefix meeting @ '':members'' = RoomMembersKey meeting"
  "room_prefix meeting @ '':member:'' @ int_to_string uid = RoomMemberStateKey meeting uid"
  "to_string (unat meeting) @ '':'' @ int_to_string uid = ReconnectDeadlineMember meeting uid"
  by (simp_all add: room_prefix_def RoomMembersKey_def RoomMemberStateKey_def ReconnectDeadlineMember_def)

lemma activate_exec:
  "redis_exec (Eval (activate_script meeting uid)) d
     = (if int_to_string uid \<in> set (rd_set d (RoomMembersKey meeting))
        then (RepInt 1, activated meeting uid d) else (RepInt 0, d))"
  unfolding activate_script_def Let_def activate_keys ReconnectDeadlineKey_def [symmetric]
  by (simp add: activated_def)

text \<open>C22: Activating a member is one atomic change.  With a server that behaves as
  documented, the store is afterwards either unchanged or the member is active with its
  deadline and its index entry gone, never something between; success is reported only
  for the complete change of a user in the room's member set, and a user outside the set
  changes nothing.\<close>

theorem activate_member_atomic:
  assumes "redis_answers srv view" "ActivateMember srv meeting uid r = (ok, r')"
  shows "(view r' = view r \<or> view r' = activated meeting uid (view r))
    \<and> (ok \<longrightarrow> int_to_string uid \<in> set (rd_set (view r) (RoomMembersKey meeting)) \<and> view r' = activated meeting uid (view r))
    \<and> (int_to_string uid \<notin> set (rd_set (view r) (RoomMembersKey meeting)) \<longrightarrow> \<not> ok \<and> view r' = view r)"
proof -
  obtain rep where s: "srv (Eval (activate_script meeting uid)) r = (rep, r')" and ok: "ok = (rep = RepInt 1)"
    using assms(2) by (auto simp: ActivateMember_def split: prod.splits)
  note x = activate_exec [of meeting uid "view r"]
  show ?thesis
  proof (cases "int_to_string uid \<in> set (rd_set (view r) (RoomMembersKey meeting))")
    case True
    from redis_answersD [OF assms(1) s, of "RepInt 1" "activated meeting uid (view r)"] show ?thesis
      using True by (cases rep) (auto simp add: x ok simp del: redis_exec.simps)
  next
    case False
    from redis_answersD [OF assms(1) s, of "RepInt 0" "view r"] show ?thesis
      using False by (cases rep) (auto simp add: x ok simp del: redis_exec.simps)
  qed
qed

theorem activate_member_atomic_witness:
  "\<exists>r'. ActivateMember redis_exec 5 1 demo_joined_redis = (True, r') \<and> r' = activated 5 1 demo_joined_redis"
proof -
  have "int_to_string 1 \<in> set (rd_set demo_joined_redis (RoomMembersKey 5))"
    by (simp add: demo_joined_redis_def demo_numbers RoomMembersKey_def)
  then have "ActivateMember redis_exec 5 1 demo_joined_redis = (True, activated 5 1 demo_joined_redis)"
    by (simp add: ActivateMember_def activate_exec del: redis_exec.simps)
  with activate_member_atomic [OF redis_exec_answers this] show ?thesis by simp
qed

end
