(* ===== verification/RoomPool.thy ===== *)
theory RoomPool
  imports RtcPrelude
begin

text \<open>
  The thread pool of MediaServer (include/service/RoomThreadPool.h): each meeting has a
  fixed worker, a worker serves its meetings in turn, one task at a time.  The worker
  thread is the pair of steps Take_task and Task_done around the handler; between them the
  running meeting is kept in rw_running.  The hash function of the standard library is a
  parameter.
\<close>

section \<open>State and operations\<close>

record 'a room_queue =
  rq_tasks :: "'a list"
  rq_scheduled :: bool

record 'a room_worker =
  rw_rooms :: "u64 \<Rightarrow> 'a room_queue option"
  rw_ready :: "u64 list"
  rw_stopping :: bool
  rw_running :: "u64 option"

type_synonym 'a room_pool = "'a room_worker list"

definition RoomQueue_new :: "'a room_queue" where
  "RoomQueue_new = \<lparr>rq_tasks = [], rq_scheduled = False\<rparr>"

definition Worker_new :: "'a room_worker" where
  "Worker_new = \<lparr>rw_rooms = (\<lambda>_. None), rw_ready = [], rw_stopping = False, rw_running = None\<rparr>"

definition RoomThreadPool_new :: "nat \<Rightarrow> 'a room_pool" where
  "RoomThreadPool_new worker_count = replicate worker_count Worker_new"

definition WorkerIndex :: "(u64 \<Rightarrow> nat) \<Rightarrow> 'a room_pool \<Rightarrow> u64 \<Rightarrow> nat" where
  "WorkerIndex hash p meeting = hash meeting mod length p"

definition worker_post :: "u64 \<Rightarrow> 'a \<Rightarrow> 'a room_worker \<Rightarrow> bool \<times> 'a room_worker" where
  "worker_post meeting task w =
     (if rw_stopping w then (False, w)
      else let q = (case rw_rooms w meeting of Some q \<Rightarrow> q | None \<Rightarrow> RoomQueue_new);
               pushed = q\<lparr>rq_tasks := rq_tasks q @ [task]\<rparr>
        in (True,
            if rq_scheduled q then w\<lparr>rw_rooms := (rw_rooms w)(meeting \<mapsto> pushed)\<rparr>
            else w\<lparr>rw_rooms := (rw_rooms w)(meeting \<mapsto> pushed\<lparr>rq_scheduled := True\<rparr>),
                   rw_ready := rw_ready w @ [meeting]\<rparr>))"

definition Post :: "(u64 \<Rightarrow> nat) \<Rightarrow> u64 \<Rightarrow> 'a \<Rightarrow> 'a room_pool \<Rightarrow> bool \<times> 'a room_pool" where
  "Post hash meeting task p =
     (let i = WorkerIndex hash p meeting; (ok, w) = worker_post meeting task (p ! i) in (ok, p[i := w]))"

text \<open>The first half of RunWorker's loop; None when the thread waits or returns, and also
  where the code would throw (at) or read the front of an empty queue.\<close>

definition Take_task :: "'a room_worker \<Rightarrow> (u64 \<times> 'a \<times> 'a room_worker) option" where
  "Take_task w = (case rw_ready w of
       [] \<Rightarrow> None
     | meeting # rest \<Rightarrow> (case rw_rooms w meeting of
           None \<Rightarrow> None
         | Some q \<Rightarrow> (case rq_tasks q of
               [] \<Rightarrow> None
             | task # tasks \<Rightarrow> Some (meeting, task,
                 w\<lparr>rw_ready := rest, rw_rooms := (rw_rooms w)(meeting \<mapsto> q\<lparr>rq_tasks := tasks\<rparr>),
                   rw_running := Some meeting\<rparr>))))"

definition Task_done :: "u64 \<Rightarrow> 'a room_worker \<Rightarrow> 'a room_worker" where
  "Task_done meeting w = (case rw_rooms w meeting of
       None \<Rightarrow> w\<lparr>rw_running := None\<rparr>
     | Some q \<Rightarrow>
         if rq_tasks q \<noteq> [] then w\<lparr>rw_ready := rw_ready w @ [meeting], rw_running := None\<rparr>
         else w\<lparr>rw_rooms := (rw_rooms w)(meeting := None), rw_running := None\<rparr>)"

text \<open>The destructor: no new task, what is queued is still served; a worker thread
  returns when it is stopping with nothing ready.\<close>

definition Pool_stop :: "nat \<Rightarrow> 'a room_pool \<Rightarrow> 'a room_pool" where
  "Pool_stop i p = p[i := (p ! i)\<lparr>rw_stopping := True\<rparr>]"

definition worker_returned :: "'a room_worker \<Rightarrow> bool" where
  "worker_returned w \<longleftrightarrow> rw_stopping w \<and> rw_ready w = [] \<and> rw_running w = None"

section \<open>Runs\<close>

text \<open>Any interleaving of posting threads and workers.  The log records what was accepted,
  what was handed to the handler and which handler returned.\<close>

datatype 'a pool_entry = Posted u64 'a | Started u64 'a nat | Finished u64

inductive room_pool_step :: "(u64 \<Rightarrow> nat) \<Rightarrow> 'a room_pool \<times> 'a pool_entry list \<Rightarrow>
    'a room_pool \<times> 'a pool_entry list \<Rightarrow> bool" for hash where
  rp_post: "Post hash meeting task p = (ok, p') \<Longrightarrow>
     room_pool_step hash (p, tr) (p', if ok then tr @ [Posted meeting task] else tr)"
| rp_take: "i < length p \<Longrightarrow> rw_running (p ! i) = None \<Longrightarrow> Take_task (p ! i) = Some (meeting, task, w) \<Longrightarrow>
     room_pool_step hash (p, tr) (p[i := w], tr @ [Started meeting task i])"
| rp_done: "i < length p \<Longrightarrow> rw_running (p ! i) = Some meeting \<Longrightarrow>
     room_pool_step hash (p, tr) (p[i := Task_done meeting (p ! i)], tr @ [Finished meeting])"
| rp_stop: "room_pool_step hash (p, tr) (Pool_stop i p, tr)"

inductive room_pool_reach :: "(u64 \<Rightarrow> nat) \<Rightarrow> nat \<Rightarrow> 'a room_pool \<times> 'a pool_entry list \<Rightarrow> bool" for hash n where
  rr_start: "room_pool_reach hash n (RoomThreadPool_new n, [])"
| rr_step: "room_pool_reach hash n s \<Longrightarrow> room_pool_step hash s s' \<Longrightarrow> room_pool_reach hash n s'"

fun posted :: "u64 \<Rightarrow> 'a pool_entry list \<Rightarrow> 'a list" where
  "posted m [] = []"
| "posted m (Posted m' t # tr) = (if m' = m then t # posted m tr else posted m tr)"
| "posted m (_ # tr) = posted m tr"

fun started :: "u64 \<Rightarrow> 'a pool_entry list \<Rightarrow> 'a list" where
  "started m [] = []"
| "started m (Started m' t i # tr) = (if m' = m then t # started m tr else started m tr)"
| "started m (_ # tr) = started m tr"

fun finished :: "u64 \<Rightarrow> 'a pool_entry list \<Rightarrow> nat" where
  "finished m [] = 0"
| "finished m (Finished m' # tr) = (if m' = m then Suc (finished m tr) else finished m tr)"
| "finished m (_ # tr) = finished m tr"

lemma posted_append [simp]: "posted m (a @ b) = posted m a @ posted m b"
  by (induction m a rule: posted.induct) simp_all

lemma started_append [simp]: "started m (a @ b) = started m a @ started m b"
  by (induction m a rule: started.induct) simp_all

lemma finished_append [simp]: "finished m (a @ b) = finished m a + finished m b"
  by (induction m a rule: finished.induct) simp_all

definition waiting :: "u64 \<Rightarrow> 'a room_worker \<Rightarrow> 'a list" where
  "waiting m w = (case rw_rooms w m of Some q \<Rightarrow> rq_tasks q | None \<Rightarrow> [])"

section \<open>The invariant of a worker\<close>

definition worker_ok :: "'a room_worker \<Rightarrow> bool" where
  "worker_ok w \<longleftrightarrow> distinct (rw_ready w) \<and> (\<forall>m. rw_running w = Some m \<longrightarrow> m \<notin> set (rw_ready w))
     \<and> (\<forall>m. (rw_rooms w m \<noteq> None) = (m \<in> set (rw_ready w) \<or> rw_running w = Some m))
     \<and> (\<forall>m \<in> set (rw_ready w). waiting m w \<noteq> [])
     \<and> (\<forall>m q. rw_rooms w m = Some q \<longrightarrow> rq_scheduled q)"

lemma worker_ok_new: "worker_ok Worker_new"
  by (simp add: worker_ok_def Worker_new_def)

lemma worker_ok_post: "worker_ok w \<Longrightarrow> worker_ok (snd (worker_post m t w))"
  unfolding worker_post_def Let_def RoomQueue_new_def
  by (cases "rw_rooms w m") (auto simp: worker_ok_def waiting_def)

lemma Take_task_cases:
  assumes "Take_task w = Some (m, t, w')"
  obtains rest q ts where "rw_ready w = m # rest" "rw_rooms w m = Some q" "rq_tasks q = t # ts"
    "w' = w\<lparr>rw_ready := rest, rw_rooms := (rw_rooms w)(m \<mapsto> q\<lparr>rq_tasks := ts\<rparr>), rw_running := Some m\<rparr>"
  using assms by (auto simp: Take_task_def split: list.splits option.splits)

lemma worker_ok_take:
  assumes "worker_ok w" "rw_running w = None" "Take_task w = Some (m, t, w')"
  shows "worker_ok w'"
  using assms(3)
proof (cases rule: Take_task_cases)
  case (1 rest q ts)
  have w: "distinct (m # rest)" "\<And>x. (rw_rooms w x \<noteq> None) = (x \<in> set (m # rest))"
    "\<And>x. x \<in> set (m # rest) \<Longrightarrow> waiting x w \<noteq> []" "\<And>x q. rw_rooms w x = Some q \<Longrightarrow> rq_scheduled q"
    using assms(1,2) unfolding worker_ok_def 1(1) by auto
  have "waiting x w' = waiting x w" if "x \<noteq> m" for x
    using that by (simp add: 1(4) waiting_def)
  then have "\<forall>x \<in> set rest. waiting x w' \<noteq> []"
    using w(1,3) by (metis distinct.simps(2) list.set_intros(2))
  moreover have "\<forall>x. (rw_rooms w' x \<noteq> None) = (x \<in> set rest \<or> x = m)" using w(2) 1(2) by (auto simp: 1(4))
  moreover have "\<forall>x q. rw_rooms w' x = Some q \<longrightarrow> rq_scheduled q" using w(4) 1(2) by (auto simp: 1(4))
  ultimately show ?thesis using w(1) by (auto simp: worker_ok_def 1(4))
qed

lemma worker_ok_done: "worker_ok w \<Longrightarrow> rw_running w = Some m \<Longrightarrow> worker_ok (Task_done m w)"
  unfolding Task_done_def
  by (cases "rw_rooms w m") (auto simp: worker_ok_def waiting_def)

text \<open>The code's at and front are safe: a ready worker always has a task to take.\<close>

lemma worker_takes: "worker_ok w \<Longrightarrow> rw_ready w \<noteq> [] \<Longrightarrow> \<exists>m t w'. Take_task w = Some (m, t, w')"
  by (cases "rw_ready w") (auto simp: Take_task_def worker_ok_def waiting_def neq_Nil_conv split: option.splits)

section \<open>The invariant of the pool\<close>

definition room_pool_inv :: "(u64 \<Rightarrow> nat) \<Rightarrow> nat \<Rightarrow> 'a room_pool \<times> 'a pool_entry list \<Rightarrow> bool" where
  "room_pool_inv hash n s \<longleftrightarrow> (case s of (p, tr) \<Rightarrow> length p = n \<and> (\<forall>i < n. worker_ok (p ! i))
     \<and> (\<forall>m i. i < n \<longrightarrow> i \<noteq> hash m mod n \<longrightarrow> rw_rooms (p ! i) m = None)
     \<and> (\<forall>m. posted m tr = started m tr @ waiting m (p ! (hash m mod n)))
     \<and> (\<forall>m. length (started m tr) = finished m tr + (if rw_running (p ! (hash m mod n)) = Some m then 1 else 0))
     \<and> (\<forall>m t i. Started m t i \<in> set tr \<longrightarrow> i = hash m mod n))"

lemma room_pool_invI:
  assumes "length p = n" "\<And>i. i < n \<Longrightarrow> worker_ok (p ! i)"
    and "\<And>m i. i < n \<Longrightarrow> i \<noteq> hash m mod n \<Longrightarrow> rw_rooms (p ! i) m = None"
    and "\<And>m. posted m tr = started m tr @ waiting m (p ! (hash m mod n))"
    and "\<And>m. length (started m tr) = finished m tr + (if rw_running (p ! (hash m mod n)) = Some m then 1 else 0)"
    and "\<And>m t i. Started m t i \<in> set tr \<Longrightarrow> i = hash m mod n"
  shows "room_pool_inv hash n (p, tr)"
  using assms by (simp add: room_pool_inv_def)

lemma room_pool_invD:
  assumes "room_pool_inv hash n (p, tr)"
  shows "length p = n" "i < n \<Longrightarrow> worker_ok (p ! i)"
    and "i < n \<Longrightarrow> i \<noteq> hash m mod n \<Longrightarrow> rw_rooms (p ! i) m = None"
    and "posted m tr = started m tr @ waiting m (p ! (hash m mod n))"
    and "length (started m tr) = finished m tr + (if rw_running (p ! (hash m mod n)) = Some m then 1 else 0)"
    and "Started m t i \<in> set tr \<Longrightarrow> i = hash m mod n"
  using assms by (auto simp: room_pool_inv_def)

lemma worker_post_fields:
  "rw_running (snd (worker_post m t w)) = rw_running w"
  "(rw_rooms (snd (worker_post m t w)) x = None) = (rw_rooms w x = None \<and> \<not> (x = m \<and> fst (worker_post m t w)))"
  "waiting x (snd (worker_post m t w)) = waiting x w @ (if x = m \<and> fst (worker_post m t w) then [t] else [])"
  by (auto simp: worker_post_def Let_def waiting_def RoomQueue_new_def split: option.split)

lemma Take_task_fields:
  assumes "Take_task w = Some (m, t, w')"
  shows "rw_running w' = Some m" "x \<noteq> m \<Longrightarrow> rw_rooms w' x = rw_rooms w x"
    and "waiting x w = (if x = m then [t] else []) @ waiting x w'" "rw_rooms w m \<noteq> None"
  using assms by (auto elim!: Take_task_cases simp: waiting_def)

lemma Task_done_fields:
  "rw_running (Task_done m w) = None" "rw_rooms w x = None \<Longrightarrow> rw_rooms (Task_done m w) x = None"
  "waiting x (Task_done m w) = waiting x w"
  by (auto simp: Task_done_def waiting_def split: option.split)

lemma nth_update_if: "xs[i := x] ! j = (if i = j \<and> j < length xs then x else xs ! j)"
  by (cases "i < length xs") (auto simp: nth_list_update list_update_beyond)

lemma stopping_same:
  "worker_ok (w\<lparr>rw_stopping := b\<rparr>) = worker_ok w" "waiting m (w\<lparr>rw_stopping := b\<rparr>) = waiting m w"
  by (simp_all add: worker_ok_def waiting_def)

lemma room_pool_step_inv:
  assumes "room_pool_step hash s s'" "room_pool_inv hash n s" "0 < n"
  shows "room_pool_inv hash n s'"
  using assms
proof cases
  case (rp_post m t p ok p' tr)
  note d = room_pool_invD [OF assms(2) [unfolded rp_post(1)]]
  let ?i = "hash m mod n"
  have h: "?i < n" using assms(3) by simp
  have p': "p' = p[?i := snd (worker_post m t (p ! ?i))]" "ok = fst (worker_post m t (p ! ?i))"
    using rp_post(3) by (auto simp: Post_def WorkerIndex_def d(1) Let_def case_prod_beta)
  show ?thesis unfolding rp_post(2)
    by (rule room_pool_invI)
      (use d h in \<open>auto simp: p' nth_list_update worker_ok_post worker_post_fields split: if_split_asm\<close>)
next
  case (rp_take i p m t w tr)
  note d = room_pool_invD [OF assms(2) [unfolded rp_take(1)]]
  have "i < n" using rp_take(3) d(1) by simp
  then have i: "i < n" "i = hash m mod n" using d(3) [of i m] Take_task_fields(4) [OF rp_take(5)] by auto
  have w: "worker_ok w" using worker_ok_take [OF d(2) [OF i(1)] rp_take(4,5)] .
  note f = Take_task_fields [OF rp_take(5)]
  have at: "p[i := w] ! (hash x mod n) = (if hash x mod n = i then w else p ! (hash x mod n))" for x
    using d(1) i(1) by (simp add: nth_list_update)
  show ?thesis unfolding rp_take(2)
  proof (rule room_pool_invI)
    show "length (p[i := w]) = n" by (simp add: d(1))
    show "worker_ok (p[i := w] ! j)" if "j < n" for j
      using d(1) d(2) [OF that] w i(1) by (simp add: nth_list_update)
    show "rw_rooms (p[i := w] ! j) x = None" if "j < n" "j \<noteq> hash x mod n" for x j
      using d(1) d(3) [OF that] that f(2) [of x] i by (cases "x = m") (auto simp: nth_list_update)
    show "posted x (tr @ [Started m t i]) = started x (tr @ [Started m t i]) @ waiting x (p[i := w] ! (hash x mod n))" for x
      using d(4) [of x] f(3) [of x] unfolding at by (cases "x = m") (auto simp: i(2) [symmetric])
    show "length (started x (tr @ [Started m t i])) = finished x (tr @ [Started m t i])
        + (if rw_running (p[i := w] ! (hash x mod n)) = Some x then 1 else 0)" for x
      using d(5) [of x] f(1) rp_take(4) unfolding at by (cases "x = m") (auto simp: i(2) [symmetric])
    show "j = hash x mod n" if "Started x u j \<in> set (tr @ [Started m t i])" for x u j
      using that d(6) i(2) by auto
  qed
next
  case (rp_done i p m tr)
  note d = room_pool_invD [OF assms(2) [unfolded rp_done(1)]]
  have i: "i < n" using rp_done(3) d(1) by simp
  then have "rw_rooms (p ! i) m \<noteq> None" using d(2) [of i] rp_done(4) by (simp add: worker_ok_def)
  then have m: "i = hash m mod n" using d(3) [of i m] i by metis
  show ?thesis unfolding rp_done(2)
    by (rule room_pool_invI)
      (use d i m rp_done(4) in \<open>auto simp: nth_list_update worker_ok_done Task_done_fields\<close>)
next
  case (rp_stop p tr i)
  note d = room_pool_invD [OF assms(2) [unfolded rp_stop(1)]]
  show ?thesis unfolding rp_stop(2)
    by (rule room_pool_invI) (use d in \<open>auto simp: Pool_stop_def nth_update_if stopping_same\<close>)
qed

lemma room_pool_reach_inv: "room_pool_reach hash n s \<Longrightarrow> 0 < n \<Longrightarrow> room_pool_inv hash n s"
proof (induction rule: room_pool_reach.induct)
  case rr_start
  then show ?case
    by (intro room_pool_invI) (simp_all add: RoomThreadPool_new_def worker_ok_new waiting_def, simp_all add: Worker_new_def)
next
  case (rr_step s s')
  then show ?case by (blast intro: room_pool_step_inv)
qed

section \<open>The properties\<close>

text \<open>C25: The tasks of one meeting are served in order, one at a time, by one worker, and
  none is lost: at any moment what was handed to the handler is the accepted tasks in
  their order without those still queued, at most one of them is unfinished, all ran on the
  meeting's own worker, and when that worker has returned all of them are finished.\<close>

theorem room_tasks_fifo:
  assumes "room_pool_reach hash n (p, tr)" "0 < n"
  shows "posted m tr = started m tr @ waiting m (p ! (hash m mod n))
    \<and> finished m tr \<le> length (started m tr) \<and> length (started m tr) \<le> Suc (finished m tr)
    \<and> (\<forall>t i. Started m t i \<in> set tr \<longrightarrow> i = hash m mod n)
    \<and> (worker_returned (p ! (hash m mod n)) \<longrightarrow> started m tr = posted m tr \<and> finished m tr = length (posted m tr))"
proof -
  note d = room_pool_invD [OF room_pool_reach_inv [OF assms]]
  have "waiting m (p ! (hash m mod n)) = [] \<and> rw_running (p ! (hash m mod n)) = None"
    if "worker_returned (p ! (hash m mod n))"
    using that d(2) [of "hash m mod n"] assms(2)
    by (auto simp: worker_returned_def worker_ok_def waiting_def split: option.split)
  then show ?thesis using d(4,5) [of m] d(6) by auto
qed

text \<open>Two meetings on one worker: both have a task, the first is taken.\<close>

definition demo_pool :: "string room_pool" where
  "demo_pool = [snd (worker_post 9 ''b'' (snd (worker_post 5 ''a'' Worker_new)))]"

lemma demo_pool_reach: "room_pool_reach (\<lambda>m. unat m) 1 (demo_pool, [Posted 5 ''a'', Posted 9 ''b''])"
proof -
  let ?p = "[snd (worker_post 5 ''a'' Worker_new)] :: string room_pool"
  have "Post (\<lambda>m. unat m) 5 ''a'' (RoomThreadPool_new 1) = (True, ?p)"
    "Post (\<lambda>m. unat m) 9 ''b'' ?p = (True, demo_pool)"
    by (simp_all add: Post_def WorkerIndex_def RoomThreadPool_new_def demo_pool_def worker_post_def Worker_new_def Let_def)
  from rr_step [OF rr_step [OF rr_start rp_post [OF this(1)]] rp_post [OF this(2)]] show ?thesis
    by simp
qed

theorem room_tasks_fifo_witness:
  "posted 9 [Posted 5 ''a'', Posted 9 ''b''] = waiting 9 (demo_pool ! 0)"
  using room_tasks_fifo [OF demo_pool_reach, of 9] by simp

text \<open>A meeting that waits its turn: how many meetings are ready before it.\<close>

definition turn :: "u64 \<Rightarrow> 'a room_worker \<Rightarrow> nat" where
  "turn m w = length (takeWhile (\<lambda>x. x \<noteq> m) (rw_ready w))"

fun starts_on :: "nat \<Rightarrow> 'a pool_entry list \<Rightarrow> nat" where
  "starts_on i [] = 0"
| "starts_on i (Started m t j # tr) = (if j = i then Suc (starts_on i tr) else starts_on i tr)"
| "starts_on i (_ # tr) = starts_on i tr"

lemma starts_on_append [simp]: "starts_on i (a @ b) = starts_on i a + starts_on i b"
  by (induction i a rule: starts_on.induct) simp_all

definition turn_near :: "u64 \<Rightarrow> nat \<Rightarrow> nat \<Rightarrow> 'a room_pool \<Rightarrow> 'a pool_entry list \<Rightarrow> bool" where
  "turn_near m i k p new \<longleftrightarrow> (\<exists>t. Started m t i \<in> set new)
     \<or> m \<in> set (rw_ready (p ! i)) \<and> turn m (p ! i) + starts_on i new \<le> k"

lemma turn_ready_append: "m \<in> set r \<Longrightarrow> takeWhile (\<lambda>x. x \<noteq> m) (r @ s) = takeWhile (\<lambda>x. x \<noteq> m) r"
  by (rule takeWhile_append1 [of m]) simp_all

lemma turn_near_step:
  assumes "room_pool_step hash (p, tr) (p', tr')" "turn_near m i k p new"
  shows "\<exists>more. tr' = tr @ more \<and> turn_near m i k p' (new @ more)"
proof -
  have keep: "turn_near m i k p' (new @ more)"
    if "m \<in> set (rw_ready (p ! i)) \<Longrightarrow> \<exists>s. rw_ready (p' ! i) = rw_ready (p ! i) @ s" "starts_on i more = 0" for more
    using that assms(2) by (auto simp: turn_near_def turn_def turn_ready_append)
  show ?thesis using assms(1)
  proof cases
    case (rp_post m' t ok)
    have "\<exists>s. rw_ready (snd (worker_post m' t w)) = rw_ready w @ s" for w :: "'a room_worker"
      by (auto simp: worker_post_def Let_def)
    then have "\<exists>s. rw_ready (p' ! i) = rw_ready (p ! i) @ s"
      using rp_post(2) by (auto simp: Post_def Let_def case_prod_beta nth_update_if)
    then show ?thesis using keep [of "if ok then [Posted m' t] else []"] rp_post(1) by auto
  next
    case (rp_take j m' t w)
    from rp_take(5) obtain rest where r: "rw_ready (p ! j) = m' # rest" "rw_ready w = rest"
      by (auto elim: Take_task_cases)
    show ?thesis
    proof (cases "j = i")
      case True
      then have "turn_near m i k p' (new @ [Started m' t j])"
        using assms(2) r rp_take(1,3) by (auto simp: turn_near_def turn_def split: if_splits)
      then show ?thesis using rp_take(2) by blast
    next
      case False
      then show ?thesis using keep [of "[Started m' t j]"] rp_take(1,2) by auto
    qed
  next
    case (rp_done j m')
    have "\<exists>s. rw_ready (Task_done m' w) = rw_ready w @ s" for w :: "'a room_worker"
      by (auto simp: Task_done_def split: option.split)
    then show ?thesis using keep [of "[Finished m']"] rp_done(1,2) by (auto simp: nth_update_if)
  next
    case (rp_stop j)
    then show ?thesis using keep [of "[]"] by (auto simp: Pool_stop_def nth_update_if)
  qed
qed

text \<open>No meeting starves.  A meeting that is ready behind k others on its worker gets a
  task served within the next k + 1 tasks that worker starts, whatever is posted, finished
  or stopped in between.\<close>

theorem room_served_in_turn:
  assumes "(room_pool_step hash)\<^sup>*\<^sup>* (p, tr) (p', tr @ new)"
    and "m \<in> set (rw_ready (p ! i))" "turn m (p ! i) < starts_on i new"
  shows "\<exists>t. Started m t i \<in> set new"
proof -
  have "\<exists>more. snd s' = tr @ more \<and> turn_near m i (turn m (p ! i)) (fst s') more"
    if "(room_pool_step hash)\<^sup>*\<^sup>* (p, tr) s'" for s'
    using that
  proof (induction rule: rtranclp_induct)
    case base
    then show ?case using assms(2) by (simp add: turn_near_def)
  next
    case (step s s')
    then obtain more where "snd s = tr @ more" "turn_near m i (turn m (p ! i)) (fst s) more" by blast
    moreover have "room_pool_step hash (fst s, snd s) (fst s', snd s')" using step.hyps(2) by simp
    ultimately show ?case using turn_near_step by fastforce
  qed
  from this [OF assms(1)] show ?thesis using assms(3) by (auto simp: turn_near_def)
qed

theorem room_served_in_turn_witness:
  "\<exists>t. Started 5 t 0 \<in> set [Started 5 ''a'' 0]"
proof -
  obtain w where w: "Take_task (demo_pool ! 0) = Some (5, ''a'', w)" "rw_running (demo_pool ! 0) = None"
    by (simp add: demo_pool_def Take_task_def worker_post_def Worker_new_def RoomQueue_new_def Let_def)
  have "room_pool_step (\<lambda>m. unat m) (demo_pool, []) (demo_pool[0 := w], [] @ [Started 5 ''a'' 0])"
    by (rule rp_take) (use w in \<open>simp_all add: demo_pool_def\<close>)
  then have "(room_pool_step (\<lambda>m. unat m))\<^sup>*\<^sup>* (demo_pool, []) (demo_pool[0 := w], [] @ [Started 5 ''a'' 0])"
    by (rule r_into_rtranclp)
  then show ?thesis
    by (rule room_served_in_turn)
      (simp_all add: demo_pool_def turn_def worker_post_def Worker_new_def RoomQueue_new_def Let_def)
qed

end
