(* ===== verification/ControlSession.thy ===== *)
theory ControlSession
  imports MediaSignal "HOL-Library.Sublist"
begin

text \<open>
  The control connection of MediaServer (MediaServer/src/net/Session.cpp): a bounded queue
  of frames, a sending thread that writes one frame after the other, and a blocking
  reader.  The sending thread is cut at its system calls: cs_thread is where it stands, and
  other threads act between its steps.
\<close>

section \<open>State\<close>

datatype send_thread = Waiting | Writing string nat | Returned

record control_session =
  cs_open :: bool
  cs_meeting_ids :: "u64 list"
  cs_queue :: "string list"
  cs_pending_bytes :: nat
  cs_pending_frames :: nat
  cs_stopping :: bool
  cs_thread :: send_thread

definition kControlPendingBytes :: nat where "kControlPendingBytes = 4 * 1024 * 1024"
definition kControlPendingFrames :: nat where "kControlPendingFrames = 1024"

definition ControlSession_new :: control_session where
  "ControlSession_new = \<lparr>cs_open = True, cs_meeting_ids = [], cs_queue = [], cs_pending_bytes = 0,
     cs_pending_frames = 0, cs_stopping = False, cs_thread = Waiting\<rparr>"

definition IsStopped :: "control_session \<Rightarrow> bool" where
  "IsStopped s = cs_stopping s"

definition RememberRoom :: "u64 \<Rightarrow> control_session \<Rightarrow> control_session" where
  "RememberRoom meeting s = s\<lparr>cs_meeting_ids := List.insert meeting (cs_meeting_ids s)\<rparr>"

section \<open>Sending\<close>

definition Control_Stop :: "control_session \<Rightarrow> control_session" where
  "Control_Stop s = (if cs_stopping s then s
     else s\<lparr>cs_stopping := True, cs_queue := [], cs_pending_bytes := 0, cs_pending_frames := 0\<rparr>)"

definition control_frame :: "string \<Rightarrow> string" where
  "control_frame payload = be32_bytes (of_nat (length payload)) @ payload"

definition Control_Send :: "string \<Rightarrow> control_session \<Rightarrow> bool \<times> control_session" where
  "Control_Send payload s =
     (if cs_stopping s then (False, s)
      else if length payload > kControlPendingBytes - 4
              \<or> length payload + 4 > size_sub kControlPendingBytes (cs_pending_bytes s)
              \<or> cs_pending_frames s \<ge> kControlPendingFrames
      then (False, Control_Stop s)
      else (True, s\<lparr>cs_queue := cs_queue s @ [control_frame payload],
             cs_pending_bytes := cs_pending_bytes s + length (control_frame payload),
             cs_pending_frames := cs_pending_frames s + 1\<rparr>))"

text \<open>The steps of SendLoop: taking a frame, one send of SendAll, and the bookkeeping after
  a whole frame.  A step that is not the thread's next one changes nothing.\<close>

definition loop_take :: "control_session \<Rightarrow> control_session" where
  "loop_take s = (case cs_thread s of
       Waiting \<Rightarrow>
         if cs_stopping s then s\<lparr>cs_thread := Returned\<rparr>
         else (case cs_queue s of
             [] \<Rightarrow> s
           | frame # rest \<Rightarrow> s\<lparr>cs_queue := rest, cs_thread := Writing frame 0\<rparr>)
     | _ \<Rightarrow> s)"

definition send_all_step :: "send_result \<Rightarrow> control_session \<Rightarrow> string \<times> control_session" where
  "send_all_step r s = (case cs_thread s of
       Writing frame sent \<Rightarrow>
         if sent < length frame
         then (case r of
             Sent k \<Rightarrow>
               let took = take k (drop sent frame) in
               if took = [] then ([], (Control_Stop s)\<lparr>cs_thread := Returned\<rparr>)
               else (took, s\<lparr>cs_thread := Writing frame (sent + length took)\<rparr>)
           | SendIntr \<Rightarrow> ([], s)
           | _ \<Rightarrow> ([], (Control_Stop s)\<lparr>cs_thread := Returned\<rparr>))
         else ([], s)
     | _ \<Rightarrow> ([], s))"

definition loop_wrote :: "control_session \<Rightarrow> control_session" where
  "loop_wrote s = (case cs_thread s of
       Writing frame sent \<Rightarrow>
         if sent < length frame then s
         else if cs_stopping s then s\<lparr>cs_thread := Returned\<rparr>
         else s\<lparr>cs_pending_bytes := size_sub (cs_pending_bytes s) (length frame),
                cs_pending_frames := size_sub (cs_pending_frames s) 1, cs_thread := Waiting\<rparr>
     | _ \<Rightarrow> s)"

text \<open>Close stops, waits for the thread and gives the descriptor back; a step before the
  thread has returned only stops.\<close>

definition Control_Close :: "control_session \<Rightarrow> control_session" where
  "Control_Close s = (let s1 = Control_Stop s in
     if cs_thread s1 = Returned then s1\<lparr>cs_open := False\<rparr> else s1)"

section \<open>Receiving\<close>

text \<open>What one recv does: it delivers at most so many bytes of the stream, is interrupted, or
  fails.  None of ReceiveAll is failure, the end of the stream or a recv that never
  returns (the calls have run out).\<close>

datatype recv_call = Got nat | RecvIntr | RecvFail

fun ReceiveAll :: "nat \<Rightarrow> recv_call list \<Rightarrow> string \<Rightarrow> (string \<times> recv_call list \<times> string) option" where
  "ReceiveAll 0 rs st = Some ([], rs, st)"
| "ReceiveAll (Suc n) [] st = None"
| "ReceiveAll (Suc n) (RecvIntr # rs) st = ReceiveAll (Suc n) rs st"
| "ReceiveAll (Suc n) (RecvFail # rs) st = None"
| "ReceiveAll (Suc n) (Got k # rs) st =
     (let b = take (min k (Suc n)) st in
      if b = [] then None
      else map_option (apfst ((@) b)) (ReceiveAll (Suc n - length b) rs (drop (length b) st)))"

definition Control_Receive :: "control_session \<Rightarrow> recv_call list \<Rightarrow> string \<Rightarrow> (string \<times> recv_call list \<times> string) option" where
  "Control_Receive s rs st =
     (if cs_stopping s then None
      else case ReceiveAll 4 rs st of
        None \<Rightarrow> None
      | Some (header, rs1, st1) \<Rightarrow> ReceiveAll (unat (be32 (header ! 0) (header ! 1) (header ! 2) (header ! 3))) rs1 st1)"

text \<open>A failed read stops the connection; a message goes to LogicSystem.\<close>

definition Control_HandleRead :: "recv_call list \<Rightarrow> string \<Rightarrow> control_session \<Rightarrow>
    (string \<times> recv_call list \<times> string) option \<times> control_session" where
  "Control_HandleRead rs st s = (case Control_Receive s rs st of
       None \<Rightarrow> (None, Control_Stop s)
     | Some m \<Rightarrow> (Some m, s))"

section \<open>The invariant\<close>

definition in_flight_frame :: "control_session \<Rightarrow> string list" where
  "in_flight_frame s = (case cs_thread s of Writing frame sent \<Rightarrow> [frame] | _ \<Rightarrow> [])"

definition control_frames :: "control_session \<Rightarrow> string list" where
  "control_frames s = in_flight_frame s @ cs_queue s"

definition control_unsent :: "control_session \<Rightarrow> string" where
  "control_unsent s = (case cs_thread s of Writing frame sent \<Rightarrow> drop sent frame | _ \<Rightarrow> []) @ concat (cs_queue s)"

definition control_ok :: "control_session \<Rightarrow> bool" where
  "control_ok s \<longleftrightarrow>
     (if cs_stopping s then cs_queue s = [] \<and> cs_pending_bytes s = 0 \<and> cs_pending_frames s = 0
      else cs_thread s \<noteq> Returned \<and> cs_pending_bytes s = sum_list (map length (control_frames s))
        \<and> cs_pending_frames s = length (control_frames s))
     \<and> sum_list (map length (control_frames s)) \<le> kControlPendingBytes
     \<and> length (control_frames s) \<le> kControlPendingFrames"

lemmas control_defs = control_ok_def control_frames_def in_flight_frame_def control_unsent_def

lemma control_new_ok: "control_ok ControlSession_new"
  by (simp add: control_defs ControlSession_new_def)

lemma Stop_fields [simp]:
  "cs_stopping (Control_Stop s)" "cs_thread (Control_Stop s) = cs_thread s"
  by (simp_all add: Control_Stop_def)

lemma Stop_ok:
  assumes "control_ok s" shows "control_ok (Control_Stop s)"
proof -
  have "length (in_flight_frame s) \<le> kControlPendingFrames"
    by (simp add: in_flight_frame_def kControlPendingFrames_def split: send_thread.split)
  then show ?thesis
    using assms by (auto simp: control_ok_def control_frames_def Control_Stop_def in_flight_frame_def split: if_splits)
qed

lemma Stop_queue: "control_ok s \<Longrightarrow> cs_queue (Control_Stop s) = []"
  by (auto simp: Control_Stop_def control_ok_def)

lemma Control_Send_cases:
  assumes "control_ok s" "Control_Send payload s = (b, s')"
  obtains (accepted) "b" "\<not> cs_stopping s" "\<not> cs_stopping s'" "cs_thread s' = cs_thread s"
      "cs_queue s' = cs_queue s @ [control_frame payload]" "control_ok s'"
  | (refused) "\<not> b" "cs_stopping s'" "cs_thread s' = cs_thread s" "s' = Control_Stop s" "control_ok s'"
proof (cases b)
  case True
  then have c: "\<not> cs_stopping s" "length (control_frame payload) \<le> kControlPendingBytes - cs_pending_bytes s"
      "cs_pending_frames s < kControlPendingFrames"
      "s' = s\<lparr>cs_queue := cs_queue s @ [control_frame payload],
             cs_pending_bytes := cs_pending_bytes s + length (control_frame payload),
             cs_pending_frames := cs_pending_frames s + 1\<rparr>"
    using assms by (auto simp: Control_Send_def control_frame_def size_sub_le kControlPendingBytes_def control_ok_def split: if_splits)
  have "control_ok s'"
    using assms(1) c by (auto simp: control_ok_def control_frames_def in_flight_frame_def)
  then show ?thesis using True c by (intro accepted) simp_all
next
  case False
  then have "s' = Control_Stop s"
    using assms(2) by (auto simp: Control_Send_def Control_Stop_def split: if_splits)
  then show ?thesis using False Stop_ok [OF assms(1)] by (intro refused) simp_all
qed

interpretation ctl: outbox control_ok cs_stopping control_frames control_frame Control_Send
proof unfold_locales
  fix s s' m
  assume ok: "control_ok s"
  { assume "Control_Send m s = (True, s')"
    then show "control_ok s' \<and> \<not> cs_stopping s \<and> \<not> cs_stopping s' \<and> control_frames s' = control_frames s @ [control_frame m]"
      by (rule Control_Send_cases [OF ok]) (simp_all add: control_frames_def in_flight_frame_def) }
  { assume "Control_Send m s = (False, s')"
    then show "control_ok s' \<and> (cs_stopping s' \<or> \<not> cs_stopping s \<and> control_frames s' = control_frames s)"
      by (rule Control_Send_cases [OF ok]) simp_all }
  show "length (control_frames s) \<le> 1024 \<and> sum_list (map length (control_frames s)) \<le> 4 * 1024 * 1024"
    using ok by (auto simp: control_ok_def kControlPendingBytes_def kControlPendingFrames_def)
qed

section \<open>Runs\<close>

text \<open>Any interleaving of the threads that use the connection, with the bytes written and
  the frames accepted.\<close>

datatype control_call = CSend string | CTake | CSendAll send_result | CWrote | CStop | CClose | CRemember u64

fun control_step :: "control_call \<Rightarrow> control_session \<times> string \<times> string list \<Rightarrow> control_session \<times> string \<times> string list" where
  "control_step (CSend m) (s, wire, acc) =
     (let (b, s') = Control_Send m s in (s', wire, if b then acc @ [control_frame m] else acc))"
| "control_step CTake (s, wire, acc) = (loop_take s, wire, acc)"
| "control_step (CSendAll r) (s, wire, acc) = (let (out, s') = send_all_step r s in (s', wire @ out, acc))"
| "control_step CWrote (s, wire, acc) = (loop_wrote s, wire, acc)"
| "control_step CStop (s, wire, acc) = (Control_Stop s, wire, acc)"
| "control_step CClose (s, wire, acc) = (Control_Close s, wire, acc)"
| "control_step (CRemember m) (s, wire, acc) = (RememberRoom m s, wire, acc)"

definition control_run :: "control_call list \<Rightarrow> control_session \<times> string \<times> string list" where
  "control_run calls = fold control_step calls (ControlSession_new, [], [])"

definition control_stream :: "control_session \<times> string \<times> string list \<Rightarrow> bool" where
  "control_stream r = (case r of (s, wire, acc) \<Rightarrow> control_ok s
     \<and> (\<exists>rest. wire @ control_unsent s @ rest = concat acc \<and> (\<not> cs_stopping s \<longrightarrow> rest = [])))"

lemma control_streamI:
  "control_ok s \<Longrightarrow> wire @ control_unsent s @ rest = concat acc \<Longrightarrow> (\<not> cs_stopping s \<Longrightarrow> rest = [])
    \<Longrightarrow> control_stream (s, wire, acc)"
  by (auto simp: control_stream_def)

lemma stop_stream:
  assumes "control_stream (s, wire, acc)" shows "control_stream (Control_Stop s, wire, acc)"
proof -
  obtain rest where r: "wire @ control_unsent s @ rest = concat acc" "control_ok s"
    using assms by (auto simp: control_stream_def)
  show ?thesis
    by (rule control_streamI [where rest = "concat (cs_queue s) @ rest"])
      (use r Stop_ok Stop_queue in \<open>simp_all add: control_unsent_def\<close>)
qed

lemma returned_stream:
  "control_stream (s, wire, acc) \<Longrightarrow> cs_stopping s \<Longrightarrow> control_stream (s\<lparr>cs_thread := Returned\<rparr>, wire, acc)"
  unfolding control_stream_def by (auto simp: control_defs)

lemma send_all_cases:
  obtains (idle) "send_all_step r s = ([], s)"
  | (failed) "send_all_step r s = ([], (Control_Stop s)\<lparr>cs_thread := Returned\<rparr>)"
  | (wrote) f k n where "cs_thread s = Writing f k"
      "send_all_step r s = (take n (drop k f), s\<lparr>cs_thread := Writing f (k + n)\<rparr>)"
proof (cases "cs_thread s")
  case (Writing f k)
  show ?thesis
  proof (cases "k < length f")
    case True
    show ?thesis
    proof (cases r)
      case (Sent j)
      let ?n = "min j (length f - k)"
      have e: "take j (drop k f) = take ?n (drop k f)" "length (take j (drop k f)) = ?n"
        by (simp_all add: min_def)
      show ?thesis
      proof (cases "take j (drop k f) = []")
        case True
        then show ?thesis using \<open>k < length f\<close> Writing Sent by (intro failed) (simp add: send_all_step_def)
      next
        case False
        then show ?thesis using \<open>k < length f\<close> Writing Sent e
          by (intro wrote [of f k ?n]) (simp_all add: send_all_step_def Let_def)
      qed
    qed (use True Writing in \<open>auto simp: send_all_step_def intro: idle failed\<close>)
  qed (use Writing in \<open>auto simp: send_all_step_def intro: idle\<close>)
qed (auto simp: send_all_step_def intro: idle)

lemma control_step_stream:
  assumes "control_stream r" shows "control_stream (control_step c r)"
proof -
  obtain s wire acc where [simp]: "r = (s, wire, acc)" by (metis surj_pair)
  obtain rest where ok: "control_ok s" and w: "wire @ control_unsent s @ rest = concat acc"
    and live: "\<not> cs_stopping s \<longrightarrow> rest = []"
    using assms by (auto simp: control_stream_def)
  have stop: "control_stream (Control_Stop s, wire, acc)" using assms by (simp add: stop_stream)
  show ?thesis
  proof (cases c)
    case (CSend m)
    obtain b s' where s: "Control_Send m s = (b, s')" by (cases "Control_Send m s")
    show ?thesis
      by (rule Control_Send_cases [OF ok s])
        (use s CSend w live stop in \<open>auto simp: control_stream_def control_unsent_def\<close>)
  next
    case CTake
    show ?thesis
    proof (cases "cs_thread s = Waiting \<and> \<not> cs_stopping s \<and> cs_queue s \<noteq> []")
      case True
      then obtain f fs where q: "cs_queue s = f # fs" by (auto simp: neq_Nil_conv)
      show ?thesis using True q w live ok CTake
        by (auto simp: loop_take_def control_stream_def control_defs)
    next
      case False
      then have "loop_take s = s \<or> loop_take s = s\<lparr>cs_thread := Returned\<rparr> \<and> cs_stopping s"
        by (auto simp: loop_take_def split: send_thread.split list.split)
      then show ?thesis using returned_stream assms CTake by auto
    qed
  next
    case (CSendAll r)
    show ?thesis
    proof (cases rule: send_all_cases [of r s])
      case idle
      then show ?thesis using assms CSendAll by simp
    next
      case failed
      then show ?thesis using CSendAll returned_stream [OF stop] by simp
    next
      case (wrote f k n)
      let ?s = "s\<lparr>cs_thread := Writing f (k + n)\<rparr>"
      have "take n (drop k f) @ drop (k + n) f = drop k f"
        using append_take_drop_id [of n "drop k f"] by (simp add: add.commute)
      then have "control_unsent s = take n (drop k f) @ control_unsent ?s"
        using wrote(1) by (simp add: control_unsent_def flip: append_assoc)
      then have "(wire @ take n (drop k f)) @ control_unsent ?s @ rest = concat acc" using w by simp
      moreover have "control_ok ?s" using ok wrote(1) by (simp add: control_defs)
      ultimately show ?thesis using wrote(2) CSendAll live by (auto intro: control_streamI [where rest = rest])
    qed
  next
    case CWrote
    show ?thesis
    proof (cases "\<exists>f k. cs_thread s = Writing f k \<and> length f \<le> k \<and> \<not> cs_stopping s")
      case True
      then show ?thesis using w live ok CWrote
        by (auto simp: loop_wrote_def control_stream_def control_defs kControlPendingBytes_def kControlPendingFrames_def)
    next
      case False
      then have "loop_wrote s = s \<or> loop_wrote s = s\<lparr>cs_thread := Returned\<rparr> \<and> cs_stopping s"
        by (auto simp: loop_wrote_def not_less split: send_thread.split)
      then show ?thesis using returned_stream assms CWrote by auto
    qed
  next
    case CStop
    then show ?thesis using stop by simp
  next
    case CClose
    then show ?thesis using stop by (auto simp: Control_Close_def Let_def control_stream_def control_defs)
  next
    case (CRemember m)
    then show ?thesis using assms by (auto simp: RememberRoom_def control_stream_def control_defs)
  qed
qed

lemma control_run_stream: "control_stream (control_run calls)"
proof (induction calls rule: rev_induct)
  case Nil
  have "control_unsent ControlSession_new = []" by (simp add: control_unsent_def ControlSession_new_def)
  then show ?case by (simp add: control_run_def control_stream_def control_new_ok)
next
  case (snoc c calls)
  then show ?case by (simp add: control_run_def control_step_stream)
qed

text \<open>The control connection keeps its stream whole.  However the threads interleave and
  whatever the kernel takes, what is on the wire is a prefix of the accepted frames in
  order; a connection that has not stopped still holds the whole rest; and at most 1024
  frames or 4 MiB are held, the one being written included.\<close>

theorem control_stream_integrity:
  "case control_run calls of (s, wire, acc) \<Rightarrow>
     prefix wire (concat acc) \<and> (cs_stopping s \<or> wire @ control_unsent s = concat acc)
     \<and> length (control_frames s) \<le> 1024 \<and> sum_list (map length (control_frames s)) \<le> 4 * 1024 * 1024"
proof -
  obtain s wire acc where r: "control_run calls = (s, wire, acc)" by (metis surj_pair)
  then obtain rest where "control_ok s" "wire @ control_unsent s @ rest = concat acc" "\<not> cs_stopping s \<longrightarrow> rest = []"
    using control_run_stream [of calls] by (auto simp: control_stream_def)
  then show ?thesis using ctl.bounded [of s] by (auto simp: r intro: prefixI [OF sym])
qed

section \<open>Reading\<close>

definition brings :: "recv_call \<Rightarrow> bool" where
  "brings r = (case r of Got k \<Rightarrow> 0 < k | _ \<Rightarrow> False)"

lemma brings_simps [simp]: "brings (Got k) = (0 < k)" "\<not> brings RecvIntr" "\<not> brings RecvFail"
  by (simp_all add: brings_def)

lemma ReceiveAll_exact:
  "ReceiveAll n rs st = Some (bs, rs', st') \<Longrightarrow> bs = take n st \<and> st' = drop n st \<and> length bs = n"
proof (induction n rs st arbitrary: bs rs' st' rule: ReceiveAll.induct)
  case (5 n k rs st)
  let ?b = "take (min k (Suc n)) st"
  from 5(2) obtain cs where b: "?b \<noteq> []" and r: "ReceiveAll (Suc n - length ?b) rs (drop (length ?b) st) = Some (cs, rs', st')"
    and bs: "bs = ?b @ cs" by (auto simp: Let_def split: if_split_asm)
  have l: "length ?b \<le> Suc n" "take (length ?b) st = ?b" by (simp_all add: min_def)
  from 5(1) [OF refl b r] have c: "cs = take (Suc n - length ?b) (drop (length ?b) st)"
    "st' = drop (Suc n - length ?b) (drop (length ?b) st)" "length cs = Suc n - length ?b" by blast+
  have "take (Suc n) st = take (length ?b) st @ take (Suc n - length ?b) (drop (length ?b) st)"
    using take_add [of "length ?b" "Suc n - length ?b" st] l(1) by simp
  then have "bs = take (Suc n) st" using bs c(1) l(2) by simp
  moreover have "st' = drop (Suc n) st" using c(2) l(1) by (simp only: drop_drop le_add_diff_inverse2)
  moreover have "length bs = Suc n" using bs c(3) l(1) by simp
  ultimately show ?case by blast
qed simp_all

lemma ReceiveAll_enough:
  assumes "\<forall>r \<in> set rs. brings r \<or> r = RecvIntr" "n \<le> length st" "n \<le> length (filter brings rs)"
  shows "\<exists>rs' . ReceiveAll n rs st = Some (take n st, rs', drop n st)
    \<and> (\<forall>r \<in> set rs'. brings r \<or> r = RecvIntr) \<and> length (filter brings rs) \<le> length (filter brings rs') + n"
  using assms
proof (induction n rs st rule: ReceiveAll.induct)
  case (5 n k rs st)
  let ?b = "take (min k (Suc n)) st"
  have k: "0 < k" using 5(2) by simp
  have l: "length ?b = min k (Suc n)" using 5(3) by simp
  then have b: "?b \<noteq> []" using k by auto
  have len: "Suc n - length ?b \<le> length (drop (length ?b) st)" "Suc n - length ?b \<le> length (filter brings rs)"
    using 5(3,4) k l by (auto simp: min_def split: if_splits)
  obtain rs' where r: "ReceiveAll (Suc n - length ?b) rs (drop (length ?b) st)
      = Some (take (Suc n - length ?b) (drop (length ?b) st), rs', drop (Suc n - length ?b) (drop (length ?b) st))"
    and rs': "\<forall>r \<in> set rs'. brings r \<or> r = RecvIntr"
      "length (filter brings rs) \<le> length (filter brings rs') + (Suc n - length ?b)"
    using 5(1) [OF refl b _ len] 5(2,3) by auto
  have some: "ReceiveAll (Suc n) (Got k # rs) st = Some (?b @ take (Suc n - length ?b) (drop (length ?b) st), rs',
      drop (Suc n - length ?b) (drop (length ?b) st))"
    using b r by (simp add: Let_def)
  from ReceiveAll_exact [OF this] some rs' k l show ?case by auto
qed simp_all

lemma control_frame_head:
  "length payload < 2 ^ 32 \<Longrightarrow> take 4 (control_frame payload @ tail) = be32_bytes (of_nat (length payload))
    \<and> drop 4 (control_frame payload @ tail) = payload @ tail"
  by (simp add: control_frame_def)

text \<open>What RealtimeServer's media client puts on the wire, MediaServer reads back.  However
  the stream is cut into reads and interrupted, reading a frame gives its payload and
  leaves exactly the rest of the stream, or nothing at all; and when every read brings a byte or
  is interrupted, as many reads as the frame has bytes are enough.  Both sides build the same
  frame.\<close>

theorem control_frame_round_trip:
  assumes "length payload < 2 ^ 32" "\<not> IsStopped s"
  shows "uds_frame payload = control_frame payload
    \<and> (\<forall>m rs' st'. Control_Receive s rs (uds_frame payload @ tail) = Some (m, rs', st') \<longrightarrow> m = payload \<and> st' = tail)
    \<and> ((\<forall>r \<in> set rs. brings r \<or> r = RecvIntr) \<and> length (uds_frame payload) \<le> length (filter brings rs)
        \<longrightarrow> (\<exists>rs'. Control_Receive s rs (uds_frame payload @ tail) = Some (payload, rs', tail)))"
proof -
  let ?st = "control_frame payload @ tail" and ?h = "be32_bytes (of_nat (length payload))"
  have f: "uds_frame payload = control_frame payload" by (simp add: uds_frame_def control_frame_def)
  have h: "take 4 ?st = ?h" "drop 4 ?st = payload @ tail" "length (control_frame payload) = 4 + length payload"
    using control_frame_head [OF assms(1), of tail] by (simp_all add: control_frame_def)
  have n: "unat (of_nat (length payload) :: u32) = length payload"
    using assms(1) by (simp add: unat_of_nat take_bit_nat_eq_self)
  have rec: "Control_Receive s rs ?st = (case ReceiveAll 4 rs ?st of None \<Rightarrow> None
      | Some (hdr, rs1, st1) \<Rightarrow> ReceiveAll (unat (be32 (hdr ! 0) (hdr ! 1) (hdr ! 2) (hdr ! 3))) rs1 st1)"
    using assms(2) by (simp add: Control_Receive_def IsStopped_def)
  have body: "Control_Receive s rs ?st = ReceiveAll (length payload) rs1 (payload @ tail)"
    if "ReceiveAll 4 rs ?st = Some (hdr, rs1, st1)" for hdr rs1 st1
  proof -
    have "hdr = ?h" "st1 = payload @ tail" using ReceiveAll_exact [OF that] h by simp_all
    then show ?thesis using that n by (simp add: rec)
  qed
  have "m = payload \<and> st' = tail" if "Control_Receive s rs ?st = Some (m, rs', st')" for m rs' st'
  proof (cases "ReceiveAll 4 rs ?st")
    case (Some p)
    then obtain hdr rs1 st1 where "ReceiveAll 4 rs ?st = Some (hdr, rs1, st1)" by (cases p) auto
    then have "ReceiveAll (length payload) rs1 (payload @ tail) = Some (m, rs', st')" using that body by simp
    from ReceiveAll_exact [OF this] show ?thesis by simp
  qed (use that rec in simp)
  moreover have "\<exists>rs'. Control_Receive s rs ?st = Some (payload, rs', tail)"
    if e: "\<forall>r \<in> set rs. brings r \<or> r = RecvIntr" "4 + length payload \<le> length (filter brings rs)"
  proof -
    obtain rs1 where r1: "ReceiveAll 4 rs ?st = Some (take 4 ?st, rs1, drop 4 ?st)"
      "\<forall>r \<in> set rs1. brings r \<or> r = RecvIntr" "length (filter brings rs) \<le> length (filter brings rs1) + 4"
      using ReceiveAll_enough [OF e(1), of 4 ?st] e(2) h(3) by auto
    show ?thesis
      using ReceiveAll_enough [OF r1(2), of "length payload" "payload @ tail"] r1(3) e(2) body [OF r1(1)] by auto
  qed
  ultimately show ?thesis using f h(3) by simp
qed

theorem control_frame_round_trip_witness:
  "\<exists>rs'. Control_Receive ControlSession_new (RecvIntr # replicate 6 (Got 1)) (uds_frame ''ok'' @ ''x'') = Some (''ok'', rs', ''x'')"
proof -
  let ?rs = "RecvIntr # replicate 6 (Got 1)"
  have "(\<forall>r \<in> set ?rs. brings r \<or> r = RecvIntr) \<and> length (uds_frame ''ok'') \<le> length (filter brings ?rs)"
    by (simp add: uds_frame_def)
  moreover have "\<not> IsStopped ControlSession_new" by (simp add: IsStopped_def ControlSession_new_def)
  moreover have "length ''ok'' < (2 :: nat) ^ 32" by simp
  ultimately show ?thesis
    using control_frame_round_trip [of "''ok''" ControlSession_new ?rs "''x''"] by blast
qed

end
