(* ===== verification/MediaRooms.thy ===== *)
theory MediaRooms
  imports LogicCommon RoomPool ControlSession
begin

text \<open>
  The rooms of MediaServer (src/media, src/service/LogicSystem.cpp of MediaServer): sessions
  with their negotiation state, rooms with members and publishers, and the events of a room.
  The WebRTC library is not part of the repository: lb_ok says whether a call succeeds,
  given every call made before, and lb_tracks which tracks it announces; the calls are
  logged.  Objects are addressed by the numbers the code gives them (sessions) or by a
  serial number (rooms); an operation that throws answers False.  The hash tables of the
  code are association lists, their order being unspecified there.
\<close>

section \<open>State\<close>

record out_track =
  ot_mid :: string
  ot_ssrc :: u32
  ot_publisher :: u64

record media_session =
  md_meeting :: u64
  md_uid :: int
  md_signal :: u64
  md_connection :: nat
  md_room :: nat
  md_remote_offer :: string
  md_in_video :: bool
  md_in_audio :: bool
  md_out_video :: "(int \<times> out_track) list"
  md_out_audio :: "(int \<times> out_track) list"
  md_initial_answer :: bool
  md_waiting :: bool
  md_pending :: bool

text \<open>A peer with the instance number of its session.\<close>

record media_peer =
  pe_meeting :: u64
  pe_uid :: int
  pe_session :: "u64 option"

record media_room =
  ro_meeting :: u64
  ro_next_ssrc :: u32
  ro_peers :: "(int \<times> media_peer) list"
  ro_video :: "(int \<times> u32) list"
  ro_audio :: "(int \<times> u32) list"

record signal_request =
  sr_signal :: u64
  sr_meeting :: u64
  sr_uid :: int
  sr_type :: string
  sr_sdp :: string
  sr_candidate :: string
  sr_mid :: string

datatype media_room_event =
    MediaSignalTask nat signal_request
  | PublisherTrackReady u64 int u64 string
  | LocalMediaSignal nat u64 signal_request
  | SignalDisconnected u64 nat

datatype lib_call =
    NewPeer u64
  | RemoteOffer u64 string
  | RemoteAnswer u64 string
  | LocalDescription u64
  | RemoteCandidate u64 string string
  | AddTrack u64 string u32

record lib =
  lb_ok :: "(lib_call \<times> bool) list \<Rightarrow> lib_call \<Rightarrow> bool"
  lb_tracks :: "(lib_call \<times> bool) list \<Rightarrow> lib_call \<Rightarrow> string list"
  lb_parse :: "string \<Rightarrow> json option"
  lb_styled :: "json \<Rightarrow> string"
  lb_hash :: "u64 \<Rightarrow> nat"

record media_world =
  mw_conns :: "nat \<Rightarrow> control_session option"
  mw_sessions :: "u64 \<Rightarrow> media_session"
  mw_next_session :: u64
  mw_room_objs :: "nat \<Rightarrow> media_room"
  mw_next_room :: nat
  mw_rooms :: "u64 \<Rightarrow> nat option"
  mw_calls :: "(lib_call \<times> bool) list"
  mw_pool :: "media_room_event room_pool"

definition MediaRoom_new :: "u64 \<Rightarrow> media_room" where
  "MediaRoom_new meeting = \<lparr>ro_meeting = meeting, ro_next_ssrc = 100000, ro_peers = [], ro_video = [], ro_audio = []\<rparr>"

definition MediaPeer_new :: "u64 \<Rightarrow> int \<Rightarrow> media_peer" where
  "MediaPeer_new meeting uid = \<lparr>pe_meeting = meeting, pe_uid = uid, pe_session = None\<rparr>"

definition lib_do :: "lib \<Rightarrow> lib_call \<Rightarrow> media_world \<Rightarrow> bool \<times> media_world" where
  "lib_do lb c w = (let ok = lb_ok lb (mw_calls w) c in (ok, w\<lparr>mw_calls := mw_calls w @ [(c, ok)]\<rparr>))"

definition upd_session :: "u64 \<Rightarrow> (media_session \<Rightarrow> media_session) \<Rightarrow> media_world \<Rightarrow> media_world" where
  "upd_session i f w = w\<lparr>mw_sessions := (mw_sessions w)(i := f (mw_sessions w i))\<rparr>"

definition upd_room :: "nat \<Rightarrow> (media_room \<Rightarrow> media_room) \<Rightarrow> media_world \<Rightarrow> media_world" where
  "upd_room r f w = w\<lparr>mw_room_objs := (mw_room_objs w)(r := f (mw_room_objs w r))\<rparr>"

definition post_event :: "lib \<Rightarrow> u64 \<Rightarrow> media_room_event \<Rightarrow> media_world \<Rightarrow> media_world" where
  "post_event lb meeting e w = w\<lparr>mw_pool := snd (Post (lb_hash lb) meeting e (mw_pool w))\<rparr>"

definition conn_stopped :: "nat \<Rightarrow> media_world \<Rightarrow> bool" where
  "conn_stopped c w = (case mw_conns w c of None \<Rightarrow> True | Some s \<Rightarrow> IsStopped s)"

section \<open>MediaSession\<close>

definition GetSignalSession :: "u64 \<Rightarrow> media_world \<Rightarrow> nat option" where
  "GetSignalSession i w = (let c = md_connection (mw_sessions w i) in
     if mw_conns w c = None then None else Some c)"

text \<open>The constructor; its configuration and the library's PeerConnection may throw, the
  instance number is used up all the same.\<close>

definition MediaSession_new :: "lib \<Rightarrow> u64 \<Rightarrow> int \<Rightarrow> u64 \<Rightarrow> nat \<Rightarrow> nat \<Rightarrow> media_world \<Rightarrow> bool \<times> u64 \<times> media_world" where
  "MediaSession_new lb meeting uid signal_id conn room w =
     (let i = mw_next_session w;
          (ok, w1) = lib_do lb (NewPeer i) (w\<lparr>mw_next_session := i + 1\<rparr>)
      in (ok, i, upd_session i (\<lambda>_. \<lparr>md_meeting = meeting, md_uid = uid, md_signal = signal_id,
           md_connection = conn, md_room = room, md_remote_offer = [], md_in_video = False, md_in_audio = False,
           md_out_video = [], md_out_audio = [], md_initial_answer = False, md_waiting = False, md_pending = False\<rparr>) w1))"

definition track_ready :: "lib \<Rightarrow> u64 \<Rightarrow> string \<Rightarrow> media_world \<Rightarrow> media_world" where
  "track_ready lb i media_type w = (let s = mw_sessions w i in
     post_event lb (md_meeting s) (PublisherTrackReady (md_meeting s) (md_uid s) i media_type) w)"

text \<open>The tail of an offer or answer: a pending negotiation starts when the flag was set.\<close>

definition begin_pending :: "lib \<Rightarrow> u64 \<Rightarrow> media_world \<Rightarrow> bool \<times> media_world" where
  "begin_pending lb i w =
     (if md_pending (mw_sessions w i)
      then lib_do lb (LocalDescription i) (upd_session i (\<lambda>s. s\<lparr>md_pending := False, md_waiting := True\<rparr>) w)
      else (True, w))"

definition remote_offer_tracks :: "lib \<Rightarrow> u64 \<Rightarrow> string \<Rightarrow> media_world \<Rightarrow> bool \<times> media_world" where
  "remote_offer_tracks lb i sdp w =
     (let tracks = lb_tracks lb (mw_calls w) (RemoteOffer i sdp);
          (ok, w1) = lib_do lb (RemoteOffer i sdp) (upd_session i (\<lambda>s. s\<lparr>md_remote_offer := sdp\<rparr>) w)
      in (ok, upd_session i (\<lambda>s. s\<lparr>md_in_video := md_in_video s \<or> ''video'' \<in> set tracks,
                                    md_in_audio := md_in_audio s \<or> ''audio'' \<in> set tracks\<rparr>) w1))"

definition announce_tracks :: "lib \<Rightarrow> u64 \<Rightarrow> media_world \<Rightarrow> media_world" where
  "announce_tracks lb i w =
     (let s = mw_sessions w i;
          w1 = (if md_in_video s then track_ready lb i ''video'' w else w)
      in if md_in_audio s then track_ready lb i ''audio'' w1 else w1)"

definition SetRemoteOffer :: "lib \<Rightarrow> u64 \<Rightarrow> string \<Rightarrow> media_world \<Rightarrow> bool \<times> media_world" where
  "SetRemoteOffer lb i sdp w =
     (let (ok, w1) = remote_offer_tracks lb i sdp w in
      if \<not> ok then (False, w1)
      else let (ok2, w2) = lib_do lb (LocalDescription i) (announce_tracks lb i w1) in
        if \<not> ok2 then (False, w2)
        else begin_pending lb i (upd_session i (\<lambda>s. s\<lparr>md_initial_answer := True\<rparr>) w2))"

definition SetRemoteAnswer :: "lib \<Rightarrow> u64 \<Rightarrow> string \<Rightarrow> media_world \<Rightarrow> bool \<times> media_world" where
  "SetRemoteAnswer lb i sdp w =
     (let (ok, w1) = lib_do lb (RemoteAnswer i sdp) w in
      if \<not> ok then (False, w1)
      else begin_pending lb i (upd_session i (\<lambda>s. s\<lparr>md_waiting := False\<rparr>) w1))"

definition AddRemoteCandidate :: "lib \<Rightarrow> u64 \<Rightarrow> string \<Rightarrow> string \<Rightarrow> media_world \<Rightarrow> bool \<times> media_world" where
  "AddRemoteCandidate lb i candidate mid w = lib_do lb (RemoteCandidate i candidate mid) w"

definition out_tracks :: "string \<Rightarrow> media_session \<Rightarrow> (int \<times> out_track) list" where
  "out_tracks media_type s = (if media_type = ''video'' then md_out_video s else md_out_audio s)"

definition track_mid :: "string \<Rightarrow> u32 \<Rightarrow> int \<Rightarrow> string" where
  "track_mid media_type ssrc uid = media_type @ ''-'' @ to_string (unat ssrc) @ ''-'' @ int_to_string uid"

definition AddOutgoingTrack :: "lib \<Rightarrow> u64 \<Rightarrow> int \<Rightarrow> u64 \<Rightarrow> string \<Rightarrow> u32 \<Rightarrow> media_world \<Rightarrow> bool \<times> media_world" where
  "AddOutgoingTrack lb i publisher_uid publisher media_type ssrc w =
     (if map_of (out_tracks media_type (mw_sessions w i)) publisher_uid \<noteq> None then (True, w)
      else let mid = track_mid media_type ssrc publisher_uid;
               track = \<lparr>ot_mid = mid, ot_ssrc = ssrc, ot_publisher = publisher\<rparr>;
               (ok, w1) = lib_do lb (AddTrack i mid ssrc) w
        in if \<not> ok then (False, w1)
           else (True, upd_session i (\<lambda>s.
             if media_type = ''video'' then s\<lparr>md_out_video := AList.update publisher_uid track (md_out_video s)\<rparr>
             else s\<lparr>md_out_audio := AList.update publisher_uid track (md_out_audio s)\<rparr>) w1))"

definition RemoveOutgoingTracks :: "int \<Rightarrow> media_session \<Rightarrow> media_session" where
  "RemoveOutgoingTracks uid s = s\<lparr>md_out_video := AList.delete uid (md_out_video s),
     md_out_audio := AList.delete uid (md_out_audio s)\<rparr>"

definition RequestRenegotiation :: "lib \<Rightarrow> u64 \<Rightarrow> media_world \<Rightarrow> bool \<times> media_world" where
  "RequestRenegotiation lb i w =
     (let s = mw_sessions w i in
      if \<not> md_initial_answer s \<or> md_waiting s
      then (True, upd_session i (\<lambda>s. s\<lparr>md_pending := True\<rparr>) w)
      else lib_do lb (LocalDescription i) (upd_session i (\<lambda>s. s\<lparr>md_waiting := True\<rparr>) w))"

text \<open>A packet that reaches a subscriber, the second moment of its forwarding: on which track, with the SSRC of the header
  (bytes 8 to 11) replaced.  is_open is the library's state of the track.\<close>

definition set_ssrc :: "u32 \<Rightarrow> string \<Rightarrow> string" where
  "set_ssrc ssrc packet = take 8 packet @ be32_bytes ssrc @ drop 12 packet"

definition Session_ForwardRtp :: "(string \<Rightarrow> bool) \<Rightarrow> int \<Rightarrow> u64 \<Rightarrow> string \<Rightarrow> string \<Rightarrow> media_session
    \<Rightarrow> (string \<times> string) option" where
  "Session_ForwardRtp is_open publisher_uid publisher media_type packet s =
     (case map_of (out_tracks media_type s) publisher_uid of
        None \<Rightarrow> None
      | Some track \<Rightarrow>
          if ot_publisher track \<noteq> publisher then None
          else if \<not> is_open (ot_mid track) then None
          else Some (ot_mid track, set_ssrc (ot_ssrc track) packet))"

section \<open>MediaRoom\<close>

definition AddPeer :: "media_peer \<Rightarrow> media_room \<Rightarrow> media_room" where
  "AddPeer peer r = r\<lparr>ro_peers := AList.update (pe_uid peer) peer (ro_peers r)\<rparr>"

definition GetPeer :: "int \<Rightarrow> media_room \<Rightarrow> media_peer option" where
  "GetPeer uid r = map_of (ro_peers r) uid"

definition PeerCount :: "media_room \<Rightarrow> nat" where
  "PeerCount r = length (ro_peers r)"

text \<open>GetPeer followed by GetSession.\<close>

definition peer_session :: "int \<Rightarrow> media_room \<Rightarrow> u64 option" where
  "peer_session uid r = (case GetPeer uid r of None \<Rightarrow> None | Some p \<Rightarrow> pe_session p)"

definition room_sessions :: "media_room \<Rightarrow> u64 list" where
  "room_sessions r = List.map_filter (\<lambda>(uid, p). pe_session p) (ro_peers r)"

text \<open>expected 0 removes whoever has the uid.\<close>

definition RemovePeer :: "nat \<Rightarrow> int \<Rightarrow> u64 \<Rightarrow> media_world \<Rightarrow> media_world" where
  "RemovePeer room uid expected w =
     (if expected \<noteq> 0 \<and> peer_session uid (mw_room_objs w room) \<noteq> Some expected then w
      else let w1 = upd_room room (\<lambda>r. r\<lparr>ro_peers := AList.delete uid (ro_peers r),
             ro_video := AList.delete uid (ro_video r), ro_audio := AList.delete uid (ro_audio r)\<rparr>) w
        in fold (\<lambda>i. upd_session i (RemoveOutgoingTracks uid)) (room_sessions (mw_room_objs w1 room)) w1)"

definition GetSessionsForConnection :: "nat \<Rightarrow> nat \<Rightarrow> media_world \<Rightarrow> u64 list" where
  "GetSessionsForConnection room conn w =
     filter (\<lambda>i. GetSignalSession i w = Some conn) (room_sessions (mw_room_objs w room))"

record track_binding =
  tb_session :: u64
  tb_uid :: int
  tb_publisher :: u64
  tb_type :: string
  tb_ssrc :: u32

definition both_tracks :: "u64 \<Rightarrow> int \<Rightarrow> u64 \<Rightarrow> u32 \<Rightarrow> u32 \<Rightarrow> track_binding list" where
  "both_tracks session uid publisher video audio =
     [\<lparr>tb_session = session, tb_uid = uid, tb_publisher = publisher, tb_type = ''video'', tb_ssrc = video\<rparr>,
      \<lparr>tb_session = session, tb_uid = uid, tb_publisher = publisher, tb_type = ''audio'', tb_ssrc = audio\<rparr>]"

text \<open>The present members get the tracks of the new publisher.\<close>

definition tracks_to_members :: "int \<Rightarrow> u64 \<Rightarrow> u32 \<Rightarrow> u32 \<Rightarrow> media_room \<Rightarrow> (u64 \<times> track_binding list) list" where
  "tracks_to_members uid publisher video audio r = List.map_filter (\<lambda>(target, p).
     if target = uid then None
     else map_option (\<lambda>i. (i, both_tracks i uid publisher video audio)) (pe_session p)) (ro_peers r)"

text \<open>The new publisher gets the tracks of the complete publishers.  m_peers.at would throw for a
  publisher that is no member, which the invariant below excludes; it is skipped here.\<close>

definition tracks_of_publishers :: "int \<Rightarrow> u64 \<Rightarrow> media_room \<Rightarrow> track_binding list" where
  "tracks_of_publishers uid session r = concat (map (\<lambda>(other, video).
     if other = uid then []
     else case map_of (ro_audio r) other of
       None \<Rightarrow> []
     | Some audio \<Rightarrow> (case peer_session other r of
           None \<Rightarrow> []
         | Some publisher \<Rightarrow> both_tracks session other publisher video audio)) (ro_video r))"

text \<open>The two loops outside the lock: a binding or session is skipped once its session or its
  publisher has been removed; a failing one removes the session it was made for.\<close>

definition add_binding :: "lib \<Rightarrow> nat \<Rightarrow> track_binding \<Rightarrow> media_world \<Rightarrow> media_world" where
  "add_binding lb room b w =
     (let i = tb_session b; uid = md_uid (mw_sessions w i); r = mw_room_objs w room in
      if peer_session uid r \<noteq> Some i \<or> peer_session (tb_uid b) r \<noteq> Some (tb_publisher b) then w
      else let (ok, w1) = AddOutgoingTrack lb i (tb_uid b) (tb_publisher b) (tb_type b) (tb_ssrc b) w
        in if ok then w1 else RemovePeer room uid i w1)"

definition negotiate :: "lib \<Rightarrow> nat \<Rightarrow> u64 \<Rightarrow> media_world \<Rightarrow> media_world" where
  "negotiate lb room i w =
     (let uid = md_uid (mw_sessions w i) in
      if peer_session uid (mw_room_objs w room) \<noteq> Some i then w
      else let (ok, w1) = RequestRenegotiation lb i w in if ok then w1 else RemovePeer room uid i w1)"

definition publishers :: "string \<Rightarrow> media_room \<Rightarrow> (int \<times> u32) list" where
  "publishers media_type r = (if media_type = ''video'' then ro_video r else ro_audio r)"

definition add_publisher :: "int \<Rightarrow> string \<Rightarrow> media_room \<Rightarrow> media_room" where
  "add_publisher uid media_type r =
     (let r1 = r\<lparr>ro_next_ssrc := ro_next_ssrc r + 1\<rparr>; ssrc = ro_next_ssrc r in
      if media_type = ''video'' then r1\<lparr>ro_video := AList.update uid ssrc (ro_video r)\<rparr>
      else r1\<lparr>ro_audio := AList.update uid ssrc (ro_audio r)\<rparr>)"

definition RegisterPublisherTrack :: "lib \<Rightarrow> nat \<Rightarrow> int \<Rightarrow> string \<Rightarrow> media_world \<Rightarrow> media_world" where
  "RegisterPublisherTrack lb room uid media_type w =
     (case peer_session uid (mw_room_objs w room) of
        None \<Rightarrow> w
      | Some publisher \<Rightarrow>
          if map_of (publishers media_type (mw_room_objs w room)) uid \<noteq> None then w
          else let w1 = upd_room room (add_publisher uid media_type) w; r = mw_room_objs w1 room in
            case (map_of (ro_video r) uid, map_of (ro_audio r) uid) of
              (Some video, Some audio) \<Rightarrow>
                let members = tracks_to_members uid publisher video audio r;
                    own = tracks_of_publishers uid publisher r;
                    bindings = concat (map snd members) @ own;
                    sessions = map fst members @ (if own = [] then [] else [publisher])
                in fold (negotiate lb room) sessions (fold (add_binding lb room) bindings w1)
            | _ \<Rightarrow> w1)"

text \<open>Where a packet of a publisher goes, the first moment of its forwarding, under the lock of
  the room: nobody when the instance is not the present one.  The sessions are called later,
  without the lock.\<close>

definition Room_ForwardRtp :: "int \<Rightarrow> u64 \<Rightarrow> media_room \<Rightarrow> u64 list" where
  "Room_ForwardRtp publisher_uid publisher r =
     (if peer_session publisher_uid r \<noteq> Some publisher then []
      else List.map_filter (\<lambda>(target, p). if target = publisher_uid then None else pe_session p) (ro_peers r))"

end
