(* ===== verification/MediaLogic.thy ===== *)
theory MediaLogic
  imports MediaRooms
begin

text \<open>
  LogicSystem of MediaServer (src/service/LogicSystem.cpp): messages of RealtimeServer are
  checked and posted to the worker of their meeting, and the worker runs the handlers of the
  room.  A handler that answers False let an exception through, which the worker logs.
  Handlers of one room run one after the other (RoomPool); those of different rooms share
  only the table of rooms and the counters, which the code updates under a lock, so a
  handler is one step here.
\<close>

section \<open>Messages\<close>

definition request_head :: "json \<Rightarrow> signal_request" where
  "request_head msg = \<lparr>sr_signal = as_uint64 (jget msg ''signal_id''), sr_meeting = as_uint64 (jget msg ''meeting_id''),
     sr_uid = as_int (jget msg ''uid''), sr_type = as_string (jget msg ''signal_type''),
     sr_sdp = [], sr_candidate = [], sr_mid = []\<rparr>"

definition ParseMediaSignalRequest :: "lib \<Rightarrow> string \<Rightarrow> signal_request option" where
  "ParseMediaSignalRequest lb message = (case lb_parse lb message of
       None \<Rightarrow> None
     | Some msg \<Rightarrow>
         if \<not> is_object msg \<or> \<not> is_uint64 (jget msg ''signal_id'') \<or> \<not> is_uint64 (jget msg ''meeting_id'')
            \<or> \<not> is_int (jget msg ''uid'') \<or> \<not> has_string msg ''signal_type'' then None
         else let r = request_head msg; kind = sr_type r in
           if kind = ''offer'' \<or> kind = ''answer''
           then (if has_string msg ''sdp'' then Some (r\<lparr>sr_sdp := as_string (jget msg ''sdp'')\<rparr>) else None)
           else if kind = ''candidate''
           then (if has_string msg ''candidate'' \<and> has_string msg ''mid''
                 then Some (r\<lparr>sr_candidate := as_string (jget msg ''candidate''), sr_mid := as_string (jget msg ''mid'')\<rparr>)
                 else None)
           else if kind = ''leave'' then Some r
           else None)"

definition upd_conn :: "nat \<Rightarrow> (control_session \<Rightarrow> control_session) \<Rightarrow> media_world \<Rightarrow> media_world" where
  "upd_conn c f w = w\<lparr>mw_conns := (mw_conns w)(c := map_option f (mw_conns w c))\<rparr>"

definition PostMsgToQue :: "lib \<Rightarrow> nat \<Rightarrow> string \<Rightarrow> media_world \<Rightarrow> media_world" where
  "PostMsgToQue lb conn message w = (case ParseMediaSignalRequest lb message of
       None \<Rightarrow> w
     | Some req \<Rightarrow>
         if conn_stopped conn w then w
         else post_event lb (sr_meeting req) (MediaSignalTask conn req)
           (upd_conn conn (RememberRoom (sr_meeting req)) w))"

definition PostSignalDisconnected :: "lib \<Rightarrow> nat \<Rightarrow> media_world \<Rightarrow> media_world" where
  "PostSignalDisconnected lb conn w = (case mw_conns w conn of
       None \<Rightarrow> w
     | Some s \<Rightarrow>
         if \<not> IsStopped s then w
         else fold (\<lambda>m. post_event lb m (SignalDisconnected m conn)) (cs_meeting_ids s) w)"

section \<open>Rooms and sessions\<close>

text \<open>Removing a session only takes the room with that very instance; an empty room leaves
  the table.\<close>

definition RemoveSession :: "nat \<Rightarrow> u64 option \<Rightarrow> media_world \<Rightarrow> media_world" where
  "RemoveSession room session w =
     (let w1 = (case session of None \<Rightarrow> w | Some i \<Rightarrow> RemovePeer room (md_uid (mw_sessions w i)) i w);
          r = mw_room_objs w1 room in
      if PeerCount r \<noteq> 0 then w1
      else if mw_rooms w1 (ro_meeting r) = Some room then w1\<lparr>mw_rooms := (mw_rooms w1)(ro_meeting r := None)\<rparr>
      else w1)"

definition find_or_create_room :: "u64 \<Rightarrow> media_world \<Rightarrow> nat \<times> media_world" where
  "find_or_create_room meeting w = (case mw_rooms w meeting of
       Some r \<Rightarrow> (r, w)
     | None \<Rightarrow> let r = mw_next_room w in
         (r, w\<lparr>mw_room_objs := (mw_room_objs w)(r := MediaRoom_new meeting), mw_next_room := r + 1,
               mw_rooms := (mw_rooms w)(meeting \<mapsto> r)\<rparr>))"

text \<open>The member the request is about, when the request comes from the connection and the
  negotiation that made its session.\<close>

definition own_session :: "nat \<Rightarrow> signal_request \<Rightarrow> nat \<Rightarrow> media_world \<Rightarrow> u64 option" where
  "own_session conn req room w = (case peer_session (sr_uid req) (mw_room_objs w room) of
       None \<Rightarrow> None
     | Some i \<Rightarrow> if md_signal (mw_sessions w i) \<noteq> sr_signal req \<or> GetSignalSession i w \<noteq> Some conn then None else Some i)"

text \<open>A failed step of a session removes it and the exception goes on.\<close>

definition or_remove :: "nat \<Rightarrow> u64 \<Rightarrow> bool \<times> media_world \<Rightarrow> bool \<times> media_world" where
  "or_remove room i r = (if fst r then r else (False, RemoveSession room (Some i) (snd r)))"

definition HandleOffer :: "lib \<Rightarrow> nat \<Rightarrow> signal_request \<Rightarrow> media_world \<Rightarrow> bool \<times> media_world" where
  "HandleOffer lb conn req w =
     (let (room, w1) = find_or_create_room (sr_meeting req) w; uid = sr_uid req in
      case own_session conn req room w1 of
        Some i \<Rightarrow> or_remove room i (SetRemoteOffer lb i (sr_sdp req) w1)
      | None \<Rightarrow>
          let w2 = (if peer_session uid (mw_room_objs w1 room) \<noteq> None then RemovePeer room uid 0 w1 else w1);
              (ok, i, w3) = MediaSession_new lb (sr_meeting req) uid (sr_signal req) conn room w2
          in if \<not> ok then (False, RemoveSession room None w3)
             else or_remove room i (SetRemoteOffer lb i (sr_sdp req)
               (upd_room room (AddPeer ((MediaPeer_new (sr_meeting req) uid)\<lparr>pe_session := Some i\<rparr>)) w3)))"

text \<open>Answer and candidate: only for the session of this connection and negotiation.\<close>

definition on_own_session :: "nat \<Rightarrow> signal_request \<Rightarrow> (nat \<Rightarrow> u64 \<Rightarrow> media_world \<Rightarrow> bool \<times> media_world)
    \<Rightarrow> media_world \<Rightarrow> bool \<times> media_world" where
  "on_own_session conn req f w = (case mw_rooms w (sr_meeting req) of
       None \<Rightarrow> (True, w)
     | Some room \<Rightarrow> (case own_session conn req room w of
           None \<Rightarrow> (True, w)
         | Some i \<Rightarrow> f room i w))"

definition HandleAnswer :: "lib \<Rightarrow> nat \<Rightarrow> signal_request \<Rightarrow> media_world \<Rightarrow> bool \<times> media_world" where
  "HandleAnswer lb conn req =
     on_own_session conn req (\<lambda>room i w. or_remove room i (SetRemoteAnswer lb i (sr_sdp req) w))"

definition HandleCandidate :: "lib \<Rightarrow> nat \<Rightarrow> signal_request \<Rightarrow> media_world \<Rightarrow> bool \<times> media_world" where
  "HandleCandidate lb conn req =
     on_own_session conn req (\<lambda>room i w. or_remove room i (AddRemoteCandidate lb i (sr_candidate req) (sr_mid req) w))"

definition HandleLeave :: "nat \<Rightarrow> signal_request \<Rightarrow> media_world \<Rightarrow> bool \<times> media_world" where
  "HandleLeave conn req = on_own_session conn req (\<lambda>room i w. (True, RemoveSession room (Some i) w))"

section \<open>Events of a room\<close>

definition HandleSignal :: "lib \<Rightarrow> nat \<Rightarrow> signal_request \<Rightarrow> media_world \<Rightarrow> bool \<times> media_world" where
  "HandleSignal lb conn req w =
     (if conn_stopped conn w then (True, w)
      else if sr_type req = ''offer'' then HandleOffer lb conn req w
      else if sr_type req = ''answer'' then HandleAnswer lb conn req w
      else if sr_type req = ''candidate'' then HandleCandidate lb conn req w
      else if sr_type req = ''leave'' then HandleLeave conn req w
      else (True, w))"

definition HandlePublisherTrackReady :: "lib \<Rightarrow> u64 \<Rightarrow> int \<Rightarrow> u64 \<Rightarrow> string \<Rightarrow> media_world \<Rightarrow> media_world" where
  "HandlePublisherTrackReady lb meeting uid i media_type w = (case mw_rooms w meeting of
       None \<Rightarrow> w
     | Some room \<Rightarrow>
         if peer_session uid (mw_room_objs w room) \<noteq> Some i then w
         else case GetSignalSession i w of
           None \<Rightarrow> w
         | Some conn \<Rightarrow>
             if conn_stopped conn w then w
             else RemoveSession room None (RegisterPublisherTrack lb room uid media_type w))"

definition signal_json :: "signal_request \<Rightarrow> json" where
  "signal_json r = jobj [(''signal_id'', ju64 (sr_signal r)), (''meeting_id'', ju64 (sr_meeting r)),
     (''uid'', JInt (sr_uid r)), (''signal_type'', JString (sr_type r)), (''sdp'', JString (sr_sdp r)),
     (''candidate'', JString (sr_candidate r)), (''mid'', JString (sr_mid r))]"

definition HandleLocalMediaSignal :: "lib \<Rightarrow> nat \<Rightarrow> u64 \<Rightarrow> signal_request \<Rightarrow> media_world \<Rightarrow> media_world" where
  "HandleLocalMediaSignal lb conn i response w = (case mw_rooms w (sr_meeting response) of
       None \<Rightarrow> w
     | Some room \<Rightarrow>
         if peer_session (sr_uid response) (mw_room_objs w room) \<noteq> Some i
            \<or> md_signal (mw_sessions w i) \<noteq> sr_signal response then w
         else if conn_stopped conn w \<or> GetSignalSession i w \<noteq> Some conn then w
         else upd_conn conn (\<lambda>s. snd (Control_Send (lb_styled lb (signal_json response)) s)) w)"

definition HandleSignalDisconnected :: "u64 \<Rightarrow> nat \<Rightarrow> media_world \<Rightarrow> media_world" where
  "HandleSignalDisconnected meeting conn w =
     (if mw_conns w conn = None \<or> \<not> conn_stopped conn w then w
      else case mw_rooms w meeting of
        None \<Rightarrow> w
      | Some room \<Rightarrow> RemoveSession room None
          (fold (\<lambda>i. RemoveSession room (Some i)) (GetSessionsForConnection room conn w) w))"

fun HandleRoomEvent :: "lib \<Rightarrow> media_room_event \<Rightarrow> media_world \<Rightarrow> media_world" where
  "HandleRoomEvent lb (MediaSignalTask conn req) w = snd (HandleSignal lb conn req w)"
| "HandleRoomEvent lb (PublisherTrackReady m uid i media_type) w = HandlePublisherTrackReady lb m uid i media_type w"
| "HandleRoomEvent lb (LocalMediaSignal conn i response) w = HandleLocalMediaSignal lb conn i response w"
| "HandleRoomEvent lb (SignalDisconnected m conn) w = HandleSignalDisconnected m conn w"

text \<open>The library's callbacks of a session: they carry what was captured at its construction.\<close>

definition captured :: "u64 \<Rightarrow> media_world \<Rightarrow> signal_request" where
  "captured i w = (let s = mw_sessions w i in
     \<lparr>sr_signal = md_signal s, sr_meeting = md_meeting s, sr_uid = md_uid s, sr_type = [], sr_sdp = [],
      sr_candidate = [], sr_mid = []\<rparr>)"

definition OnLocalDescription :: "lib \<Rightarrow> u64 \<Rightarrow> string \<Rightarrow> string \<Rightarrow> media_world \<Rightarrow> media_world" where
  "OnLocalDescription lb i kind sdp w = post_event lb (md_meeting (mw_sessions w i))
     (LocalMediaSignal (md_connection (mw_sessions w i)) i ((captured i w)\<lparr>sr_type := kind, sr_sdp := sdp\<rparr>)) w"

definition OnLocalCandidate :: "lib \<Rightarrow> u64 \<Rightarrow> string \<Rightarrow> string \<Rightarrow> media_world \<Rightarrow> media_world" where
  "OnLocalCandidate lb i candidate mid w = post_event lb (md_meeting (mw_sessions w i))
     (LocalMediaSignal (md_connection (mw_sessions w i)) i
       ((captured i w)\<lparr>sr_type := ''candidate'', sr_candidate := candidate, sr_mid := mid\<rparr>)) w"

section \<open>Runs\<close>

text \<open>Readers post messages, the library calls back, connections come, change and go on their
  own, and a worker that has a task runs its handler.\<close>

definition run_worker :: "lib \<Rightarrow> nat \<Rightarrow> media_world \<Rightarrow> media_world" where
  "run_worker lb k w = (case if k < length (mw_pool w) then Take_task (mw_pool w ! k) else None of
       None \<Rightarrow> w
     | Some (m, e, v) \<Rightarrow>
         let w1 = HandleRoomEvent lb e (w\<lparr>mw_pool := (mw_pool w)[k := v]\<rparr>) in
         w1\<lparr>mw_pool := (mw_pool w1)[k := Task_done m (mw_pool w1 ! k)]\<rparr>)"

inductive media_world_step :: "lib \<Rightarrow> media_world \<Rightarrow> media_world \<Rightarrow> bool" for lb where
  mw_message: "media_world_step lb w (PostMsgToQue lb conn message w)"
| mw_lost: "media_world_step lb w (PostSignalDisconnected lb conn w)"
| mw_worker: "media_world_step lb w (run_worker lb k w)"
| mw_description: "media_world_step lb w (OnLocalDescription lb i kind sdp w)"
| mw_candidate: "media_world_step lb w (OnLocalCandidate lb i candidate mid w)"
| mw_conn: "media_world_step lb w (w\<lparr>mw_conns := cs\<rparr>)"

definition media_world_start :: "nat \<Rightarrow> media_session \<Rightarrow> media_room \<Rightarrow> media_world" where
  "media_world_start n s r = \<lparr>mw_conns = (\<lambda>_. None), mw_sessions = (\<lambda>_. s), mw_next_session = 1,
     mw_room_objs = (\<lambda>_. r), mw_next_room = 0, mw_rooms = (\<lambda>_. None), mw_calls = [],
     mw_pool = RoomThreadPool_new n\<rparr>"

inductive media_reach :: "lib \<Rightarrow> nat \<Rightarrow> media_world \<Rightarrow> bool" for lb n where
  mr_start: "media_reach lb n (media_world_start n s r)"
| mr_step: "media_reach lb n w \<Longrightarrow> media_world_step lb w w' \<Longrightarrow> media_reach lb n w'"

end
