(* ===== verification/MediaInv.thy ===== *)
theory MediaInv
  imports MediaLogic
begin

text \<open>
  The invariant of MediaServer's rooms: members and their sessions agree, publishers are
  members, a consumer track always belongs to the present instance of a present publisher
  and carries the SSRC the room registered, and two members that publish both media
  subscribe to each other.  Instance numbers are fresh as long as fewer than
  2^64 - 1 library calls have been made.
\<close>

section \<open>Steps that leave the structure alone\<close>

definition session_core :: "media_session \<Rightarrow> u64 \<times> int \<times> u64 \<times> nat \<times> nat \<times> (int \<times> out_track) list \<times> (int \<times> out_track) list" where
  "session_core s = (md_meeting s, md_uid s, md_signal s, md_connection s, md_room s, md_out_video s, md_out_audio s)"

definition calm :: "media_world \<Rightarrow> media_world \<Rightarrow> bool" where
  "calm w w' \<longleftrightarrow> mw_room_objs w' = mw_room_objs w \<and> mw_rooms w' = mw_rooms w \<and> mw_next_room w' = mw_next_room w
     \<and> mw_next_session w' = mw_next_session w \<and> length (mw_calls w) \<le> length (mw_calls w')
     \<and> (\<forall>i. session_core (mw_sessions w' i) = session_core (mw_sessions w i))"

lemma calm_refl [simp]: "calm w w"
  by (simp add: calm_def)

lemma calm_trans: "calm w w' \<Longrightarrow> calm w' w'' \<Longrightarrow> calm w w''"
  by (auto simp: calm_def)

lemma calm_lib [simp]: "calm w (snd (lib_do lb c w))"
  by (simp add: calm_def lib_do_def Let_def)

lemma calm_upd: "(\<And>s. session_core (f s) = session_core s) \<Longrightarrow> calm w (upd_session i f w)"
  by (simp add: calm_def upd_session_def)

lemma calm_post [simp]: "calm w (post_event lb m e w)"
  by (simp add: calm_def post_event_def)

lemma calm_flags [simp]:
  "calm w (upd_session i (\<lambda>s. s\<lparr>md_pending := a, md_waiting := b\<rparr>) w)"
  "calm w (upd_session i (\<lambda>s. s\<lparr>md_pending := a\<rparr>) w)"
  "calm w (upd_session i (\<lambda>s. s\<lparr>md_waiting := b\<rparr>) w)"
  "calm w (upd_session i (\<lambda>s. s\<lparr>md_initial_answer := b\<rparr>) w)"
  "calm w (upd_session i (\<lambda>s. s\<lparr>md_remote_offer := t\<rparr>) w)"
  "calm w (upd_session i (\<lambda>s. s\<lparr>md_in_video := g s, md_in_audio := h s\<rparr>) w)"
  by (rule calm_upd, simp add: session_core_def)+

lemma calm_begin: "calm w (snd (begin_pending lb i w))"
  unfolding begin_pending_def by (auto intro: calm_trans [OF calm_flags(1) calm_lib])

lemma calm_announce: "calm w (announce_tracks lb i w)"
proof -
  have "calm v (track_ready lb i t v)" for t v by (simp add: track_ready_def Let_def)
  then show ?thesis unfolding announce_tracks_def Let_def by (auto intro: calm_trans)
qed

lemma calm_offer_tracks: "calm w (snd (remote_offer_tracks lb i sdp w))"
  unfolding remote_offer_tracks_def Let_def case_prod_beta snd_conv
  by (rule calm_trans [OF calm_trans [OF calm_flags(5) calm_lib] calm_flags(6)])

lemma calm_SetRemoteOffer: "calm w (snd (SetRemoteOffer lb i sdp w))"
proof -
  note r = calm_offer_tracks [of w lb i sdp]
  let ?w1 = "snd (remote_offer_tracks lb i sdp w)"
  have l: "calm w (snd (lib_do lb (LocalDescription i) (announce_tracks lb i ?w1)))"
    by (rule calm_trans [OF calm_trans [OF r calm_announce] calm_lib])
  have "calm w (snd (begin_pending lb i (upd_session i (\<lambda>s. s\<lparr>md_initial_answer := True\<rparr>)
      (snd (lib_do lb (LocalDescription i) (announce_tracks lb i ?w1))))))"
    by (rule calm_trans [OF calm_trans [OF l calm_flags(4)] calm_begin])
  then show ?thesis using r l by (simp add: SetRemoteOffer_def Let_def case_prod_beta)
qed

lemma calm_SetRemoteAnswer: "calm w (snd (SetRemoteAnswer lb i sdp w))"
  unfolding SetRemoteAnswer_def Let_def case_prod_beta
  by (auto intro: calm_trans [OF calm_lib calm_trans [OF calm_flags(3) calm_begin]])

lemma calm_AddRemoteCandidate: "calm w (snd (AddRemoteCandidate lb i candidate mid w))"
  by (simp add: AddRemoteCandidate_def)

lemma calm_RequestRenegotiation: "calm w (snd (RequestRenegotiation lb i w))"
  unfolding RequestRenegotiation_def Let_def by (auto intro: calm_trans [OF calm_flags(3) calm_lib])

section \<open>The invariant of a room\<close>

definition member_at_room :: "nat \<Rightarrow> int \<Rightarrow> media_world \<Rightarrow> u64 option" where
  "member_at_room r uid w = peer_session uid (mw_room_objs w r)"

definition tracks_of :: "u64 \<Rightarrow> string \<Rightarrow> media_world \<Rightarrow> int \<Rightarrow> out_track option" where
  "tracks_of i media_type w = map_of (out_tracks media_type (mw_sessions w i))"

definition publisher_of :: "nat \<Rightarrow> string \<Rightarrow> media_world \<Rightarrow> int \<Rightarrow> u32 option" where
  "publisher_of r media_type w = map_of (publishers media_type (mw_room_objs w r))"

definition room_lists :: "media_room \<Rightarrow> bool" where
  "room_lists R \<longleftrightarrow> distinct (map fst (ro_peers R)) \<and> distinct (map fst (ro_video R)) \<and> distinct (map fst (ro_audio R))
     \<and> (\<forall>uid p. map_of (ro_peers R) uid = Some p \<longrightarrow> pe_session p \<noteq> None)"

definition room_ok :: "nat \<Rightarrow> media_world \<Rightarrow> bool" where
  "room_ok r w \<longleftrightarrow> room_lists (mw_room_objs w r)
     \<and> (\<forall>uid i. member_at_room r uid w = Some i \<longrightarrow> 0 < unat i \<and> unat i < unat (mw_next_session w)
         \<and> md_uid (mw_sessions w i) = uid \<and> md_room (mw_sessions w i) = r
         \<and> md_meeting (mw_sessions w i) = ro_meeting (mw_room_objs w r))
     \<and> (\<forall>t uid. publisher_of r t w uid \<noteq> None \<longrightarrow> member_at_room r uid w \<noteq> None)
     \<and> (\<forall>t uid i v k. member_at_room r uid w = Some i \<longrightarrow> tracks_of i t w v = Some k \<longrightarrow>
         v \<noteq> uid \<and> member_at_room r v w = Some (ot_publisher k) \<and> publisher_of r t w v = Some (ot_ssrc k))"

definition publishes_both :: "nat \<Rightarrow> int \<Rightarrow> media_world \<Rightarrow> bool" where
  "publishes_both r uid w \<longleftrightarrow> (\<forall>t. publisher_of r t w uid \<noteq> None)"

text \<open>Members outside X that publish both media have each other's tracks.\<close>

definition mesh :: "int set \<Rightarrow> nat \<Rightarrow> media_world \<Rightarrow> bool" where
  "mesh X r w \<longleftrightarrow> (\<forall>u v i. u \<noteq> v \<longrightarrow> u \<notin> X \<longrightarrow> v \<notin> X \<longrightarrow> publishes_both r u w \<longrightarrow> publishes_both r v w \<longrightarrow>
     member_at_room r u w = Some i \<longrightarrow> (\<forall>t. tracks_of i t w v \<noteq> None))"

lemma room_ok_cong:
  assumes "room_ok r w" "mw_room_objs w' r = mw_room_objs w r" "unat (mw_next_session w) \<le> unat (mw_next_session w')"
    and "\<And>uid i. member_at_room r uid w = Some i \<Longrightarrow> session_core (mw_sessions w' i) = session_core (mw_sessions w i)"
  shows "room_ok r w'" "mesh X r w \<Longrightarrow> mesh X r w'"
proof -
  have m: "member_at_room r uid w' = member_at_room r uid w" for uid
    using assms(2) by (simp add: member_at_room_def)
  have p: "publisher_of r t w' = publisher_of r t w" for t
    using assms(2) by (simp add: publisher_of_def)
  have s: "tracks_of i t w' = tracks_of i t w" "md_uid (mw_sessions w' i) = md_uid (mw_sessions w i)"
    "md_room (mw_sessions w' i) = md_room (mw_sessions w i)" "md_meeting (mw_sessions w' i) = md_meeting (mw_sessions w i)"
    if "member_at_room r uid w = Some i" for uid i t
    using assms(4) [OF that] by (auto simp: session_core_def tracks_of_def out_tracks_def)
  show "room_ok r w'" using assms(1,2) s by (auto simp: room_ok_def m p intro: less_le_trans [OF _ assms(3)])
  show "mesh X r w'" if "mesh X r w"
    using that s(1) by (auto simp: mesh_def m p publishes_both_def)
qed

section \<open>Removing a member\<close>

lemma room_okD:
  assumes "room_ok r w" "member_at_room r uid w = Some i"
  shows "0 < unat i" "unat i < unat (mw_next_session w)" "md_uid (mw_sessions w i) = uid"
    "md_room (mw_sessions w i) = r" "md_meeting (mw_sessions w i) = ro_meeting (mw_room_objs w r)"
  using assms by (simp_all add: room_ok_def)

lemma room_ok_publisher: "room_ok r w \<Longrightarrow> publisher_of r t w uid = Some ssrc \<Longrightarrow> \<exists>i. member_at_room r uid w = Some i"
  unfolding room_ok_def by blast

lemma room_ok_track:
  assumes "room_ok r w" "member_at_room r uid w = Some i" "tracks_of i t w v = Some k"
  shows "v \<noteq> uid" "member_at_room r v w = Some (ot_publisher k)" "publisher_of r t w v = Some (ot_ssrc k)"
  using assms by (simp_all add: room_ok_def)

lemma set_map_filter: "x \<in> set (List.map_filter f xs) \<longleftrightarrow> (\<exists>y \<in> set xs. f y = Some x)"
  by (induction xs) (auto simp: List.map_filter_simps split: option.splits)

lemma peer_session_iff:
  assumes "room_lists R"
  shows "peer_session uid R = Some i \<longleftrightarrow> (\<exists>p. (uid, p) \<in> set (ro_peers R) \<and> pe_session p = Some i)"
proof -
  have d: "distinct (map fst (ro_peers R))" using assms by (simp add: room_lists_def)
  have "peer_session uid R = Some i \<longleftrightarrow> (\<exists>p. map_of (ro_peers R) uid = Some p \<and> pe_session p = Some i)"
    by (auto simp: peer_session_def GetPeer_def split: option.split)
  then show ?thesis by (simp add: map_of_eq_Some_iff [OF d])
qed

lemma room_sessions_iff:
  assumes "room_lists R"
  shows "i \<in> set (room_sessions R) \<longleftrightarrow> (\<exists>uid. peer_session uid R = Some i)"
proof -
  have "i \<in> set (room_sessions R) \<longleftrightarrow> (\<exists>uid p. (uid, p) \<in> set (ro_peers R) \<and> pe_session p = Some i)"
    by (force simp: room_sessions_def set_map_filter)
  then show ?thesis unfolding peer_session_iff [OF assms] by auto
qed

lemma fold_upd_sessions:
  assumes "\<And>s. f (f s) = f s"
  shows "fold (\<lambda>i. upd_session i f) is w = w\<lparr>mw_sessions := (\<lambda>i. if i \<in> set is then f (mw_sessions w i) else mw_sessions w i)\<rparr>"
  using assms by (induction "is" arbitrary: w) (auto simp: upd_session_def fun_eq_iff)

lemma RemoveOutgoingTracks_idem: "RemoveOutgoingTracks uid (RemoveOutgoingTracks uid s) = RemoveOutgoingTracks uid s"
  by (simp add: RemoveOutgoingTracks_def AList.delete_idem)

definition without :: "int \<Rightarrow> media_room \<Rightarrow> media_room" where
  "without uid R = R\<lparr>ro_peers := AList.delete uid (ro_peers R),
     ro_video := AList.delete uid (ro_video R), ro_audio := AList.delete uid (ro_audio R)\<rparr>"

lemma without_lookup:
  "peer_session v (without uid R) = (if v = uid then None else peer_session v R)"
  "map_of (publishers t (without uid R)) v = (if v = uid then None else map_of (publishers t R) v)"
  "ro_meeting (without uid R) = ro_meeting R"
  by (auto simp: without_def peer_session_def GetPeer_def publishers_def AList.delete_conv')

lemma room_lists_without: "room_lists R \<Longrightarrow> room_lists (without uid R)"
  by (auto simp: room_lists_def without_def AList.distinct_delete AList.delete_conv')

lemma RemovePeer_run:
  assumes "expected = 0 \<or> member_at_room room uid w = Some expected"
  shows "RemovePeer room uid expected w = w\<lparr>
     mw_room_objs := (mw_room_objs w)(room := without uid (mw_room_objs w room)),
     mw_sessions := (\<lambda>i. if i \<in> set (room_sessions (without uid (mw_room_objs w room)))
       then RemoveOutgoingTracks uid (mw_sessions w i) else mw_sessions w i)\<rparr>"
  using assms
  by (auto simp: RemovePeer_def member_at_room_def upd_room_def fold_upd_sessions [OF RemoveOutgoingTracks_idem] without_def Let_def
      cong: if_cong)

lemma RemovePeer_none: "expected \<noteq> 0 \<Longrightarrow> member_at_room room uid w \<noteq> Some expected \<Longrightarrow> RemovePeer room uid expected w = w"
  by (simp add: RemovePeer_def member_at_room_def)

lemma tracks_removed:
  "map_of (out_tracks t (RemoveOutgoingTracks uid s)) v = (if v = uid then None else map_of (out_tracks t s) v)"
  by (simp add: out_tracks_def RemoveOutgoingTracks_def AList.delete_conv')

lemma RemovePeer_views:
  assumes "expected = 0 \<or> member_at_room room uid w = Some expected" "room_lists (mw_room_objs w room)"
  shows "member_at_room r v (RemovePeer room uid expected w) = (if r = room \<and> v = uid then None else member_at_room r v w)"
    and "publisher_of r t (RemovePeer room uid expected w) v = (if r = room \<and> v = uid then None else publisher_of r t w v)"
    and "tracks_of i t (RemovePeer room uid expected w) v =
      (if v = uid \<and> (\<exists>x. x \<noteq> uid \<and> member_at_room room x w = Some i) then None else tracks_of i t w v)"
    and "md_uid (mw_sessions (RemovePeer room uid expected w) i) = md_uid (mw_sessions w i)"
    and "md_room (mw_sessions (RemovePeer room uid expected w) i) = md_room (mw_sessions w i)"
    and "md_meeting (mw_sessions (RemovePeer room uid expected w) i) = md_meeting (mw_sessions w i)"
    and "md_signal (mw_sessions (RemovePeer room uid expected w) i) = md_signal (mw_sessions w i)"
    and "md_connection (mw_sessions (RemovePeer room uid expected w) i) = md_connection (mw_sessions w i)"
    and "room_lists (mw_room_objs (RemovePeer room uid expected w) room)"
proof -
  let ?R = "mw_room_objs w room"
  have "i \<in> set (room_sessions (without uid ?R)) \<longleftrightarrow> (\<exists>x. x \<noteq> uid \<and> member_at_room room x w = Some i)"
    using room_sessions_iff [OF room_lists_without [OF assms(2)], of i uid]
    by (auto simp: without_lookup member_at_room_def)
  then show "tracks_of i t (RemovePeer room uid expected w) v =
      (if v = uid \<and> (\<exists>x. x \<noteq> uid \<and> member_at_room room x w = Some i) then None else tracks_of i t w v)"
    by (auto simp add: RemovePeer_run [OF assms(1)] tracks_of_def tracks_removed)
  show "room_lists (mw_room_objs (RemovePeer room uid expected w) room)"
    by (simp add: RemovePeer_run [OF assms(1)] room_lists_without [OF assms(2)])
qed (simp_all add: RemovePeer_run [OF assms(1)] member_at_room_def publisher_of_def without_lookup RemoveOutgoingTracks_def)

text \<open>The part of the world that belongs to other rooms.\<close>

definition inside :: "nat \<Rightarrow> media_world \<Rightarrow> media_world \<Rightarrow> bool" where
  "inside r w w' \<longleftrightarrow> unat (mw_next_session w') + length (mw_calls w) \<le> unat (mw_next_session w) + length (mw_calls w')
     \<and> (\<forall>r'. r' \<noteq> r \<longrightarrow> mw_room_objs w' r' = mw_room_objs w r') \<and> mw_rooms w' = mw_rooms w
     \<and> mw_next_room w' = mw_next_room w \<and> unat (mw_next_session w) \<le> unat (mw_next_session w')
     \<and> ro_meeting (mw_room_objs w' r) = ro_meeting (mw_room_objs w r) \<and> length (mw_calls w) \<le> length (mw_calls w')
     \<and> (\<forall>i. unat i < unat (mw_next_session w) \<longrightarrow> md_room (mw_sessions w' i) = md_room (mw_sessions w i)
         \<and> (md_room (mw_sessions w i) \<noteq> r \<longrightarrow> session_core (mw_sessions w' i) = session_core (mw_sessions w i)))"

lemma inside_refl [simp]: "inside r w w"
  by (simp add: inside_def)

lemma inside_trans: "inside r w w' \<Longrightarrow> inside r w' w'' \<Longrightarrow> inside r w w''"
  by (auto simp: inside_def)

lemma calm_inside: "calm w w' \<Longrightarrow> inside r w w'"
  by (auto simp: calm_def inside_def session_core_def)

lemma RemovePeer_inside:
  assumes "room_ok room w" shows "inside room w (RemovePeer room uid expected w)"
proof (cases "expected = 0 \<or> member_at_room room uid w = Some expected")
  case True
  have l: "room_lists (without uid (mw_room_objs w room))"
    using assms by (simp add: room_ok_def room_lists_without)
  have "md_room (mw_sessions w i) = room" if "i \<in> set (room_sessions (without uid (mw_room_objs w room)))" for i
    using that room_sessions_iff [OF l, of i] room_okD(4) [OF assms]
    by (auto simp: without_lookup member_at_room_def split: if_splits)
  then show ?thesis
    by (auto simp: RemovePeer_run [OF True] inside_def without_lookup RemoveOutgoingTracks_def)
qed (simp add: RemovePeer_none)

lemma RemovePeer_ok:
  assumes "room_ok room w"
  shows "room_ok room (RemovePeer room uid expected w)" "mesh X room w \<Longrightarrow> mesh X room (RemovePeer room uid expected w)"
proof -
  show "room_ok room (RemovePeer room uid expected w)"
  proof (cases "expected = 0 \<or> member_at_room room uid w = Some expected")
    case True
    have l: "room_lists (mw_room_objs w room)" using assms by (simp add: room_ok_def)
    note v = RemovePeer_views [OF True l]
    have n: "mw_next_session (RemovePeer room uid expected w) = mw_next_session w"
      "ro_meeting (mw_room_objs (RemovePeer room uid expected w) room) = ro_meeting (mw_room_objs w room)"
      by (simp_all add: RemovePeer_run [OF True] without_lookup)
    show ?thesis
      unfolding room_ok_def v(1-6) n
      using assms v(9) room_ok_track [OF assms] by (auto simp: room_ok_def split: if_splits)
  qed (use assms in \<open>simp add: RemovePeer_none\<close>)
  show "mesh X room (RemovePeer room uid expected w)" if "mesh X room w"
  proof (cases "expected = 0 \<or> member_at_room room uid w = Some expected")
    case True
    have l: "room_lists (mw_room_objs w room)" using assms by (simp add: room_ok_def)
    show ?thesis using that
      unfolding mesh_def publishes_both_def RemovePeer_views [OF True l] by (auto split: if_splits)
  qed (use that in \<open>simp add: RemovePeer_none\<close>)
qed

section \<open>Subscribing\<close>

text \<open>What a binding asks for still makes sense: its publisher, while present, is registered
  with this SSRC and is not the subscriber.\<close>

definition binding_ok :: "nat \<Rightarrow> media_world \<Rightarrow> track_binding \<Rightarrow> bool" where
  "binding_ok r w b \<longleftrightarrow> tb_uid b \<noteq> md_uid (mw_sessions w (tb_session b))
     \<and> (member_at_room r (tb_uid b) w = Some (tb_publisher b) \<longrightarrow> publisher_of r (tb_type b) w (tb_uid b) = Some (tb_ssrc b))"

definition served :: "nat \<Rightarrow> media_world \<Rightarrow> track_binding \<Rightarrow> bool" where
  "served r w b \<longleftrightarrow> member_at_room r (md_uid (mw_sessions w (tb_session b))) w \<noteq> Some (tb_session b)
     \<or> member_at_room r (tb_uid b) w \<noteq> Some (tb_publisher b)
     \<or> tracks_of (tb_session b) (tb_type b) w (tb_uid b) \<noteq> None"

text \<open>Members and publishers only become fewer, and uids never change.\<close>

definition shrinks :: "nat \<Rightarrow> media_world \<Rightarrow> media_world \<Rightarrow> bool" where
  "shrinks r w w' \<longleftrightarrow> (\<forall>v i. member_at_room r v w' = Some i \<longrightarrow> member_at_room r v w = Some i
       \<and> (\<forall>t. publisher_of r t w' v = publisher_of r t w v))
     \<and> (\<forall>i. md_uid (mw_sessions w' i) = md_uid (mw_sessions w i))
     \<and> (\<forall>i t v. member_at_room r (md_uid (mw_sessions w i)) w' = Some i \<longrightarrow> tracks_of i t w v \<noteq> None \<longrightarrow>
          member_at_room r v w' = member_at_room r v w \<longrightarrow> member_at_room r v w' \<noteq> None \<longrightarrow> tracks_of i t w' v \<noteq> None)"

lemma shrinks_refl [simp]: "shrinks r w w"
  by (simp add: shrinks_def)

lemma calm_views:
  assumes "calm w w'"
  shows "member_at_room r v w' = member_at_room r v w" "publisher_of r t w' = publisher_of r t w"
    "tracks_of i t w' = tracks_of i t w" "md_uid (mw_sessions w' i) = md_uid (mw_sessions w i)"
    "md_room (mw_sessions w' i) = md_room (mw_sessions w i)" "md_meeting (mw_sessions w' i) = md_meeting (mw_sessions w i)"
    "md_signal (mw_sessions w' i) = md_signal (mw_sessions w i)"
    "md_connection (mw_sessions w' i) = md_connection (mw_sessions w i)"
  using assms by (auto simp: calm_def member_at_room_def publisher_of_def tracks_of_def out_tracks_def session_core_def)

lemma calm_ok:
  assumes "calm w w'"
  shows "room_ok r w \<Longrightarrow> room_ok r w'" "mesh X r w \<Longrightarrow> mesh X r w'" "shrinks r w w'"
proof -
  show "room_ok r w'" if "room_ok r w"
    by (rule room_ok_cong(1) [OF that]) (use assms in \<open>simp_all add: calm_def\<close>)
  show "mesh X r w \<Longrightarrow> mesh X r w'" by (simp add: mesh_def publishes_both_def calm_views [OF assms])
  show "shrinks r w w'" by (simp add: shrinks_def calm_views [OF assms])
qed

lemma served_shrinks: "served r w b \<Longrightarrow> shrinks r w w' \<Longrightarrow> served r w' b"
  unfolding served_def shrinks_def by (metis option.distinct(1))

lemma binding_shrinks: "binding_ok r w b \<Longrightarrow> shrinks r w w' \<Longrightarrow> binding_ok r w' b"
  unfolding binding_ok_def shrinks_def by metis

lemma RemovePeer_shrinks:
  assumes "room_ok room w" shows "shrinks room w (RemovePeer room uid expected w)"
proof (cases "expected = 0 \<or> member_at_room room uid w = Some expected")
  case True
  have l: "room_lists (mw_room_objs w room)" using assms by (simp add: room_ok_def)
  show ?thesis unfolding shrinks_def RemovePeer_views [OF True l] by auto
qed (simp add: RemovePeer_none)

lemma shrinks_trans:
  assumes "shrinks r w w'" "shrinks r w' w''" shows "shrinks r w w''"
  unfolding shrinks_def
proof (intro conjI allI impI)
  fix v i t
  { assume "member_at_room r v w'' = Some i"
    then show "member_at_room r v w = Some i" "publisher_of r t w'' v = publisher_of r t w v"
      using assms unfolding shrinks_def by metis+ }
  show u: "md_uid (mw_sessions w'' i) = md_uid (mw_sessions w i)" for i using assms by (simp add: shrinks_def)
  assume a: "member_at_room r (md_uid (mw_sessions w i)) w'' = Some i" "tracks_of i t w v \<noteq> None"
    "member_at_room r v w'' = member_at_room r v w" "member_at_room r v w'' \<noteq> None"
  then have b: "member_at_room r (md_uid (mw_sessions w i)) w' = Some i" "member_at_room r v w'' = member_at_room r v w'"
    "member_at_room r v w' = member_at_room r v w"
    using assms(2) unfolding shrinks_def by (metis option.exhaust)+
  then have "tracks_of i t w' v \<noteq> None" using a assms(1) unfolding shrinks_def by metis
  then show "tracks_of i t w'' v \<noteq> None" using a b assms unfolding shrinks_def by metis
qed

lemma AddOutgoingTrack_cases:
  obtains (failed) "fst (AddOutgoingTrack lb i uid p t ssrc w) = False" "calm w (snd (AddOutgoingTrack lb i uid p t ssrc w))"
  | (there) "AddOutgoingTrack lb i uid p t ssrc w = (True, w)" "tracks_of i t w uid \<noteq> None"
  | (added) w1 where "fst (AddOutgoingTrack lb i uid p t ssrc w) = True" "calm w w1" "tracks_of i t w uid = None"
      "snd (AddOutgoingTrack lb i uid p t ssrc w) = upd_session i (\<lambda>s. let k = \<lparr>ot_mid = track_mid t ssrc uid, ot_ssrc = ssrc, ot_publisher = p\<rparr> in
         if t = ''video'' then s\<lparr>md_out_video := AList.update uid k (md_out_video s)\<rparr>
         else s\<lparr>md_out_audio := AList.update uid k (md_out_audio s)\<rparr>) w1"
proof (cases "tracks_of i t w uid = None")
  case False
  then show ?thesis by (intro there) (auto simp: AddOutgoingTrack_def tracks_of_def)
next
  case True
  let ?l = "lib_do lb (AddTrack i (track_mid t ssrc uid) ssrc) w"
  show ?thesis
  proof (cases "fst ?l")
    case False
    then show ?thesis using True calm_lib
      by (intro failed) (simp_all add: AddOutgoingTrack_def tracks_of_def Let_def case_prod_beta)
  next
    case ok: True
    show ?thesis
      by (rule added [of "snd ?l"]) (use ok True calm_lib in
        \<open>simp_all add: AddOutgoingTrack_def tracks_of_def Let_def case_prod_beta\<close>)
  qed
qed

lemma shrinks_calm: "calm w w' \<Longrightarrow> shrinks r w' w'' \<Longrightarrow> shrinks r w w''"
  using shrinks_trans calm_ok(3) by blast

text \<open>One more track of a session.\<close>

definition with_track :: "u64 \<Rightarrow> string \<Rightarrow> int \<Rightarrow> out_track \<Rightarrow> media_world \<Rightarrow> media_world" where
  "with_track i t uid k w = upd_session i (\<lambda>s.
     if t = ''video'' then s\<lparr>md_out_video := AList.update uid k (md_out_video s)\<rparr>
     else s\<lparr>md_out_audio := AList.update uid k (md_out_audio s)\<rparr>) w"

lemma with_track_views:
  "member_at_room r v (with_track i t uid k w) = member_at_room r v w"
  "publisher_of r t' (with_track i t uid k w) = publisher_of r t' w"
  "tracks_of j t' (with_track i t uid k w) v =
     (if j = i \<and> (t' = ''video'') = (t = ''video'') \<and> v = uid then Some k else tracks_of j t' w v)"
  "md_uid (mw_sessions (with_track i t uid k w) j) = md_uid (mw_sessions w j)"
  "md_room (mw_sessions (with_track i t uid k w) j) = md_room (mw_sessions w j)"
  "md_meeting (mw_sessions (with_track i t uid k w) j) = md_meeting (mw_sessions w j)"
  "mw_room_objs (with_track i t uid k w) = mw_room_objs w"
  "mw_next_session (with_track i t uid k w) = mw_next_session w"
  by (auto simp: with_track_def upd_session_def member_at_room_def publisher_of_def tracks_of_def out_tracks_def update_conv)

lemma publisher_kind: "(t = ''video'') = (t' = ''video'') \<Longrightarrow> publisher_of r t w = publisher_of r t' w"
  by (simp add: publisher_of_def publishers_def)

lemma with_track_ok:
  assumes "room_ok r w" "mesh X r w" "member_at_room r (md_uid (mw_sessions w i)) w = Some i"
    and "member_at_room r uid w = Some (ot_publisher k)" "publisher_of r t w uid = Some (ot_ssrc k)"
    and "uid \<noteq> md_uid (mw_sessions w i)"
  shows "room_ok r (with_track i t uid k w)" "mesh X r (with_track i t uid k w)" "shrinks r w (with_track i t uid k w)"
    "inside r w (with_track i t uid k w)"
proof -
  have one: "v = md_uid (mw_sessions w i)" if "member_at_room r v w = Some i" for v
    using room_okD(3) [OF assms(1) that] by simp
  show "room_ok r (with_track i t uid k w)"
    unfolding room_ok_def with_track_views
  proof (intro conjI)
    show "\<forall>t' v j x k'. member_at_room r v w = Some j \<longrightarrow>
        (if j = i \<and> (t' = ''video'') = (t = ''video'') \<and> x = uid then Some k else tracks_of j t' w x) = Some k' \<longrightarrow>
        x \<noteq> v \<and> member_at_room r x w = Some (ot_publisher k') \<and> publisher_of r t' w x = Some (ot_ssrc k')"
    proof (intro allI impI)
      fix t' v j x k'
      assume m: "member_at_room r v w = Some j"
        and k': "(if j = i \<and> (t' = ''video'') = (t = ''video'') \<and> x = uid then Some k else tracks_of j t' w x) = Some k'"
      show "x \<noteq> v \<and> member_at_room r x w = Some (ot_publisher k') \<and> publisher_of r t' w x = Some (ot_ssrc k')"
      proof (cases "j = i \<and> (t' = ''video'') = (t = ''video'') \<and> x = uid")
        case True
        then have "v = md_uid (mw_sessions w i)" "k' = k" "publisher_of r t' w = publisher_of r t w"
          using one m k' publisher_kind [of t' t r w] by auto
        then show ?thesis using True assms(4,5,6) by simp
      next
        case False
        then show ?thesis using room_ok_track [OF assms(1) m, of t' x k'] k' by (simp split: if_split_asm)
      qed
    qed
  qed (use assms(1) in \<open>simp_all add: room_ok_def\<close>)
  show "mesh X r (with_track i t uid k w)"
    using assms(2) unfolding mesh_def publishes_both_def with_track_views by auto
  show "shrinks r w (with_track i t uid k w)" unfolding shrinks_def with_track_views by simp
  have "md_room (mw_sessions w i) = r" using room_okD(4) [OF assms(1,3)] .
  then show "inside r w (with_track i t uid k w)"
    by (auto simp: inside_def with_track_def upd_session_def)
qed

lemma add_binding_ok:
  assumes "room_ok r w" "mesh X r w" "binding_ok r w b"
  shows "room_ok r (add_binding lb r b w) \<and> mesh X r (add_binding lb r b w) \<and> shrinks r w (add_binding lb r b w)
    \<and> served r (add_binding lb r b w) b \<and> inside r w (add_binding lb r b w)"
proof -
  let ?i = "tb_session b" let ?uid = "md_uid (mw_sessions w ?i)"
  let ?a = "AddOutgoingTrack lb ?i (tb_uid b) (tb_publisher b) (tb_type b) (tb_ssrc b) w"
  show ?thesis
  proof (cases "member_at_room r ?uid w = Some ?i \<and> member_at_room r (tb_uid b) w = Some (tb_publisher b)")
    case False
    then have "add_binding lb r b w = w" by (auto simp: add_binding_def member_at_room_def)
    then show ?thesis using assms False by (auto simp: served_def)
  next
    case True
    then have run: "add_binding lb r b w = (if fst ?a then snd ?a else RemovePeer r ?uid ?i (snd ?a))"
      by (simp add: add_binding_def member_at_room_def Let_def case_prod_beta)
    show ?thesis
    proof (cases rule: AddOutgoingTrack_cases [of lb ?i "tb_uid b" "tb_publisher b" "tb_type b" "tb_ssrc b" w])
      case failed
      let ?w1 = "snd ?a"
      have ok: "room_ok r ?w1" "mesh X r ?w1" using calm_ok [OF failed(2)] assms by blast+
      have "member_at_room r ?uid ?w1 = Some ?i" using calm_views(1) [OF failed(2)] True by simp
      then have e: "?i = 0 \<or> member_at_room r ?uid ?w1 = Some ?i" by simp
      have l: "room_lists (mw_room_objs ?w1 r)" using ok(1) by (simp add: room_ok_def)
      have w': "add_binding lb r b w = RemovePeer r ?uid ?i ?w1" using run failed(1) by simp
      have "served r (add_binding lb r b w) b"
        using calm_views(4) [OF failed(2), of ?i]
        by (simp add: served_def w' RemovePeer_views(1,4) [OF e l])
      then show ?thesis
        using RemovePeer_ok [OF ok(1)] ok(2) shrinks_calm [OF failed(2) RemovePeer_shrinks [OF ok(1)]]
          inside_trans [OF calm_inside [OF failed(2)] RemovePeer_inside [OF ok(1)]]
        by (simp add: w')
    next
      case there
      then show ?thesis using assms run by (auto simp: served_def)
    next
      case (added w1)
      let ?k = "\<lparr>ot_mid = track_mid (tb_type b) (tb_ssrc b) (tb_uid b), ot_ssrc = tb_ssrc b, ot_publisher = tb_publisher b\<rparr>"
      have w': "add_binding lb r b w = with_track ?i (tb_type b) (tb_uid b) ?k w1"
        using run added(1,4) by (simp add: with_track_def Let_def)
      note c = calm_views [OF added(2)]
      have m: "member_at_room r (md_uid (mw_sessions w1 ?i)) w1 = Some ?i"
        "member_at_room r (tb_uid b) w1 = Some (ot_publisher ?k)" "publisher_of r (tb_type b) w1 (tb_uid b) = Some (ot_ssrc ?k)"
        "tb_uid b \<noteq> md_uid (mw_sessions w1 ?i)"
        using True assms(3) by (simp_all add: c binding_ok_def)
      note t = with_track_ok [OF calm_ok(1) [OF added(2) assms(1)] calm_ok(2) [OF added(2) assms(2)] m]
      have "served r (add_binding lb r b w) b" by (simp add: served_def w' with_track_views)
      then show ?thesis
        using t(1,2) shrinks_calm [OF added(2) t(3)] inside_trans [OF calm_inside [OF added(2)] t(4)] by (simp add: w')
    qed
  qed
qed

lemma add_bindings_ok:
  assumes "room_ok r w" "mesh X r w" "\<forall>b \<in> set bs. binding_ok r w b"
  shows "room_ok r (fold (add_binding lb r) bs w) \<and> mesh X r (fold (add_binding lb r) bs w)
    \<and> shrinks r w (fold (add_binding lb r) bs w) \<and> inside r w (fold (add_binding lb r) bs w)
    \<and> (\<forall>b \<in> set bs. served r (fold (add_binding lb r) bs w) b)"
  using assms
proof (induction bs arbitrary: w)
  case (Cons b bs)
  let ?w1 = "add_binding lb r b w"
  have s: "room_ok r ?w1 \<and> mesh X r ?w1 \<and> shrinks r w ?w1 \<and> served r ?w1 b \<and> inside r w ?w1"
    using add_binding_ok [OF Cons.prems(1,2)] Cons.prems(3) by simp
  then have "\<forall>b \<in> set bs. binding_ok r ?w1 b" using Cons.prems(3) binding_shrinks by fastforce
  then have r: "room_ok r (fold (add_binding lb r) bs ?w1) \<and> mesh X r (fold (add_binding lb r) bs ?w1)
    \<and> shrinks r ?w1 (fold (add_binding lb r) bs ?w1) \<and> inside r ?w1 (fold (add_binding lb r) bs ?w1)
    \<and> (\<forall>b \<in> set bs. served r (fold (add_binding lb r) bs ?w1) b)"
    using Cons.IH s by blast
  have "served r (fold (add_binding lb r) bs ?w1) b" using served_shrinks s r by blast
  moreover have "shrinks r w (fold (add_binding lb r) bs ?w1)" "inside r w (fold (add_binding lb r) bs ?w1)"
    using s r shrinks_trans inside_trans by blast+
  ultimately show ?case using r by simp
qed simp

lemma negotiate_ok:
  assumes "room_ok r w" "mesh X r w"
  shows "room_ok r (negotiate lb r i w) \<and> mesh X r (negotiate lb r i w) \<and> inside r w (negotiate lb r i w)"
proof -
  let ?w1 = "snd (RequestRenegotiation lb i w)"
  note c = calm_RequestRenegotiation [of w lb i]
  have "room_ok r ?w1" "mesh X r ?w1" using calm_ok [OF c] assms by blast+
  note p = this RemovePeer_ok [OF this(1)] RemovePeer_inside [OF this(1)]
  have "negotiate lb r i w = w \<or> negotiate lb r i w = ?w1 \<or> negotiate lb r i w = RemovePeer r (md_uid (mw_sessions w i)) i ?w1"
    by (auto simp: negotiate_def Let_def case_prod_beta)
  then show ?thesis using assms p calm_inside [OF c] inside_trans [OF calm_inside [OF c]] by auto
qed

lemma negotiate_all_ok:
  assumes "room_ok r w" "mesh X r w"
  shows "room_ok r (fold (negotiate lb r) is w) \<and> mesh X r (fold (negotiate lb r) is w) \<and> inside r w (fold (negotiate lb r) is w)"
  using assms
proof (induction "is" arbitrary: w)
  case (Cons i "is")
  have "room_ok r (negotiate lb r i w) \<and> mesh X r (negotiate lb r i w) \<and> inside r w (negotiate lb r i w)"
    by (rule negotiate_ok [OF Cons.prems])
  then show ?case using Cons.IH [of "negotiate lb r i w"] inside_trans by auto
qed simp

section \<open>A new publisher\<close>

lemma add_publisher_views:
  assumes "w1 = upd_room r (add_publisher uid t) w"
  shows "member_at_room r' v w1 = member_at_room r' v w"
    "publisher_of r t' w1 v = (if (t' = ''video'') = (t = ''video'') \<and> v = uid
       then Some (ro_next_ssrc (mw_room_objs w r)) else publisher_of r t' w v)"
    "mw_sessions w1 = mw_sessions w" "mw_next_session w1 = mw_next_session w" "tracks_of i t' w1 = tracks_of i t' w"
    "ro_meeting (mw_room_objs w1 r) = ro_meeting (mw_room_objs w r)" "ro_peers (mw_room_objs w1 r) = ro_peers (mw_room_objs w r)"
    "room_lists (mw_room_objs w r) \<Longrightarrow> room_lists (mw_room_objs w1 r)" "inside r w w1"
  by (auto simp: assms upd_room_def add_publisher_def Let_def member_at_room_def peer_session_def GetPeer_def
      publisher_of_def publishers_def tracks_of_def update_conv room_lists_def distinct_update inside_def)

lemma add_publisher_ok:
  assumes "room_ok r w" "mesh {} r w" "member_at_room r uid w = Some p" "publisher_of r t w uid = None"
    and w1: "w1 = upd_room r (add_publisher uid t) w"
  shows "room_ok r w1" "mesh {uid} r w1" "\<not> publishes_both r uid w1 \<Longrightarrow> mesh {} r w1"
proof -
  note v = add_publisher_views [OF w1]
  have same: "publisher_of r t' w1 x = publisher_of r t' w x" if "publisher_of r t' w x \<noteq> None" for t' x
  proof -
    have "\<not> ((t' = ''video'') = (t = ''video'') \<and> x = uid)"
      using that assms(4) publisher_kind [of t' t r w] by metis
    then show ?thesis by (simp only: v(2) if_False)
  qed
  show "room_ok r w1"
    unfolding room_ok_def v(1,3,4,5,6)
  proof (intro conjI)
    show "room_lists (mw_room_objs w1 r)" using assms(1) v(8) by (simp add: room_ok_def)
    show "\<forall>t' x. publisher_of r t' w1 x \<noteq> None \<longrightarrow> member_at_room r x w \<noteq> None"
      using assms(1,3) by (auto simp: v(2) room_ok_def)
    show "\<forall>t' x i y k. member_at_room r x w = Some i \<longrightarrow> tracks_of i t' w y = Some k \<longrightarrow>
        y \<noteq> x \<and> member_at_room r y w = Some (ot_publisher k) \<and> publisher_of r t' w1 y = Some (ot_ssrc k)"
      using room_ok_track [OF assms(1)] same by (metis option.distinct(1))
  qed (use assms(1) in \<open>simp add: room_ok_def\<close>)
  have b: "publishes_both r x w1 = publishes_both r x w" if "x \<noteq> uid" for x
    using that by (simp add: publishes_both_def v(2))
  show "mesh {uid} r w1" using assms(2) b unfolding mesh_def v(1,5) by blast
  then show "mesh {} r w1" if "\<not> publishes_both r uid w1" using that unfolding mesh_def by blast
qed

lemma tracks_kind: "(t = ''video'') = (t' = ''video'') \<Longrightarrow> tracks_of i t w = tracks_of i t' w"
  by (simp add: tracks_of_def out_tracks_def)

lemma publishes_both_iff:
  "publishes_both r uid w \<longleftrightarrow> (\<exists>v a. publisher_of r ''video'' w uid = Some v \<and> publisher_of r ''audio'' w uid = Some a)"
proof -
  have k: "publisher_of r t w = publisher_of r (if t = ''video'' then ''video'' else ''audio'') w" for t
    by (rule publisher_kind) simp
  show ?thesis
  proof
    assume "publishes_both r uid w"
    then show "\<exists>v a. publisher_of r ''video'' w uid = Some v \<and> publisher_of r ''audio'' w uid = Some a"
      by (simp add: publishes_both_def flip: not_None_eq)
  next
    assume both: "\<exists>v a. publisher_of r ''video'' w uid = Some v \<and> publisher_of r ''audio'' w uid = Some a"
    have "publisher_of r t w uid \<noteq> None" for t
      using both by (subst k [of t]) auto
    then show "publishes_both r uid w" by (simp add: publishes_both_def)
  qed
qed

lemma both_tracks_mem: "b \<in> set (both_tracks s uid p v a) \<longleftrightarrow>
    b = \<lparr>tb_session = s, tb_uid = uid, tb_publisher = p, tb_type = ''video'', tb_ssrc = v\<rparr>
  \<or> b = \<lparr>tb_session = s, tb_uid = uid, tb_publisher = p, tb_type = ''audio'', tb_ssrc = a\<rparr>"
  by (simp add: both_tracks_def)

lemma members_mem:
  assumes "room_lists R"
  shows "b \<in> set (concat (map snd (tracks_to_members uid p v a R))) \<longleftrightarrow>
    (\<exists>u i. u \<noteq> uid \<and> peer_session u R = Some i \<and> b \<in> set (both_tracks i uid p v a))"
proof -
  have "x \<in> set (tracks_to_members uid p v a R) \<longleftrightarrow>
      (\<exists>u q i. (u, q) \<in> set (ro_peers R) \<and> u \<noteq> uid \<and> pe_session q = Some i \<and> x = (i, both_tracks i uid p v a))" for x
    by (force simp: tracks_to_members_def set_map_filter split: if_splits option.splits)
  then have "b \<in> set (concat (map snd (tracks_to_members uid p v a R))) \<longleftrightarrow>
      (\<exists>x u q i. (u, q) \<in> set (ro_peers R) \<and> u \<noteq> uid \<and> pe_session q = Some i \<and> x = (i, both_tracks i uid p v a) \<and> b \<in> set (snd x))"
    unfolding set_concat set_map by blast
  then show ?thesis unfolding peer_session_iff [OF assms] by auto
qed

lemma own_mem:
  assumes "room_lists R"
  shows "b \<in> set (tracks_of_publishers uid s R) \<longleftrightarrow>
    (\<exists>u v a q. u \<noteq> uid \<and> map_of (ro_video R) u = Some v \<and> map_of (ro_audio R) u = Some a
       \<and> peer_session u R = Some q \<and> b \<in> set (both_tracks s u q v a))"
proof -
  have d: "distinct (map fst (ro_video R))" using assms by (simp add: room_lists_def)
  define F where "F u v = (if u = uid then [] else case map_of (ro_audio R) u of None \<Rightarrow> []
      | Some a \<Rightarrow> (case peer_session u R of None \<Rightarrow> [] | Some q \<Rightarrow> both_tracks s u q v a))" for u v
  have f: "b \<in> set (F u v) \<longleftrightarrow> u \<noteq> uid \<and> (\<exists>a q. map_of (ro_audio R) u = Some a \<and> peer_session u R = Some q
      \<and> b \<in> set (both_tracks s u q v a))" for u v
    by (cases "map_of (ro_audio R) u"; cases "peer_session u R") (auto simp: F_def)
  have "tracks_of_publishers uid s R = concat (map (\<lambda>(u, v). F u v) (ro_video R))"
    by (simp add: F_def tracks_of_publishers_def)
  moreover have "b \<in> set (concat (map (\<lambda>(u, v). F u v) xs)) \<longleftrightarrow> (\<exists>u v. (u, v) \<in> set xs \<and> b \<in> set (F u v))" for xs
    by (induction xs) auto
  ultimately have "b \<in> set (tracks_of_publishers uid s R) \<longleftrightarrow> (\<exists>u v. map_of (ro_video R) u = Some v \<and> b \<in> set (F u v))"
    by (simp add: map_of_eq_Some_iff [OF d])
  then show ?thesis by (simp add: f) blast
qed

lemma RegisterPublisherTrack_ok:
  assumes "room_ok r w" "mesh {} r w"
  shows "room_ok r (RegisterPublisherTrack lb r uid t w) \<and> mesh {} r (RegisterPublisherTrack lb r uid t w)
    \<and> inside r w (RegisterPublisherTrack lb r uid t w)"
proof -
  let ?w' = "RegisterPublisherTrack lb r uid t w"
  let ?w1 = "upd_room r (add_publisher uid t) w" let ?R = "mw_room_objs ?w1 r"
  show ?thesis
  proof (cases "member_at_room r uid w = None \<or> publisher_of r t w uid \<noteq> None")
    case True
    then have "?w' = w"
      by (auto simp: RegisterPublisherTrack_def member_at_room_def publisher_of_def split: option.split)
    then show ?thesis using assms by simp
  next
    case False
    then obtain p where p: "member_at_room r uid w = Some p" "publisher_of r t w uid = None" by auto
    note v = add_publisher_views [of ?w1 r uid t w, OF refl]
    note ok = add_publisher_ok [OF assms p refl]
    have l: "room_lists ?R" using ok(1) by (simp add: room_ok_def)
    show ?thesis
    proof (cases "publishes_both r uid ?w1")
      case False
      then have "?w' = ?w1"
        using p by (auto simp: RegisterPublisherTrack_def member_at_room_def publisher_of_def publishes_both_iff
            publishers_def Let_def split: option.split)
      then show ?thesis using ok v(9) False by simp
    next
      case True
      then obtain vid aud where va: "map_of (ro_video ?R) uid = Some vid" "map_of (ro_audio ?R) uid = Some aud"
        by (auto simp: publishes_both_iff publisher_of_def publishers_def)
      define bs where "bs = concat (map snd (tracks_to_members uid p vid aud ?R)) @ tracks_of_publishers uid p ?R"
      let ?w2 = "fold (add_binding lb r) bs ?w1"
      define ss where "ss = map fst (tracks_to_members uid p vid aud ?R) @ (if tracks_of_publishers uid p ?R = [] then [] else [p])"
      have run: "?w' = fold (negotiate lb r) ss ?w2"
        using p va by (simp add: RegisterPublisherTrack_def member_at_room_def publisher_of_def bs_def ss_def Let_def
            del: fold_append)
      have member: "peer_session u ?R = member_at_room r u ?w1" for u by (simp add: member_at_room_def)
      have pub: "map_of (ro_video ?R) u = publisher_of r ''video'' ?w1 u"
        "map_of (ro_audio ?R) u = publisher_of r ''audio'' ?w1 u" for u
        by (simp_all add: publisher_of_def publishers_def)
      have mem: "b \<in> set bs \<longleftrightarrow>
          (\<exists>u i. u \<noteq> uid \<and> member_at_room r u ?w1 = Some i \<and> b \<in> set (both_tracks i uid p vid aud))
        \<or> (\<exists>u v a q. u \<noteq> uid \<and> publisher_of r ''video'' ?w1 u = Some v \<and> publisher_of r ''audio'' ?w1 u = Some a
             \<and> member_at_room r u ?w1 = Some q \<and> b \<in> set (both_tracks p u q v a))" for b
        unfolding bs_def set_append Un_iff members_mem [OF l] own_mem [OF l] member pub by simp
      have uid1: "member_at_room r uid ?w1 = Some p" using p(1) v(1) by simp
      have md: "md_uid (mw_sessions ?w1 i) = u" if "member_at_room r u ?w1 = Some i" for u i
        using room_okD(3) [OF ok(1) that] .
      have bok: "\<forall>b \<in> set bs. binding_ok r ?w1 b"
        using md va [unfolded pub] md [OF uid1] by (auto simp: mem binding_ok_def both_tracks_mem)
      note f = add_bindings_ok [OF ok(1,2) bok, of lb]
      have "mesh {} r ?w2"
        unfolding mesh_def
      proof (intro allI impI)
        fix x y i t'
        assume xy: "x \<noteq> y" "publishes_both r x ?w2" "publishes_both r y ?w2" "member_at_room r x ?w2 = Some i"
        have keep: "member_at_room r z ?w1 = Some k \<and> (\<forall>t. publisher_of r t ?w2 z = publisher_of r t ?w1 z)"
          if "member_at_room r z ?w2 = Some k" for z k
          using f that unfolding shrinks_def by blast
        have mdu: "md_uid (mw_sessions ?w2 k) = md_uid (mw_sessions ?w1 k)" for k
          using f unfolding shrinks_def by blast
        obtain q where q: "member_at_room r y ?w2 = Some q"
          using xy(3) room_ok_publisher f unfolding publishes_both_iff by blast
        let ?k = "if t' = ''video'' then ''video'' else ''audio''"
        have k: "tracks_of i t' ?w2 = tracks_of i ?k ?w2" by (rule tracks_kind) simp
        have sv: "tracks_of i ?k ?w2 y \<noteq> None" if "b \<in> set bs" "tb_session b = i" "tb_uid b = y" "tb_publisher b = q" "tb_type b = ?k" for b
          using f that xy(4) q md [OF conjunct1 [OF keep [OF xy(4)]]] unfolding served_def by (auto simp: mdu)
        show "tracks_of i t' ?w2 y \<noteq> None"
        proof (cases "x = uid \<or> y = uid")
          case False
          then show ?thesis using f xy unfolding mesh_def by blast
        next
          case True
          have ex: "\<exists>b \<in> set bs. tb_session b = i \<and> tb_uid b = y \<and> tb_publisher b = q \<and> tb_type b = ?k"
          proof (cases "y = uid")
            case yu: True
            then have "q = p" using keep [OF q] uid1 by simp
            then show ?thesis using yu xy(1) keep [OF xy(4)]
              by (auto simp: bex_simps(6) mem both_tracks_mem intro!: bexI [of _ "\<lparr>tb_session = i, tb_uid = y, tb_publisher = q, tb_type = ?k, tb_ssrc = if t' = ''video'' then vid else aud\<rparr>"])
          next
            case False
            then have xu: "x = uid" "i = p" using True keep [OF xy(4)] uid1 by auto
            obtain v a where "publisher_of r ''video'' ?w1 y = Some v" "publisher_of r ''audio'' ?w1 y = Some a"
              using xy(3) keep [OF q] unfolding publishes_both_iff by auto
            then show ?thesis using False xu keep [OF q]
              by (auto simp: mem both_tracks_mem intro!: bexI [of _ "\<lparr>tb_session = i, tb_uid = y, tb_publisher = q, tb_type = ?k, tb_ssrc = if t' = ''video'' then v else a\<rparr>"])
          qed
          then show ?thesis using sv unfolding k by blast
        qed
      qed
      then show ?thesis
        using f negotiate_all_ok [of r ?w2 "{}" lb ss] inside_trans [OF v(9)] inside_trans run by metis
    qed
  qed
qed

end
