(* ===== verification/MediaWorld.thy ===== *)
theory MediaWorld
  imports MediaInv
begin

text \<open>
  The invariant of the whole MediaServer: every room of the table satisfies the room
  invariant and has a member, and every event keeps it so.
\<close>

section \<open>The invariant of the table\<close>

text \<open>Rooms in X may be empty.\<close>

definition rooms_inv :: "nat set \<Rightarrow> media_world \<Rightarrow> bool" where
  "rooms_inv X w \<longleftrightarrow> (\<forall>m r. mw_rooms w m = Some r \<longrightarrow> r < mw_next_room w \<and> ro_meeting (mw_room_objs w r) = m
       \<and> room_ok r w \<and> mesh {} r w \<and> (r \<notin> X \<longrightarrow> ro_peers (mw_room_objs w r) \<noteq> []))
     \<and> 0 < unat (mw_next_session w) \<and> unat (mw_next_session w) \<le> Suc (length (mw_calls w))"

definition few_calls :: "media_world \<Rightarrow> bool" where
  "few_calls w \<longleftrightarrow> length (mw_calls w) < 2 ^ 64 - 1"

lemma rooms_invD:
  assumes "rooms_inv X w" "mw_rooms w m = Some r"
  shows "r < mw_next_room w" "ro_meeting (mw_room_objs w r) = m" "room_ok r w" "mesh {} r w"
    "r \<notin> X \<Longrightarrow> ro_peers (mw_room_objs w r) \<noteq> []"
  using assms by (simp_all add: rooms_inv_def)

lemma rooms_inv_mono: "rooms_inv X w \<Longrightarrow> X \<subseteq> Y \<Longrightarrow> rooms_inv Y w"
  unfolding rooms_inv_def by blast

lemma calm_same [simp]: "calm w (w\<lparr>mw_pool := p\<rparr>)" "calm w (w\<lparr>mw_conns := c\<rparr>)"
  by (simp_all add: calm_def)

lemma rooms_inv_calm:
  assumes "rooms_inv X w" "calm w w'" shows "rooms_inv X w'"
proof -
  have c: "mw_rooms w' = mw_rooms w" "mw_room_objs w' = mw_room_objs w" "mw_next_room w' = mw_next_room w"
    "mw_next_session w' = mw_next_session w" "length (mw_calls w) \<le> length (mw_calls w')"
    using assms(2) by (simp_all add: calm_def)
  show ?thesis using assms(1) calm_ok [OF assms(2)] c(5) by (auto simp: rooms_inv_def c(1-4))
qed

text \<open>A step inside one room.\<close>

lemma rooms_inv_inside:
  assumes "rooms_inv X w" "mw_rooms w m = Some r" "inside r w w'" "room_ok r w'" "mesh {} r w'"
  shows "rooms_inv (insert r X) w'"
proof -
  have i: "mw_rooms w' = mw_rooms w" "mw_next_room w' = mw_next_room w"
    "ro_meeting (mw_room_objs w' r) = ro_meeting (mw_room_objs w r)"
    "unat (mw_next_session w) \<le> unat (mw_next_session w')"
    "unat (mw_next_session w') + length (mw_calls w) \<le> unat (mw_next_session w) + length (mw_calls w')"
    using assms(3) by (simp_all add: inside_def)
  have other: "room_ok r' w'" "mesh {} r' w'" "mw_room_objs w' r' = mw_room_objs w r'"
    if r': "r' \<noteq> r" "mw_rooms w m' = Some r'" for r' m'
  proof -
    show o: "mw_room_objs w' r' = mw_room_objs w r'" using assms(3) r'(1) by (simp add: inside_def)
    note d = rooms_invD [OF assms(1) r'(2)]
    have s: "session_core (mw_sessions w' i) = session_core (mw_sessions w i)" if "member_at_room r' uid w = Some i" for uid i
      using room_okD(2,4) [OF d(3) that] assms(3) r'(1) by (auto simp: inside_def)
    show "room_ok r' w'" by (rule room_ok_cong(1) [OF d(3) o i(4)]) (rule s)
    show "mesh {} r' w'" by (rule room_ok_cong(2) [OF d(3) o i(4) _ d(4)]) (rule s)
  qed
  show ?thesis
    unfolding rooms_inv_def
  proof (intro conjI allI impI)
    fix m' r' assume r: "mw_rooms w' m' = Some r'"
    then have r0: "mw_rooms w m' = Some r'" by (simp add: i(1))
    note d = rooms_invD [OF assms(1) r0]
    show "r' < mw_next_room w'" using d(1) i(2) by simp
    show "ro_meeting (mw_room_objs w' r') = m'" using d(2) i(3) other(3) [OF _ r0] by (cases "r' = r") auto
    show "room_ok r' w'" using assms(4) other(1) [OF _ r0] by (cases "r' = r") auto
    show "mesh {} r' w'" using assms(5) other(2) [OF _ r0] by (cases "r' = r") auto
    show "ro_peers (mw_room_objs w' r') \<noteq> []" if "r' \<notin> insert r X"
      using that d(5) other(3) [OF _ r0] by auto
  qed (use assms(1) i(4,5) in \<open>auto simp: rooms_inv_def\<close>)
qed

lemma rooms_inv_filled: "rooms_inv (insert r X) w \<Longrightarrow> ro_peers (mw_room_objs w r) \<noteq> [] \<Longrightarrow> rooms_inv X w"
  by (auto simp: rooms_inv_def)

text \<open>An empty room leaves the table.\<close>

lemma RemoveSession_none:
  assumes "rooms_inv (insert r X) w" "mw_rooms w m = Some r"
  shows "rooms_inv X (RemoveSession r None w)"
proof (cases "ro_peers (mw_room_objs w r) = []")
  case True
  have m: "ro_meeting (mw_room_objs w r) = m" using rooms_invD [OF assms] by simp
  then have "RemoveSession r None w = w\<lparr>mw_rooms := (mw_rooms w)(m := None)\<rparr>"
    using True assms(2) by (simp add: RemoveSession_def PeerCount_def Let_def)
  moreover have "r' \<noteq> r" if "mw_rooms w m' = Some r'" "m' \<noteq> m" for m' r'
    using rooms_invD(2) [OF assms(1) that(1)] m that(2) by auto
  moreover have "room_ok r' (w\<lparr>mw_rooms := f\<rparr>) = room_ok r' w" "mesh Y r' (w\<lparr>mw_rooms := f\<rparr>) = mesh Y r' w" for r' f Y
    by (simp_all add: room_ok_def mesh_def member_at_room_def publisher_of_def tracks_of_def publishes_both_def)
  ultimately show ?thesis using assms(1) by (auto simp: rooms_inv_def)
next
  case False
  then have "RemoveSession r None w = w" by (simp add: RemoveSession_def PeerCount_def Let_def)
  then show ?thesis using rooms_inv_filled [OF assms(1) False] by simp
qed

lemma RemoveSession_some: "RemoveSession r (Some i) w = RemoveSession r None (RemovePeer r (md_uid (mw_sessions w i)) i w)"
  by (simp add: RemoveSession_def)

lemma RemoveSession_inv:
  assumes "rooms_inv (insert r X) w" "mw_rooms w m = Some r"
  shows "rooms_inv X (RemoveSession r (Some i) w)"
proof -
  let ?w1 = "RemovePeer r (md_uid (mw_sessions w i)) i w"
  note d = rooms_invD [OF assms]
  have "rooms_inv (insert r (insert r X)) ?w1"
    by (rule rooms_inv_inside [OF assms RemovePeer_inside [OF d(3)] RemovePeer_ok(1) [OF d(3)] RemovePeer_ok(2) [OF d(3,4)]])
  moreover have "mw_rooms ?w1 m = Some r" using RemovePeer_inside [OF d(3), of _ i] assms(2) by (simp add: inside_def)
  ultimately show ?thesis unfolding RemoveSession_some by (intro RemoveSession_none [of r X _ m]) simp_all
qed

lemma or_remove_inv:
  assumes "rooms_inv X w" "mw_rooms w m = Some r" "calm w w1" "ro_peers (mw_room_objs w r) \<noteq> []"
  shows "rooms_inv (X - {r}) (snd (or_remove r i (ok, w1)))"
proof -
  have i: "rooms_inv (insert r (X - {r})) w1" using rooms_inv_calm [OF rooms_inv_mono [OF assms(1)] assms(3)] by auto
  have o: "mw_rooms w1 m = Some r" "ro_peers (mw_room_objs w1 r) \<noteq> []" using assms(2,3,4) by (simp_all add: calm_def)
  show ?thesis
    using rooms_inv_filled [OF i o(2)] RemoveSession_inv [OF i o(1)] by (simp add: or_remove_def)
qed

section \<open>Handlers\<close>

lemma own_session_member:
  assumes "own_session conn req r w = Some i"
  shows "member_at_room r (sr_uid req) w = Some i" "md_signal (mw_sessions w i) = sr_signal req" "GetSignalSession i w = Some conn"
    "ro_peers (mw_room_objs w r) \<noteq> []"
  using assms by (auto simp: own_session_def member_at_room_def peer_session_def GetPeer_def split: option.splits if_splits)

lemma on_own_session_inv:
  assumes "rooms_inv {} w"
    and "\<And>r i. mw_rooms w (sr_meeting req) = Some r \<Longrightarrow> own_session conn req r w = Some i \<Longrightarrow> rooms_inv {} (snd (f r i w))"
  shows "rooms_inv {} (snd (on_own_session conn req f w))"
  using assms by (auto simp: on_own_session_def split: option.split)

lemma HandleAnswer_inv: "rooms_inv {} w \<Longrightarrow> rooms_inv {} (snd (HandleAnswer lb conn req w))"
  unfolding HandleAnswer_def
  using or_remove_inv [of "{}" w, OF _ _ calm_SetRemoteAnswer] own_session_member(4)
  by (intro on_own_session_inv) (auto, metis Diff_empty empty_Diff prod.collapse)

lemma HandleCandidate_inv: "rooms_inv {} w \<Longrightarrow> rooms_inv {} (snd (HandleCandidate lb conn req w))"
  unfolding HandleCandidate_def
  using or_remove_inv [of "{}" w, OF _ _ calm_AddRemoteCandidate] own_session_member(4)
  by (intro on_own_session_inv) (auto, metis Diff_empty empty_Diff prod.collapse)

lemma HandleLeave_inv: "rooms_inv {} w \<Longrightarrow> rooms_inv {} (snd (HandleLeave conn req w))"
  unfolding HandleLeave_def
  by (intro on_own_session_inv) (auto intro: RemoveSession_inv rooms_inv_mono)

lemma find_or_create_inv:
  assumes "rooms_inv {} w" "find_or_create_room m w = (r, w1)"
  shows "rooms_inv {r} w1" "mw_rooms w1 m = Some r" "mw_rooms w m = Some r \<and> w1 = w \<or> mw_rooms w m = None \<and> ro_peers (mw_room_objs w1 r) = []"
    "length (mw_calls w1) = length (mw_calls w)"
proof -
  show "mw_rooms w1 m = Some r" "length (mw_calls w1) = length (mw_calls w)"
    using assms(2) by (auto simp: find_or_create_room_def Let_def split: option.splits)
  show "mw_rooms w m = Some r \<and> w1 = w \<or> mw_rooms w m = None \<and> ro_peers (mw_room_objs w1 r) = []"
    using assms(2) by (auto simp: find_or_create_room_def MediaRoom_new_def Let_def split: option.splits)
  show "rooms_inv {r} w1"
  proof (cases "mw_rooms w m")
    case (Some r')
    then show ?thesis using assms rooms_inv_mono by (auto simp: find_or_create_room_def)
  next
    case None
    then have w1: "r = mw_next_room w" "w1 = w\<lparr>mw_room_objs := (mw_room_objs w)(r := MediaRoom_new m), mw_next_room := r + 1,
        mw_rooms := (mw_rooms w)(m \<mapsto> r)\<rparr>"
      using assms(2) by (auto simp: find_or_create_room_def Let_def)
    have e: "member_at_room r uid w1 = None" "publisher_of r t w1 uid = None" for uid t
      by (simp_all add: w1(2) member_at_room_def publisher_of_def peer_session_def GetPeer_def publishers_def MediaRoom_new_def)
    have new: "room_ok r w1" "mesh {} r w1" "ro_meeting (mw_room_objs w1 r) = m"
      by (simp_all add: room_ok_def mesh_def e room_lists_def) (simp_all add: w1(2) MediaRoom_new_def)
    have old: "r' < mw_next_room w \<and> ro_meeting (mw_room_objs w1 r') = m' \<and> room_ok r' w1 \<and> mesh {} r' w1
        \<and> ro_peers (mw_room_objs w1 r') \<noteq> []" if "mw_rooms w m' = Some r'" for m' r'
    proof -
      note d = rooms_invD [OF assms(1) that]
      have o: "mw_room_objs w1 r' = mw_room_objs w r'" using d(1) w1 by simp
      have n: "unat (mw_next_session w) \<le> unat (mw_next_session w1)" by (simp add: w1(2))
      have "room_ok r' w1" by (rule room_ok_cong(1) [OF d(3) o n]) (simp add: w1(2))
      moreover have "mesh {} r' w1" by (rule room_ok_cong(2) [OF d(3) o n _ d(4)]) (simp add: w1(2))
      ultimately show ?thesis using d o by simp
    qed
    show ?thesis
      unfolding rooms_inv_def
    proof (intro conjI allI impI)
      fix m' r' assume r': "mw_rooms w1 m' = Some r'"
      have "r' < mw_next_room w1 \<and> ro_meeting (mw_room_objs w1 r') = m' \<and> room_ok r' w1 \<and> mesh {} r' w1
        \<and> (r' \<notin> {r} \<longrightarrow> ro_peers (mw_room_objs w1 r') \<noteq> [])"
      proof (cases "m' = m")
        case True
        then have "r' = r" "r < mw_next_room w1" using r' w1(1) by (simp_all add: w1(2))
        then show ?thesis using new True by simp
      next
        case False
        then have "mw_rooms w m' = Some r'" using r' by (simp add: w1(2))
        moreover have "mw_next_room w1 = Suc (mw_next_room w)" using w1(1) by (simp add: w1(2))
        ultimately show ?thesis using old by (simp add: less_SucI)
      qed
      then show "r' < mw_next_room w1" "ro_meeting (mw_room_objs w1 r') = m'" "room_ok r' w1" "mesh {} r' w1"
        "r' \<notin> {r} \<Longrightarrow> ro_peers (mw_room_objs w1 r') \<noteq> []" by blast+
    qed (use assms(1) in \<open>simp_all add: rooms_inv_def w1(2)\<close>)
  qed
qed

lemma MediaSession_new_effect:
  assumes "MediaSession_new lb m uid sg conn r w = (ok, i, w')"
  shows "i = mw_next_session w" "mw_next_session w' = i + 1" "length (mw_calls w') = Suc (length (mw_calls w))"
    "mw_room_objs w' = mw_room_objs w" "mw_rooms w' = mw_rooms w" "mw_next_room w' = mw_next_room w"
    "j \<noteq> i \<Longrightarrow> mw_sessions w' j = mw_sessions w j"
    "md_meeting (mw_sessions w' i) = m" "md_uid (mw_sessions w' i) = uid" "md_room (mw_sessions w' i) = r"
    "out_tracks t (mw_sessions w' i) = []" "md_connection (mw_sessions w' i) = conn" "md_signal (mw_sessions w' i) = sg"
  using assms by (auto simp: MediaSession_new_def lib_do_def Let_def upd_session_def out_tracks_def)

text \<open>A new member with a new session.\<close>

definition enter :: "nat \<Rightarrow> u64 \<Rightarrow> int \<Rightarrow> u64 \<Rightarrow> media_world \<Rightarrow> media_world" where
  "enter r m uid i w = upd_room r (AddPeer ((MediaPeer_new m uid)\<lparr>pe_session := Some i\<rparr>)) w"

lemma update_nonempty: "AList.update k v xs \<noteq> []"
  by (cases xs) (auto split: if_splits)

lemma enter_views:
  "member_at_room r' v (enter r m uid i w) = (if r' = r \<and> v = uid then Some i else member_at_room r' v w)"
  "publisher_of r' t (enter r m uid i w) = publisher_of r' t w"
  "mw_sessions (enter r m uid i w) = mw_sessions w" "tracks_of j t (enter r m uid i w) = tracks_of j t w"
  "mw_next_session (enter r m uid i w) = mw_next_session w" "mw_calls (enter r m uid i w) = mw_calls w"
  "mw_rooms (enter r m uid i w) = mw_rooms w" "mw_next_room (enter r m uid i w) = mw_next_room w"
  "ro_meeting (mw_room_objs (enter r m uid i w) r') = ro_meeting (mw_room_objs w r')"
  "ro_peers (mw_room_objs (enter r m uid i w) r) \<noteq> []"
  by (auto simp: enter_def upd_room_def AddPeer_def MediaPeer_new_def member_at_room_def peer_session_def GetPeer_def
      publisher_of_def publishers_def tracks_of_def update_conv update_nonempty)


lemma create_enter_inside:
  assumes "room_ok r w" "mesh {} r w" "member_at_room r uid w = None" "MediaSession_new lb m uid sg conn r w = (ok, i, w1)"
    and "ro_meeting (mw_room_objs w r) = m" "0 < unat (mw_next_session w)"
    and "unat (mw_next_session w) < 2 ^ 64 - 1"
  shows "inside r w w1" "room_ok r w1" "mesh {} r w1"
    "inside r w (enter r m uid i w1)" "room_ok r (enter r m uid i w1)" "mesh {} r (enter r m uid i w1)"
proof -
  note e = MediaSession_new_effect [OF assms(4)]
  have "unat (mw_next_session w) + unat (1 :: u64) < 2 ^ 64" using assms(7) by simp
  then have n: "unat (mw_next_session w1) = Suc (unat (mw_next_session w))"
    using unat_plus_simple [of "mw_next_session w" 1] by (simp add: e(1,2) unat_word_ariths)
  have old: "mw_sessions w1 j = mw_sessions w j" if "unat j < unat (mw_next_session w)" for j
  proof -
    have "j \<noteq> i" using that e(1) by auto
    then show ?thesis by (rule e(7))
  qed
  show "inside r w w1"
    using old n e(3-6) by (simp add: inside_def)
  then show "inside r w (enter r m uid i w1)"
    unfolding inside_def enter_views using old e(4) by (auto simp: enter_def upd_room_def)
  have mo: "member_at_room r' v w1 = member_at_room r' v w" for r' v by (simp add: member_at_room_def e(4))
  have po: "publisher_of r' t w1 = publisher_of r' t w" for r' t by (simp add: publisher_of_def e(4))
  have so: "mw_sessions w1 j = mw_sessions w j" "tracks_of j t w1 = tracks_of j t w" if "member_at_room r v w = Some j" for v j t
    using old [OF room_okD(2) [OF assms(1) that]] by (simp_all add: tracks_of_def)
  have ti: "tracks_of i t w1 v = None" for t v by (simp add: tracks_of_def e(11))
  show k1: "room_ok r w1"
    by (rule room_ok_cong(1) [OF assms(1)]) (use n so(1) in \<open>simp_all add: e(4)\<close>)
  show m1: "mesh {} r w1"
    by (rule room_ok_cong(2) [OF assms(1) _ _ _ assms(2)]) (use n so(1) in \<open>simp_all add: e(4)\<close>)
  have nopub: "publisher_of r t w uid = None" for t
    using room_ok_publisher [OF assms(1), of t uid] assms(3) by (cases "publisher_of r t w uid") auto
  show "room_ok r (enter r m uid i w1)"
    unfolding room_ok_def enter_views
  proof (intro conjI)
    have "room_lists (mw_room_objs w r)" using assms(1) by (simp add: room_ok_def)
    then show "room_lists (mw_room_objs (enter r m uid i w1) r)"
      by (auto simp: room_lists_def enter_def upd_room_def AddPeer_def MediaPeer_new_def e(4) distinct_update update_conv)
    show "\<forall>v j. (if r = r \<and> v = uid then Some i else member_at_room r v w1) = Some j \<longrightarrow> 0 < unat j \<and>
        unat j < unat (mw_next_session w1) \<and> md_uid (mw_sessions w1 j) = v \<and> md_room (mw_sessions w1 j) = r \<and>
        md_meeting (mw_sessions w1 j) = ro_meeting (mw_room_objs w1 r)"
      using room_okD [OF k1] n assms(5,6) e(1,4,8,9,10) by auto
    show "\<forall>t v. publisher_of r t w1 v \<noteq> None \<longrightarrow> (if r = r \<and> v = uid then Some i else member_at_room r v w1) \<noteq> None"
      using room_ok_publisher [OF k1] by fastforce
    show "\<forall>t v j x k. (if r = r \<and> v = uid then Some i else member_at_room r v w1) = Some j \<longrightarrow> tracks_of j t w1 x = Some k \<longrightarrow>
        x \<noteq> v \<and> (if r = r \<and> x = uid then Some i else member_at_room r x w1) = Some (ot_publisher k) \<and>
        publisher_of r t w1 x = Some (ot_ssrc k)"
    proof (intro allI impI)
      fix t v j x k
      assume j: "(if r = r \<and> v = uid then Some i else member_at_room r v w1) = Some j" and k: "tracks_of j t w1 x = Some k"
      have "v \<noteq> uid" using j k ti by auto
      then have "member_at_room r v w1 = Some j" using j by simp
      from room_ok_track [OF k1 this k] show "x \<noteq> v \<and> (if r = r \<and> x = uid then Some i else member_at_room r x w1) = Some (ot_publisher k) \<and>
        publisher_of r t w1 x = Some (ot_ssrc k)" using assms(3) by (auto simp: mo)
    qed
  qed
  show "mesh {} r (enter r m uid i w1)"
    unfolding mesh_def publishes_both_def enter_views
    using m1 nopub unfolding mesh_def publishes_both_def by (auto simp: po split: if_splits)
qed

section \<open>Calls grow and sessions keep their identity\<close>

definition ident :: "media_session \<Rightarrow> u64 \<times> int" where
  "ident s = (md_meeting s, md_uid s)"

text \<open>No session is made.\<close>

definition steady :: "media_world \<Rightarrow> media_world \<Rightarrow> bool" where
  "steady w w' \<longleftrightarrow> length (mw_calls w) \<le> length (mw_calls w') \<and> mw_next_session w' = mw_next_session w
     \<and> (\<forall>j. ident (mw_sessions w' j) = ident (mw_sessions w j))"

lemma steady_refl [simp]: "steady w w"
  by (simp add: steady_def)

lemma steady_trans: "steady w w' \<Longrightarrow> steady w' w'' \<Longrightarrow> steady w w''"
  by (simp add: steady_def)

lemma steady_calm: "calm w w' \<Longrightarrow> steady w w'"
  by (auto simp: calm_def steady_def session_core_def ident_def)

text \<open>Each new session is one call at least; as long as the numbers do not wrap, an old session
  keeps its meeting and its user.\<close>

definition grows :: "media_world \<Rightarrow> media_world \<Rightarrow> bool" where
  "grows w w' \<longleftrightarrow> length (mw_calls w) \<le> length (mw_calls w') \<and>
     (unat (mw_next_session w) + length (mw_calls w') < 2 ^ 64 + length (mw_calls w) \<longrightarrow>
        unat (mw_next_session w) \<le> unat (mw_next_session w')
        \<and> unat (mw_next_session w') + length (mw_calls w) \<le> unat (mw_next_session w) + length (mw_calls w')
        \<and> (\<forall>j. unat j < unat (mw_next_session w) \<longrightarrow> ident (mw_sessions w' j) = ident (mw_sessions w j)))"

lemma grows_calls: "grows w w' \<Longrightarrow> length (mw_calls w) \<le> length (mw_calls w')"
  by (simp add: grows_def)

lemma grows_trans: "grows w w' \<Longrightarrow> grows w' w'' \<Longrightarrow> grows w w''"
  by (auto simp: grows_def)

lemma grows_steady: "steady w w' \<Longrightarrow> grows w w'"
  by (simp add: steady_def grows_def)

lemma grows_new:
  assumes "MediaSession_new lb m uid sg conn r w = (ok, i, w')"
  shows "grows w w'"
proof -
  note e = MediaSession_new_effect [OF assms]
  have n: "unat (mw_next_session w') = Suc (unat (mw_next_session w))" if "Suc (unat (mw_next_session w)) < 2 ^ 64"
    using that unat_plus_simple [of "mw_next_session w" 1] by (simp add: e(1,2) unat_word_ariths)
  have s: "mw_sessions w' j = mw_sessions w j" if "unat j < unat (mw_next_session w)" for j
    using that e(1) by (intro e(7)) auto
  show ?thesis using n s by (auto simp: grows_def e(3))
qed

lemma steady_RemovePeer: "steady w (RemovePeer r uid i w)"
proof (cases "i = 0 \<or> member_at_room r uid w = Some i")
  case True
  then show ?thesis by (simp add: RemovePeer_run steady_def ident_def RemoveOutgoingTracks_def)
qed (simp add: RemovePeer_none)

lemma steady_RemoveSession: "steady w (RemoveSession r s w)"
  using steady_RemovePeer by (auto simp: RemoveSession_def steady_def Let_def split: option.split)

lemma RemovePeer_calls [simp]: "mw_calls (RemovePeer r uid i w) = mw_calls w"
proof -
  have "mw_calls (fold (\<lambda>i. upd_session i f) is v) = mw_calls v" for f "is" v
    by (induction "is" arbitrary: v) (simp_all add: upd_session_def)
  then show ?thesis by (simp add: RemovePeer_def Let_def upd_room_def)
qed

lemma RemoveSession_calls [simp]: "mw_calls (RemoveSession r s w) = mw_calls w"
  by (simp add: RemoveSession_def Let_def split: option.split)

lemma or_remove_calls [simp]: "mw_calls (snd (or_remove r i p)) = mw_calls (snd p)"
  by (simp add: or_remove_def)

lemma steady_or_remove: "steady w (snd p) \<Longrightarrow> steady w (snd (or_remove r i p))"
  using steady_trans [OF _ steady_RemoveSession] by (simp add: or_remove_def)

lemma steady_upd: "(\<And>s. ident (f s) = ident s) \<Longrightarrow> steady w (upd_session i f w)"
  by (simp add: steady_def upd_session_def)

lemma steady_add_binding: "steady w (add_binding lb r b w)"
proof -
  have "steady w (snd (AddOutgoingTrack lb i uid p t ssrc w))" for i uid p t ssrc
    by (cases rule: AddOutgoingTrack_cases [of lb i uid p t ssrc w])
      (auto intro!: steady_upd elim!: steady_trans [OF steady_calm] intro: steady_calm simp: ident_def Let_def)
  then show ?thesis
    using steady_trans [OF _ steady_RemovePeer] by (simp add: add_binding_def Let_def case_prod_beta)
qed

lemma steady_negotiate: "steady w (negotiate lb r i w)"
  using steady_calm [OF calm_RequestRenegotiation [of w lb i]] steady_trans [OF _ steady_RemovePeer]
  by (simp add: negotiate_def Let_def case_prod_beta)

lemma steady_fold: "(\<And>x w. steady w (f x w)) \<Longrightarrow> steady w (fold f xs w)"
proof (induction xs arbitrary: w)
  case (Cons x xs)
  then show ?case using steady_trans [OF Cons.prems [of w x] Cons.IH] by simp
qed simp

lemma steady_Register: "steady w (RegisterPublisherTrack lb r uid t w)"
proof -
  have "steady w (upd_room r f w)" for f by (simp add: steady_def upd_room_def)
  moreover have "steady w (fold (negotiate lb r) ss (fold (add_binding lb r) bs (upd_room r f w)))" for ss bs f
    by (rule steady_trans [OF steady_trans [OF calculation steady_fold [where f = "add_binding lb r", OF steady_add_binding]]
          steady_fold [where f = "negotiate lb r", OF steady_negotiate]])
  ultimately show ?thesis
    by (auto simp: RegisterPublisherTrack_def Let_def simp del: fold_append split: option.split)
qed

lemma enter_fold: "upd_room r (AddPeer ((MediaPeer_new m uid)\<lparr>pe_session := Some i\<rparr>)) w = enter r m uid i w"
  by (simp add: enter_def)

lemma HandleOffer_cases:
  assumes "find_or_create_room (sr_meeting req) w = (r, w1)"
  obtains (own) i where "own_session conn req r w1 = Some i" "HandleOffer lb conn req w = or_remove r i (SetRemoteOffer lb i (sr_sdp req) w1)"
  | (created) w2 ok i w3 where
      "w2 = (if member_at_room r (sr_uid req) w1 \<noteq> None then RemovePeer r (sr_uid req) 0 w1 else w1)"
      "MediaSession_new lb (sr_meeting req) (sr_uid req) (sr_signal req) conn r w2 = (ok, i, w3)"
      "HandleOffer lb conn req w = (if ok then or_remove r i (SetRemoteOffer lb i (sr_sdp req) (enter r (sr_meeting req) (sr_uid req) i w3))
         else (False, RemoveSession r None w3))"
proof (cases "own_session conn req r w1")
  case (Some i)
  then show ?thesis using assms by (intro own) (simp_all add: HandleOffer_def)
next
  case None
  let ?w2 = "if member_at_room r (sr_uid req) w1 \<noteq> None then RemovePeer r (sr_uid req) 0 w1 else w1"
  obtain ok i w3 where n: "MediaSession_new lb (sr_meeting req) (sr_uid req) (sr_signal req) conn r ?w2 = (ok, i, w3)"
    by (metis surj_pair)
  have "HandleOffer lb conn req w = (if ok then or_remove r i (SetRemoteOffer lb i (sr_sdp req) (enter r (sr_meeting req) (sr_uid req) i w3))
         else (False, RemoveSession r None w3))"
    using assms None n by (simp add: HandleOffer_def member_at_room_def enter_fold Let_def)
  then show ?thesis using n by (intro created) simp_all
qed

lemma steady_enter: "steady w (enter r m uid i w)"
  by (simp add: steady_def enter_views)

lemma grows_HandleOffer: "grows w (snd (HandleOffer lb conn req w))"
proof -
  obtain r w1 where f: "find_or_create_room (sr_meeting req) w = (r, w1)" by (metis surj_pair)
  then have c1: "steady w w1" by (auto simp: find_or_create_room_def steady_def Let_def split: option.splits)
  have offer: "steady v (snd (or_remove r i (SetRemoteOffer lb i (sr_sdp req) v)))" for i v
    by (rule steady_or_remove [OF steady_calm [OF calm_SetRemoteOffer]])
  show ?thesis
  proof (rule HandleOffer_cases [OF f, of conn lb], goal_cases own created)
    case (own i)
    then show ?thesis using grows_steady [OF steady_trans [OF c1 offer]] by simp
  next
    case (created w2 ok i w3)
    have "steady w w2" using created(1) steady_trans [OF c1 steady_RemovePeer] c1 by simp
    then have "grows w w3" by (rule grows_trans [OF grows_steady grows_new [OF created(2)]])
    from grows_trans [OF this grows_steady [OF steady_trans [OF steady_enter offer]]]
      grows_trans [OF this grows_steady [OF steady_RemoveSession]]
    show ?thesis using created(3) by simp
  qed
qed

lemma HandleOffer_inv:
  assumes "rooms_inv {} w" "few_calls (snd (HandleOffer lb conn req w))"
  shows "rooms_inv {} (snd (HandleOffer lb conn req w))"
proof -
  obtain r w1 where f: "find_or_create_room (sr_meeting req) w = (r, w1)" by (metis surj_pair)
  note fi = find_or_create_inv [OF assms(1) f]
  let ?m = "sr_meeting req" let ?uid = "sr_uid req"
  show ?thesis
  proof (rule HandleOffer_cases [OF f, of conn lb], goal_cases own created)
    case (own i)
    have "ro_peers (mw_room_objs w1 r) \<noteq> []" using own_session_member(4) [OF own(1)] .
    from or_remove_inv [OF fi(1,2) calm_SetRemoteOffer [of w1 lb i "sr_sdp req"] this, where i = i and ok = "fst (SetRemoteOffer lb i (sr_sdp req) w1)"]
    show ?thesis using own(2) by simp
  next
    case (created w2 ok i w3)
    note d1 = rooms_invD [OF fi(1,2)]
    have in2: "inside r w1 w2" "room_ok r w2" "mesh {} r w2"
      using created(1) RemovePeer_inside [OF d1(3)] RemovePeer_ok [OF d1(3)] d1(3,4) by auto
    have lists: "room_lists (mw_room_objs w1 r)" using d1(3) by (simp add: room_ok_def)
    have none: "member_at_room r ?uid w2 = None"
      using created(1) RemovePeer_views(1) [OF _ lists, of 0 ?uid] by auto
    have i2: "rooms_inv {r} w2" using rooms_inv_inside [OF fi(1,2) in2] by simp
    have m2: "mw_rooms w2 ?m = Some r" "ro_meeting (mw_room_objs w2 r) = ?m"
      using in2(1) fi(2) d1(2) by (simp_all add: inside_def)
    have n2: "0 < unat (mw_next_session w2)" "unat (mw_next_session w2) \<le> Suc (length (mw_calls w2))"
      using i2 by (simp_all add: rooms_inv_def)
    have "length (mw_calls w3) \<le> length (mw_calls (snd (HandleOffer lb conn req w)))"
      using created(3) calm_SetRemoteOffer [of "enter r ?m ?uid i w3" lb i "sr_sdp req"] by (simp add: calm_def enter_views)
    then have "unat (mw_next_session w2) < 2 ^ 64 - 1"
      using n2(2) MediaSession_new_effect(3) [OF created(2)] assms(2) by (simp add: few_calls_def)
    note c = create_enter_inside [OF in2(2,3) none created(2) m2(2) n2(1) this]
    show ?thesis
    proof (cases ok)
      case True
      let ?e = "enter r ?m ?uid i w3"
      have "rooms_inv {r} ?e" using rooms_inv_inside [OF i2 m2(1) c(4-6)] by simp
      moreover have "mw_rooms ?e ?m = Some r" using c(4) m2(1) by (simp add: inside_def)
      ultimately have "rooms_inv ({r} - {r}) (snd (or_remove r i (fst (SetRemoteOffer lb i (sr_sdp req) ?e), snd (SetRemoteOffer lb i (sr_sdp req) ?e))))"
        by (rule or_remove_inv [OF _ _ calm_SetRemoteOffer enter_views(10)])
      then show ?thesis using created(3) True by simp
    next
      case False
      have "rooms_inv {r} w3" using rooms_inv_inside [OF i2 m2(1) c(1-3)] by simp
      moreover have "mw_rooms w3 ?m = Some r" using c(1) m2(1) by (simp add: inside_def)
      ultimately show ?thesis using RemoveSession_none [of r "{}" w3 ?m] created(3) False by simp
    qed
  qed
qed

lemma HandlePublisherTrackReady_inv:
  assumes "rooms_inv {} w"
  shows "rooms_inv {} (HandlePublisherTrackReady lb m uid i t w)"
proof -
  have "rooms_inv {} (RemoveSession r None (RegisterPublisherTrack lb r uid t w))" if r: "mw_rooms w m = Some r" for r
  proof -
    note d = rooms_invD [OF assms r]
    note k = RegisterPublisherTrack_ok [OF d(3,4), of lb uid t]
    have "rooms_inv {r} (RegisterPublisherTrack lb r uid t w)" using rooms_inv_inside [OF assms r] k by simp
    moreover have "mw_rooms (RegisterPublisherTrack lb r uid t w) m = Some r" using k r by (simp add: inside_def)
    ultimately show ?thesis by (rule RemoveSession_none)
  qed
  then show ?thesis using assms by (auto simp: HandlePublisherTrackReady_def split: option.split)
qed

lemma calm_upd_conn [simp]: "calm w (upd_conn c f w)"
  by (simp add: upd_conn_def)

lemma calm_HandleLocalMediaSignal: "calm w (HandleLocalMediaSignal lb conn i response w)"
  by (simp add: HandleLocalMediaSignal_def split: option.split)

text \<open>Removing members one by one: once the room is empty it has left the table and nothing
  more happens.\<close>

lemma RemoveSession_table:
  assumes "rooms_inv (insert r X) w" "mw_rooms w m = Some r"
  shows "mw_rooms (RemoveSession r (Some i) w) m = Some r \<or>
    ro_peers (mw_room_objs (RemoveSession r (Some i) w) r) = [] \<and> mw_rooms (RemoveSession r (Some i) w) m = None"
proof -
  let ?w1 = "RemovePeer r (md_uid (mw_sessions w i)) i w"
  note d = rooms_invD [OF assms]
  have "mw_rooms ?w1 m = Some r" "ro_meeting (mw_room_objs ?w1 r) = m"
    using RemovePeer_inside [OF d(3), of _ i] assms(2) d(2) by (simp_all add: inside_def)
  then show ?thesis unfolding RemoveSession_some by (auto simp: RemoveSession_def PeerCount_def Let_def)
qed

lemma RemoveSession_gone:
  assumes "rooms_inv X w" "ro_peers (mw_room_objs w r) = []" "\<And>m. mw_rooms w m \<noteq> Some r" "unat i \<noteq> 0"
  shows "RemoveSession r (Some i) w = w"
proof -
  have "i \<noteq> 0" using assms(4) by auto
  then have "RemovePeer r uid i w = w" for uid
    using assms(2) by (simp add: RemovePeer_def peer_session_def GetPeer_def)
  then show ?thesis using assms(2,3) by (simp add: RemoveSession_def PeerCount_def Let_def)
qed

lemma RemoveSession_all:
  assumes "rooms_inv {} w" "mw_rooms w m = Some r \<or> ro_peers (mw_room_objs w r) = [] \<and> (\<forall>m. mw_rooms w m \<noteq> Some r)"
    and "\<forall>i \<in> set is. unat i \<noteq> 0"
  shows "rooms_inv {} (fold (\<lambda>i. RemoveSession r (Some i)) is w) \<and>
    (mw_rooms (fold (\<lambda>i. RemoveSession r (Some i)) is w) m = Some r \<or>
     ro_peers (mw_room_objs (fold (\<lambda>i. RemoveSession r (Some i)) is w) r) = []
     \<and> (\<forall>m. mw_rooms (fold (\<lambda>i. RemoveSession r (Some i)) is w) m \<noteq> Some r))"
  using assms
proof (induction "is" arbitrary: w)
  case (Cons i "is")
  have i: "unat i \<noteq> 0" "\<forall>i \<in> set is. unat i \<noteq> 0" using Cons.prems(3) by simp_all
  show ?case
  proof (cases "mw_rooms w m = Some r")
    case True
    have inv: "rooms_inv {} (RemoveSession r (Some i) w)"
      by (rule RemoveSession_inv [OF rooms_inv_mono [OF Cons.prems(1)] True]) simp
    have "mw_rooms (RemoveSession r (Some i) w) m' \<noteq> Some r" if "mw_rooms (RemoveSession r (Some i) w) m = None" for m'
    proof
      assume "mw_rooms (RemoveSession r (Some i) w) m' = Some r"
      moreover have "ro_meeting (mw_room_objs (RemoveSession r (Some i) w) r) = m"
        using rooms_invD(2,3) [OF Cons.prems(1) True] RemovePeer_inside [of r w _ i]
        by (simp add: RemoveSession_def Let_def inside_def)
      ultimately show False using rooms_invD(2) [OF inv, of m' r] that by auto
    qed
    then show ?thesis
      using Cons.IH [OF inv _ i(2)] RemoveSession_table [OF rooms_inv_mono [OF Cons.prems(1)] True, of "{}" i] by auto
  next
    case False
    then have "ro_peers (mw_room_objs w r) = []" "\<And>m. mw_rooms w m \<noteq> Some r" using Cons.prems(2) by blast+
    then show ?thesis
      using Cons.IH [OF Cons.prems(1,2) i(2)] RemoveSession_gone [OF Cons.prems(1) _ _ i(1)] by simp
  qed
qed simp

lemma connection_sessions:
  assumes "room_ok r w"
  shows "i \<in> set (GetSessionsForConnection r conn w) \<longleftrightarrow>
    (\<exists>uid. member_at_room r uid w = Some i) \<and> GetSignalSession i w = Some conn"
  using assms room_sessions_iff [of "mw_room_objs w r" i]
  by (auto simp: GetSessionsForConnection_def member_at_room_def room_ok_def)

lemma HandleSignalDisconnected_inv:
  assumes "rooms_inv {} w"
  shows "rooms_inv {} (HandleSignalDisconnected m conn w)"
proof -
  have "rooms_inv {} (RemoveSession r None (fold (\<lambda>i. RemoveSession r (Some i)) (GetSessionsForConnection r conn w) w))"
    if r: "mw_rooms w m = Some r" for r
  proof -
    note d = rooms_invD [OF assms r]
    have "\<forall>i \<in> set (GetSessionsForConnection r conn w). unat i \<noteq> 0"
      using room_okD(1) [OF d(3)] connection_sessions [OF d(3)] by fastforce
    from RemoveSession_all [OF assms _ this, of m r] r
    have f: "rooms_inv {} (fold (\<lambda>i. RemoveSession r (Some i)) (GetSessionsForConnection r conn w) w)"
      "mw_rooms (fold (\<lambda>i. RemoveSession r (Some i)) (GetSessionsForConnection r conn w) w) m = Some r \<or>
       ro_peers (mw_room_objs (fold (\<lambda>i. RemoveSession r (Some i)) (GetSessionsForConnection r conn w) w) r) = []
       \<and> (\<forall>m. mw_rooms (fold (\<lambda>i. RemoveSession r (Some i)) (GetSessionsForConnection r conn w) w) m \<noteq> Some r)"
      by auto
    from f(2) show ?thesis
    proof
      assume "mw_rooms (fold (\<lambda>i. RemoveSession r (Some i)) (GetSessionsForConnection r conn w) w) m = Some r"
      then show ?thesis by (intro RemoveSession_none [OF rooms_inv_mono [OF f(1)]]) auto
    next
      assume "ro_peers (mw_room_objs (fold (\<lambda>i. RemoveSession r (Some i)) (GetSessionsForConnection r conn w) w) r) = []
       \<and> (\<forall>m. mw_rooms (fold (\<lambda>i. RemoveSession r (Some i)) (GetSessionsForConnection r conn w) w) m \<noteq> Some r)"
      then have "RemoveSession r None (fold (\<lambda>i. RemoveSession r (Some i)) (GetSessionsForConnection r conn w) w)
        = fold (\<lambda>i. RemoveSession r (Some i)) (GetSessionsForConnection r conn w) w"
        by (simp add: RemoveSession_def PeerCount_def Let_def)
      then show ?thesis using f(1) by simp
    qed
  qed
  then show ?thesis using assms by (auto simp: HandleSignalDisconnected_def split: option.split)
qed

section \<open>Every step\<close>

lemma HandleSignal_inv:
  assumes "rooms_inv {} w" "few_calls (snd (HandleSignal lb conn req w))"
  shows "rooms_inv {} (snd (HandleSignal lb conn req w))"
  using assms HandleAnswer_inv HandleCandidate_inv HandleLeave_inv HandleOffer_inv
  unfolding HandleSignal_def by (auto split: if_splits)

lemma HandleRoomEvent_inv:
  "rooms_inv {} w \<Longrightarrow> few_calls (HandleRoomEvent lb e w) \<Longrightarrow> rooms_inv {} (HandleRoomEvent lb e w)"
  by (cases e) (auto intro: HandleSignal_inv HandlePublisherTrackReady_inv HandleSignalDisconnected_inv
      rooms_inv_calm [OF _ calm_HandleLocalMediaSignal])

lemma grows_HandleSignal: "grows w (snd (HandleSignal lb conn req w))"
proof -
  have "steady w (snd (on_own_session conn req (\<lambda>r i w. or_remove r i (f i w)) w))"
    if "\<And>i. calm w (snd (f i w))" for f :: "u64 \<Rightarrow> media_world \<Rightarrow> bool \<times> media_world"
    using steady_or_remove [OF steady_calm [OF that]] by (simp add: on_own_session_def split: option.split)
  from this [of "\<lambda>i. SetRemoteAnswer lb i (sr_sdp req)"] this [of "\<lambda>i. AddRemoteCandidate lb i (sr_candidate req) (sr_mid req)"]
  have "steady w (snd (HandleAnswer lb conn req w))" "steady w (snd (HandleCandidate lb conn req w))"
    by (simp_all add: HandleAnswer_def HandleCandidate_def calm_SetRemoteAnswer calm_AddRemoteCandidate)
  moreover have "steady w (snd (HandleLeave conn req w))"
    by (simp add: HandleLeave_def on_own_session_def steady_RemoveSession split: option.split)
  moreover have "steady w w" by simp
  ultimately show ?thesis
    unfolding HandleSignal_def by (auto intro: grows_HandleOffer grows_steady)
qed

lemma grows_HandleRoomEvent: "grows w (HandleRoomEvent lb e w)"
proof (cases e)
  case (MediaSignalTask conn req)
  then show ?thesis by (simp add: grows_HandleSignal)
next
  case (PublisherTrackReady m uid i t)
  have "steady w (RemoveSession r None (RegisterPublisherTrack lb r uid t w))" for r
    by (rule steady_trans [OF steady_Register steady_RemoveSession])
  then have "steady w (HandleRoomEvent lb e w)"
    using PublisherTrackReady by (auto simp: HandlePublisherTrackReady_def split: option.split)
  then show ?thesis by (rule grows_steady)
next
  case (LocalMediaSignal conn i response)
  then show ?thesis by (simp add: grows_steady [OF steady_calm [OF calm_HandleLocalMediaSignal]])
next
  case (SignalDisconnected m conn)
  have "steady w (RemoveSession r None (fold (\<lambda>i. RemoveSession r (Some i)) is w))" for r "is"
    by (rule steady_trans [OF steady_fold [OF steady_RemoveSession] steady_RemoveSession])
  then have "steady w (HandleRoomEvent lb e w)"
    using SignalDisconnected by (auto simp: HandleSignalDisconnected_def split: option.split)
  then show ?thesis by (rule grows_steady)
qed

lemma run_worker_calm:
  obtains (idle) "run_worker lb k w = w"
  | (event) e v where "calm w (w\<lparr>mw_pool := v\<rparr>)" "calm (HandleRoomEvent lb e (w\<lparr>mw_pool := v\<rparr>)) (run_worker lb k w)"
proof (cases "if k < length (mw_pool w) then Take_task (mw_pool w ! k) else None")
  case (Some x)
  obtain m e v where "x = (m, e, v)" by (cases x)
  then show ?thesis using Some by (intro event [of "(mw_pool w)[k := v]" e]) (simp_all add: run_worker_def Let_def split: if_splits)
qed (use idle in \<open>simp add: run_worker_def\<close>)

lemma fold_post_calm: "calm w (fold (\<lambda>m. post_event lb m (f m)) ms w)"
proof (induction ms arbitrary: w)
  case (Cons m ms)
  then show ?case by (auto intro: calm_trans [OF calm_post])
qed simp

lemma media_step_cases:
  assumes "media_world_step lb w w'"
  obtains (calm) "calm w w'" | (worker) k where "w' = run_worker lb k w"
  using assms
proof cases
  case (mw_message conn message)
  have "calm w w'" unfolding mw_message PostMsgToQue_def
    by (auto split: option.split intro: calm_trans [OF calm_upd_conn calm_post])
  then show ?thesis by (rule calm)
next
  case (mw_lost conn)
  have "calm w w'" unfolding mw_lost PostSignalDisconnected_def by (auto split: option.split intro: fold_post_calm)
  then show ?thesis by (rule calm)
next
  case (mw_description i kind sdp)
  then show ?thesis by (intro calm) (simp add: OnLocalDescription_def)
next
  case (mw_candidate i candidate mid)
  then show ?thesis by (intro calm) (simp add: OnLocalCandidate_def)
next
  case (mw_conn cs)
  then show ?thesis by (intro calm) simp
qed (rule worker)

lemma grows_step: "media_world_step lb w w' \<Longrightarrow> grows w w'"
proof (erule media_step_cases)
  fix k assume w': "w' = run_worker lb k w"
  show "grows w w'"
  proof (cases rule: run_worker_calm [of lb k w])
    case (event e v)
    then show ?thesis unfolding w'
      by (rule grows_trans [OF grows_trans [OF grows_steady [OF steady_calm] grows_HandleRoomEvent] grows_steady [OF steady_calm]])
  qed (simp add: w' grows_steady)
qed (rule grows_steady [OF steady_calm])

lemma rooms_step_inv:
  assumes "rooms_inv {} w" "media_world_step lb w w'" "few_calls w'"
  shows "rooms_inv {} w'"
  using assms(2)
proof (cases rule: media_step_cases)
  case calm
  then show ?thesis by (rule rooms_inv_calm [OF assms(1)])
next
  case (worker k)
  show ?thesis
  proof (cases rule: run_worker_calm [of lb k w])
    case idle
    then show ?thesis using assms(1) worker by simp
  next
    case (event e v)
    have "few_calls (HandleRoomEvent lb e (w\<lparr>mw_pool := v\<rparr>))"
      using event(2) assms(3) worker by (simp add: few_calls_def calm_def)
    then show ?thesis
      unfolding worker using rooms_inv_calm [OF HandleRoomEvent_inv [OF rooms_inv_calm [OF assms(1) event(1)]] event(2)] by simp
  qed
qed

lemma media_reach_inv: "media_reach lb n w \<Longrightarrow> few_calls w \<Longrightarrow> rooms_inv {} w"
proof (induction rule: media_reach.induct)
  case (mr_start s r)
  then show ?case by (simp add: rooms_inv_def media_world_start_def)
next
  case (mr_step w w')
  have "few_calls w" using grows_calls [OF grows_step [OF mr_step.hyps(2)]] mr_step.prems by (simp add: few_calls_def)
  then show ?case using rooms_step_inv [OF mr_step.IH mr_step.hyps(2) mr_step.prems] by simp
qed

end
