(* ===== verification/MediaProps.thy ===== *)
theory MediaProps
  imports MediaWorld
begin

text \<open>
  What MediaServer promises about a meeting: the publishers subscribe to each other, a packet
  only reaches subscriptions of its present publisher, and the end of a control connection
  takes exactly its members out.
\<close>

section \<open>A concrete run\<close>

text \<open>Control connections 0 and 1 bring users 1 and 2 into meeting 5; the library accepts
  everything and finds both media in an offer.\<close>

definition demo_offer :: "int \<Rightarrow> json" where
  "demo_offer uid = JObject [(''signal_id'', JInt uid), (''meeting_id'', JInt 5), (''uid'', JInt uid),
     (''signal_type'', JString ''offer''), (''sdp'', JString ''x'')]"

definition demo_lib :: lib where
  "demo_lib = \<lparr>lb_ok = (\<lambda>_ _. True), lb_tracks = (\<lambda>_ _. [''video'', ''audio'']),
     lb_parse = map_of [(''A'', demo_offer 1), (''B'', demo_offer 2)], lb_styled = (\<lambda>_. ''{}''), lb_hash = (\<lambda>_. 0)\<rparr>"

definition demo_connections :: "media_world \<Rightarrow> media_world" where
  "demo_connections w = w\<lparr>mw_conns := [0 \<mapsto> ControlSession_new, 1 \<mapsto> ControlSession_new]\<rparr>"

definition demo_first :: media_world where
  "demo_first = media_world_start 1 (\<lparr>md_meeting = 0, md_uid = 0, md_signal = 0,
       md_connection = 0, md_room = 0, md_remote_offer = [], md_in_video = False, md_in_audio = False, md_out_video = [],
       md_out_audio = [], md_initial_answer = False, md_waiting = False, md_pending = False\<rparr>) (MediaRoom_new 0)"

definition demo_meeting :: "nat \<Rightarrow> media_world" where
  "demo_meeting n = (run_worker demo_lib 0 ^^ n)
     (PostMsgToQue demo_lib 1 ''B'' (PostMsgToQue demo_lib 0 ''A'' (demo_connections demo_first)))"

lemma demo_meeting_reach: "media_reach demo_lib 1 (demo_meeting n)"
proof (induction n)
  case 0
  have r: "media_reach demo_lib 1 (demo_connections demo_first)"
    unfolding demo_connections_def demo_first_def by (rule mr_step [OF mr_start mw_conn])
  show ?case unfolding demo_meeting_def funpow_0 by (rule mr_step [OF mr_step [OF r mw_message] mw_message])
next
  case (Suc n)
  then have "media_reach demo_lib 1 (run_worker demo_lib 0 (demo_meeting n))" by (rule mr_step [OF _ mw_worker])
  then show ?case by (simp add: demo_meeting_def)
qed

lemmas media_eval = PostMsgToQue_def ParseMediaSignalRequest_def request_head_def is_uint64_def is_int_def as_uint64_def as_int_def
  has_string_def conn_stopped_def post_event_def upd_conn_def RememberRoom_def IsStopped_def Post_def WorkerIndex_def worker_post_def
  RoomQueue_new_def RoomThreadPool_new_def Worker_new_def media_world_start_def ControlSession_new_def Let_def
  run_worker_def Take_task_def Task_done_def HandleSignal_def HandleOffer_def find_or_create_room_def own_session_def
  MediaRoom_new_def peer_session_def GetPeer_def MediaSession_new_def lib_do_def upd_session_def or_remove_def SetRemoteOffer_def
  remote_offer_tracks_def announce_tracks_def track_ready_def begin_pending_def upd_room_def AddPeer_def MediaPeer_new_def
  HandlePublisherTrackReady_def GetSignalSession_def RemoveSession_def PeerCount_def RegisterPublisherTrack_def
  add_publisher_def publishers_def tracks_to_members_def tracks_of_publishers_def both_tracks_def 
  add_binding_def AddOutgoingTrack_def out_tracks_def negotiate_def RequestRenegotiation_def

lemmas demo_media_eval = demo_meeting_def demo_connections_def demo_first_def demo_lib_def demo_offer_def numeral_2_eq_2


text \<open>Both offers have been handled.\<close>

definition demo_member_session :: "nat \<Rightarrow> (int \<times> out_track) list \<Rightarrow> (int \<times> out_track) list \<Rightarrow> bool \<Rightarrow> bool \<Rightarrow> media_session" where
  "demo_member_session n video audio w p = \<lparr>md_meeting = 5, md_uid = int n, md_signal = of_nat n,
     md_connection = n - 1, md_room = 0, md_remote_offer = ''x'', md_in_video = True, md_in_audio = True,
     md_out_video = video, md_out_audio = audio, md_initial_answer = True, md_waiting = w, md_pending = p\<rparr>"

definition demo_room :: "u32 \<Rightarrow> (int \<times> u32) list \<Rightarrow> (int \<times> u32) list \<Rightarrow> media_room" where
  "demo_room ssrc video audio = \<lparr>ro_meeting = 5, ro_next_ssrc = ssrc, ro_peers =
     [(1, \<lparr>pe_meeting = 5, pe_uid = 1, pe_session = Some 1\<rparr>), (2, \<lparr>pe_meeting = 5, pe_uid = 2, pe_session = Some 2\<rparr>)],
     ro_video = video, ro_audio = audio\<rparr>"

definition demo_world :: "(lib_call \<times> bool) list \<Rightarrow> media_session \<Rightarrow> media_session \<Rightarrow> media_room \<Rightarrow> media_room_event list
    \<Rightarrow> media_world" where
  "demo_world calls s t r es = demo_first\<lparr>
     mw_conns := [0 \<mapsto> ControlSession_new\<lparr>cs_meeting_ids := [5]\<rparr>, 1 \<mapsto> ControlSession_new\<lparr>cs_meeting_ids := [5]\<rparr>],
     mw_sessions := (mw_sessions demo_first)(1 := s, 2 := t), mw_next_session := 3,
     mw_room_objs := (mw_room_objs demo_first)(0 := r), mw_next_room := 1, mw_rooms := [5 \<mapsto> 0], mw_calls := calls,
     mw_pool := [\<lparr>rw_rooms = (if es = [] then Map.empty else [5 \<mapsto> \<lparr>rq_tasks = es, rq_scheduled = True\<rparr>]),
       rw_ready = (if es = [] then [] else [5]), rw_stopping = False, rw_running = None\<rparr>]\<rparr>"

definition demo_calls :: "(lib_call \<times> bool) list" where
  "demo_calls = map (\<lambda>c. (c, True)) [NewPeer 1, RemoteOffer 1 ''x'', LocalDescription 1,
     NewPeer 2, RemoteOffer 2 ''x'', LocalDescription 2]"

lemmas demo_world_eval = demo_world_def demo_member_session_def demo_room_def demo_calls_def

lemma demo_lib_fields: "lb_ok demo_lib cs c" "lb_tracks demo_lib cs c = [''video'', ''audio'']" "lb_hash demo_lib m = 0"
  by (simp_all add: demo_lib_def)

lemma demo_meeting_two:
  "demo_meeting 2 = demo_world demo_calls (demo_member_session 1 [] [] False False) (demo_member_session 2 [] [] False False) (demo_room 100000 [] [])
     [PublisherTrackReady 5 1 1 ''video'', PublisherTrackReady 5 1 1 ''audio'',
      PublisherTrackReady 5 2 2 ''video'', PublisherTrackReady 5 2 2 ''audio'']"
  by (simp add: demo_media_eval media_eval demo_world_eval)

definition demo_track :: "string \<Rightarrow> u32 \<Rightarrow> nat \<Rightarrow> int \<times> out_track" where
  "demo_track t ssrc n = (int n, \<lparr>ot_mid = track_mid t ssrc (int n), ot_ssrc = ssrc, ot_publisher = of_nat n\<rparr>)"

definition demo_tracks :: "u64 \<Rightarrow> u32 \<Rightarrow> nat \<Rightarrow> (lib_call \<times> bool) list" where
  "demo_tracks i ssrc n = [(AddTrack i (track_mid ''video'' ssrc (int n)) ssrc, True),
     (AddTrack i (track_mid ''audio'' (ssrc + 1) (int n)) (ssrc + 1), True), (LocalDescription i, True)]"

text \<open>The first member publishes both media, then the second.\<close>

lemma demo_meeting_four:
  "demo_meeting 4 = demo_world (demo_calls @ demo_tracks 2 100000 1) (demo_member_session 1 [] [] False False)
     (demo_member_session 2 [demo_track ''video'' 100000 1] [demo_track ''audio'' 100001 1] True False)
     (demo_room 100002 [(1, 100000)] [(1, 100001)])
     [PublisherTrackReady 5 2 2 ''video'', PublisherTrackReady 5 2 2 ''audio'']"
proof -
  have "demo_meeting 4 = run_worker demo_lib 0 (run_worker demo_lib 0 (demo_meeting 2))"
    by (simp add: demo_meeting_def eval_nat_numeral)
  also have "\<dots> = demo_world (demo_calls @ demo_tracks 2 100000 1) (demo_member_session 1 [] [] False False)
     (demo_member_session 2 [demo_track ''video'' 100000 1] [demo_track ''audio'' 100001 1] True False)
     (demo_room 100002 [(1, 100000)] [(1, 100001)])
     [PublisherTrackReady 5 2 2 ''video'', PublisherTrackReady 5 2 2 ''audio'']"
    unfolding demo_meeting_two
    by (simp add: demo_world_eval demo_track_def demo_tracks_def demo_lib_fields demo_first_def media_eval cong: let_weak_cong)
  finally show ?thesis .
qed

lemma demo_meeting_six:
  "demo_meeting 6 = demo_world (demo_calls @ demo_tracks 2 100000 1 @ demo_tracks 1 100002 2)
     (demo_member_session 1 [demo_track ''video'' 100002 2] [demo_track ''audio'' 100003 2] True False)
     (demo_member_session 2 [demo_track ''video'' 100000 1] [demo_track ''audio'' 100001 1] True True)
     (demo_room 100004 [(1, 100000), (2, 100002)] [(1, 100001), (2, 100003)]) []"
proof -
  have "demo_meeting 6 = run_worker demo_lib 0 (run_worker demo_lib 0 (demo_meeting 4))"
    by (simp add: demo_meeting_def eval_nat_numeral)
  also have "\<dots> = demo_world (demo_calls @ demo_tracks 2 100000 1 @ demo_tracks 1 100002 2)
     (demo_member_session 1 [demo_track ''video'' 100002 2] [demo_track ''audio'' 100003 2] True False)
     (demo_member_session 2 [demo_track ''video'' 100000 1] [demo_track ''audio'' 100001 1] True True)
     (demo_room 100004 [(1, 100000), (2, 100002)] [(1, 100001), (2, 100003)]) []"
    unfolding demo_meeting_four
    by (simp add: demo_world_eval demo_track_def demo_tracks_def demo_lib_fields demo_first_def media_eval cong: let_weak_cong)
  finally show ?thesis .
qed

section \<open>Publishers and subscribers\<close>

lemma reach_room:
  assumes "media_reach lb n w" "few_calls w" "mw_rooms w m = Some r"
  shows "room_ok r w" "mesh {} r w" "ro_meeting (mw_room_objs w r) = m"
  using rooms_invD [OF media_reach_inv [OF assms(1,2)] assms(3)] by simp_all

text \<open>C26: Full mesh.  In every state that a run of MediaServer reaches (with fewer than
  2^64 - 1 library calls, so that instance numbers are fresh), two different members of a
  meeting that have both published video and audio subscribe to each other: the session of
  the one has a track of the other for either medium, made for the other's present session
  and carrying the SSRC the room registered for it.\<close>

theorem media_full_mesh:
  assumes "media_reach lb n w" "few_calls w" "mw_rooms w m = Some r" "u \<noteq> v"
    and "\<forall>t. map_of (publishers t (mw_room_objs w r)) u \<noteq> None"
    and "\<forall>t. map_of (publishers t (mw_room_objs w r)) v = Some (ssrc t)"
  shows "\<exists>i j. peer_session u (mw_room_objs w r) = Some i \<and> peer_session v (mw_room_objs w r) = Some j
    \<and> md_uid (mw_sessions w i) = u \<and> md_meeting (mw_sessions w i) = m
    \<and> (\<forall>t. \<exists>track. map_of (out_tracks t (mw_sessions w i)) v = Some track \<and> ot_publisher track = j \<and> ot_ssrc track = ssrc t)"
proof -
  note k = reach_room [OF assms(1-3)]
  have p: "publisher_of r t w u \<noteq> None" "publisher_of r t w v = Some (ssrc t)" for t
    using assms(5,6) by (simp_all add: publisher_of_def)
  obtain x where "publisher_of r ''video'' w u = Some x" using p(1) [of "''video''"] by auto
  then obtain i where i: "member_at_room r u w = Some i" using room_ok_publisher [OF k(1)] by blast
  have b: "publishes_both r u w" "publishes_both r v w" using p by (simp_all add: publishes_both_def)
  have t: "tracks_of i t w v \<noteq> None" for t
    using k(2) assms(4) i b unfolding mesh_def by blast
  obtain j where j: "member_at_room r v w = Some j" using room_ok_publisher [OF k(1) p(2) [of "''video''"]] by blast
  have "\<exists>track. map_of (out_tracks t (mw_sessions w i)) v = Some track \<and> ot_publisher track = j \<and> ot_ssrc track = ssrc t" for t
    using t [of t] room_ok_track [OF k(1) i, of t v] j p(2) [of t] by (auto simp: tracks_of_def)
  then show ?thesis
    using i j room_okD(3,5) [OF k(1) i] k(3) by (auto simp: member_at_room_def)
qed

theorem media_full_mesh_witness:
  "\<exists>i j. peer_session 1 (mw_room_objs (demo_meeting 6) 0) = Some i \<and> peer_session 2 (mw_room_objs (demo_meeting 6) 0) = Some j
    \<and> md_uid (mw_sessions (demo_meeting 6) i) = 1 \<and> md_meeting (mw_sessions (demo_meeting 6) i) = 5
    \<and> (\<forall>t. \<exists>track. map_of (out_tracks t (mw_sessions (demo_meeting 6) i)) 2 = Some track \<and> ot_publisher track = j
        \<and> ot_ssrc track = (if t = ''video'' then 100002 else 100003))"
  by (rule media_full_mesh [OF demo_meeting_reach, where ssrc = "\<lambda>t. if t = ''video'' then 100002 else 100003"])
    (simp_all add: demo_meeting_six demo_world_eval demo_tracks_def few_calls_def publishers_def)





section \<open>The end of a control connection\<close>

text \<open>One removal, seen from the members.\<close>

lemma RemoveSession_members:
  assumes "room_lists (mw_room_objs w r)" "\<And>v. member_at_room r v w = Some i \<Longrightarrow> md_uid (mw_sessions w i) = v" "i \<noteq> 0"
  shows "member_at_room r v (RemoveSession r (Some i) w) = (if member_at_room r v w = Some i then None else member_at_room r v w)"
    and "r' \<noteq> r \<Longrightarrow> mw_room_objs (RemoveSession r (Some i) w) r' = mw_room_objs w r'"
    and "\<And>j. md_uid (mw_sessions (RemoveSession r (Some i) w) j) = md_uid (mw_sessions w j)"
    and "room_lists (mw_room_objs (RemoveSession r (Some i) w) r)"
    and "m' \<noteq> ro_meeting (mw_room_objs w r) \<Longrightarrow> mw_rooms (RemoveSession r (Some i) w) m' = mw_rooms w m'"
    and "ro_meeting (mw_room_objs (RemoveSession r (Some i) w) r) = ro_meeting (mw_room_objs w r)"
proof -
  let ?uid = "md_uid (mw_sessions w i)"
  let ?w1 = "RemovePeer r ?uid i w"
  have same: "member_at_room r' v (RemoveSession r (Some i) w) = member_at_room r' v ?w1"
    "mw_room_objs (RemoveSession r (Some i) w) = mw_room_objs ?w1"
    "mw_sessions (RemoveSession r (Some i) w) = mw_sessions ?w1" for r' v
    by (simp_all add: RemoveSession_def Let_def member_at_room_def)
  have "member_at_room r v ?w1 = (if member_at_room r v w = Some i then None else member_at_room r v w)
      \<and> (r' \<noteq> r \<longrightarrow> mw_room_objs ?w1 r' = mw_room_objs w r') \<and> (\<forall>j. md_uid (mw_sessions ?w1 j) = md_uid (mw_sessions w j))
      \<and> room_lists (mw_room_objs ?w1 r) \<and> ro_meeting (mw_room_objs ?w1 r) = ro_meeting (mw_room_objs w r)
      \<and> mw_rooms ?w1 = mw_rooms w"
  proof (cases "member_at_room r ?uid w = Some i")
    case True
    note v = RemovePeer_views [OF disjI2 [OF True] assms(1)]
    have "r' \<noteq> r \<Longrightarrow> mw_room_objs ?w1 r' = mw_room_objs w r'" "mw_rooms ?w1 = mw_rooms w"
      "ro_meeting (mw_room_objs ?w1 r) = ro_meeting (mw_room_objs w r)"
      using RemovePeer_run [of i r ?uid w] True by (simp_all add: without_lookup)
    moreover have u: "member_at_room r v w = Some i \<longleftrightarrow> v = ?uid" using True assms(2) by blast
    have "member_at_room r v ?w1 = (if member_at_room r v w = Some i then None else member_at_room r v w)"
      unfolding v(1) u by simp
    ultimately show ?thesis using v(4,9) by blast
  next
    case False
    then have "?w1 = w" using RemovePeer_none [OF assms(3)] by blast
    moreover have "member_at_room r v w \<noteq> Some i" using False assms(2) by blast
    ultimately show ?thesis using assms(1) by simp
  qed
  note f = this [THEN conjunct1] this [THEN conjunct2, THEN conjunct1, rule_format]
    this [THEN conjunct2, THEN conjunct2, THEN conjunct1, rule_format] this [THEN conjunct2, THEN conjunct2, THEN conjunct2]
  show "member_at_room r v (RemoveSession r (Some i) w) = (if member_at_room r v w = Some i then None else member_at_room r v w)"
    "r' \<noteq> r \<Longrightarrow> mw_room_objs (RemoveSession r (Some i) w) r' = mw_room_objs w r'"
    "\<And>j. md_uid (mw_sessions (RemoveSession r (Some i) w) j) = md_uid (mw_sessions w j)"
    "room_lists (mw_room_objs (RemoveSession r (Some i) w) r)"
    "ro_meeting (mw_room_objs (RemoveSession r (Some i) w) r) = ro_meeting (mw_room_objs w r)"
    unfolding same by (fact f(1), erule f(2), fact f(3), fact f(4) [THEN conjunct1], fact f(4) [THEN conjunct2, THEN conjunct1])
  show "mw_rooms (RemoveSession r (Some i) w) m' = mw_rooms w m'" if "m' \<noteq> ro_meeting (mw_room_objs w r)"
    using that f(4) by (auto simp: RemoveSession_def Let_def)
qed

lemma RemoveSessions_members:
  assumes "room_lists (mw_room_objs w r)" "\<And>i v. member_at_room r v w = Some i \<Longrightarrow> md_uid (mw_sessions w i) = v" "\<forall>i \<in> set is. i \<noteq> 0"
  shows "member_at_room r v (fold (\<lambda>i. RemoveSession r (Some i)) is w)
      = (case member_at_room r v w of None \<Rightarrow> None | Some i \<Rightarrow> if i \<in> set is then None else Some i)
    \<and> (r' \<noteq> r \<longrightarrow> mw_room_objs (fold (\<lambda>i. RemoveSession r (Some i)) is w) r' = mw_room_objs w r')
    \<and> (m' \<noteq> ro_meeting (mw_room_objs w r) \<longrightarrow> mw_rooms (fold (\<lambda>i. RemoveSession r (Some i)) is w) m' = mw_rooms w m')
    \<and> ro_meeting (mw_room_objs (fold (\<lambda>i. RemoveSession r (Some i)) is w) r) = ro_meeting (mw_room_objs w r)
    \<and> room_lists (mw_room_objs (fold (\<lambda>i. RemoveSession r (Some i)) is w) r)"
  using assms
proof (induction "is" arbitrary: w)
  case (Cons i "is")
  have i: "i \<noteq> 0" "\<forall>i \<in> set is. i \<noteq> 0" using Cons.prems(3) by simp_all
  note m = RemoveSession_members [OF Cons.prems(1) Cons.prems(2) [of _ i] i(1)]
  have "md_uid (mw_sessions (RemoveSession r (Some i) w) j) = v" if "member_at_room r v (RemoveSession r (Some i) w) = Some j" for j v
    using that Cons.prems(2) by (auto simp: m(1,3) split: if_splits)
  from Cons.IH [OF m(4) this i(2)] show ?case
    by (auto simp: m split: option.splits)
qed (simp split: option.split)

lemma RemoveSessions_table:
  "mw_rooms (fold (\<lambda>i. RemoveSession r (Some i)) is w) m = mw_rooms w m \<or>
   mw_rooms (fold (\<lambda>i. RemoveSession r (Some i)) is w) m = None"
proof (induction "is" arbitrary: w)
  case (Cons i "is")
  have "mw_rooms (RemovePeer r u i w) = mw_rooms w" for u
    by (cases "i = 0 \<or> member_at_room r u w = Some i") (simp_all add: RemovePeer_run RemovePeer_none)
  then have "mw_rooms (RemoveSession r (Some i) w) m = mw_rooms w m \<or> mw_rooms (RemoveSession r (Some i) w) m = None"
    by (auto simp: RemoveSession_def Let_def)
  then show ?case using Cons.IH [of "RemoveSession r (Some i) w"] by auto
qed simp

lemma no_members: "room_lists R \<Longrightarrow> ro_peers R = [] \<longleftrightarrow> (\<forall>v. peer_session v R = None)"
proof -
  assume l: "room_lists R"
  have "\<exists>v. peer_session v R \<noteq> None" if ne: "ro_peers R \<noteq> []"
  proof -
    obtain v p xs where "ro_peers R = (v, p) # xs" using ne by (cases "ro_peers R") auto
    then have "map_of (ro_peers R) v = Some p" by simp
    then show ?thesis using l by (auto simp: peer_session_def GetPeer_def room_lists_def intro!: exI [of _ v])
  qed
  then show ?thesis by (cases "ro_peers R = []") (auto simp: peer_session_def GetPeer_def)
qed

text \<open>A lost control connection is cleaned up exactly.  When the worker of a meeting
  handles the disconnection of a stopped connection, the members whose session was brought
  by that connection leave the room and every other member keeps its session; the room
  leaves the table if and only if nobody is left, and no other room changes.\<close>

theorem disconnect_clears_connection:
  assumes "media_reach lb n w" "few_calls w" "mw_conns w conn = Some s" "IsStopped s" "mw_rooms w m = Some r"
  shows "(\<forall>v. peer_session v (mw_room_objs (HandleSignalDisconnected m conn w) r) = (case peer_session v (mw_room_objs w r) of
         None \<Rightarrow> None
       | Some i \<Rightarrow> if GetSignalSession i w = Some conn then None else Some i))
    \<and> mw_rooms (HandleSignalDisconnected m conn w) = (mw_rooms w)(m :=
         if \<forall>v. peer_session v (mw_room_objs (HandleSignalDisconnected m conn w) r) = None then None else Some r)
    \<and> mw_room_objs (HandleSignalDisconnected m conn w) =
        (mw_room_objs w)(r := mw_room_objs (HandleSignalDisconnected m conn w) r)"
proof (intro conjI)
  let ?is = "GetSessionsForConnection r conn w"
  let ?w1 = "fold (\<lambda>i. RemoveSession r (Some i)) ?is w"
  let ?w' = "HandleSignalDisconnected m conn w"
  note inv = media_reach_inv [OF assms(1,2)]
  note k = reach_room [OF assms(1,2,5)]
  have lists: "room_lists (mw_room_objs w r)" using k(1) by (simp add: room_ok_def)
  have nz: "\<forall>i \<in> set ?is. i \<noteq> 0" "\<forall>i \<in> set ?is. unat i \<noteq> 0"
    using room_okD(1) [OF k(1)] connection_sessions [OF k(1)] by fastforce+
  note mem = RemoveSessions_members [OF lists room_okD(3) [OF k(1)] nz(1)]
  have w': "?w' = RemoveSession r None ?w1"
    using assms(3-5) by (simp add: HandleSignalDisconnected_def conn_stopped_def)
  have ro: "mw_room_objs ?w' = mw_room_objs ?w1" by (simp add: w' RemoveSession_def Let_def)
  have "member_at_room r v ?w1 = (case member_at_room r v w of None \<Rightarrow> None
      | Some i \<Rightarrow> if GetSignalSession i w = Some conn then None else Some i)" for v
    using mem [of v] connection_sessions [OF k(1)] by (auto split: option.split)
  then show "\<forall>v. peer_session v (mw_room_objs ?w' r) = (case peer_session v (mw_room_objs w r) of
         None \<Rightarrow> None
       | Some i \<Rightarrow> if GetSignalSession i w = Some conn then None else Some i)"
    by (simp add: ro member_at_room_def)
  show "mw_room_objs ?w' = (mw_room_objs w)(r := mw_room_objs ?w' r)" using mem by (auto simp: ro fun_eq_iff)
  have e: "(\<forall>v. peer_session v (mw_room_objs ?w' r) = None) \<longleftrightarrow> ro_peers (mw_room_objs ?w1 r) = []"
    using mem no_members [of "mw_room_objs ?w1 r"] by (simp add: ro)
  have t: "mw_rooms ?w1 m = Some r \<or> ro_peers (mw_room_objs ?w1 r) = [] \<and> (\<forall>m. mw_rooms ?w1 m \<noteq> Some r)"
    using RemoveSession_all [OF inv disjI1 [OF assms(5)] nz(2)] by blast
  have t2: "mw_rooms ?w1 m = Some r \<or> mw_rooms ?w1 m = None"
    using RemoveSessions_table [of r ?is w m] assms(5) by auto
  show "mw_rooms ?w' = (mw_rooms w)(m := if \<forall>v. peer_session v (mw_room_objs ?w' r) = None then None else Some r)"
  proof
    fix m'
    have rm: "ro_meeting (mw_room_objs ?w1 r) = m" using mem k(3) by simp
    show "mw_rooms ?w' m' = ((mw_rooms w)(m := if \<forall>v. peer_session v (mw_room_objs ?w' r) = None then None else Some r)) m'"
      using t t2 mem [where m' = m'] k(3) rm unfolding e by (auto simp: w' RemoveSession_def PeerCount_def Let_def)
  qed
qed

definition demo_lost :: media_world where
  "demo_lost = (demo_meeting 6)\<lparr>mw_conns := [0 \<mapsto> Control_Stop ControlSession_new, 1 \<mapsto> ControlSession_new]\<rparr>"

lemma demo_lost_reach: "media_reach demo_lib 1 demo_lost"
  unfolding demo_lost_def by (rule mr_step [OF demo_meeting_reach mw_conn])

theorem disconnect_clears_connection_witness:
  "(\<forall>v. peer_session v (mw_room_objs (HandleSignalDisconnected 5 0 demo_lost) 0) = (case peer_session v (mw_room_objs demo_lost 0) of
         None \<Rightarrow> None
       | Some i \<Rightarrow> if GetSignalSession i demo_lost = Some 0 then None else Some i))
    \<and> mw_rooms (HandleSignalDisconnected 5 0 demo_lost) = (mw_rooms demo_lost)(5 :=
         if \<forall>v. peer_session v (mw_room_objs (HandleSignalDisconnected 5 0 demo_lost) 0) = None then None else Some 0)
    \<and> mw_room_objs (HandleSignalDisconnected 5 0 demo_lost) =
        (mw_room_objs demo_lost)(0 := mw_room_objs (HandleSignalDisconnected 5 0 demo_lost) 0)"
  by (rule disconnect_clears_connection [OF demo_lost_reach, where s = "Control_Stop ControlSession_new"])
    (simp_all add: demo_lost_def demo_meeting_six demo_world_eval demo_tracks_def few_calls_def Control_Stop_def IsStopped_def)

end
