(* ===== verification/GateHttp.thy ===== *)
theory GateHttp
  imports RtcPrelude "HOL-Library.AList"
begin

text \<open>
  The HTTP side of GateServer (GateServer/src/net/HttpConnection.cpp): URL encoding, the
  parameters of a GET request, and the choice of a handler.  FromHex and UrlDecode stop the
  process on malformed input (assert, in the default Debug build): None.  The beast library
  reads requests and writes responses; m_get_params is an association list, its order being
  unspecified in the code.
\<close>

section \<open>URL encoding\<close>

definition ToHex :: "nat \<Rightarrow> char" where
  "ToHex x = char_of (if x > 9 then x + 55 else x + 48)"

definition FromHex :: "char \<Rightarrow> nat option" where
  "FromHex c = (let x = of_char c in
     if 65 \<le> x \<and> x \<le> 90 then Some (x - 65 + 10)
     else if 97 \<le> x \<and> x \<le> 122 then Some (x - 97 + 10)
     else if 48 \<le> x \<and> x \<le> 57 then Some (x - 48)
     else None)"

text \<open>isalnum in the C locale and the four unreserved marks.\<close>

definition is_unreserved :: "char \<Rightarrow> bool" where
  "is_unreserved c = (let x = of_char c :: nat in
     48 \<le> x \<and> x \<le> 57 \<or> 65 \<le> x \<and> x \<le> 90 \<or> 97 \<le> x \<and> x \<le> 122 \<or> c \<in> set ''-_.~'')"

definition encode_char :: "char \<Rightarrow> string" where
  "encode_char c =
     (if is_unreserved c then [c]
      else if c = CHR '' '' then ''+''
      else [CHR ''%'', ToHex (of_char c div 16), ToHex (of_char c mod 16)])"

definition UrlEncode :: "string \<Rightarrow> string" where
  "UrlEncode s = concat (map encode_char s)"

fun UrlDecode :: "string \<Rightarrow> string option" where
  "UrlDecode [] = Some []"
| "UrlDecode (c # s) =
     (if c = CHR ''+'' then map_option ((#) CHR '' '') (UrlDecode s)
      else if c = CHR ''%'' then
        (case s of
           h # l # rest \<Rightarrow> (case (FromHex h, FromHex l) of
               (Some high, Some low) \<Rightarrow> map_option ((#) (char_of (high * 16 + low))) (UrlDecode rest)
             | _ \<Rightarrow> None)
         | _ \<Rightarrow> None)
      else map_option ((#) c) (UrlDecode s))"

section \<open>Parameters\<close>

text \<open>The text before the first separator, and the text after it.\<close>

definition before :: "char \<Rightarrow> string \<Rightarrow> string" where
  "before sep s = takeWhile (\<lambda>c. c \<noteq> sep) s"

definition after :: "char \<Rightarrow> string \<Rightarrow> string" where
  "after sep s = tl (dropWhile (\<lambda>c. c \<noteq> sep) s)"

text \<open>One key=value pair; a pair without = is skipped.\<close>

definition add_param :: "string \<Rightarrow> (string \<times> string) list \<Rightarrow> (string \<times> string) list option" where
  "add_param pair params =
     (if CHR ''='' \<in> set pair
      then case (UrlDecode (before CHR ''='' pair), UrlDecode (after CHR ''='' pair)) of
          (Some key, Some val) \<Rightarrow> Some (AList.update key val params)
        | _ \<Rightarrow> None
      else Some params)"

lemma after_shorter: "sep \<in> set s \<Longrightarrow> length (after sep s) < length s"
proof -
  assume "sep \<in> set s"
  then have "dropWhile (\<lambda>c. c \<noteq> sep) s \<noteq> []" by (auto simp: dropWhile_eq_Nil_conv)
  then show ?thesis using length_dropWhile_le [of "\<lambda>c. c \<noteq> sep" s]
    by (cases "dropWhile (\<lambda>c. c \<noteq> sep) s") (auto simp: after_def)
qed

function parse_params :: "string \<Rightarrow> (string \<times> string) list \<Rightarrow> (string \<times> string) list option" where
  "parse_params query params =
     (if CHR ''&'' \<in> set query
      then case add_param (before CHR ''&'' query) params of
          None \<Rightarrow> None
        | Some params1 \<Rightarrow> parse_params (after CHR ''&'' query) params1
      else if query = [] then Some params
      else add_param query params)"
  by pat_completeness auto

termination by (relation "measure (length \<circ> fst)") (auto simp: after_shorter)

declare parse_params.simps [simp del]

text \<open>The path and the parameters of a GET request.\<close>

definition PreParseGetParam :: "string \<Rightarrow> (string \<times> (string \<times> string) list) option" where
  "PreParseGetParam uri =
     (if CHR ''?'' \<notin> set uri then Some (uri, [])
      else map_option (Pair (before CHR ''?'' uri)) (parse_params (after CHR ''?'' uri) []))"

section \<open>Requests\<close>

datatype http_method = HttpGet | HttpPost | HttpOther

text \<open>What a handler leaves: the body of the response, or an exception, which ends the
  request without a response.\<close>

datatype handler_reply = Body string | Threw

datatype http_answer = Aborted | Dropped | Unanswered | Response nat string string

definition not_found :: http_answer where
  "not_found = Response 404 ''text/plain'' (''url not found'' @ [CHR 0x0D, CHR 0x0A])"

text \<open>The registered handlers: a URL that is registered twice keeps its first handler.\<close>

definition RegisterUrl :: "string \<Rightarrow> 'h \<Rightarrow> (string \<times> 'h) list \<Rightarrow> (string \<times> 'h) list" where
  "RegisterUrl url handler hs = (if map_of hs url = None then hs @ [(url, handler)] else hs)"

definition answered :: "string \<Rightarrow> handler_reply \<Rightarrow> http_answer" where
  "answered ctype r = (case r of Body b \<Rightarrow> Response 200 ctype b | Threw \<Rightarrow> Dropped)"

definition HandleRequest ::
  "(string \<times> ((string \<times> string) list \<Rightarrow> 'w \<Rightarrow> handler_reply \<times> 'w)) list \<Rightarrow>
   (string \<times> (string \<Rightarrow> 'w \<Rightarrow> handler_reply \<times> 'w)) list \<Rightarrow>
   http_method \<Rightarrow> string \<Rightarrow> string \<Rightarrow> 'w \<Rightarrow> http_answer \<times> 'w" where
  "HandleRequest get_handlers post_handlers method target body w =
     (case method of
        HttpGet \<Rightarrow> (case PreParseGetParam target of
            None \<Rightarrow> (Aborted, w)
          | Some (url, params) \<Rightarrow> (case map_of get_handlers url of
                None \<Rightarrow> (not_found, w)
              | Some h \<Rightarrow> (case h params w of (r, w1) \<Rightarrow> (answered [] r, w1))))
      | HttpPost \<Rightarrow> (case map_of post_handlers target of
            None \<Rightarrow> (not_found, w)
          | Some h \<Rightarrow> (case h body w of (r, w1) \<Rightarrow> (answered ''text/json'' r, w1)))
      | HttpOther \<Rightarrow> (Unanswered, w))"

section \<open>Round trips\<close>

lemma FromHex_ToHex: "x < 16 \<Longrightarrow> FromHex (ToHex x) = Some x"
  by (auto simp: FromHex_def ToHex_def Let_def of_char_of)

lemma UrlDecode_plain: "c \<noteq> CHR ''+'' \<Longrightarrow> c \<noteq> CHR ''%'' \<Longrightarrow> UrlDecode (c # s) = map_option ((#) c) (UrlDecode s)"
  by simp

lemma unreserved_plain:
  assumes "is_unreserved c" shows "c \<notin> set ''+% &=?''"
  using assms by (auto simp: is_unreserved_def)

lemma decode_encode_char: "UrlDecode (encode_char c @ s) = map_option ((#) c) (UrlDecode s)"
proof (cases "is_unreserved c")
  case True
  then show ?thesis using unreserved_plain [OF True] by (simp add: encode_char_def)
next
  case False
  have "of_char c < (256 :: nat)" by simp
  then have "FromHex (ToHex (of_char c div 16)) = Some (of_char c div 16)"
    "FromHex (ToHex (of_char c mod 16)) = Some (of_char c mod 16)"
    by (simp_all add: FromHex_ToHex less_mult_imp_div_less)
  then show ?thesis using False by (simp add: encode_char_def)
qed

lemma decode_encode: "UrlDecode (UrlEncode s @ t) = map_option ((@) s) (UrlDecode t)"
  unfolding UrlEncode_def
  by (induction s) (simp_all add: decode_encode_char option.map_comp comp_def option.map_ident)

lemma ToHex_digit: "x < 16 \<Longrightarrow> ToHex x \<notin> set ''&=?''"
  by (auto simp: ToHex_def split: if_splits dest!: arg_cong [of _ _ "of_char :: char \<Rightarrow> nat"] simp: of_char_of)

lemma encode_char_separators: "c \<in> set (encode_char d) \<Longrightarrow> c \<notin> set ''&=?''"
proof -
  assume c: "c \<in> set (encode_char d)"
  have "of_char d < (256 :: nat)" by simp
  then have hex: "ToHex (of_char d div 16) \<notin> set ''&=?''" "ToHex (of_char d mod 16) \<notin> set ''&=?''"
    using ToHex_digit by (simp_all add: less_mult_imp_div_less)
  have "c = d \<and> is_unreserved d \<or> c = CHR ''+'' \<or> c = CHR ''%'' \<or> c = ToHex (of_char d div 16) \<or> c = ToHex (of_char d mod 16)"
    using c by (auto simp: encode_char_def split: if_splits)
  moreover have "d \<notin> set ''&=?''" if "is_unreserved d" using unreserved_plain [OF that] by simp
  moreover have "CHR ''+'' \<notin> set ''&=?''" "CHR ''%'' \<notin> set ''&=?''" by simp_all
  ultimately show ?thesis using hex by metis
qed

lemma encode_separators: "c \<in> set (UrlEncode s) \<Longrightarrow> c \<notin> set ''&=?''"
  unfolding UrlEncode_def using encode_char_separators by (induction s) fastforce+

lemma before_after [simp]:
  "sep \<notin> set s \<Longrightarrow> before sep (s @ sep # t) = s" "sep \<notin> set s \<Longrightarrow> after sep (s @ sep # t) = t"
  by (induction s) (auto simp: before_def after_def)

definition param_text :: "string \<times> string \<Rightarrow> string" where
  "param_text p = UrlEncode (fst p) @ ''='' @ UrlEncode (snd p)"

fun query_text :: "(string \<times> string) list \<Rightarrow> string" where
  "query_text [] = []"
| "query_text [p] = param_text p"
| "query_text (p # ps) = param_text p @ ''&'' @ query_text ps"

lemma add_param_text: "add_param (param_text p) params = Some (AList.update (fst p) (snd p) params)"
proof -
  have "UrlDecode (UrlEncode s) = Some s" for s using decode_encode [of s "[]"] by simp
  moreover have "CHR ''='' \<notin> set (UrlEncode (fst p))" using encode_separators by fastforce
  ultimately show ?thesis by (simp add: add_param_def param_text_def)
qed

lemma param_text_separators: "c \<in> set (param_text p) \<Longrightarrow> c \<noteq> CHR ''&'' \<and> c \<noteq> CHR ''?''"
  using encode_separators by (fastforce simp: param_text_def)

lemma parse_query_text: "parse_params (query_text ps) params = Some (fold (\<lambda>p. AList.update (fst p) (snd p)) ps params)"
proof (induction ps arbitrary: params rule: query_text.induct)
  case 1
  then show ?case by (simp add: parse_params.simps)
next
  case (2 p)
  have "CHR ''&'' \<notin> set (param_text p)" "param_text p \<noteq> []" using param_text_separators by (fastforce, simp add: param_text_def)
  then show ?case by (simp add: parse_params.simps add_param_text)
next
  case (3 p q ps)
  have "CHR ''&'' \<notin> set (param_text p)" using param_text_separators by fastforce
  then show ?case
    by (subst parse_params.simps) (simp add: add_param_text 3)
qed

text \<open>Parameters survive the way through a URL.  A path without a question mark, followed
  by the URL-encoded keys and values of a list of parameters, is taken apart into the same
  path and the same parameters (the last value of a key counts), for arbitrary bytes in keys
  and values.\<close>

theorem url_params_round_trip:
  assumes "CHR ''?'' \<notin> set path"
  shows "PreParseGetParam (path @ ''?'' @ query_text ps) = Some (path, fold (\<lambda>p. AList.update (fst p) (snd p)) ps [])"
  using assms by (simp add: PreParseGetParam_def parse_query_text)

theorem url_params_round_trip_witness:
  "PreParseGetParam (''/get_test'' @ ''?'' @ query_text [(''a b'', ''1&2''), (''c'', ''%'')])
    = Some (''/get_test'', fold (\<lambda>p. AList.update (fst p) (snd p)) [(''a b'', ''1&2''), (''c'', ''%'')] [])"
  by (rule url_params_round_trip) simp

text \<open>Malformed escapes stop the server.  A GET request for any path, registered or not,
  whose query holds a key=value pair with a percent sign that is not followed by two
  characters, ends the process.\<close>

theorem malformed_escape_aborts:
  assumes "CHR ''?'' \<notin> set path" "CHR ''='' \<notin> set key" "CHR ''&'' \<notin> set key" "UrlDecode key \<noteq> None"
  shows "HandleRequest gets posts HttpGet (path @ ''?'' @ key @ ''=%'') body w = (Aborted, w)"
proof -
  have "before CHR ''='' (key @ ''=%'') = key" "after CHR ''='' (key @ ''=%'') = ''%''"
    using assms(2) before_after [of "CHR ''=''" key "''%''"] by simp_all
  then have "add_param (key @ ''=%'') [] = None" using assms(4) by (auto simp: add_param_def split: option.split)
  then have "parse_params (key @ ''=%'') [] = None" using assms(3) by (simp add: parse_params.simps)
  moreover have "after CHR ''?'' (path @ ''?'' @ key @ ''=%'') = key @ ''=%''"
    using before_after(2) [OF assms(1), of "key @ ''=%''"] by simp
  ultimately have "PreParseGetParam (path @ ''?'' @ key @ ''=%'') = None" by (simp add: PreParseGetParam_def)
  then show ?thesis by (simp add: HandleRequest_def)
qed

theorem malformed_escape_aborts_witness:
  "HandleRequest [] [] HttpGet (''/x'' @ ''?'' @ ''a'' @ ''=%'') [] () = (Aborted, ())"
  by (rule malformed_escape_aborts) simp_all

end
