(* ===== verification/GateStore.thy ===== *)
theory GateStore
  imports MySqlStore RedisStore GateHttp "HOL-Library.State_Monad"
begin

text \<open>
  The stores of GateServer (GateServer/src/storage/MySqlMgr.cpp, RedisMgr.cpp).  Its
  RegisterUser, CheckPwd, UpdatePwd and GetUserInfo are those of MySqlStore, its Redis
  commands those of RedisStore: the code is the same in both servers.  The table of contacts
  is added here, with the clock of mysql_cfg for updated_at.  The pool of Redis connections
  answers IsConnected by whether a connection is idle at that moment: a parameter.
\<close>

section \<open>Contacts\<close>

record contact_row =
  ct_user :: int
  ct_contact :: int
  ct_relation :: nat
  ct_alias :: "string option"
  ct_remark :: "string option"
  ct_created_at :: int
  ct_updated_at :: int

record gate_db =
  gd_db :: db
  gd_contacts :: "contact_row list"

record contact_info =
  ci_uid :: int
  ci_username :: string
  ci_email :: string
  ci_display_name :: string
  ci_alias :: string
  ci_remark :: string
  ci_relation :: nat

definition on_db :: "(db \<Rightarrow> 'a \<times> db) \<Rightarrow> gate_db \<Rightarrow> 'a \<times> gate_db" where
  "on_db f d = (let (a, x) = f (gd_db d) in (a, d\<lparr>gd_db := x\<rparr>))"

text \<open>A statement on the table of contacts, with the failure script of the server.\<close>

definition contact_statement :: "(gate_db \<Rightarrow> (sql_error + 'a) \<times> gate_db) \<Rightarrow> gate_db \<Rightarrow> (sql_error + 'a) \<times> gate_db" where
  "contact_statement stmt d = (let d1 = d\<lparr>gd_db := pop_fault (gd_db d)\<rparr> in
     case next_fault (gd_db d) of
        NoFault \<Rightarrow> stmt d1
      | FailBefore \<Rightarrow> (Inl OtherSqlError, d1)
      | FailAfter \<Rightarrow> (Inl OtherSqlError, snd (stmt d1)))"

definition GetUserInfoByUid :: "mysql_cfg \<Rightarrow> int \<Rightarrow> gate_db \<Rightarrow> user_info option \<times> gate_db" where
  "GetUserInfoByUid cfg uid d =
     (if uid \<le> 0 then (None, d)
      else case on_db (query (find_user uid)) d of
        (Inr (Some u), d1) \<Rightarrow>
          (if ur_username u = [] \<or> ur_email u = [] then None
           else Some \<lparr>ui_uid = int (ur_id u), ui_username = ur_username u, ui_email = ur_email u\<rparr>, d1)
      | (_, d1) \<Rightarrow> (None, d1))"

definition contact_info_of :: "mysql_cfg \<Rightarrow> db \<Rightarrow> contact_row \<Rightarrow> contact_info option" where
  "contact_info_of cfg d c = (case find_user (ct_contact c) d of
       None \<Rightarrow> None
     | Some u \<Rightarrow> Some \<lparr>ci_uid = int (ur_id u), ci_username = ur_username u, ci_email = ur_email u,
         ci_display_name = display_name cfg u, ci_alias = text_of (ct_alias c), ci_remark = text_of (ct_remark c),
         ci_relation = ct_relation c\<rparr>)"

text \<open>ORDER BY updated_at DESC, created_at DESC.\<close>

definition contact_rows :: "mysql_cfg \<Rightarrow> int \<Rightarrow> gate_db \<Rightarrow> contact_info list" where
  "contact_rows cfg uid d = List.map_filter (contact_info_of cfg (gd_db d))
     (sort_key (\<lambda>c. (- ct_updated_at c, - ct_created_at c))
       (filter (\<lambda>c. ct_user c = uid \<and> ct_relation c = 1) (gd_contacts d)))"

definition GetContactListByUid :: "mysql_cfg \<Rightarrow> int \<Rightarrow> gate_db \<Rightarrow> contact_info list option \<times> gate_db" where
  "GetContactListByUid cfg uid d =
     (if uid \<le> 0 then (None, d)
      else case contact_statement (\<lambda>d. (Inr (contact_rows cfg uid d), d)) d of
        (Inl _, d1) \<Rightarrow> (None, d1)
      | (Inr cs, d1) \<Rightarrow> (Some cs, d1))"

definition same_contact :: "int \<Rightarrow> int \<Rightarrow> contact_row \<Rightarrow> bool" where
  "same_contact uid contact c \<longleftrightarrow> ct_user c = uid \<and> ct_contact c = contact"

text \<open>INSERT ... ON DUPLICATE KEY UPDATE relation_status = 1: the foreign keys ask for both
  users and the CHECK of the table for two of them; a row that already holds 1 keeps its
  updated_at.\<close>

definition upsert_contact :: "mysql_cfg \<Rightarrow> int \<Rightarrow> int \<Rightarrow> gate_db \<Rightarrow> (sql_error + unit) \<times> gate_db" where
  "upsert_contact cfg uid contact d =
     (if uid = contact then (Inl OtherSqlError, d)
      else if \<exists>c \<in> set (gd_contacts d). same_contact uid contact c
      then (Inr (), d\<lparr>gd_contacts := map (\<lambda>c.
          if same_contact uid contact c \<and> ct_relation c \<noteq> 1
          then c\<lparr>ct_relation := 1, ct_updated_at := my_now cfg\<rparr> else c) (gd_contacts d)\<rparr>)
      else if find_user uid (gd_db d) = None \<or> find_user contact (gd_db d) = None then (Inl OtherSqlError, d)
      else (Inr (), d\<lparr>gd_contacts := gd_contacts d @ [\<lparr>ct_user = uid, ct_contact = contact, ct_relation = 1,
          ct_alias = None, ct_remark = None, ct_created_at = my_now cfg, ct_updated_at = my_now cfg\<rparr>]\<rparr>))"

definition AddContact :: "mysql_cfg \<Rightarrow> int \<Rightarrow> int \<Rightarrow> gate_db \<Rightarrow> bool \<times> gate_db" where
  "AddContact cfg uid contact d =
     (if uid \<le> 0 \<or> contact \<le> 0 \<or> uid = contact then (False, d)
      else case contact_statement (upsert_contact cfg uid contact) d of
        (Inl _, d1) \<Rightarrow> (False, d1)
      | (Inr _, d1) \<Rightarrow> (True, d1))"

text \<open>The number of changed rows decides: a relation that is 0 already is not changed.\<close>

definition remove_contact :: "mysql_cfg \<Rightarrow> int \<Rightarrow> int \<Rightarrow> gate_db \<Rightarrow> (sql_error + nat) \<times> gate_db" where
  "remove_contact cfg uid contact d = (let hit = (\<lambda>c. same_contact uid contact c \<and> ct_relation c \<noteq> 0) in
     (Inr (length (filter hit (gd_contacts d))),
      d\<lparr>gd_contacts := map (\<lambda>c. if hit c then c\<lparr>ct_relation := 0, ct_updated_at := my_now cfg\<rparr> else c) (gd_contacts d)\<rparr>))"

definition DeleteContact :: "mysql_cfg \<Rightarrow> int \<Rightarrow> int \<Rightarrow> gate_db \<Rightarrow> bool \<times> gate_db" where
  "DeleteContact cfg uid contact d =
     (if uid \<le> 0 \<or> contact \<le> 0 \<or> uid = contact then (False, d)
      else case contact_statement (remove_contact cfg uid contact) d of
        (Inl _, d1) \<Rightarrow> (False, d1)
      | (Inr n, d1) \<Rightarrow> (n > 0, d1))"

section \<open>The world of a request\<close>

text \<open>What the VarifyServer answers: its error and code, None when the call fails.\<close>

record 'r gate_env =
  ge_parse :: "string \<Rightarrow> json option"
  ge_styled :: "json \<Rightarrow> string"
  ge_real_text :: "rat \<Rightarrow> string"
  ge_redis :: "'r redis_srv"
  ge_mysql :: mysql_cfg
  ge_crypt :: "string \<Rightarrow> string \<Rightarrow> string option"
  ge_gensalt :: "string option"
  ge_random :: "u8 list option"
  ge_varify :: "string \<Rightarrow> 'r \<Rightarrow> (int \<times> string) option \<times> 'r"
  ge_connected :: "nat \<Rightarrow> bool"
  ge_host :: string
  ge_port :: string

record 'r gate_world =
  gw_redis :: 'r
  gw_db :: gate_db

type_synonym ('r, 'a) gate = "('r gate_world, 'a) state"

abbreviation gret :: "'a \<Rightarrow> ('r, 'a) gate" where "gret \<equiv> State_Monad.return"

definition gate_redis :: "('r \<Rightarrow> 'a \<times> 'r) \<Rightarrow> ('r, 'a) gate" where
  "gate_redis f = State (\<lambda>w. let (a, r) = f (gw_redis w) in (a, w\<lparr>gw_redis := r\<rparr>))"

definition gate_sql :: "(gate_db \<Rightarrow> 'a \<times> gate_db) \<Rightarrow> ('r, 'a) gate" where
  "gate_sql f = State (\<lambda>w. let (a, d) = f (gw_db w) in (a, w\<lparr>gw_db := d\<rparr>))"

end
