(* ===== verification/GateLogic.thy ===== *)
theory GateLogic
  imports GateStore LogicCommon
begin

text \<open>
  The business layer of GateServer (GateServer/src/service/LogicSystem.cpp): registration,
  login, password reset and contacts over HTTP.  A handler is a program of the state monad
  over the two stores that ends with the body of the response or with an exception of the
  JSON library (Threw), which the connection catches: the request stays without a response.
\<close>

section \<open>Constants\<close>

datatype gate_error_code = GATE_SUCCESS | GATE_ERROR_JSON | GATE_ERROR_REDIS | GATE_ERROR_MYSQL | GATE_ERROR_NETWORK
  | GATE_RPCFailed | GATE_ERROR_PASSWORD | GATE_ERROR_VARIFY_EXPIRED | GATE_ERROR_VARIFYCODE | GATE_ERROR_USER_EXIST
  | GATE_ERROR_PASSWORD_INVALID | GATE_ERROR_SESSION_INVALID

fun gate_code :: "gate_error_code \<Rightarrow> int" where
  "gate_code GATE_SUCCESS = 0" | "gate_code GATE_ERROR_JSON = 1" | "gate_code GATE_ERROR_REDIS = 2"
| "gate_code GATE_ERROR_MYSQL = 3" | "gate_code GATE_ERROR_NETWORK = 101" | "gate_code GATE_RPCFailed = 102"
| "gate_code GATE_ERROR_PASSWORD = 103" | "gate_code GATE_ERROR_VARIFY_EXPIRED = 1003"
| "gate_code GATE_ERROR_VARIFYCODE = 1004" | "gate_code GATE_ERROR_USER_EXIST = 1005"
| "gate_code GATE_ERROR_PASSWORD_INVALID = 1006" | "gate_code GATE_ERROR_SESSION_INVALID = 1007"

definition kTokenExpireSeconds :: int where "kTokenExpireSeconds = 7 * 24 * 60 * 60"
definition kSessionKeyPrefix :: string where "kSessionKeyPrefix = ''auth::session:''"

section \<open>Fields of a request\<close>

text \<open>value[key] of a value that is not const: None when it is neither null nor an object.\<close>

definition jindex :: "json \<Rightarrow> string \<Rightarrow> json option" where
  "jindex v k = (case v of JNull \<Rightarrow> Some JNull | JObject _ \<Rightarrow> Some (jget v k) | _ \<Rightarrow> None)"

text \<open>asString: arrays and objects throw, everything else has a text.\<close>

fun json_text :: "(rat \<Rightarrow> string) \<Rightarrow> json \<Rightarrow> string option" where
  "json_text f JNull = Some []"
| "json_text f (JBool b) = Some (if b then ''true'' else ''false'')"
| "json_text f (JInt i) = Some (int_to_string i)"
| "json_text f (JReal r) = Some (f r)"
| "json_text f (JString s) = Some s"
| "json_text f _ = None"

definition text_field :: "'r gate_env \<Rightarrow> json \<Rightarrow> string \<Rightarrow> string option" where
  "text_field en v k = Option.bind (jindex v k) (json_text (ge_real_text en))"

definition int_field :: "json \<Rightarrow> string \<Rightarrow> int option" where
  "int_field v k = Option.bind (jindex v k) as_int_conv"

section \<open>Passwords and sessions\<close>

definition Gate_HashPassword :: "'r gate_env \<Rightarrow> string \<Rightarrow> string" where
  "Gate_HashPassword en password = (case ge_gensalt en of
       None \<Rightarrow> []
     | Some setting \<Rightarrow> (case ge_crypt en (c_str password) setting of None \<Rightarrow> [] | Some h \<Rightarrow> h))"

definition VerifyPassword :: "'r gate_env \<Rightarrow> string \<Rightarrow> string \<Rightarrow> bool" where
  "VerifyPassword en password stored_hash =
     (if stored_hash = [] then False
      else ge_crypt en (c_str password) (c_str stored_hash) = Some stored_hash)"

text \<open>32 random bytes as hexadecimal digits; empty when the random source fails.\<close>

definition GenerateToken :: "'r gate_env \<Rightarrow> string" where
  "GenerateToken en = (case ge_random en of
       None \<Rightarrow> []
     | Some bs \<Rightarrow> concat (map (\<lambda>b. [hex_digit (unat b div 16), hex_digit (unat b mod 16)]) bs))"

definition session_value :: "'r gate_env \<Rightarrow> int \<Rightarrow> string \<Rightarrow> string" where
  "session_value en uid device = ge_styled en (jobj [(''uid'', JInt uid), (''device_id'', JString device)])"

definition SaveSession :: "'r gate_env \<Rightarrow> string \<Rightarrow> int \<Rightarrow> string \<Rightarrow> ('r, bool) gate" where
  "SaveSession en token uid device =
     (if token = [] \<or> uid \<le> 0 \<or> device = [] then gret False
      else gate_redis (Redis_Set (ge_redis en) (kSessionKeyPrefix @ token) (session_value en uid device) kTokenExpireSeconds))"

text \<open>None is an exception; otherwise the uid, which is valid when it is positive.\<close>

definition ValidateSession :: "'r gate_env \<Rightarrow> string \<Rightarrow> string \<Rightarrow> ('r, int option) gate" where
  "ValidateSession en token device =
     (if token = [] \<or> device = [] then gret (Some 0)
      else do {
        stored \<leftarrow> gate_redis (Redis_Get (ge_redis en) (kSessionKeyPrefix @ token));
        gret (case stored of
            None \<Rightarrow> Some 0
          | Some text \<Rightarrow> (case ge_parse en text of
                None \<Rightarrow> Some 0
              | Some session \<Rightarrow> (case text_field en session ''device_id'' of
                    None \<Rightarrow> None
                  | Some d \<Rightarrow> if d \<noteq> device then Some 0 else int_field session ''uid'')))
      })"

section \<open>Responses\<close>

definition reply_json :: "'r gate_env \<Rightarrow> (string \<times> json) list \<Rightarrow> ('r, handler_reply) gate" where
  "reply_json en kvs = gret (Body (ge_styled en (jobj kvs)))"

definition reply_error :: "'r gate_env \<Rightarrow> gate_error_code \<Rightarrow> ('r, handler_reply) gate" where
  "reply_error en e = reply_json en [(''error'', JInt (gate_code e))]"

definition threw :: "('r, handler_reply) gate" where
  "threw = gret Threw"

text \<open>The common start of the handlers: the body as JSON.\<close>

definition with_json :: "'r gate_env \<Rightarrow> string \<Rightarrow> (json \<Rightarrow> ('r, handler_reply) gate) \<Rightarrow> ('r, handler_reply) gate" where
  "with_json en body f = (case ge_parse en body of None \<Rightarrow> reply_error en GATE_ERROR_JSON | Some src \<Rightarrow> f src)"

text \<open>The common refusal of a session that does not hold.\<close>

definition session_refused :: "'r gate_env \<Rightarrow> nat \<Rightarrow> ('r, handler_reply) gate" where
  "session_refused en n = reply_error en (if ge_connected en n then GATE_ERROR_SESSION_INVALID else GATE_ERROR_REDIS)"

definition with_session :: "'r gate_env \<Rightarrow> json \<Rightarrow> (int \<Rightarrow> ('r, handler_reply) gate) \<Rightarrow> ('r, handler_reply) gate" where
  "with_session en src f = (case (text_field en src ''session_token'', text_field en src ''device_id'') of
       (Some token, Some device) \<Rightarrow> do {
         uid \<leftarrow> ValidateSession en token device;
         (case uid of None \<Rightarrow> threw | Some u \<Rightarrow> if u > 0 then f u else session_refused en 0)
       }
     | _ \<Rightarrow> threw)"

section \<open>Verification code, registration, reset\<close>

definition GetCode :: "'r gate_env \<Rightarrow> string \<Rightarrow> ('r, int \<times> string) gate" where
  "GetCode en email = do {
     r \<leftarrow> gate_redis (ge_varify en email);
     gret (case r of None \<Rightarrow> (gate_code GATE_RPCFailed, []) | Some reply \<Rightarrow> reply)
   }"

definition get_varifycode :: "'r gate_env \<Rightarrow> string \<Rightarrow> ('r, handler_reply) gate" where
  "get_varifycode en body = with_json en body (\<lambda>src.
     case text_field en src ''email'' of
       None \<Rightarrow> threw
     | Some email \<Rightarrow> do {
         response \<leftarrow> GetCode en email;
         reply_json en [(''error'', JInt (fst response)), (''email'', jget src ''email''), (''code'', JString (snd response))]
       })"

text \<open>The stored code of an address must be there and equal the given one.\<close>

definition with_code :: "'r gate_env \<Rightarrow> string \<Rightarrow> string \<Rightarrow> ('r, handler_reply) gate \<Rightarrow> ('r, handler_reply) gate" where
  "with_code en email vcode f = do {
     stored \<leftarrow> gate_redis (Redis_Get (ge_redis en) (''code_'' @ email));
     (case stored of
        None \<Rightarrow> reply_error en GATE_ERROR_VARIFY_EXPIRED
      | Some varify_code \<Rightarrow> if varify_code \<noteq> vcode then reply_error en GATE_ERROR_VARIFYCODE else f)
   }"

definition register_fields :: "'r gate_env \<Rightarrow> json \<Rightarrow> (string \<times> string \<times> string \<times> string \<times> string) option" where
  "register_fields en src = do {
     data \<leftarrow> jindex src ''UserData'';
     username \<leftarrow> text_field en data ''username'';
     email \<leftarrow> text_field en data ''email'';
     password \<leftarrow> text_field en data ''password'';
     vcode \<leftarrow> text_field en src ''VarifyCode'';
     comfirm \<leftarrow> text_field en src ''Comfirm'';
     Some (username, email, password, vcode, comfirm)
   }"

definition register_user :: "'r gate_env \<Rightarrow> string \<Rightarrow> ('r, handler_reply) gate" where
  "register_user en body = with_json en body (\<lambda>src.
     case register_fields en src of
       None \<Rightarrow> threw
     | Some (username, email, password, vcode, comfirm) \<Rightarrow>
         if comfirm \<noteq> password then reply_error en GATE_ERROR_PASSWORD
         else with_code en email vcode (do {
           uid \<leftarrow> gate_sql (on_db (RegisterUser (ge_mysql en) username email (Gate_HashPassword en password)));
           if uid = -1 then reply_error en GATE_ERROR_MYSQL
           else if uid = 0 then reply_error en GATE_ERROR_USER_EXIST
           else reply_json en [(''error'', JInt (gate_code GATE_SUCCESS)), (''email'', JString email), (''uid'', JInt uid),
             (''username'', JString username)]
         }))"

definition reset_fields :: "'r gate_env \<Rightarrow> json \<Rightarrow> (string \<times> string \<times> string \<times> string) option" where
  "reset_fields en src = do {
     email \<leftarrow> text_field en src ''email'';
     vcode \<leftarrow> text_field en src ''VarifyCode'';
     password \<leftarrow> text_field en src ''password'';
     confirm \<leftarrow> text_field en src ''confirm'';
     Some (email, vcode, password, confirm)
   }"

definition reset_pwd :: "'r gate_env \<Rightarrow> string \<Rightarrow> ('r, handler_reply) gate" where
  "reset_pwd en body = with_json en body (\<lambda>src.
     case reset_fields en src of
       None \<Rightarrow> threw
     | Some (email, vcode, password, confirm) \<Rightarrow>
         if confirm \<noteq> password then reply_error en GATE_ERROR_PASSWORD
         else with_code en email vcode (do {
           ok \<leftarrow> gate_sql (on_db (UpdatePwd (ge_mysql en) email (Gate_HashPassword en password)));
           if \<not> ok then reply_error en GATE_ERROR_PASSWORD
           else reply_json en [(''error'', JInt (gate_code GATE_SUCCESS)), (''email'', JString email)]
         }))"

section \<open>Login\<close>

definition login_reply :: "'r gate_env \<Rightarrow> string \<Rightarrow> user_info \<Rightarrow> string \<Rightarrow> ('r, handler_reply) gate" where
  "login_reply en email u token = reply_json en [(''error'', JInt (gate_code GATE_SUCCESS)), (''email'', JString email),
     (''uid'', JInt (ui_uid u)), (''username'', JString (ui_username u)), (''session_token'', JString token),
     (''host'', JString (ge_host en)), (''port'', JString (ge_port en)), (''expires_in'', JInt kTokenExpireSeconds)]"

text \<open>With a session token: the session is renewed, the token stays.\<close>

definition login_session :: "'r gate_env \<Rightarrow> string \<Rightarrow> string \<Rightarrow> ('r, handler_reply) gate" where
  "login_session en device token =
     (if \<not> ge_connected en 0 then reply_error en GATE_ERROR_REDIS
      else do {
        uid \<leftarrow> ValidateSession en token device;
        (case uid of
           None \<Rightarrow> threw
         | Some u \<Rightarrow>
             if u \<le> 0 then session_refused en 1
             else do {
               info \<leftarrow> gate_sql (GetUserInfoByUid (ge_mysql en) u);
               (case info of
                  None \<Rightarrow> reply_error en GATE_ERROR_MYSQL
                | Some user \<Rightarrow> do {
                    saved \<leftarrow> SaveSession en token (ui_uid user) device;
                    if \<not> saved then reply_error en GATE_ERROR_REDIS
                    else login_reply en (ui_email user) user token
                  })
             })
      })"

text \<open>With account and password: a new token.\<close>

definition login_password :: "'r gate_env \<Rightarrow> string \<Rightarrow> string \<Rightarrow> string \<Rightarrow> ('r, handler_reply) gate" where
  "login_password en device email password =
     (if email = [] \<or> password = [] then reply_error en GATE_ERROR_JSON
      else do {
        hash \<leftarrow> gate_sql (on_db (CheckPwd (ge_mysql en) email));
        (case hash of
           None \<Rightarrow> reply_error en GATE_ERROR_MYSQL
         | Some password_hash \<Rightarrow>
             if \<not> VerifyPassword en password password_hash then reply_error en GATE_ERROR_PASSWORD_INVALID
             else do {
               info \<leftarrow> gate_sql (on_db (GetUserInfo (ge_mysql en) email));
               (case info of
                  None \<Rightarrow> reply_error en GATE_ERROR_MYSQL
                | Some user \<Rightarrow>
                    if ui_uid user \<le> 0 \<or> ui_username user = [] then reply_error en GATE_ERROR_MYSQL
                    else do {
                      saved \<leftarrow> SaveSession en (GenerateToken en) (ui_uid user) device;
                      if GenerateToken en = [] \<or> \<not> saved then reply_error en GATE_ERROR_REDIS
                      else login_reply en email user (GenerateToken en)
                    })
             })
      })"

definition login_user :: "'r gate_env \<Rightarrow> string \<Rightarrow> ('r, handler_reply) gate" where
  "login_user en body = with_json en body (\<lambda>src.
     case text_field en src ''device_id'' of
       None \<Rightarrow> threw
     | Some device \<Rightarrow>
         if device = [] then reply_error en GATE_ERROR_JSON
         else if is_member src ''session_token'' then
           (case text_field en src ''session_token'' of
              None \<Rightarrow> threw
            | Some token \<Rightarrow> login_session en device token)
         else (case (text_field en src ''account'', text_field en src ''password'') of
             (Some email, Some password) \<Rightarrow> login_password en device email password
           | _ \<Rightarrow> threw))"

section \<open>Contacts\<close>

definition presence_of :: "'r gate_env \<Rightarrow> int \<Rightarrow> ('r, string) gate" where
  "presence_of en uid = do {
     status \<leftarrow> gate_redis (HGet (ge_redis en) (''presence:'' @ int_to_string uid) ''status'');
     meeting_id \<leftarrow> gate_redis (HGet (ge_redis en) (''presence:'' @ int_to_string uid) ''meeting_id'');
     gret (if meeting_id \<noteq> [] then ''in_meeting'' else if status = [] then ''offline'' else status)
   }"

definition contact_json :: "contact_info \<Rightarrow> string \<Rightarrow> json" where
  "contact_json c status = jobj [(''uid'', JInt (ci_uid c)), (''username'', JString (ci_username c)),
     (''email'', JString (ci_email c)), (''display_name'', JString (ci_display_name c)), (''alias'', JString (ci_alias c)),
     (''remark'', JString (ci_remark c)), (''relation_status'', JInt (int (ci_relation c))), (''status'', JString status)]"

fun contacts_json :: "'r gate_env \<Rightarrow> contact_info list \<Rightarrow> ('r, json list) gate" where
  "contacts_json en [] = gret []"
| "contacts_json en (c # cs) = do {
     status \<leftarrow> presence_of en (ci_uid c);
     rest \<leftarrow> contacts_json en cs;
     gret (contact_json c status # rest)
   }"

definition get_contacts :: "'r gate_env \<Rightarrow> string \<Rightarrow> ('r, handler_reply) gate" where
  "get_contacts en body = with_json en body (\<lambda>src. with_session en src (\<lambda>uid.
     if \<not> ge_connected en 1 then reply_error en GATE_ERROR_REDIS
     else do {
       contacts \<leftarrow> gate_sql (GetContactListByUid (ge_mysql en) uid);
       (case contacts of
          None \<Rightarrow> reply_error en GATE_ERROR_MYSQL
        | Some cs \<Rightarrow> do {
            items \<leftarrow> contacts_json en cs;
            reply_json en [(''error'', JInt (gate_code GATE_SUCCESS)), (''contacts'', JArray items),
              (''count'', JInt (int (length cs)))]
          })
     }))"

definition search_contacts :: "'r gate_env \<Rightarrow> string \<Rightarrow> ('r, handler_reply) gate" where
  "search_contacts en body = with_json en body (\<lambda>src. with_session en src (\<lambda>uid.
     case text_field en src ''keyword'' of
       None \<Rightarrow> threw
     | Some email \<Rightarrow>
         if email = [] then reply_error en GATE_ERROR_JSON
         else do {
           user \<leftarrow> gate_sql (on_db (GetUserInfo (ge_mysql en) email));
           (case user of
              None \<Rightarrow> reply_error en GATE_ERROR_MYSQL
            | Some u \<Rightarrow> reply_json en [(''error'', JInt (gate_code GATE_SUCCESS)), (''uid'', JInt (ui_uid u)),
                (''email'', JString (ui_email u)), (''username'', JString (ui_username u))])
         }))"

definition contact_uid_of :: "'r gate_env \<Rightarrow> json \<Rightarrow> (int \<Rightarrow> ('r, handler_reply) gate) \<Rightarrow> ('r, handler_reply) gate" where
  "contact_uid_of en src f = (case int_field src ''contact_uid'' of
       None \<Rightarrow> threw
     | Some c \<Rightarrow> if c < 0 then reply_error en GATE_ERROR_JSON else f c)"

definition add_contact :: "'r gate_env \<Rightarrow> string \<Rightarrow> ('r, handler_reply) gate" where
  "add_contact en body = with_json en body (\<lambda>src. contact_uid_of en src (\<lambda>contact. with_session en src (\<lambda>uid.
     if \<not> ge_connected en 1 then reply_error en GATE_ERROR_REDIS
     else do {
       added \<leftarrow> gate_sql (AddContact (ge_mysql en) uid contact);
       if \<not> added then reply_error en GATE_ERROR_MYSQL
       else do {
         user \<leftarrow> gate_sql (GetUserInfoByUid (ge_mysql en) contact);
         (case user of
            None \<Rightarrow> reply_error en GATE_ERROR_MYSQL
          | Some u \<Rightarrow> do {
              status \<leftarrow> presence_of en contact;
              reply_json en [(''error'', JInt (gate_code GATE_SUCCESS)), (''uid'', JInt (ui_uid u)),
                (''email'', JString (ui_email u)), (''username'', JString (ui_username u)), (''status'', JString status)]
            })
       }
     })))"

definition delete_contact :: "'r gate_env \<Rightarrow> string \<Rightarrow> ('r, handler_reply) gate" where
  "delete_contact en body = with_json en body (\<lambda>src. contact_uid_of en src (\<lambda>contact. with_session en src (\<lambda>uid. do {
     deleted \<leftarrow> gate_sql (DeleteContact (ge_mysql en) uid contact);
     if \<not> deleted then reply_error en GATE_ERROR_MYSQL
     else reply_json en [(''error'', JInt (gate_code GATE_SUCCESS)), (''contact_uid'', JInt contact)]
   })))"

section \<open>The table of handlers\<close>

text \<open>/get_test answers its parameters.\<close>

definition get_test :: "(string \<times> string) list \<Rightarrow> 'w \<Rightarrow> handler_reply \<times> 'w" where
  "get_test params w = (Body (''receive get_test request'' @ concat (map (\<lambda>(i, k, v).
     ''param'' @ to_string i @ '' key is '' @ k @ '', '' @ '' value is '' @ v @ [CHR 0x0A]) (enumerate 1 params))), w)"

definition get_handlers :: "(string \<times> ((string \<times> string) list \<Rightarrow> 'w \<Rightarrow> handler_reply \<times> 'w)) list" where
  "get_handlers = RegisterUrl ''/get_test'' get_test []"

definition post_handlers :: "'r gate_env \<Rightarrow> (string \<times> (string \<Rightarrow> 'r gate_world \<Rightarrow> handler_reply \<times> 'r gate_world)) list" where
  "post_handlers en = fold (\<lambda>(url, h). RegisterUrl url (\<lambda>body. run_state (h en body)))
     [(''/get_varifycode'', get_varifycode), (''/register_user'', register_user), (''/login_user'', login_user),
      (''/reset_pwd'', reset_pwd), (''/get_contacts'', get_contacts), (''/search_contacts'', search_contacts),
      (''/add_contact'', add_contact), (''/delete_contact'', delete_contact)] []"

definition Gate_HandleRequest :: "'r gate_env \<Rightarrow> http_method \<Rightarrow> string \<Rightarrow> string \<Rightarrow> 'r gate_world \<Rightarrow> http_answer \<times> 'r gate_world" where
  "Gate_HandleRequest en = HandleRequest get_handlers (post_handlers en)"

end
