(* ===== verification/GateProps.thy ===== *)
theory GateProps
  imports GateLogic
begin

text \<open>
  What GateServer promises of its tables: accounts and contacts stay consistent whatever is
  requested and whatever the database answers, and contacts change for their owner only.
\<close>

section \<open>What every request keeps\<close>

definition gate_keeps :: "(gate_db \<Rightarrow> bool) \<Rightarrow> ('r, 'a) gate \<Rightarrow> bool" where
  "gate_keeps J m \<longleftrightarrow> (\<forall>w. J (gw_db w) \<longrightarrow> J (gw_db (snd (run_state m w))))"

lemma gate_keeps_prims:
  "gate_keeps J (gret a)"
  "gate_keeps J (gate_redis f)"
  "(\<And>d. J d \<Longrightarrow> J (snd (g d))) \<Longrightarrow> gate_keeps J (gate_sql g)"
  by (simp_all add: gate_keeps_def State_Monad.return_def gate_redis_def gate_sql_def case_prod_beta)

lemma gate_keeps_bind: "gate_keeps J m \<Longrightarrow> (\<And>a. gate_keeps J (f a)) \<Longrightarrow> gate_keeps J (State_Monad.bind m f)"
  by (auto simp: gate_keeps_def State_Monad.bind_def case_prod_beta)

lemma gate_keeps_cases:
  "(b \<Longrightarrow> gate_keeps J m) \<Longrightarrow> (\<not> b \<Longrightarrow> gate_keeps J n) \<Longrightarrow> gate_keeps J (if b then m else n)"
  "gate_keeps J m \<Longrightarrow> (\<And>x. gate_keeps J (f x)) \<Longrightarrow> gate_keeps J (case v of None \<Rightarrow> m | Some x \<Rightarrow> f x)"
  "(\<And>a b. gate_keeps J (h a b)) \<Longrightarrow> gate_keeps J (case p of (a, b) \<Rightarrow> h a b)"
  by (auto split: option.split prod.split)

lemmas gate_keeps_intros = gate_keeps_bind gate_keeps_cases gate_keeps_prims(1,2)

text \<open>A property of the tables that the operations of the database keep is kept by every
  handler.  The clock may differ from one request to the next, the collation may not.\<close>

locale gate_tables =
  fixes coll :: "string \<Rightarrow> string" and J :: "gate_db \<Rightarrow> bool"
  assumes keeps_register: "my_coll cfg = coll \<Longrightarrow> J d \<Longrightarrow> J (snd (on_db (RegisterUser cfg name email hash) d))"
    and keeps_check: "my_coll cfg = coll \<Longrightarrow> J d \<Longrightarrow> J (snd (on_db (CheckPwd cfg email) d))"
    and keeps_update: "my_coll cfg = coll \<Longrightarrow> J d \<Longrightarrow> J (snd (on_db (UpdatePwd cfg email hash) d))"
    and keeps_info: "my_coll cfg = coll \<Longrightarrow> J d \<Longrightarrow> J (snd (on_db (GetUserInfo cfg email) d))"
    and keeps_info_uid: "my_coll cfg = coll \<Longrightarrow> J d \<Longrightarrow> J (snd (GetUserInfoByUid cfg uid d))"
    and keeps_list: "my_coll cfg = coll \<Longrightarrow> J d \<Longrightarrow> J (snd (GetContactListByUid cfg uid d))"
    and keeps_add: "my_coll cfg = coll \<Longrightarrow> J d \<Longrightarrow> J (snd (AddContact cfg uid contact d))"
    and keeps_delete: "my_coll cfg = coll \<Longrightarrow> J d \<Longrightarrow> J (snd (DeleteContact cfg uid contact d))"
begin

lemmas table_intros = keeps_register keeps_check keeps_update keeps_info keeps_info_uid keeps_list keeps_add keeps_delete

lemma keeps_replies: "gate_keeps J (reply_json en kvs)" "gate_keeps J (reply_error en e)" "gate_keeps J threw"
  by (simp_all add: reply_json_def reply_error_def threw_def gate_keeps_prims)

lemma keeps_sessions: "gate_keeps J (ValidateSession en token device)" "gate_keeps J (SaveSession en token uid device)"
  by (auto simp: ValidateSession_def SaveSession_def intro!: gate_keeps_intros)

lemma keeps_with:
  "(\<And>v. gate_keeps J (f v)) \<Longrightarrow> gate_keeps J (with_json en body f)"
  "(\<And>u. gate_keeps J (g u)) \<Longrightarrow> gate_keeps J (with_session en src g)"
  "(\<And>u. gate_keeps J (g u)) \<Longrightarrow> gate_keeps J (contact_uid_of en src g)"
  "gate_keeps J m \<Longrightarrow> gate_keeps J (with_code en email vcode m)"
  by (auto simp: with_json_def with_session_def contact_uid_of_def with_code_def session_refused_def
      intro!: gate_keeps_intros keeps_replies keeps_sessions split: option.split)

lemma keeps_presence: "gate_keeps J (presence_of en uid)" "gate_keeps J (contacts_json en cs)"
proof -
  show p: "gate_keeps J (presence_of en uid)" for uid
    by (auto simp: presence_of_def intro!: gate_keeps_intros)
  show "gate_keeps J (contacts_json en cs)" by (induction cs) (auto intro!: gate_keeps_intros p)
qed

lemmas keeps_all = gate_keeps_intros keeps_replies keeps_sessions keeps_with keeps_presence gate_keeps_prims(3) table_intros

lemma keeps_handlers:
  assumes "my_coll (ge_mysql en) = coll"
  shows "gate_keeps J (get_varifycode en body)" "gate_keeps J (register_user en body)" "gate_keeps J (reset_pwd en body)"
    "gate_keeps J (get_contacts en body)" "gate_keeps J (search_contacts en body)"
    "gate_keeps J (add_contact en body)" "gate_keeps J (delete_contact en body)"
  unfolding get_varifycode_def GetCode_def register_user_def reset_pwd_def get_contacts_def search_contacts_def
    add_contact_def delete_contact_def
  by (intro keeps_all assms; assumption)+

lemma keeps_login:
  assumes "my_coll (ge_mysql en) = coll" shows "gate_keeps J (login_user en body)"
  unfolding login_user_def login_session_def login_password_def login_reply_def session_refused_def
  by (intro keeps_all assms allI conjI; assumption?)

lemma request_keeps:
  assumes "my_coll (ge_mysql en) = coll" "J (gw_db w)"
  shows "J (gw_db (snd (Gate_HandleRequest en method target body w)))"
proof -
  have h: "J (gw_db (snd (h body w)))" if "(url, h) \<in> set (post_handlers en)" for url h
    using that keeps_handlers [OF assms(1)] keeps_login [OF assms(1)] assms(2)
    by (auto simp: post_handlers_def RegisterUrl_def gate_keeps_def)
  have g: "J (gw_db (snd (h ps w)))" if "(url, h) \<in> set get_handlers" for url h ps
    using that assms(2) by (auto simp: get_handlers_def RegisterUrl_def get_test_def)
  show ?thesis
    unfolding Gate_HandleRequest_def HandleRequest_def
    using assms(2) h g by (auto split: http_method.split option.split prod.split dest!: map_of_SomeD)
      (metis snd_conv)+
qed

end

section \<open>Accounts and contacts\<close>

definition users_ok :: "(string \<Rightarrow> string) \<Rightarrow> db \<Rightarrow> bool" where
  "users_ok coll d \<longleftrightarrow> distinct (map ur_id (db_users d)) \<and> distinct (map (\<lambda>u. coll (ur_email u)) (db_users d))
     \<and> distinct (map (\<lambda>u. coll (ur_username u)) (db_users d)) \<and> (\<forall>u \<in> set (db_users d). ur_id u < db_next_user d)"

definition contacts_ok :: "gate_db \<Rightarrow> bool" where
  "contacts_ok d \<longleftrightarrow> distinct (map (\<lambda>c. (ct_user c, ct_contact c)) (gd_contacts d))
     \<and> (\<forall>c \<in> set (gd_contacts d). ct_user c \<noteq> ct_contact c \<and> ct_relation c \<le> 1
         \<and> find_user (ct_user c) (gd_db d) \<noteq> None \<and> find_user (ct_contact c) (gd_db d) \<noteq> None)"

definition tables_ok :: "(string \<Rightarrow> string) \<Rightarrow> gate_db \<Rightarrow> bool" where
  "tables_ok coll d \<longleftrightarrow> users_ok coll (gd_db d) \<and> contacts_ok d"

text \<open>A change of the account tables keeps everybody.\<close>

definition keeps_users :: "db \<Rightarrow> db \<Rightarrow> bool" where
  "keeps_users d d' \<longleftrightarrow> (\<forall>uid. find_user uid d \<noteq> None \<longrightarrow> find_user uid d' \<noteq> None)"

lemma find_None: "find_user uid d = None \<longleftrightarrow> (\<forall>u \<in> set (db_users d). int (ur_id u) \<noteq> uid)"
  by (auto simp: find_user_def find_None_iff)

lemma keeps_users_ids: "ur_id ` set (db_users d) \<subseteq> ur_id ` set (db_users d') \<Longrightarrow> keeps_users d d'"
  unfolding keeps_users_def find_None by force

lemma tables_ok_db:
  assumes "tables_ok coll d" "users_ok coll x" "keeps_users (gd_db d) x"
  shows "tables_ok coll (d\<lparr>gd_db := x\<rparr>)"
  using assms by (fastforce simp: tables_ok_def contacts_ok_def keeps_users_def)

lemma users_ok_same: "db_users d' = db_users d \<Longrightarrow> db_next_user d \<le> db_next_user d' \<Longrightarrow> users_ok coll d \<Longrightarrow> users_ok coll d'"
  by (fastforce simp: users_ok_def)

lemma users_ok_pop [simp]: "users_ok coll (pop_fault d) = users_ok coll d" "find_user uid (pop_fault d) = find_user uid d"
  by (simp_all add: users_ok_def find_user_def)

text \<open>A statement keeps a property of the tables that its effect keeps.\<close>

lemma statement_keeps:
  assumes "P (pop_fault d)" "P (snd (stmt (pop_fault d)))" shows "P (snd (statement stmt d))"
  using assms by (simp add: statement_def split: fault.split)

lemma query_keeps: "P (pop_fault d) \<Longrightarrow> P (snd (query f d))"
  by (simp add: query_def statement_keeps)

definition grown :: "(string \<Rightarrow> string) \<Rightarrow> db \<Rightarrow> db \<Rightarrow> bool" where
  "grown coll d d' \<longleftrightarrow> users_ok coll d' \<and> keeps_users d d'"

lemma grown_refl: "users_ok coll d \<Longrightarrow> grown coll d d" "users_ok coll d \<Longrightarrow> grown coll d (pop_fault d)"
  by (simp_all add: grown_def keeps_users_def)

lemma grown_trans: "grown coll a b \<Longrightarrow> grown coll b c \<Longrightarrow> grown coll a c"
  by (auto simp: grown_def keeps_users_def)

lemma insert_user_grown: "users_ok (my_coll cfg) d \<Longrightarrow> grown (my_coll cfg) d (snd (insert_user cfg name email hash d))"
  by (auto simp: insert_user_def grown_def users_ok_def intro!: keeps_users_ids split: option.split)

lemma grown_statement:
  assumes "users_ok coll d" "\<And>d. users_ok coll d \<Longrightarrow> grown coll d (snd (stmt d))"
  shows "grown coll d (snd (statement stmt d))"
proof (rule statement_keeps)
  show p: "grown coll d (pop_fault d)" by (rule grown_refl(2) [OF assms(1)])
  have "users_ok coll (pop_fault d)" using assms(1) by simp
  from grown_trans [OF p assms(2) [OF this]] show "grown coll d (snd (stmt (pop_fault d)))" .
qed

lemma grown_query: "users_ok coll d \<Longrightarrow> grown coll d (snd (query f d))"
  by (simp add: query_keeps grown_refl)

lemma RegisterUser_grown:
  assumes "users_ok (my_coll cfg) d" shows "grown (my_coll cfg) d (snd (RegisterUser cfg name email hash d))"
proof -
  obtain r1 d1 where q: "query (find_user_by_email cfg email) d = (r1, d1)" by fastforce
  obtain r2 d2 where i: "statement (insert_user cfg name email hash) d1 = (r2, d2)" by fastforce
  have g1: "grown (my_coll cfg) d d1" using grown_query [OF assms] q by (metis snd_conv)
  then have g2: "grown (my_coll cfg) d1 d2"
    using grown_statement [of "my_coll cfg" d1 "insert_user cfg name email hash"] insert_user_grown i by (simp add: grown_def)
  have g3: "grown (my_coll cfg) d2 (snd (query f d2))" for f :: "db \<Rightarrow> nat" using g2 by (intro grown_query) (simp add: grown_def)
  show ?thesis
    using g1 g2 g3 grown_trans [OF g1 g2] grown_trans [OF grown_trans [OF g1 g2] g3]
    by (auto simp: RegisterUser_def q i split: sum.split option.split sql_error.split prod.split)
      (metis snd_conv)+
qed

lemma map_users_grown:
  assumes "users_ok coll d" "\<And>u. ur_id (f u) = ur_id u \<and> ur_email (f u) = ur_email u \<and> ur_username (f u) = ur_username u"
  shows "grown coll d (d\<lparr>db_users := map f (db_users d)\<rparr>)"
proof -
  have "keeps_users d (d\<lparr>db_users := map f (db_users d)\<rparr>)"
    by (rule keeps_users_ids) (simp add: image_image assms(2))
  moreover have "users_ok coll (d\<lparr>db_users := map f (db_users d)\<rparr>)"
    using assms by (simp add: users_ok_def comp_def)
  ultimately show ?thesis by (simp add: grown_def)
qed

lemma UpdatePwd_grown:
  assumes "users_ok (my_coll cfg) d" shows "grown (my_coll cfg) d (snd (UpdatePwd cfg email hash d))"
proof -
  have "snd (UpdatePwd cfg email hash d) = snd (statement (\<lambda>d. let hit = (\<lambda>u. my_coll cfg (ur_email u) = my_coll cfg email) in
          (Inr (length (filter (\<lambda>u. hit u \<and> ur_password_hash u \<noteq> hash) (db_users d))),
           d\<lparr>db_users := map (\<lambda>u. if hit u then u\<lparr>ur_password_hash := hash\<rparr> else u) (db_users d)\<rparr>)) d)"
    by (simp add: UpdatePwd_def split: prod.split sum.split)
  also have "grown (my_coll cfg) d \<dots>"
    by (rule grown_statement [OF assms]) (simp add: Let_def, rule map_users_grown, simp_all)
  finally show ?thesis .
qed

lemma on_db_run: "on_db f d = (fst (f (gd_db d)), d\<lparr>gd_db := snd (f (gd_db d))\<rparr>)"
  by (simp add: on_db_def case_prod_beta)

lemma CheckPwd_grown: "users_ok coll d \<Longrightarrow> grown coll d (snd (CheckPwd cfg email d))"
  using grown_query [of coll d "find_user_by_email cfg email"]
  by (auto simp: CheckPwd_def split: prod.split sum.split option.split)

lemma GetUserInfo_grown: "users_ok coll d \<Longrightarrow> grown coll d (snd (GetUserInfo cfg email d))"
  using grown_query [of coll d "find_user_by_email cfg email"]
  by (auto simp: GetUserInfo_def split: prod.split sum.split option.split)

lemma tables_ok_grown:
  assumes "tables_ok coll d" "grown coll (gd_db d) x" shows "tables_ok coll (d\<lparr>gd_db := x\<rparr>)"
  using assms tables_ok_db by (simp add: grown_def)

lemma contact_statement_keeps:
  assumes "P (d\<lparr>gd_db := pop_fault (gd_db d)\<rparr>)" "P (snd (stmt (d\<lparr>gd_db := pop_fault (gd_db d)\<rparr>)))"
  shows "P (snd (contact_statement stmt d))"
  using assms by (simp add: contact_statement_def Let_def split: fault.split)

lemma tables_ok_pop: "tables_ok coll d \<Longrightarrow> tables_ok coll (d\<lparr>gd_db := pop_fault (gd_db d)\<rparr>)"
  by (rule tables_ok_grown) (simp_all add: tables_ok_def grown_refl)

lemma contacts_ok_map:
  assumes "contacts_ok d" "\<And>c. ct_user (f c) = ct_user c" "\<And>c. ct_contact (f c) = ct_contact c" "\<And>c. ct_relation (f c) \<le> max 1 (ct_relation c)"
  shows "contacts_ok (d\<lparr>gd_contacts := map f (gd_contacts d)\<rparr>)"
  unfolding contacts_ok_def
proof (intro conjI ballI)
  show "distinct (map (\<lambda>c. (ct_user c, ct_contact c)) (gd_contacts (d\<lparr>gd_contacts := map f (gd_contacts d)\<rparr>)))"
    using assms by (simp add: contacts_ok_def comp_def)
  fix c assume "c \<in> set (gd_contacts (d\<lparr>gd_contacts := map f (gd_contacts d)\<rparr>))"
  then obtain b where b: "b \<in> set (gd_contacts d)" "c = f b" by auto
  then have "ct_relation b \<le> 1" "ct_user b \<noteq> ct_contact b" "find_user (ct_user b) (gd_db d) \<noteq> None"
    "find_user (ct_contact b) (gd_db d) \<noteq> None" using assms(1) by (simp_all add: contacts_ok_def)
  then show "ct_user c \<noteq> ct_contact c" "ct_relation c \<le> 1" "find_user (ct_user c) (gd_db (d\<lparr>gd_contacts := map f (gd_contacts d)\<rparr>)) \<noteq> None"
    "find_user (ct_contact c) (gd_db (d\<lparr>gd_contacts := map f (gd_contacts d)\<rparr>)) \<noteq> None"
    using assms(2,3) assms(4) [of b] b(2) by simp_all
qed

lemma upsert_contact_ok:
  assumes "tables_ok coll d" "uid \<noteq> contact" shows "tables_ok coll (snd (upsert_contact cfg uid contact d))"
  using assms by (auto simp: tables_ok_def upsert_contact_def same_contact_def intro!: contacts_ok_map)
    (auto simp: contacts_ok_def)

lemma remove_contact_ok: "tables_ok coll d \<Longrightarrow> tables_ok coll (snd (remove_contact cfg uid contact d))"
  by (auto simp: tables_ok_def remove_contact_def Let_def intro!: contacts_ok_map)

interpretation tab: gate_tables coll "tables_ok coll" for coll
proof (unfold_locales, goal_cases)
  case (1 cfg d name email hash)
  then show ?case by (auto simp: on_db_run intro!: tables_ok_grown RegisterUser_grown) (simp add: tables_ok_def)
next
  case (2 cfg d email)
  then show ?case by (auto simp: on_db_run intro!: tables_ok_grown CheckPwd_grown) (simp add: tables_ok_def)
next
  case (3 cfg d email hash)
  then show ?case by (auto simp: on_db_run intro!: tables_ok_grown UpdatePwd_grown) (simp add: tables_ok_def)
next
  case (4 cfg d email)
  then show ?case by (auto simp: on_db_run intro!: tables_ok_grown GetUserInfo_grown) (simp add: tables_ok_def)
next
  case (5 cfg d uid)
  then have "tables_ok coll (d\<lparr>gd_db := snd (query (find_user uid) (gd_db d))\<rparr>)"
    by (intro tables_ok_grown grown_query) (simp_all add: tables_ok_def)
  then show ?case using 5 by (auto simp: GetUserInfoByUid_def on_db_run split: sum.split option.split)
next
  case (6 cfg d uid)
  have "tables_ok coll (snd (contact_statement (\<lambda>d. (Inr (contact_rows cfg uid d), d)) d))"
    by (rule contact_statement_keeps) (simp_all add: tables_ok_pop 6)
  then show ?case using 6 by (auto simp: GetContactListByUid_def split: prod.split sum.split)
next
  case (7 cfg d uid contact)
  have "uid \<noteq> contact \<Longrightarrow> tables_ok coll (snd (contact_statement (upsert_contact cfg uid contact) d))"
    by (rule contact_statement_keeps) (simp_all add: tables_ok_pop upsert_contact_ok 7)
  then show ?case using 7 by (auto simp: AddContact_def split: prod.split sum.split)
next
  case (8 cfg d uid contact)
  have "tables_ok coll (snd (contact_statement (remove_contact cfg uid contact) d))"
    by (rule contact_statement_keeps) (simp_all add: tables_ok_pop remove_contact_ok 8)
  then show ?case using 8 by (auto simp: DeleteContact_def split: prod.split sum.split)
qed

text \<open>A server that answers one request after the other; the environment (clock, random bytes,
  what the other servers answer) may change in between.\<close>

fun gate_run :: "('r gate_env \<times> http_method \<times> string \<times> string) list \<Rightarrow> 'r gate_world \<Rightarrow> 'r gate_world" where
  "gate_run [] w = w"
| "gate_run ((en, method, target, body) # rs) w = gate_run rs (snd (Gate_HandleRequest en method target body w))"

text \<open>C30: Accounts stay sound.  From consistent tables, whatever requests GateServer handles
  and whichever statements fail or lose their answer, user ids, email addresses and user
  names stay unique (up to the collation of the columns), there is one contact row per pair of
  users, nobody is a contact of himself, and both users of a contact exist.\<close>

theorem accounts_stay_sound:
  assumes "tables_ok coll (gw_db w)" "\<forall>(en, r) \<in> set rs. my_coll (ge_mysql en) = coll"
  shows "tables_ok coll (gw_db (gate_run rs w))"
  using assms
proof (induction rs w rule: gate_run.induct)
  case (2 en m target body rs w)
  then show ?case using tab.request_keeps [of en coll w m target body] by auto
qed simp

section \<open>Contacts\<close>

text \<open>The contacts a user is shown.\<close>

definition listed :: "mysql_cfg \<Rightarrow> int \<Rightarrow> gate_db \<Rightarrow> int set" where
  "listed cfg v d = ci_uid ` set (contact_rows cfg v d)"

lemma find_user_id: "find_user uid d = Some u \<Longrightarrow> int (ur_id u) = uid"
  by (auto simp: find_user_def find_Some_iff)

lemma listed_iff:
  assumes "contacts_ok d"
  shows "j \<in> listed cfg v d \<longleftrightarrow> (\<exists>c \<in> set (gd_contacts d). ct_user c = v \<and> ct_contact c = j \<and> ct_relation c = 1)"
proof
  assume "j \<in> listed cfg v d"
  then obtain c i where c: "c \<in> set (gd_contacts d)" "ct_user c = v" "ct_relation c = 1"
      "contact_info_of cfg (gd_db d) c = Some i" "ci_uid i = j"
    by (auto simp: listed_def contact_rows_def List.map_filter_def)
  then show "\<exists>c \<in> set (gd_contacts d). ct_user c = v \<and> ct_contact c = j \<and> ct_relation c = 1"
    using find_user_id by (fastforce simp: contact_info_of_def split: option.splits)
next
  assume "\<exists>c \<in> set (gd_contacts d). ct_user c = v \<and> ct_contact c = j \<and> ct_relation c = 1"
  then obtain c where c: "c \<in> set (gd_contacts d)" "ct_user c = v" "ct_contact c = j" "ct_relation c = 1" by auto
  then obtain u where u: "find_user j (gd_db d) = Some u" using assms by (auto simp: contacts_ok_def)
  define i where "i = the (contact_info_of cfg (gd_db d) c)"
  have i: "contact_info_of cfg (gd_db d) c = Some i" "ci_uid i = j"
    using u c(3) find_user_id [OF u] by (auto simp: i_def contact_info_of_def)
  then have "i \<in> set (contact_rows cfg v d)"
    using c by (force simp: contact_rows_def List.map_filter_def)
  then show "j \<in> listed cfg v d" using i(2) by (auto simp: listed_def)
qed

lemma contact_statement_done:
  "contact_statement stmt d = (Inr a, d') \<Longrightarrow> stmt (d\<lparr>gd_db := pop_fault (gd_db d)\<rparr>) = (Inr a, d')"
  by (auto simp: contact_statement_def Let_def split: fault.splits)

text \<open>The active relations as a relation of user ids.\<close>

definition active :: "gate_db \<Rightarrow> int \<Rightarrow> int \<Rightarrow> bool" where
  "active d v j \<longleftrightarrow> (\<exists>c \<in> set (gd_contacts d). ct_user c = v \<and> ct_contact c = j \<and> ct_relation c = 1)"

lemma active_map: "active (d\<lparr>gd_contacts := map f (gd_contacts d)\<rparr>) v j \<longleftrightarrow>
    (\<exists>c \<in> set (gd_contacts d). ct_user (f c) = v \<and> ct_contact (f c) = j \<and> ct_relation (f c) = 1)"
  by (simp add: active_def)

lemma upsert_active:
  assumes "upsert_contact cfg uid contact d = (Inr (), d')"
  shows "active d' v j \<longleftrightarrow> active d v j \<or> v = uid \<and> j = contact"
proof (cases "\<exists>c \<in> set (gd_contacts d). same_contact uid contact c")
  case True
  then obtain c where "c \<in> set (gd_contacts d)" "same_contact uid contact c" by blast
  moreover have "d' = d\<lparr>gd_contacts := map (\<lambda>c. if same_contact uid contact c \<and> ct_relation c \<noteq> 1
      then c\<lparr>ct_relation := 1, ct_updated_at := my_now cfg\<rparr> else c) (gd_contacts d)\<rparr>"
    using assms True by (simp add: upsert_contact_def split: if_splits)
  ultimately show ?thesis by (auto simp: active_map) (auto simp: active_def same_contact_def)
next
  case False
  then show ?thesis using assms by (auto simp: upsert_contact_def active_def split: if_splits)
qed

lemma remove_active:
  assumes "remove_contact cfg uid contact d = (Inr n, d')"
  shows "active d' v j \<longleftrightarrow> active d v j \<and> \<not> (v = uid \<and> j = contact)"
proof -
  have d': "d' = d\<lparr>gd_contacts := map (\<lambda>c. if same_contact uid contact c \<and> ct_relation c \<noteq> 0
      then c\<lparr>ct_relation := 0, ct_updated_at := my_now cfg\<rparr> else c) (gd_contacts d)\<rparr>"
    using assms by (simp add: remove_contact_def Let_def)
  show ?thesis unfolding d' active_map by (auto simp: active_def same_contact_def)
qed

lemma remove_counts:
  assumes "remove_contact cfg uid contact d = (Inr n, d')" "n > 0" "contacts_ok d"
  shows "active d uid contact"
proof -
  have "n = length (filter (\<lambda>c. same_contact uid contact c \<and> ct_relation c \<noteq> 0) (gd_contacts d))"
    using assms(1) by (simp add: remove_contact_def Let_def)
  then obtain c where c: "c \<in> set (gd_contacts d)" "same_contact uid contact c" "ct_relation c \<noteq> 0"
    using assms(2) by (auto simp: filter_empty_conv)
  moreover have "ct_relation c \<le> 1" using assms(3) c(1) by (simp add: contacts_ok_def)
  ultimately show ?thesis by (auto simp: active_def same_contact_def)
qed

lemma AddContact_done:
  assumes "AddContact cfg uid contact d = (True, d')"
  shows "upsert_contact cfg uid contact (d\<lparr>gd_db := pop_fault (gd_db d)\<rparr>) = (Inr (), d')" "uid \<noteq> contact"
proof -
  obtain r d1 where r: "contact_statement (upsert_contact cfg uid contact) d = (r, d1)" by fastforce
  have g: "\<not> (uid \<le> 0 \<or> contact \<le> 0 \<or> uid = contact)" using assms by (cases "uid \<le> 0 \<or> contact \<le> 0 \<or> uid = contact") (simp_all add: AddContact_def)
  then show "uid \<noteq> contact" by simp
  have "r = Inr ()" "d1 = d'" using assms g r by (cases r; simp add: AddContact_def)+
  with r show "upsert_contact cfg uid contact (d\<lparr>gd_db := pop_fault (gd_db d)\<rparr>) = (Inr (), d')"
    by (simp add: contact_statement_done)
qed

lemma DeleteContact_done:
  assumes "DeleteContact cfg uid contact d = (True, d')"
  obtains n where "remove_contact cfg uid contact (d\<lparr>gd_db := pop_fault (gd_db d)\<rparr>) = (Inr n, d')" "n > 0"
proof -
  obtain r d1 where r: "contact_statement (remove_contact cfg uid contact) d = (r, d1)" by fastforce
  have g: "\<not> (uid \<le> 0 \<or> contact \<le> 0 \<or> uid = contact)" using assms by (cases "uid \<le> 0 \<or> contact \<le> 0 \<or> uid = contact") (simp_all add: DeleteContact_def)
  obtain n where "r = Inr n" "n > 0" "d1 = d'" using assms g r by (cases r) (simp_all add: DeleteContact_def)
  with r have "remove_contact cfg uid contact (d\<lparr>gd_db := pop_fault (gd_db d)\<rparr>) = (Inr n, d')" "n > 0"
    by (simp_all add: contact_statement_done)
  then show thesis by (rule that)
qed

text \<open>Contacts follow the requests of their owner.  An addition that reports success makes
  the user a contact of the owner, and a removal that reports success takes it out; the rest
  of the owner's list and the lists of everybody else, the contact's own included, stay as
  they are.\<close>

theorem contacts_follow_requests:
  assumes "tables_ok coll d"
  shows "(\<forall>d'. AddContact cfg uid contact d = (True, d') \<longrightarrow>
        listed cfg v d' = (if v = uid then insert contact (listed cfg v d) else listed cfg v d))
    \<and> (\<forall>d'. DeleteContact cfg uid contact d = (True, d') \<longrightarrow> contact \<in> listed cfg uid d \<and>
        listed cfg v d' = (if v = uid then listed cfg v d - {contact} else listed cfg v d))"
proof (intro conjI allI impI)
  let ?d = "d\<lparr>gd_db := pop_fault (gd_db d)\<rparr>"
  have ok: "tables_ok coll ?d" by (rule tables_ok_pop [OF assms])
  have l: "tables_ok coll x \<Longrightarrow> j \<in> listed cfg v x \<longleftrightarrow> active x v j" for x v j
    by (simp add: tables_ok_def listed_iff active_def)
  have pop: "active ?d = active d" by (simp add: active_def fun_eq_iff)
  {
    fix d' assume "AddContact cfg uid contact d = (True, d')"
    note a = AddContact_done [OF this]
    have "tables_ok coll d'" using upsert_contact_ok [OF ok a(2), of cfg] a(1) by simp
    then show "listed cfg v d' = (if v = uid then insert contact (listed cfg v d) else listed cfg v d)"
      using upsert_active [OF a(1)] by (auto simp: set_eq_iff l assms pop)
  next
    fix d' assume "DeleteContact cfg uid contact d = (True, d')"
    then obtain n where r: "remove_contact cfg uid contact ?d = (Inr n, d')" "n > 0" by (rule DeleteContact_done)
    have ok': "tables_ok coll d'" using remove_contact_ok [OF ok, of cfg uid contact] r(1) by simp
    show "contact \<in> listed cfg uid d" 
      using remove_counts [OF r] ok assms by (simp add: l [OF assms] pop) (simp add: tables_ok_def)
    show "listed cfg v d' = (if v = uid then listed cfg v d - {contact} else listed cfg v d)"
      using ok' remove_active [OF r(1)] by (auto simp: set_eq_iff l assms pop)
  }
qed

end
