(* ===== verification/GateAuth.thy ===== *)
theory GateAuth
  imports GateProps
begin

text \<open>
  Who GateServer lets in: a login takes the password or a session bound to the device, a
  session is read back as it was stored, a registered user can log in with the password of
  the registration, and the verification code reaches whoever asks for it.
\<close>

section \<open>Sessions and login\<close>

lemma gate_run_prims:
  "run_state (gret a) w = (a, w)"
  "run_state (State_Monad.bind m f) w = (case run_state m w of (a, w') \<Rightarrow> run_state (f a) w')"
  "run_state (gate_redis g) w = (fst (g (gw_redis w)), w\<lparr>gw_redis := snd (g (gw_redis w))\<rparr>)"
  "run_state (gate_sql h) w = (fst (h (gw_db w)), w\<lparr>gw_db := snd (h (gw_db w))\<rparr>)"
  by (simp_all add: State_Monad.return_def State_Monad.bind_def gate_redis_def gate_sql_def case_prod_beta)

lemma Redis_Get_view:
  assumes "redis_answers srv view"
  shows "fst (Redis_Get srv k r) = Some v \<Longrightarrow> rd_str (view r) k = Some v" "view (snd (Redis_Get srv k r)) = view r"
proof -
  obtain rep r' where s: "srv (Call (CGet k)) r = (rep, r')" by fastforce
  have e: "redis_exec (Call (CGet k)) (view r) = (case rd_str (view r) k of None \<Rightarrow> RepNil | Some v \<Rightarrow> RepStr v, view r)" by simp
  have a: "reply_agrees rep (case rd_str (view r) k of None \<Rightarrow> RepNil | Some v \<Rightarrow> RepStr v) \<and> view r' = view r \<or> rep = RepErr \<and> view r' = view r"
    using redis_answersD [OF assms s e] by auto
  show "view (snd (Redis_Get srv k r)) = view r" using a s by (auto simp: Redis_Get_def split: redis_reply.split)
  show "rd_str (view r) k = Some v" if "fst (Redis_Get srv k r) = Some v"
    using that a s by (auto simp: Redis_Get_def split: redis_reply.splits option.splits)
qed

lemma Redis_Set_view:
  assumes "redis_answers srv view" "Redis_Set srv k v e r = (True, r')"
  shows "view r' = (view r)\<lparr>rd_str := (rd_str (view r))(k \<mapsto> v)\<rparr>"
proof -
  obtain rep where s: "srv (Call (CSet k v (if e > 0 then Some (nat e) else None))) r = (rep, r')" "rep \<noteq> RepErr"
    using assms(2) by (auto simp: Redis_Set_def did_def split: prod.splits)
  show ?thesis using redis_answersD [OF assms(1) s(1)] s(2) by simp
qed

text \<open>C31: A session is bound to its device.  A session that was stored for a user and a device
  is read back as that user by the same device, and refused for any other device; only a
  failing Redis read can refuse the right device.\<close>

theorem session_bound_to_device:
  assumes "redis_answers (ge_redis en) view"
    and "ge_parse en (session_value en uid device) = Some (jobj [(''uid'', JInt uid), (''device_id'', JString device)])"
    and "uid < 2 ^ 31" "run_state (SaveSession en token uid device) w = (True, w1)" "device' \<noteq> []"
  shows "fst (run_state (ValidateSession en token device') w1) =
    (if fst (Redis_Get (ge_redis en) (kSessionKeyPrefix @ token) (gw_redis w1)) \<noteq> None \<and> device' = device then Some uid else Some 0)"
proof -
  have s: "token \<noteq> []" "0 < uid" "device \<noteq> []"
    "Redis_Set (ge_redis en) (kSessionKeyPrefix @ token) (session_value en uid device) kTokenExpireSeconds (gw_redis w) = (True, gw_redis w1)"
    using assms(4) by (auto simp: SaveSession_def gate_run_prims split: if_splits) (simp add: prod_eq_iff)
  note v = Redis_Set_view [OF assms(1) s(4)]
  have f: "text_field en (jobj [(''uid'', JInt uid), (''device_id'', JString device)]) ''device_id'' = Some device"
    "int_field (jobj [(''uid'', JInt uid), (''device_id'', JString device)]) ''uid'' = Some uid"
    using s(2) assms(3) by (simp_all add: text_field_def int_field_def jindex_def jobj_def)
  show ?thesis
  proof (cases "fst (Redis_Get (ge_redis en) (kSessionKeyPrefix @ token) (gw_redis w1))")
    case None
    then show ?thesis using s(1) assms(5) by (simp add: ValidateSession_def gate_run_prims)
  next
    case (Some x)
    then have "x = session_value en uid device" using Redis_Get_view(1) [OF assms(1) Some] v by simp
    then show ?thesis using Some s(1) assms(2,5) f by (simp add: ValidateSession_def gate_run_prims)
  qed
qed

text \<open>What a login proves: the password of the account, or a session of the device.\<close>

definition password_login :: "'r gate_env \<Rightarrow> json \<Rightarrow> gate_db \<Rightarrow> user_info \<Rightarrow> string \<Rightarrow> bool" where
  "password_login en src d u token \<longleftrightarrow> token = GenerateToken en \<and>
     (\<exists>password row. text_field en src ''account'' = Some (ui_email u) \<and> text_field en src ''password'' = Some password
       \<and> find_user_by_email (ge_mysql en) (ui_email u) (gd_db d) = Some row
       \<and> ur_password_hash row \<noteq> [] \<and> ge_crypt en (c_str password) (c_str (ur_password_hash row)) = Some (ur_password_hash row)
       \<and> ui_uid u = int (ur_id row) \<and> ui_username u = ur_username row)"

definition session_login :: "'r gate_env \<Rightarrow> json \<Rightarrow> string \<Rightarrow> redis_db \<Rightarrow> gate_db \<Rightarrow> user_info \<Rightarrow> string \<Rightarrow> bool" where
  "session_login en src device rd d u token \<longleftrightarrow> text_field en src ''session_token'' = Some token \<and>
     (\<exists>stored s row. rd_str rd (kSessionKeyPrefix @ token) = Some stored \<and> ge_parse en stored = Some s
       \<and> text_field en s ''device_id'' = Some device \<and> int_field s ''uid'' = Some (ui_uid u)
       \<and> find_user (ui_uid u) (gd_db d) = Some row \<and> ui_username u = ur_username row \<and> ui_email u = ur_email row)"

text \<open>The three ends of a login: an exception, an error, or a success whose session is stored.\<close>

definition login_outcome :: "'r gate_env \<Rightarrow> ('r \<Rightarrow> redis_db) \<Rightarrow> string \<Rightarrow> (user_info \<Rightarrow> string \<Rightarrow> bool) \<Rightarrow>
    handler_reply \<times> 'r gate_world \<Rightarrow> bool" where
  "login_outcome en view device proved res \<longleftrightarrow> fst res = Threw
     \<or> (\<exists>e. e \<noteq> GATE_SUCCESS \<and> fst res = Body (ge_styled en (jobj [(''error'', JInt (gate_code e))])))
     \<or> (\<exists>u token. proved u token \<and> 0 < ui_uid u \<and> token \<noteq> [] \<and> device \<noteq> [] \<and> fst res = Body (ge_styled en (jobj
          [(''error'', JInt 0), (''email'', JString (ui_email u)), (''uid'', JInt (ui_uid u)),
           (''username'', JString (ui_username u)), (''session_token'', JString token), (''host'', JString (ge_host en)),
           (''port'', JString (ge_port en)), (''expires_in'', JInt kTokenExpireSeconds)]))
         \<and> rd_str (view (gw_redis (snd res))) (kSessionKeyPrefix @ token) = Some (session_value en (ui_uid u) device))"

lemma login_outcome_error:
  "e \<noteq> GATE_SUCCESS \<Longrightarrow> login_outcome en view device proved (run_state (reply_error en e) w)"
  "login_outcome en view device proved (run_state threw w)"
  by (auto simp: login_outcome_def reply_error_def reply_json_def threw_def gate_run_prims)

lemma session_refused_error: "login_outcome en view device proved (run_state (session_refused en n) w)"
  unfolding session_refused_def by (rule login_outcome_error) simp

text \<open>A session is saved, and the login answers with it.\<close>

lemma saved_outcome:
  assumes "redis_answers (ge_redis en) view" "proved u token"
  shows "login_outcome en view device proved (run_state (State_Monad.bind (SaveSession en token (ui_uid u) device)
    (\<lambda>saved. if token = [] \<or> \<not> saved then reply_error en GATE_ERROR_REDIS else login_reply en (ui_email u) u token)) w)"
proof (cases "token = [] \<or> ui_uid u \<le> 0 \<or> device = []")
  case True
  then show ?thesis by (simp add: SaveSession_def gate_run_prims login_outcome_error)
next
  case False
  obtain ok r' where s: "Redis_Set (ge_redis en) (kSessionKeyPrefix @ token) (session_value en (ui_uid u) device)
      kTokenExpireSeconds (gw_redis w) = (ok, r')" by fastforce
  show ?thesis
  proof (cases ok)
    case True
    then have "view r' = (view (gw_redis w))\<lparr>rd_str := (rd_str (view (gw_redis w)))(kSessionKeyPrefix @ token \<mapsto> session_value en (ui_uid u) device)\<rparr>"
      using Redis_Set_view [OF assms(1)] s by simp
    then show ?thesis using False s assms(2) True unfolding login_outcome_def
      by (intro disjI2 exI [of _ u] exI [of _ token])
        (simp add: SaveSession_def gate_run_prims login_reply_def reply_json_def)
  next
    case f: False
    then show ?thesis using False s by (simp add: SaveSession_def gate_run_prims login_outcome_error)
  qed
qed

lemma UpdatePwd_found:
  assumes "next_fault d = NoFault" "find_user_by_email cfg email d = Some u" "ur_password_hash u \<noteq> hash"
  shows "fst (UpdatePwd cfg email hash d)"
    "map_option ur_password_hash (find_user_by_email cfg email (snd (UpdatePwd cfg email hash d))) = Some hash"
proof -
  have u: "u \<in> set (db_users d)" "my_coll cfg (ur_email u) = my_coll cfg email"
    using assms(2) by (auto simp: find_user_by_email_def find_Some_iff)
  then show "fst (UpdatePwd cfg email hash d)"
    using assms(1,3) by (auto simp: UpdatePwd_def statement_def Let_def filter_empty_conv)
  let ?f = "\<lambda>u. if my_coll cfg (ur_email u) = my_coll cfg email then u\<lparr>ur_password_hash := hash\<rparr> else u"
  have "map_option ur_password_hash (find (\<lambda>u. my_coll cfg (ur_email u) = my_coll cfg email) (map ?f us)) = Some hash"
    if "u \<in> set us" for us using that u(2) by (induction us) auto
  then show "map_option ur_password_hash (find_user_by_email cfg email (snd (UpdatePwd cfg email hash d))) = Some hash"
    using u(1) assms(1) by (simp add: UpdatePwd_def statement_def Let_def find_user_by_email_def)
qed

lemma CheckPwd_row:
  assumes "CheckPwd cfg email d = (Some h, d')"
  obtains row where "find_user_by_email cfg email d = Some row" "h = ur_password_hash row" "db_users d' = db_users d"
  using assms by (auto simp: CheckPwd_def query_def statement_def find_user_by_email_def split: fault.splits option.splits if_splits)

lemma GetUserInfo_row:
  assumes "GetUserInfo cfg email d = (Some u, d')"
  obtains row where "find_user_by_email cfg email d = Some row" "u = \<lparr>ui_uid = int (ur_id row), ui_username = ur_username row, ui_email = email\<rparr>"
  using assms by (auto simp: GetUserInfo_def query_def statement_def find_user_by_email_def split: fault.splits option.splits)

lemma GetUserInfoByUid_row:
  assumes "GetUserInfoByUid cfg uid d = (Some u, d')"
  obtains row where "find_user uid (gd_db d) = Some row" "u = \<lparr>ui_uid = uid, ui_username = ur_username row, ui_email = ur_email row\<rparr>"
proof (cases "uid \<le> 0")
  case False
  obtain r x where q: "query (find_user uid) (gd_db d) = (r, x)" by fastforce
  obtain row where "r = Inr (Some row)" "u = \<lparr>ui_uid = int (ur_id row), ui_username = ur_username row, ui_email = ur_email row\<rparr>"
    using assms False q by (auto simp: GetUserInfoByUid_def on_db_run split: sum.splits option.splits if_splits)
  moreover have "find_user uid (gd_db d) = Some row" using q calculation(1)
    by (auto simp: query_def statement_def split: fault.splits)
  ultimately show thesis using that find_user_id by blast
qed (use assms in \<open>simp add: GetUserInfoByUid_def\<close>)

lemma login_password_outcome:
  assumes "redis_answers (ge_redis en) view" "text_field en src ''account'' = Some email" "text_field en src ''password'' = Some password"
    and "gw_db w = d"
  shows "login_outcome en view device (password_login en src d) (run_state (login_password en device email password) w)"
proof -
  obtain h d1 where c: "CheckPwd (ge_mysql en) email (gd_db (gw_db w)) = (h, d1)" by fastforce
  obtain i d2 where g: "GetUserInfo (ge_mysql en) email d1 = (i, d2)" by fastforce
  show ?thesis
  proof (cases "email = [] \<or> password = [] \<or> h = None \<or> \<not> VerifyPassword en password (the h) \<or> i = None
      \<or> ui_uid (the i) \<le> 0 \<or> ui_username (the i) = []")
    case True
    then show ?thesis using c g
      by (auto simp: login_password_def gate_run_prims on_db_run login_outcome_error split: option.split)
  next
    case False
    then obtain hash u where hu: "h = Some hash" "i = Some u" by auto
    obtain row where r: "find_user_by_email (ge_mysql en) email (gd_db d) = Some row" "hash = ur_password_hash row"
        "db_users d1 = db_users (gd_db d)"
      using CheckPwd_row [OF c [unfolded hu]] assms(4) by metis
    obtain row' where r': "find_user_by_email (ge_mysql en) email d1 = Some row'"
        "u = \<lparr>ui_uid = int (ur_id row'), ui_username = ur_username row', ui_email = email\<rparr>"
      using GetUserInfo_row [OF g [unfolded hu]] by metis
    have "row' = row" using r r' by (simp add: find_user_by_email_def)
    then have p: "password_login en src d u (GenerateToken en)" and e: "ui_email u = email"
      using False hu r r' assms(2,3) by (auto simp: password_login_def VerifyPassword_def split: if_splits)
    have "run_state (login_password en device email password) w = run_state (State_Monad.bind (SaveSession en (GenerateToken en) (ui_uid u) device)
      (\<lambda>saved. if GenerateToken en = [] \<or> \<not> saved then reply_error en GATE_ERROR_REDIS else login_reply en (ui_email u) u (GenerateToken en)))
      (w\<lparr>gw_db := (gw_db w)\<lparr>gd_db := d2\<rparr>\<rparr>)"
      unfolding e using False hu c g by (simp add: login_password_def gate_run_prims on_db_run)
    then show ?thesis using saved_outcome [of en view "password_login en src d", OF assms(1) p] by simp
  qed
qed

lemma ValidateSession_sound:
  assumes "redis_answers (ge_redis en) view" "run_state (ValidateSession en token device) w = (r, w')"
  shows "gw_db w' = gw_db w" "r = Some u \<Longrightarrow> 0 < u \<Longrightarrow> token \<noteq> [] \<and> (\<exists>stored s. rd_str (view (gw_redis w)) (kSessionKeyPrefix @ token) = Some stored
    \<and> ge_parse en stored = Some s \<and> text_field en s ''device_id'' = Some device \<and> int_field s ''uid'' = Some u)"
proof -
  show "gw_db w' = gw_db w" using assms(2) by (auto simp: ValidateSession_def gate_run_prims split: if_splits)
  assume u: "r = Some u" "0 < u"
  then have t: "\<not> (token = [] \<or> device = [])" using assms(2) by (auto simp: ValidateSession_def gate_run_prims)
  obtain stored where g: "fst (Redis_Get (ge_redis en) (kSessionKeyPrefix @ token) (gw_redis w)) = Some stored"
    using assms(2) u t by (cases "fst (Redis_Get (ge_redis en) (kSessionKeyPrefix @ token) (gw_redis w))") (auto simp: ValidateSession_def gate_run_prims)
  show "token \<noteq> [] \<and> (\<exists>stored s. rd_str (view (gw_redis w)) (kSessionKeyPrefix @ token) = Some stored
    \<and> ge_parse en stored = Some s \<and> text_field en s ''device_id'' = Some device \<and> int_field s ''uid'' = Some u)"
    using Redis_Get_view(1) [OF assms(1) g] g assms(2) u t
    by (auto simp: ValidateSession_def gate_run_prims split: option.splits if_splits)
qed

lemma login_session_outcome:
  assumes "redis_answers (ge_redis en) view" "text_field en src ''session_token'' = Some token"
  shows "login_outcome en view device (session_login en src device (view (gw_redis w)) (gw_db w)) (run_state (login_session en device token) w)"
proof (cases "ge_connected en 0")
  case True
  obtain r w1 where v: "run_state (ValidateSession en token device) w = (r, w1)" by fastforce
  note sound = ValidateSession_sound [OF assms(1) v]
  obtain i d1 where g: "GetUserInfoByUid (ge_mysql en) (the r) (gw_db w1) = (i, d1)" by fastforce
  show ?thesis
  proof (cases "r = None \<or> the r \<le> 0 \<or> i = None")
    case bad: True
    then show ?thesis using True v g
      by (auto simp: login_session_def gate_run_prims login_outcome_error session_refused_error split: option.split)
  next
    case False
    then obtain uid u where ru: "r = Some uid" "i = Some u" "0 < uid" by auto
    then obtain row where row: "find_user uid (gd_db (gw_db w)) = Some row"
        "u = \<lparr>ui_uid = uid, ui_username = ur_username row, ui_email = ur_email row\<rparr>"
      using GetUserInfoByUid_row [of "ge_mysql en" uid "gw_db w1" u d1] g sound(1) by auto
    note stored = sound(2) [OF ru(1,3)]
    then have p: "session_login en src device (view (gw_redis w)) (gw_db w) u token" using row assms(2)
      by (auto simp: session_login_def)
    have "run_state (login_session en device token) w = run_state (State_Monad.bind (SaveSession en token (ui_uid u) device)
      (\<lambda>saved. if token = [] \<or> \<not> saved then reply_error en GATE_ERROR_REDIS else login_reply en (ui_email u) u token)) (w1\<lparr>gw_db := d1\<rparr>)"
      using True ru v g stored by (simp add: login_session_def gate_run_prims)
    then show ?thesis using saved_outcome [of en view "session_login en src device (view (gw_redis w)) (gw_db w)", OF assms(1) p] by simp
  qed
qed (simp add: login_session_def login_outcome_error)

text \<open>C28: A login needs credentials.  A login request ends in an exception, in an error, or
  in a success for a user that exists; the success comes with the password whose stored hash
  accepts it and carries a fresh token, or with the token of a stored session of the same
  user on the same device.  Then Redis holds the session under the token that was answered.\<close>

theorem login_needs_credentials:
  assumes "redis_answers (ge_redis en) view" "ge_parse en body = Some src"
  shows "login_outcome en view (text_of (text_field en src ''device_id'')) (if is_member src ''session_token''
        then session_login en src (text_of (text_field en src ''device_id'')) (view (gw_redis w)) (gw_db w) else password_login en src (gw_db w))
      (run_state (login_user en body) w)"
proof (cases "text_field en src ''device_id''")
  case None
  then show ?thesis using assms(2) by (simp add: login_user_def with_json_def login_outcome_error)
next
  case (Some device)
  then show ?thesis
    using assms login_session_outcome [OF assms(1), of src _ device w] login_password_outcome [OF assms(1), of src _ _ w "gw_db w" device]
    by (auto simp: login_user_def with_json_def text_of_def login_outcome_error split: option.split)
qed

section \<open>The verification code\<close>

lemma Redis_Get_found:
  assumes "redis_answers srv view" "fst (Redis_Get srv k r) \<noteq> None"
  shows "fst (Redis_Get srv k r) = rd_str (view r) k"
  using assms Redis_Get_view(1) by fastforce

text \<open>C32: The code of the mailbox reaches the requester.  GateServer puts the verification code
  into the answer to /get_varifycode, so whoever asks for a code can set the password of
  the account without reading its mail; the code stays stored and can be used again.\<close>

theorem reset_without_mailbox:
  assumes "redis_answers (ge_redis en) view"
    and varify: "ge_varify en email (gw_redis w) = (Some (0, vcode), r1)" "rd_str (view r1) (''code_'' @ email) = Some vcode"
    and asked: "ge_parse en ask = Some (jobj [(''email'', JString email)])"
    and given: "ge_parse en reset = Some (jobj [(''email'', JString email), (''VarifyCode'', JString vcode),
      (''password'', JString password), (''confirm'', JString password)])"
    and works: "fst (Redis_Get (ge_redis en) (''code_'' @ email) r1) \<noteq> None" "next_fault (gd_db (gw_db w)) = NoFault"
    and user: "find_user_by_email (ge_mysql en) email (gd_db (gw_db w)) = Some u" "ur_password_hash u \<noteq> Gate_HashPassword en password"
  shows "case Gate_HandleRequest en HttpPost ''/get_varifycode'' ask w of (answer, w1) \<Rightarrow>
      answer = Response 200 ''text/json'' (ge_styled en (jobj [(''error'', JInt 0), (''email'', JString email), (''code'', JString vcode)]))
    \<and> (case Gate_HandleRequest en HttpPost ''/reset_pwd'' reset w1 of (answer2, w2) \<Rightarrow>
        answer2 = Response 200 ''text/json'' (ge_styled en (jobj [(''error'', JInt 0), (''email'', JString email)]))
      \<and> map_option ur_password_hash (find_user_by_email (ge_mysql en) email (gd_db (gw_db w2))) = Some (Gate_HashPassword en password)
      \<and> rd_str (view (gw_redis w2)) (''code_'' @ email) = Some vcode)"
proof -
  have posts: "map_of (post_handlers en) ''/get_varifycode'' = Some (\<lambda>body. run_state (get_varifycode en body))"
    "map_of (post_handlers en) ''/reset_pwd'' = Some (\<lambda>body. run_state (reset_pwd en body))"
    by (simp_all add: post_handlers_def RegisterUrl_def)
  have f: "text_field en (jobj [(''email'', JString email)]) ''email'' = Some email"
    "jget (jobj [(''email'', JString email)]) ''email'' = JString email"
    "reset_fields en (jobj [(''email'', JString email), (''VarifyCode'', JString vcode),
      (''password'', JString password), (''confirm'', JString password)]) = Some (email, vcode, password, password)"
    by (simp_all add: reset_fields_def text_field_def jindex_def jobj_def)
  define hash where "hash = Gate_HashPassword en password"
  define d' where "d' = snd (UpdatePwd (ge_mysql en) email hash (gd_db (gw_db w)))"
  have upd: "fst (UpdatePwd (ge_mysql en) email hash (gd_db (gw_db w)))"
    "map_option ur_password_hash (find_user_by_email (ge_mysql en) email d') = Some hash"
    using UpdatePwd_found [OF works(2) user(1), of hash] user(2) by (simp_all add: hash_def d'_def)
  have got: "fst (Redis_Get (ge_redis en) (''code_'' @ email) r1) = Some vcode"
    using Redis_Get_found [OF assms(1) works(1)] varify(2) by simp
  have kept: "view (snd (Redis_Get (ge_redis en) (''code_'' @ email) r1)) = view r1"
    by (rule Redis_Get_view(2) [OF assms(1)])
  show ?thesis
    using posts f varify asked given upd got kept
    by (simp add: Gate_HandleRequest_def HandleRequest_def answered_def get_varifycode_def with_json_def GetCode_def
        gate_run_prims reply_json_def reset_pwd_def with_code_def on_db_run flip: hash_def d'_def)
qed

section \<open>From registration to login\<close>

lemma find_append_None: "find P xs = None \<Longrightarrow> find P (xs @ ys) = find P ys"
  by (induction xs) (auto split: if_splits)

lemma RegisterUser_fresh:
  assumes "db_faults d = []" "\<forall>u \<in> set (db_users d). my_coll cfg (ur_username u) \<noteq> my_coll cfg name \<and> my_coll cfg (ur_email u) \<noteq> my_coll cfg email"
    and "utf8_take 64 name = name" "utf8_take 254 email = email" "utf8_take 255 hash = hash" "db_next_user d < 2 ^ 31"
  shows "RegisterUser cfg name email hash d = (int (db_next_user d), snd (insert_user cfg name email hash d))"
    "find_user_by_email cfg email (snd (insert_user cfg name email hash d)) = Some \<lparr>ur_id = db_next_user d, ur_username = name,
      ur_email = email, ur_password_hash = hash, ur_display_name = name, ur_avatar = None\<rparr>"
    "db_faults (snd (insert_user cfg name email hash d)) = []"
proof -
  have f: "find (\<lambda>u. my_coll cfg (ur_email u) = my_coll cfg email) (db_users d) = None"
    using assms(2) by (auto simp: find_None_iff)
  have n: "next_fault x = NoFault" "pop_fault x = x" if "db_faults x = []" for x
    using that by (simp_all add: next_fault_def pop_fault_def)
  define x where "x = snd (insert_user cfg name email hash d)"
  note fits = varchar_fits [OF assms(3)] varchar_fits [OF assms(4)] varchar_fits [OF assms(5)]
    varchar_fits [OF utf8_take_more [OF assms(3), of 128], simplified]
  have i: "insert_user cfg name email hash d = (Inr (db_next_user d), x)" "db_faults x = []"
    using assms(1,2) by (auto simp: insert_user_def x_def fits)
  have narrow: "signed_take_bit 31 (int (db_next_user d)) = int (db_next_user d)"
    using assms(6) by (simp add: signed_take_bit_int_eq_self)
  show "db_faults (snd (insert_user cfg name email hash d)) = []" using i by simp
  show "RegisterUser cfg name email hash d = (int (db_next_user d), snd (insert_user cfg name email hash d))"
    using f i(1) n [OF assms(1)] n [OF i(2)]
    by (simp add: RegisterUser_def query_def statement_def find_user_by_email_def narrow)
  show "find_user_by_email cfg email (snd (insert_user cfg name email hash d)) = Some \<lparr>ur_id = db_next_user d, ur_username = name,
      ur_email = email, ur_password_hash = hash, ur_display_name = name, ur_avatar = None\<rparr>"
    using f assms(2) by (auto simp: find_user_by_email_def insert_user_def find_append_None fits)
qed

lemma sound_reads:
  assumes "db_faults d = []" "find_user_by_email cfg email d = Some u"
  shows "ur_password_hash u \<noteq> [] \<Longrightarrow> CheckPwd cfg email d = (Some (ur_password_hash u), d)"
    "GetUserInfo cfg email d = (Some \<lparr>ui_uid = int (ur_id u), ui_username = ur_username u, ui_email = email\<rparr>, d)"
proof -
  have "next_fault d = NoFault" "pop_fault d = d" using assms(1) by (simp_all add: next_fault_def pop_fault_def)
  then show "ur_password_hash u \<noteq> [] \<Longrightarrow> CheckPwd cfg email d = (Some (ur_password_hash u), d)"
    "GetUserInfo cfg email d = (Some \<lparr>ui_uid = int (ur_id u), ui_username = ur_username u, ui_email = email\<rparr>, d)"
    using assms(2) by (simp_all add: CheckPwd_def GetUserInfo_def query_def statement_def)
qed

text \<open>The two requests of the properties below, and their fields.\<close>

definition register_request :: "string \<Rightarrow> string \<Rightarrow> string \<Rightarrow> string \<Rightarrow> json" where
  "register_request name email password vcode = jobj [(''UserData'', jobj [(''username'', JString name),
     (''email'', JString email), (''password'', JString password)]), (''VarifyCode'', JString vcode), (''Comfirm'', JString password)]"

definition login_request :: "string \<Rightarrow> string \<Rightarrow> string \<Rightarrow> json" where
  "login_request device email password = jobj [(''device_id'', JString device), (''account'', JString email), (''password'', JString password)]"

lemma request_fields:
  "register_fields en (register_request name email password vcode) = Some (name, email, password, vcode, password)"
  "text_field en (login_request device email password) ''device_id'' = Some device"
  "text_field en (login_request device email password) ''account'' = Some email"
  "text_field en (login_request device email password) ''password'' = Some password"
  "\<not> is_member (login_request device email password) ''session_token''"
  by (simp_all add: register_fields_def register_request_def login_request_def text_field_def jindex_def jobj_def)

lemma gate_posts:
  "map_of (post_handlers en) ''/register_user'' = Some (\<lambda>body. run_state (register_user en body))"
  "map_of (post_handlers en) ''/login_user'' = Some (\<lambda>body. run_state (login_user en body))"
  by (simp_all add: post_handlers_def RegisterUrl_def)

text \<open>A registration that is accepted; nothing asks for a name, an address or a password that is
  not empty.\<close>

lemma registration_accepted:
  assumes "ge_parse en register = Some (register_request name email password vcode)"
    and "Redis_Get (ge_redis en) (''code_'' @ email) (gw_redis w) = (Some vcode, r1)"
    and "Gate_HashPassword en password = hash" "0 < i"
    and "RegisterUser (ge_mysql en) name email hash (gd_db (gw_db w)) = (i, d1)"
  shows "Gate_HandleRequest en HttpPost ''/register_user'' register w =
    (Response 200 ''text/json'' (ge_styled en (jobj [(''error'', JInt 0), (''email'', JString email), (''uid'', JInt i),
       (''username'', JString name)])), w\<lparr>gw_redis := r1, gw_db := (gw_db w)\<lparr>gd_db := d1\<rparr>\<rparr>)"
  using assms by (simp add: Gate_HandleRequest_def HandleRequest_def answered_def gate_posts request_fields register_user_def
      with_json_def with_code_def gate_run_prims reply_json_def on_db_run)

text \<open>C29: Registration leads to login.  A registration that carries the stored verification code, a
  name and an address that no account has yet, and twice the same password creates the account
  with the next user id, and the next login with that address and password, from any device,
  succeeds as that user, with a new token whose session is stored.  The conditions: name, address,
  password and device id are not empty (the registration would accept an empty name or password
  all the same, but the login refuses such an account: empty_registration_locked_out); the name
  has at most 64 characters, the address 254 and the hash 255, the sizes of their columns; the user
  id is below 2^31, since the code reads it into an int; crypt accepts what it has hashed; the
  system gives random bytes for a token; no statement fails and Redis saves the session.\<close>

theorem registration_leads_to_login:
  assumes "redis_answers (ge_redis en) view"
    and parse: "ge_parse en register = Some (register_request name email password vcode)"
      "ge_parse en login = Some (login_request device email password)"
    and code: "Redis_Get (ge_redis en) (''code_'' @ email) (gw_redis w) = (Some vcode, r1)"
    and free: "db_faults (gd_db (gw_db w)) = []" "0 < db_next_user (gd_db (gw_db w))"
      "\<forall>u \<in> set (db_users (gd_db (gw_db w))). my_coll (ge_mysql en) (ur_username u) \<noteq> my_coll (ge_mysql en) name
        \<and> my_coll (ge_mysql en) (ur_email u) \<noteq> my_coll (ge_mysql en) email"
    and crypt: "ge_gensalt en = Some salt" "ge_crypt en (c_str password) salt = Some hash" "hash \<noteq> []"
      "ge_crypt en (c_str password) (c_str hash) = Some hash"
    and sizes: "utf8_take 64 name = name" "utf8_take 254 email = email" "utf8_take 255 hash = hash" "db_next_user (gd_db (gw_db w)) < 2 ^ 31"
    and given: "name \<noteq> []" "email \<noteq> []" "password \<noteq> []" "device \<noteq> []" "GenerateToken en \<noteq> []"
    and saved: "fst (Redis_Set (ge_redis en) (kSessionKeyPrefix @ GenerateToken en)
      (session_value en (int (db_next_user (gd_db (gw_db w)))) device) kTokenExpireSeconds r1)"
  shows "case Gate_HandleRequest en HttpPost ''/register_user'' register w of (answer, w1) \<Rightarrow>
      answer = Response 200 ''text/json'' (ge_styled en (jobj [(''error'', JInt 0), (''email'', JString email),
        (''uid'', JInt (int (db_next_user (gd_db (gw_db w))))), (''username'', JString name)]))
    \<and> (case Gate_HandleRequest en HttpPost ''/login_user'' login w1 of (answer2, w2) \<Rightarrow>
        answer2 = Response 200 ''text/json'' (ge_styled en (jobj [(''error'', JInt 0), (''email'', JString email),
          (''uid'', JInt (int (db_next_user (gd_db (gw_db w))))), (''username'', JString name),
          (''session_token'', JString (GenerateToken en)), (''host'', JString (ge_host en)), (''port'', JString (ge_port en)),
          (''expires_in'', JInt kTokenExpireSeconds)]))
      \<and> rd_str (view (gw_redis w2)) (kSessionKeyPrefix @ GenerateToken en)
          = Some (session_value en (int (db_next_user (gd_db (gw_db w)))) device))"
proof -
  let ?uid = "int (db_next_user (gd_db (gw_db w)))"
  define d1 where "d1 = snd (insert_user (ge_mysql en) name email hash (gd_db (gw_db w)))"
  define r2 where "r2 = snd (Redis_Set (ge_redis en) (kSessionKeyPrefix @ GenerateToken en) (session_value en ?uid device) kTokenExpireSeconds r1)"
  have s: "Redis_Set (ge_redis en) (kSessionKeyPrefix @ GenerateToken en) (session_value en ?uid device) kTokenExpireSeconds r1 = (True, r2)"
    using saved by (simp add: r2_def prod_eq_iff)
  note fresh = RegisterUser_fresh [OF free(1,3) sizes, folded d1_def]
  note reads = sound_reads [OF fresh(3,2)]
  have h: "Gate_HashPassword en password = hash" "VerifyPassword en password hash"
    using crypt by (simp_all add: Gate_HashPassword_def VerifyPassword_def)
  let ?w1 = "w\<lparr>gw_redis := r1, gw_db := (gw_db w)\<lparr>gd_db := d1\<rparr>\<rparr>"
  have reg: "Gate_HandleRequest en HttpPost ''/register_user'' register w = (Response 200 ''text/json'' (ge_styled en (jobj
      [(''error'', JInt 0), (''email'', JString email), (''uid'', JInt ?uid), (''username'', JString name)])), ?w1)"
    using registration_accepted [OF parse(1) code h(1) _ fresh(1)] free(2) by simp
  have log: "Gate_HandleRequest en HttpPost ''/login_user'' login ?w1 = (Response 200 ''text/json'' (ge_styled en (jobj
      [(''error'', JInt 0), (''email'', JString email), (''uid'', JInt ?uid), (''username'', JString name),
       (''session_token'', JString (GenerateToken en)), (''host'', JString (ge_host en)), (''port'', JString (ge_port en)),
       (''expires_in'', JInt kTokenExpireSeconds)])), ?w1\<lparr>gw_redis := r2\<rparr>)"
    using parse(2) h(2) reads crypt(3) given free(2) s
    by (simp add: Gate_HandleRequest_def HandleRequest_def answered_def gate_posts request_fields login_user_def with_json_def login_password_def
        gate_run_prims login_reply_def reply_json_def on_db_run SaveSession_def)
  show ?thesis using Redis_Set_view [OF assms(1) s] by (simp add: reg log)
qed

text \<open>What registration does not check: with an empty name or password it succeeds, and the login
  with the very same password is then refused.\<close>

theorem empty_registration_locked_out:
  assumes "ge_parse en register = Some (register_request name email password vcode)"
      "ge_parse en login = Some (login_request device email password)"
    and code: "Redis_Get (ge_redis en) (''code_'' @ email) (gw_redis w) = (Some vcode, r1)"
    and free: "db_faults (gd_db (gw_db w)) = []" "0 < db_next_user (gd_db (gw_db w))"
      "\<forall>u \<in> set (db_users (gd_db (gw_db w))). my_coll (ge_mysql en) (ur_username u) \<noteq> my_coll (ge_mysql en) name
        \<and> my_coll (ge_mysql en) (ur_email u) \<noteq> my_coll (ge_mysql en) email"
    and hash: "Gate_HashPassword en password = hash" "hash \<noteq> []"
    and sizes: "utf8_take 64 name = name" "utf8_take 254 email = email" "utf8_take 255 hash = hash" "db_next_user (gd_db (gw_db w)) < 2 ^ 31"
    and empty: "name = [] \<or> password = []"
  shows "case Gate_HandleRequest en HttpPost ''/register_user'' register w of (answer, w1) \<Rightarrow>
      answer = Response 200 ''text/json'' (ge_styled en (jobj [(''error'', JInt 0), (''email'', JString email),
        (''uid'', JInt (int (db_next_user (gd_db (gw_db w))))), (''username'', JString name)]))
    \<and> (\<exists>e \<in> {GATE_ERROR_JSON, GATE_ERROR_MYSQL, GATE_ERROR_PASSWORD_INVALID}. Gate_HandleRequest en HttpPost ''/login_user'' login w1
        = (Response 200 ''text/json'' (ge_styled en (jobj [(''error'', JInt (gate_code e))])), w1))"
proof -
  define d1 where "d1 = snd (insert_user (ge_mysql en) name email hash (gd_db (gw_db w)))"
  let ?w1 = "w\<lparr>gw_redis := r1, gw_db := (gw_db w)\<lparr>gd_db := d1\<rparr>\<rparr>"
  note fresh = RegisterUser_fresh [OF free(1,3) sizes, folded d1_def]
  note reads = sound_reads [OF fresh(3,2)]
  have reg: "Gate_HandleRequest en HttpPost ''/register_user'' register w = (Response 200 ''text/json'' (ge_styled en (jobj
      [(''error'', JInt 0), (''email'', JString email), (''uid'', JInt (int (db_next_user (gd_db (gw_db w))))),
       (''username'', JString name)])), ?w1)"
    using registration_accepted [OF assms(1) code hash(1) _ fresh(1)] free(2) by simp
  have "\<exists>e \<in> {GATE_ERROR_JSON, GATE_ERROR_MYSQL, GATE_ERROR_PASSWORD_INVALID}. Gate_HandleRequest en HttpPost ''/login_user'' login ?w1
      = (Response 200 ''text/json'' (ge_styled en (jobj [(''error'', JInt (gate_code e))])), ?w1)"
    using assms(2) reads hash(2) empty
    by (auto simp: Gate_HandleRequest_def HandleRequest_def answered_def gate_posts request_fields login_user_def
        with_json_def login_password_def gate_run_prims reply_error_def reply_json_def on_db_run)
  then show ?thesis by (simp add: reg)
qed

section \<open>An instance\<close>

text \<open>A server with a small JSON library (a table of the texts that occur), a crypt that prefixes
  the salt, and a VarifyServer that stores a code; one account exists.\<close>

definition demo_session :: json where
  "demo_session = jobj [(''uid'', JInt 1), (''device_id'', JString ''phone'')]"

definition demo_gate :: "redis_db gate_env" where
  "demo_gate = \<lparr>ge_parse = map_of
      [(''session'', demo_session),
       (''ask'', jobj [(''email'', JString ''ann@x'')]),
       (''reset'', jobj [(''email'', JString ''ann@x''), (''VarifyCode'', JString ''1234''), (''password'', JString ''new''), (''confirm'', JString ''new'')]),
       (''register'', jobj [(''UserData'', jobj [(''username'', JString ''bob''), (''email'', JString ''bob@x''), (''password'', JString ''pw'')]),
          (''VarifyCode'', JString ''1234''), (''Comfirm'', JString ''pw'')]),
       (''login'', jobj [(''device_id'', JString ''phone''), (''account'', JString ''bob@x''), (''password'', JString ''pw'')])],
     ge_styled = (\<lambda>j. if j = demo_session then ''session'' else ''reply''), ge_real_text = (\<lambda>_. []), ge_redis = redis_exec,
     ge_mysql = \<lparr>my_coll = (\<lambda>s. s), my_now = 7, my_format = (\<lambda>_. []), my_datetime = (\<lambda>_. None)\<rparr>,
     ge_crypt = (\<lambda>p s. Some (take 1 s @ p)), ge_gensalt = Some ''$'', ge_random = Some [90],
     ge_varify = (\<lambda>email r. (Some (0, ''1234''), r\<lparr>rd_str := (rd_str r)(''code_'' @ email \<mapsto> ''1234'')\<rparr>)),
     ge_connected = (\<lambda>_. True), ge_host = ''h'', ge_port = ''1''\<rparr>"

definition demo_gate_world :: "redis_db gate_world" where
  "demo_gate_world = \<lparr>gw_redis = redis_empty\<lparr>rd_str := [''code_bob@x'' \<mapsto> ''1234'']\<rparr>,
     gw_db = \<lparr>gd_db = \<lparr>db_users = [\<lparr>ur_id = 1, ur_username = ''ann'', ur_email = ''ann@x'', ur_password_hash = ''$old'',
       ur_display_name = ''ann'', ur_avatar = None\<rparr>], db_meetings = [], db_participants = [], db_messages = [],
       db_next_user = 2, db_next_meeting = 1, db_next_message = 1, db_faults = []\<rparr>, gd_contacts = []\<rparr>\<rparr>"

lemmas demo_gate_defs = demo_gate_def demo_gate_world_def

lemma demo_gate_redis: "redis_answers (ge_redis demo_gate) (\<lambda>d. d)"
  by (simp add: demo_gate_def redis_exec_answers)

theorem session_bound_to_device_witness:
  "fst (run_state (ValidateSession demo_gate ''t'' ''tablet'') (snd (run_state (SaveSession demo_gate ''t'' 1 ''phone'') demo_gate_world))) = Some 0
  \<and> fst (run_state (ValidateSession demo_gate ''t'' ''phone'') (snd (run_state (SaveSession demo_gate ''t'' 1 ''phone'') demo_gate_world))) = Some 1"
proof -
  let ?w1 = "demo_gate_world\<lparr>gw_redis := redis_empty\<lparr>rd_str := [''code_bob@x'' \<mapsto> ''1234'', kSessionKeyPrefix @ ''t'' \<mapsto> ''session'']\<rparr>\<rparr>"
  have v: "session_value demo_gate 1 ''phone'' = ''session''"
    by (simp add: session_value_def demo_gate_def demo_session_def)
  have s: "run_state (SaveSession demo_gate ''t'' 1 ''phone'') demo_gate_world = (True, ?w1)"
    unfolding SaveSession_def v by (simp add: gate_run_prims Redis_Set_def did_def demo_gate_defs kTokenExpireSeconds_def)
  have p: "ge_parse demo_gate (session_value demo_gate 1 ''phone'') = Some (jobj [(''uid'', JInt 1), (''device_id'', JString ''phone'')])"
    unfolding v by (simp add: demo_gate_def demo_session_def)
  have g: "fst (Redis_Get (ge_redis demo_gate) (kSessionKeyPrefix @ ''t'') (gw_redis ?w1)) = Some ''session''"
    by (simp add: Redis_Get_def demo_gate_def)
  show ?thesis
    using session_bound_to_device [OF demo_gate_redis p _ s, of "''tablet''"] session_bound_to_device [OF demo_gate_redis p _ s, of "''phone''"] g
    by (simp add: s)
qed

theorem login_needs_credentials_witness:
  "login_outcome demo_gate (\<lambda>d. d) ''phone''
     (password_login demo_gate (jobj [(''device_id'', JString ''phone''), (''account'', JString ''bob@x''), (''password'', JString ''pw'')]) (gw_db demo_gate_world))
     (run_state (login_user demo_gate ''login'') demo_gate_world)"
proof -
  let ?src = "jobj [(''device_id'', JString ''phone''), (''account'', JString ''bob@x''), (''password'', JString ''pw'')]"
  have "ge_parse demo_gate ''login'' = Some ?src" by (simp add: demo_gate_def)
  from login_needs_credentials [OF demo_gate_redis this, of demo_gate_world]
  show ?thesis by (simp add: text_field_def jindex_def jobj_def text_of_def)
qed

theorem reset_without_mailbox_witness:
  "map_option ur_password_hash (find_user_by_email (ge_mysql demo_gate) ''ann@x'' (gd_db (gw_db
     (snd (Gate_HandleRequest demo_gate HttpPost ''/reset_pwd'' ''reset''
       (snd (Gate_HandleRequest demo_gate HttpPost ''/get_varifycode'' ''ask'' demo_gate_world))))))) = Some ''$new''"
proof -
  let ?r1 = "(gw_redis demo_gate_world)\<lparr>rd_str := (rd_str (gw_redis demo_gate_world))(''code_'' @ ''ann@x'' \<mapsto> ''1234'')\<rparr>"
  let ?u = "\<lparr>ur_id = 1, ur_username = ''ann'', ur_email = ''ann@x'', ur_password_hash = ''$old'', ur_display_name = ''ann'', ur_avatar = None\<rparr>"
  have h: "Gate_HashPassword demo_gate ''new'' = ''$new''" by (simp add: Gate_HashPassword_def demo_gate_def c_str_def)
  have v1: "ge_varify demo_gate ''ann@x'' (gw_redis demo_gate_world) = (Some (0, ''1234''), ?r1)" by (simp add: demo_gate_def)
  have v2: "rd_str ?r1 (''code_'' @ ''ann@x'') = Some ''1234''" by simp
  have ask: "ge_parse demo_gate ''ask'' = Some (jobj [(''email'', JString ''ann@x'')])" by (simp add: demo_gate_def)
  have res: "ge_parse demo_gate ''reset'' = Some (jobj [(''email'', JString ''ann@x''), (''VarifyCode'', JString ''1234''),
      (''password'', JString ''new''), (''confirm'', JString ''new'')])" by (simp add: demo_gate_def)
  have got: "fst (Redis_Get (ge_redis demo_gate) (''code_'' @ ''ann@x'') ?r1) \<noteq> None" by (simp add: Redis_Get_def demo_gate_def)
  have nf: "next_fault (gd_db (gw_db demo_gate_world)) = NoFault" by (simp add: demo_gate_world_def next_fault_def)
  have u: "find_user_by_email (ge_mysql demo_gate) ''ann@x'' (gd_db (gw_db demo_gate_world)) = Some ?u"
    by (simp add: find_user_by_email_def demo_gate_defs)
  have ne: "ur_password_hash ?u \<noteq> Gate_HashPassword demo_gate ''new''" by (simp add: h)
  note r = reset_without_mailbox [OF demo_gate_redis v1 v2 ask res got nf u ne]
  show ?thesis using r unfolding case_prod_beta h by blast
qed

theorem registration_leads_to_login_witness:
  "fst (Gate_HandleRequest demo_gate HttpPost ''/login_user'' ''login''
     (snd (Gate_HandleRequest demo_gate HttpPost ''/register_user'' ''register'' demo_gate_world)))
   = Response 200 ''text/json'' ''reply''"
proof -
  have a: "ge_parse demo_gate ''register'' = Some (register_request ''bob'' ''bob@x'' ''pw'' ''1234'')"
    "ge_parse demo_gate ''login'' = Some (login_request ''phone'' ''bob@x'' ''pw'')"
    by (simp_all add: demo_gate_def register_request_def login_request_def)
  have b: "Redis_Get (ge_redis demo_gate) (''code_'' @ ''bob@x'') (gw_redis demo_gate_world) = (Some ''1234'', gw_redis demo_gate_world)"
    by (simp add: Redis_Get_def demo_gate_defs)
  have c: "db_faults (gd_db (gw_db demo_gate_world)) = []" "0 < db_next_user (gd_db (gw_db demo_gate_world))"
    "\<forall>u \<in> set (db_users (gd_db (gw_db demo_gate_world))). my_coll (ge_mysql demo_gate) (ur_username u) \<noteq> my_coll (ge_mysql demo_gate) ''bob''
      \<and> my_coll (ge_mysql demo_gate) (ur_email u) \<noteq> my_coll (ge_mysql demo_gate) ''bob@x''"
    by (simp_all add: demo_gate_defs)
  have d: "ge_gensalt demo_gate = Some ''$''" "ge_crypt demo_gate (c_str ''pw'') ''$'' = Some ''$pw''" "''$pw'' \<noteq> []"
    "ge_crypt demo_gate (c_str ''pw'') (c_str ''$pw'') = Some ''$pw''"
    by (simp_all add: demo_gate_def c_str_def)
  have z: "utf8_take 64 ''bob'' = ''bob''" "utf8_take 254 ''bob@x'' = ''bob@x''" "utf8_take 255 ''$pw'' = ''$pw''"
    "db_next_user (gd_db (gw_db demo_gate_world)) < 2 ^ 31"
    by (simp_all add: utf8_take_short demo_gate_defs)
  have e: "GenerateToken demo_gate \<noteq> []" by (simp add: GenerateToken_def demo_gate_def)
  have f: "fst (Redis_Set (ge_redis demo_gate) (kSessionKeyPrefix @ GenerateToken demo_gate)
      (session_value demo_gate (int (db_next_user (gd_db (gw_db demo_gate_world)))) ''phone'') kTokenExpireSeconds (gw_redis demo_gate_world))"
    by (simp add: Redis_Set_def did_def demo_gate_defs kTokenExpireSeconds_def)
  have n: "ge_styled demo_gate (jobj [(''error'', JInt 0), (''email'', JString ''bob@x''), (''uid'', JInt i), (''username'', JString ''bob''),
      (''session_token'', JString t), (''host'', JString h), (''port'', JString p), (''expires_in'', JInt x)]) = ''reply''" for i t h p x
    by (simp add: demo_gate_def demo_session_def jobj_def)
  show ?thesis
    using registration_leads_to_login [OF demo_gate_redis a b c d z _ _ _ _ e f]
    by (simp add: case_prod_beta n)
qed

theorem accounts_stay_sound_witness:
  "tables_ok (\<lambda>s. s) (gw_db (gate_run [(demo_gate, HttpPost, ''/register_user'', ''register''), (demo_gate, HttpPost, ''/login_user'', ''login'')] demo_gate_world))"
proof (rule accounts_stay_sound)
  show "tables_ok (\<lambda>s. s) (gw_db demo_gate_world)"
    by (simp add: demo_gate_world_def tables_ok_def users_ok_def contacts_ok_def)
  have "my_coll (ge_mysql demo_gate) = (\<lambda>s. s)" by (simp add: demo_gate_def)
  then show "\<forall>(en, r) \<in> set [(demo_gate, HttpPost, ''/register_user'', ''register''), (demo_gate, HttpPost, ''/login_user'', ''login'')].
      my_coll (ge_mysql en) = (\<lambda>s. s)" by simp
qed

definition demo_contacts :: gate_db where
  "demo_contacts = (gw_db demo_gate_world)\<lparr>gd_db := (gd_db (gw_db demo_gate_world))\<lparr>db_users :=
     [\<lparr>ur_id = 1, ur_username = ''ann'', ur_email = ''ann@x'', ur_password_hash = ''a'', ur_display_name = ''ann'', ur_avatar = None\<rparr>,
      \<lparr>ur_id = 2, ur_username = ''bob'', ur_email = ''bob@x'', ur_password_hash = ''b'', ur_display_name = ''bob'', ur_avatar = None\<rparr>],
     db_next_user := 3\<rparr>\<rparr>"

theorem contacts_follow_requests_witness:
  "listed (ge_mysql demo_gate) 1 (snd (AddContact (ge_mysql demo_gate) 1 2 demo_contacts)) = insert 2 (listed (ge_mysql demo_gate) 1 demo_contacts)"
proof -
  have ok: "tables_ok (\<lambda>s. s) demo_contacts"
    by (simp add: demo_contacts_def demo_gate_world_def tables_ok_def users_ok_def contacts_ok_def)
  have "fst (AddContact (ge_mysql demo_gate) 1 2 demo_contacts)"
    by (simp add: AddContact_def contact_statement_def upsert_contact_def same_contact_def demo_contacts_def demo_gate_world_def
        next_fault_def find_user_def)
  then obtain d' where a: "AddContact (ge_mysql demo_gate) 1 2 demo_contacts = (True, d')"
    by (cases "AddContact (ge_mysql demo_gate) 1 2 demo_contacts") simp
  have "listed (ge_mysql demo_gate) 1 d' = (if 1 = (1 :: int) then insert 2 (listed (ge_mysql demo_gate) 1 demo_contacts)
      else listed (ge_mysql demo_gate) 1 demo_contacts)"
    using contacts_follow_requests [OF ok, of "ge_mysql demo_gate" 1 2 1] a by blast
  then show ?thesis by (simp add: a)
qed

end
