(* ===== verification/AvSync.thy ===== *)
theory AvSync
  imports RtcPrelude "HOL-Library.Sublist"
begin

text \<open>
  The playback clock of a remote member in the client
  (rtc_client/core/src/media/receive/avsyncscheduler.cpp).  A video frame is an element of a
  type 'f.  What the sound card, its buffer and the monotonic clock answer is an argument of
  each call; an operation reads the clock once.  qint64 microseconds are integers: with 32 bit
  time stamps they stay far below 2^63.
\<close>

section \<open>Constants\<close>

definition AudioSampleRate :: nat where "AudioSampleRate = 48000"
definition AudioBytesPerSecond :: nat where "AudioBytesPerSecond = AudioSampleRate * 2"
definition AudioPrebufferBytes :: nat where "AudioPrebufferBytes = AudioBytesPerSecond * 40 div 1000"
definition MaxPendingAudioBytes :: nat where "MaxPendingAudioBytes = AudioBytesPerSecond * 120 div 1000"
definition VideoClockRate :: nat where "VideoClockRate = 90000"
definition MaxPendingVideoFrames :: nat where "MaxPendingVideoFrames = 3"
definition VideoEarlyToleranceUs :: int where "VideoEarlyToleranceUs = 10 * 1000"
definition VideoLateThresholdUs :: int where "VideoLateThresholdUs = 100 * 1000"
definition AudioMissingThresholdUs :: int where "AudioMissingThresholdUs = 200 * 1000"

lemmas av_constants = AudioSampleRate_def AudioBytesPerSecond_def AudioPrebufferBytes_def MaxPendingAudioBytes_def
  VideoClockRate_def MaxPendingVideoFrames_def VideoEarlyToleranceUs_def VideoLateThresholdUs_def AudioMissingThresholdUs_def

definition rtpDurationUs :: "u32 \<Rightarrow> nat \<Rightarrow> int" where
  "rtpDurationUs delta rate = int (unat delta * 1000 * 1000 div rate)"

section \<open>State\<close>

text \<open>av_sink is m_audioSink, whose m_audioOutput is set with it.\<close>

record 'f av_sync =
  av_sink :: bool
  av_pending_audio :: "u8 list"
  av_pending_video :: "('f \<times> u32) list"
  av_first_audio :: u32
  av_first_video :: u32
  av_first_audio_arrival :: int
  av_first_video_arrival :: int
  av_last_audio_arrival :: int
  av_has_audio :: bool
  av_has_video :: bool
  av_unavailable :: bool

text \<open>The surroundings of one call: the clock, whether the default device starts, and of the
  sound card its state, its processed time, its free bytes and how many bytes a write takes.\<close>

record av_env =
  ae_now :: int
  ae_device :: bool
  ae_idle :: bool
  ae_processed :: int
  ae_free :: nat
  ae_accepts :: nat

definition AvSyncScheduler_new :: "'f av_sync" where
  "AvSyncScheduler_new = \<lparr>av_sink = False, av_pending_audio = [], av_pending_video = [], av_first_audio = 0,
     av_first_video = 0, av_first_audio_arrival = 0, av_first_video_arrival = 0, av_last_audio_arrival = 0,
     av_has_audio = False, av_has_video = False, av_unavailable = False\<rparr>"

section \<open>Clocks\<close>

definition usesAudioClock :: "av_env \<Rightarrow> 'f av_sync \<Rightarrow> bool" where
  "usesAudioClock e a \<longleftrightarrow> av_sink a \<and>
     (\<not> ae_idle e \<or> ae_now e - av_last_audio_arrival a < AudioMissingThresholdUs \<or> av_pending_audio a \<noteq> [])"

definition audioClockUs :: "av_env \<Rightarrow> 'f av_sync \<Rightarrow> int" where
  "audioClockUs e a =
     (if usesAudioClock e a then rtpDurationUs (av_first_audio a) AudioSampleRate + ae_processed e else ae_now e)"

definition videoPresentationTimeUs :: "av_env \<Rightarrow> u32 \<Rightarrow> 'f av_sync \<Rightarrow> int" where
  "videoPresentationTimeUs e ts a =
     (let elapsed = rtpDurationUs (ts - av_first_video a) VideoClockRate in
      if usesAudioClock e a
      then rtpDurationUs (av_first_audio a) AudioSampleRate + (av_first_video_arrival a - av_first_audio_arrival a) + elapsed
      else av_first_video_arrival a + elapsed)"

section \<open>Operations\<close>

definition queueVideoFrame :: "av_env \<Rightarrow> 'f \<Rightarrow> u32 \<Rightarrow> 'f av_sync \<Rightarrow> 'f av_sync" where
  "queueVideoFrame e frame ts a =
     (let a1 = (if av_has_video a then a
                else a\<lparr>av_first_video := ts, av_first_video_arrival := ae_now e, av_has_video := True\<rparr>);
          kept = (if length (av_pending_video a1) \<ge> MaxPendingVideoFrames then tl (av_pending_video a1)
                  else av_pending_video a1)
      in a1\<lparr>av_pending_video := kept @ [(frame, ts)]\<rparr>)"

definition startAudioPlayback :: "av_env \<Rightarrow> 'f av_sync \<Rightarrow> 'f av_sync" where
  "startAudioPlayback e a =
     (if ae_device e then a\<lparr>av_sink := True\<rparr> else a\<lparr>av_unavailable := True, av_pending_audio := []\<rparr>)"

text \<open>The bytes that reach the sound card, and the new state.\<close>

definition writePendingAudio :: "av_env \<Rightarrow> 'f av_sync \<Rightarrow> u8 list \<times> 'f av_sync" where
  "writePendingAudio e a =
     (if \<not> av_sink a \<or> av_pending_audio a = [] then ([], a)
      else let n = min (ae_accepts e) (min (ae_free e) (length (av_pending_audio a))) in
        (take n (av_pending_audio a), a\<lparr>av_pending_audio := drop n (av_pending_audio a)\<rparr>))"

definition queueAudioPcm :: "av_env \<Rightarrow> u8 list \<Rightarrow> u32 \<Rightarrow> 'f av_sync \<Rightarrow> u8 list \<times> 'f av_sync" where
  "queueAudioPcm e pcm ts a =
     (if av_unavailable a then ([], a)
      else let a1 = (if av_has_audio a then a
                     else a\<lparr>av_first_audio := ts, av_first_audio_arrival := ae_now e, av_has_audio := True\<rparr>);
               data = av_pending_audio a1 @ pcm;
               a2 = a1\<lparr>av_last_audio_arrival := ae_now e,
                       av_pending_audio := drop (length data - MaxPendingAudioBytes) data\<rparr>;
               a3 = (if \<not> av_sink a2 \<and> length (av_pending_audio a2) \<ge> AudioPrebufferBytes
                     then startAudioPlayback e a2 else a2)
           in writePendingAudio e a3)"

text \<open>The loop over the waiting frames: the frame that is shown, and the frames that stay.\<close>

fun show_loop :: "av_env \<Rightarrow> 'f av_sync \<Rightarrow> ('f \<times> u32) list \<Rightarrow> 'f option \<times> ('f \<times> u32) list" where
  "show_loop e a [] = (None, [])"
| "show_loop e a ((frame, ts) # rest) =
     (let difference = videoPresentationTimeUs e ts a - audioClockUs e a in
      if difference > VideoEarlyToleranceUs then (None, (frame, ts) # rest)
      else if difference < - VideoLateThresholdUs then show_loop e a rest
      else (Some frame, rest))"

definition updatePlayback :: "av_env \<Rightarrow> 'f av_sync \<Rightarrow> (u8 list \<times> 'f option) \<times> 'f av_sync" where
  "updatePlayback e a =
     (case writePendingAudio e a of (out, a1) \<Rightarrow>
        if av_has_audio a1 \<and> \<not> av_unavailable a1 \<and> \<not> av_sink a1
           \<and> ae_now e - av_last_audio_arrival a1 < AudioMissingThresholdUs
        then ((out, None), a1)
        else case show_loop e a1 (av_pending_video a1) of (shown, rest) \<Rightarrow>
          ((out, shown), a1\<lparr>av_pending_video := rest\<rparr>))"

section \<open>Runs\<close>

datatype 'f av_call = QueueVideo 'f u32 | QueueAudio "u8 list" u32 | Update

text \<open>The bytes played, the frames shown and the state after a sequence of calls.\<close>

fun av_step :: "av_env \<Rightarrow> 'f av_call \<Rightarrow> 'f av_sync \<Rightarrow> (u8 list \<times> 'f option) \<times> 'f av_sync" where
  "av_step e (QueueVideo f ts) a = (([], None), queueVideoFrame e f ts a)"
| "av_step e (QueueAudio pcm ts) a = (case queueAudioPcm e pcm ts a of (out, a1) \<Rightarrow> ((out, None), a1))"
| "av_step e Update a = updatePlayback e a"

fun av_run :: "(av_env \<times> 'f av_call) list \<Rightarrow> 'f av_sync \<Rightarrow> (u8 list \<times> 'f list) \<times> 'f av_sync" where
  "av_run [] a = (([], []), a)"
| "av_run ((e, c) # cs) a = (case av_step e c a of ((out, shown), a1) \<Rightarrow>
     case av_run cs a1 of ((outs, showns), a2) \<Rightarrow> ((out @ outs, (case shown of None \<Rightarrow> showns | Some f \<Rightarrow> f # showns)), a2))"

fun queued_pcm :: "(av_env \<times> 'f av_call) list \<Rightarrow> u8 list" where
  "queued_pcm [] = []"
| "queued_pcm ((e, QueueAudio pcm ts) # cs) = pcm @ queued_pcm cs"
| "queued_pcm (_ # cs) = queued_pcm cs"

fun queued_frames :: "(av_env \<times> 'f av_call) list \<Rightarrow> 'f list" where
  "queued_frames [] = []"
| "queued_frames ((e, QueueVideo f ts) # cs) = f # queued_frames cs"
| "queued_frames (_ # cs) = queued_frames cs"

section \<open>Order and bounds\<close>

definition av_ok :: "'f av_sync \<Rightarrow> bool" where
  "av_ok a \<longleftrightarrow> length (av_pending_audio a) \<le> MaxPendingAudioBytes \<and> length (av_pending_video a) \<le> MaxPendingVideoFrames"

lemma writePendingAudio_split:
  assumes "writePendingAudio e a = (out, a1)"
  shows "out @ av_pending_audio a1 = av_pending_audio a" "av_pending_video a1 = av_pending_video a"
  using assms by (auto simp: writePendingAudio_def Let_def split: if_splits)

lemma show_loop_suffix:
  "show_loop e a fs = (shown, rest) \<Longrightarrow> suffix ((case shown of None \<Rightarrow> [] | Some f \<Rightarrow> [f]) @ map fst rest) (map fst fs)
    \<and> suffix rest fs"
proof (induction e a fs rule: show_loop.induct)
  case (2 e a frame ts fs)
  then show ?case by (auto simp: Let_def suffix_Cons split: if_splits)
qed simp

text \<open>One call: what it plays and shows is taken from the front of what was waiting.\<close>

lemma av_step_order:
  assumes "av_step e c a = ((out, shown), a1)"
  shows "subseq (out @ av_pending_audio a1) (av_pending_audio a @ queued_pcm [(e, c)])"
    "subseq ((case shown of None \<Rightarrow> [] | Some f \<Rightarrow> [f]) @ map fst (av_pending_video a1)) (map fst (av_pending_video a) @ queued_frames [(e, c)])"
    "av_ok a \<Longrightarrow> av_ok a1"
proof -
  have "subseq (out @ av_pending_audio a1) (av_pending_audio a @ queued_pcm [(e, c)]) \<and>
    subseq ((case shown of None \<Rightarrow> [] | Some f \<Rightarrow> [f]) @ map fst (av_pending_video a1)) (map fst (av_pending_video a) @ queued_frames [(e, c)]) \<and>
    (av_ok a \<longrightarrow> av_ok a1)"
  proof (cases c)
    case (QueueVideo f ts)
    have "subseq (map fst (tl (av_pending_video a)) @ [f]) (map fst (av_pending_video a) @ [f])"
      by (cases "av_pending_video a") (auto intro: list_emb_Cons)
    then show ?thesis using assms QueueVideo
      by (auto simp: queueVideoFrame_def Let_def av_ok_def MaxPendingVideoFrames_def)
  next
    case (QueueAudio pcm ts)
    have s: "subseq (drop n xs) xs" for n and xs :: "u8 list" by (simp add: suffix_drop suffix_imp_subseq)
    show ?thesis
    proof (cases "av_unavailable a")
      case True
      then show ?thesis using assms QueueAudio by (auto simp: queueAudioPcm_def)
    next
      case False
      define d where "d = drop (length (av_pending_audio a @ pcm) - MaxPendingAudioBytes) (av_pending_audio a @ pcm)"
      obtain a3 where w: "writePendingAudio e a3 = (out, a1)" and p: "av_pending_audio a3 = d \<or> av_pending_audio a3 = []"
        "av_pending_video a3 = av_pending_video a" "shown = None"
        using assms QueueAudio False
        by (auto simp: queueAudioPcm_def startAudioPlayback_def Let_def d_def split: prod.splits if_splits)
      note sp = writePendingAudio_split [OF w]
      have "subseq d (av_pending_audio a @ pcm)" unfolding d_def by (rule s)
      moreover have "length d \<le> MaxPendingAudioBytes" by (simp add: d_def)
      moreover have "length (av_pending_audio a1) \<le> length (av_pending_audio a3)" using arg_cong [OF sp(1), of length] by simp
      ultimately show ?thesis using sp p QueueAudio by (auto simp: av_ok_def)
    qed
  next
    case Update
    obtain out1 a2 where w: "writePendingAudio e a = (out1, a2)" by fastforce
    note sp = writePendingAudio_split [OF w]
    obtain sh rest where l: "show_loop e a2 (av_pending_video a2) = (sh, rest)" by fastforce
    note sf = show_loop_suffix [OF l]
    have len: "length (av_pending_audio a2) \<le> length (av_pending_audio a)" using arg_cong [OF sp(1), of length] by simp
    have rl: "length rest \<le> length (av_pending_video a)" using sf sp(2) suffix_length_le by fastforce
    show ?thesis using assms Update w l sp sf len rl
      by (auto simp: updatePlayback_def av_ok_def suffix_imp_subseq split: if_splits)
  qed
  then show "subseq (out @ av_pending_audio a1) (av_pending_audio a @ queued_pcm [(e, c)])"
    "subseq ((case shown of None \<Rightarrow> [] | Some f \<Rightarrow> [f]) @ map fst (av_pending_video a1)) (map fst (av_pending_video a) @ queued_frames [(e, c)])"
    "av_ok a \<Longrightarrow> av_ok a1" by simp_all
qed

lemma queued_append: "queued_pcm (x # cs) = queued_pcm [x] @ queued_pcm cs" "queued_frames (x # cs) = queued_frames [x] @ queued_frames cs"
  by (cases x; cases "snd x"; simp)+

lemma av_run_order:
  assumes "av_run cs a = ((outs, showns), a')" "av_ok a"
  shows "subseq (outs @ av_pending_audio a') (av_pending_audio a @ queued_pcm cs)
    \<and> subseq (showns @ map fst (av_pending_video a')) (map fst (av_pending_video a) @ queued_frames cs) \<and> av_ok a'"
  using assms
proof (induction cs a arbitrary: outs showns rule: av_run.induct)
  case (2 e c cs a)
  obtain out shown a1 where c: "av_step e c a = ((out, shown), a1)" by (metis prod.collapse)
  obtain o1 s1 where r: "av_run cs a1 = ((o1, s1), a')" and eq: "outs = out @ o1" "showns = (case shown of None \<Rightarrow> s1 | Some f \<Rightarrow> f # s1)"
    using 2(2) c by (auto split: prod.splits)
  note order = av_step_order [OF c]
  have ih: "subseq (o1 @ av_pending_audio a') (av_pending_audio a1 @ queued_pcm cs)"
    "subseq (s1 @ map fst (av_pending_video a')) (map fst (av_pending_video a1) @ queued_frames cs)" "av_ok a'"
    using 2(1) [OF c [symmetric] refl r order(3) [OF 2(3)]] by simp_all
  have "subseq (outs @ av_pending_audio a') (out @ av_pending_audio a1 @ queued_pcm cs)" using ih(1) eq by (simp add: subseq_append')
  also have "subseq \<dots> (av_pending_audio a @ queued_pcm ((e, c) # cs))"
    using list_emb_append_mono [OF order(1) subseq_order.refl, of "queued_pcm cs"] queued_append(1) [of "(e, c)" cs] by simp
  finally have A: "subseq (outs @ av_pending_audio a') (av_pending_audio a @ queued_pcm ((e, c) # cs))" .
  have "subseq (showns @ map fst (av_pending_video a')) ((case shown of None \<Rightarrow> [] | Some f \<Rightarrow> [f]) @ map fst (av_pending_video a1) @ queued_frames cs)"
    using ih(2) eq by (cases shown) (simp_all add: subseq_append')
  also have "subseq \<dots> (map fst (av_pending_video a) @ queued_frames ((e, c) # cs))"
    using list_emb_append_mono [OF order(2) subseq_order.refl, of "queued_frames cs"] queued_append(2) [of "(e, c)" cs] by simp
  finally show ?case using A ih(3) by simp
qed simp

lemma subseq_front: "subseq (xs @ ys) zs \<Longrightarrow> subseq xs zs"
  using subseq_order.trans [of xs "xs @ ys" zs] by (simp add: prefix_imp_subseq)

text \<open>C40: Playback keeps the order.  Whatever a remote member sends and however the sound card
  behaves, the bytes that are played and the frames that are shown are those that were
  queued, in their order and at most once each, and never more than 120 ms of sound and three
  frames wait.\<close>

theorem playback_in_order:
  assumes "av_run cs AvSyncScheduler_new = ((outs, showns), a)"
  shows "subseq outs (queued_pcm cs) \<and> subseq showns (queued_frames cs)
    \<and> length (av_pending_audio a) \<le> 11520 \<and> length (av_pending_video a) \<le> 3"
proof -
  have r: "subseq (outs @ av_pending_audio a) (queued_pcm cs) \<and> subseq (showns @ map fst (av_pending_video a)) (queued_frames cs) \<and> av_ok a"
    using av_run_order [OF assms] by (simp add: AvSyncScheduler_new_def av_ok_def)
  then have "subseq outs (queued_pcm cs)" "subseq showns (queued_frames cs)" by (blast intro: subseq_front)+
  with r show ?thesis by (simp add: av_ok_def av_constants)
qed

text \<open>Three frames and no sound: the second frame is late when it is looked at, the others are shown.\<close>

theorem playback_in_order_witness:
  "snd (fst (av_run
     [(\<lparr>ae_now = 0, ae_device = False, ae_idle = False, ae_processed = 0, ae_free = 0, ae_accepts = 0\<rparr>, QueueVideo ''a'' 0),
      (\<lparr>ae_now = 0, ae_device = False, ae_idle = False, ae_processed = 0, ae_free = 0, ae_accepts = 0\<rparr>, Update),
      (\<lparr>ae_now = 300000, ae_device = False, ae_idle = False, ae_processed = 0, ae_free = 0, ae_accepts = 0\<rparr>, QueueVideo ''b'' 3000),
      (\<lparr>ae_now = 300000, ae_device = False, ae_idle = False, ae_processed = 0, ae_free = 0, ae_accepts = 0\<rparr>, QueueVideo ''c'' 27000),
      (\<lparr>ae_now = 300000, ae_device = False, ae_idle = False, ae_processed = 0, ae_free = 0, ae_accepts = 0\<rparr>, Update)]
     AvSyncScheduler_new)) = [''a'', ''c'']
   \<and> subseq [''a'', ''c''] [''a'', ''b'', ''c'']"
proof -
  let ?e = "\<lambda>t. \<lparr>ae_now = t, ae_device = False, ae_idle = False, ae_processed = 0, ae_free = 0, ae_accepts = 0\<rparr>"
  let ?cs = "[(?e 0, QueueVideo ''a'' 0), (?e 0, Update), (?e 300000, QueueVideo ''b'' 3000), (?e 300000, QueueVideo ''c'' 27000), (?e 300000, Update)]"
  have f: "snd (fst (av_run ?cs AvSyncScheduler_new)) = [''a'', ''c'']"
    by (simp add: AvSyncScheduler_new_def queueVideoFrame_def updatePlayback_def writePendingAudio_def Let_def
        videoPresentationTimeUs_def audioClockUs_def usesAudioClock_def rtpDurationUs_def av_constants)
  moreover obtain outs showns a where r: "av_run ?cs AvSyncScheduler_new = ((outs, showns), a)" by (metis prod.collapse)
  ultimately show ?thesis using playback_in_order [OF r] by simp
qed

section \<open>The wrap of the time stamps\<close>

lemma rtp_of_nat: "rtpDurationUs (of_nat n) VideoClockRate = int (n mod 2 ^ 32 * 1000 * 1000 div 90000)"
  by (simp add: rtpDurationUs_def unat_of_nat VideoClockRate_def)

text \<open>Video stops when its time stamps wrap.  Take a member that sends no sound and whose
  frames arrive in real time: the frame with n clock ticks after the first one arrives n / 90000
  seconds after it.  For the first 2^32 ticks (13 hours and 15 minutes) such a frame is shown
  at once; from then on, up to twice that time, it is dropped: the difference of two 32 bit
  stamps starts again at 0, while the local clock goes on.\<close>

theorem video_stops_at_wrap:
  fixes a :: "'f av_sync"
  assumes "av_has_video a" "\<not> av_has_audio a" "\<not> av_sink a" "av_pending_video a = []"
    and "ts = av_first_video a + of_nat n" "ae_now e = av_first_video_arrival a + int (n * 1000 * 1000 div 90000)" "n < 2 * 2 ^ 32"
  shows "snd (fst (updatePlayback e (queueVideoFrame e frame ts a))) = (if n < 2 ^ 32 then Some frame else None)
    \<and> av_pending_video (snd (updatePlayback e (queueVideoFrame e frame ts a))) = []"
proof -
  define b where "b = queueVideoFrame e frame ts a"
  have b: "av_pending_video b = [(frame, ts)]" "\<not> av_has_audio b" "\<not> av_sink b" "av_first_video b = av_first_video a"
    "av_first_video_arrival b = av_first_video_arrival a"
    using assms(1-4) by (simp_all add: b_def queueVideoFrame_def MaxPendingVideoFrames_def)
  have w: "writePendingAudio e b = ([], b)" using b(3) by (simp add: writePendingAudio_def)
  have "ts - av_first_video b = of_nat n" using assms(5) b(4) by simp
  then have d: "videoPresentationTimeUs e ts b - audioClockUs e b
      = int (n mod 2 ^ 32 * 1000 * 1000 div 90000) - int (n * 1000 * 1000 div 90000)"
    using b assms(6) by (simp add: videoPresentationTimeUs_def audioClockUs_def usesAudioClock_def rtp_of_nat Let_def)
  show ?thesis
  proof (cases "n < 2 ^ 32")
    case True
    then show ?thesis unfolding b_def [symmetric] using b w d
      by (simp add: updatePlayback_def Let_def VideoEarlyToleranceUs_def VideoLateThresholdUs_def)
  next
    case False
    define k where "k = n - 2 ^ 32"
    have k: "n = k + 2 ^ 32" "k < 2 ^ 32" using False assms(7) by (simp_all add: k_def)
    have "n mod 2 ^ 32 = k" using k by simp
    moreover have "n * 1000 * 1000 div 90000 \<ge> k * 1000 * 1000 div 90000 + 47000000000"
      using k(1) by simp
    ultimately have "int (n mod 2 ^ 32 * 1000 * 1000 div 90000) - int (n * 1000 * 1000 div 90000) < - VideoLateThresholdUs"
      by (simp add: VideoLateThresholdUs_def)
    then show ?thesis unfolding b_def [symmetric] using b w d False
      by (simp add: updatePlayback_def Let_def VideoEarlyToleranceUs_def VideoLateThresholdUs_def)
  qed
qed

theorem video_stops_at_wrap_witness:
  "snd (fst (updatePlayback \<lparr>ae_now = 47721858844, ae_device = True, ae_idle = False, ae_processed = 0, ae_free = 0, ae_accepts = 0\<rparr>
     (queueVideoFrame \<lparr>ae_now = 47721858844, ae_device = True, ae_idle = False, ae_processed = 0, ae_free = 0, ae_accepts = 0\<rparr> ''f'' 0
       (AvSyncScheduler_new\<lparr>av_has_video := True\<rparr>)))) = None"
proof -
  have n: "(2 :: nat) ^ 32 = 4294967296" by simp
  have "(of_nat (2 ^ 32) :: u32) = 0" by (simp only: n) simp
  then show ?thesis
    using video_stops_at_wrap [of "AvSyncScheduler_new\<lparr>av_has_video := True\<rparr>" 0 "2 ^ 32"
      "\<lparr>ae_now = 47721858844, ae_device = True, ae_idle = False, ae_processed = 0, ae_free = 0, ae_accepts = 0\<rparr>" "''f''"]
    by (simp add: AvSyncScheduler_new_def)
qed

end
