(* ===== verification/ClientQt.thy ===== *)
theory ClientQt
  imports RtcPrelude
begin

text \<open>
  What the client (rtc_client/core/src) uses of Qt: the accessors of QJsonValue, written out,
  and the text functions of QString and QDateTime, which are parameters.
\<close>

text \<open>trimmed, toLower, toULongLong and toLongLong with their ok flag, the text of a number with
  a fraction, QTime::fromString with HH:mm, QDateTime::fromString with and without
  milliseconds (taken as UTC), and the local HH:mm of such a time.\<close>

record qt =
  qt_trimmed :: "string \<Rightarrow> string"
  qt_lower :: "string \<Rightarrow> string"
  qt_to_ull :: "string \<Rightarrow> u64 option"
  qt_to_ll :: "string \<Rightarrow> int option"
  qt_real_text :: "rat \<Rightarrow> string"
  qt_is_time :: "string \<Rightarrow> bool"
  qt_datetime_zzz :: "string \<Rightarrow> int option"
  qt_datetime :: "string \<Rightarrow> int option"
  qt_local_hhmm :: "int \<Rightarrow> string"

definition q_ull :: "qt \<Rightarrow> string \<Rightarrow> u64" where
  "q_ull q s = (case qt_to_ull q s of None \<Rightarrow> 0 | Some n \<Rightarrow> n)"

definition q_ll :: "qt \<Rightarrow> string \<Rightarrow> int" where
  "q_ll q s = (case qt_to_ll q s of None \<Rightarrow> 0 | Some n \<Rightarrow> n)"

fun is_array :: "json \<Rightarrow> bool" where
  "is_array (JArray _) = True"
| "is_array _ = False"

fun to_array :: "json \<Rightarrow> json list" where
  "to_array (JArray vs) = vs"
| "to_array _ = []"

text \<open>toInt with a default: numbers without a fraction in the range of int.\<close>

definition to_int :: "json \<Rightarrow> int \<Rightarrow> int" where
  "to_int v dflt = (if is_int v then as_int v else dflt)"

text \<open>toVariant().toString() and toVariant().toLongLong().\<close>

fun variant_text :: "qt \<Rightarrow> json \<Rightarrow> string" where
  "variant_text q (JString s) = s"
| "variant_text q (JInt i) = int_to_string i"
| "variant_text q (JReal r) = qt_real_text q r"
| "variant_text q (JBool b) = (if b then ''true'' else ''false'')"
| "variant_text q _ = []"

fun variant_ll :: "qt \<Rightarrow> json \<Rightarrow> int" where
  "variant_ll q (JString s) = q_ll q s"
| "variant_ll q (JInt i) = i"
| "variant_ll q (JReal r) = \<lfloor>r + 1 / 2\<rfloor>"
| "variant_ll q (JBool b) = (if b then 1 else 0)"
| "variant_ll q _ = 0"

text \<open>value(key).toString() and its trimmed forms.\<close>

definition jtext :: "json \<Rightarrow> string \<Rightarrow> string" where
  "jtext v k = as_string (jget v k)"

definition jtrim :: "qt \<Rightarrow> json \<Rightarrow> string \<Rightarrow> string" where
  "jtrim q v k = qt_trimmed q (jtext v k)"

definition jlower :: "qt \<Rightarrow> json \<Rightarrow> string \<Rightarrow> string" where
  "jlower q v k = qt_lower q (jtrim q v k)"

definition jid_text :: "qt \<Rightarrow> json \<Rightarrow> string \<Rightarrow> string" where
  "jid_text q v k = qt_trimmed q (variant_text q (jget v k))"

text \<open>value("error").toInt(ERROR_JSON).\<close>

definition error_of :: "json \<Rightarrow> int" where
  "error_of v = to_int (jget v ''error'') 1"

end
