(* ===== verification/ChatCtl.thy ===== *)
theory ChatCtl
  imports ClientQt
begin

text \<open>
  The chat of a meeting in the client (controllers/meeting/chatcontroller.cpp).  The signals
  that only refresh the list view are left out; the others are events.  A new message takes its
  client id (QUuid::createUuid) and its time of day from the arguments.
\<close>

section \<open>Messages\<close>

record chat_message =
  cm_message_id :: string
  cm_client_msg_id :: string
  cm_meeting :: string
  cm_chat_type :: string
  cm_sender :: int
  cm_sender_name :: string
  cm_receiver :: string
  cm_content :: string
  cm_created_at :: string
  cm_delivery :: string
  cm_is_mine :: bool

record chat_ctl =
  cc_active :: string
  cc_messages :: "chat_message list"

datatype chat_event =
    SendData u16 json
  | MessageSendFailed string int
  | GroupHistoryLoadFailed int
  | PrivateHistoryLoadFailed string int
  | HistoryMessagesLoaded string string nat bool

text \<open>The milliseconds are cut to three digits before the time is read.\<close>

definition formatMessageTimeForDisplay :: "qt \<Rightarrow> string \<Rightarrow> string" where
  "formatMessageTimeForDisplay q createdAt =
     (let t = qt_trimmed q createdAt;
          dot = length (takeWhile (\<lambda>c. c \<noteq> CHR ''.'') t);
          normalized = (if CHR ''.'' \<in> set t \<and> length t > dot + 4 then take (dot + 4) t else t)
      in if t = [] then []
         else if qt_is_time q t then t
         else case qt_datetime_zzz q normalized of
             Some x \<Rightarrow> qt_local_hhmm q x
           | None \<Rightarrow> (case qt_datetime q normalized of Some x \<Rightarrow> qt_local_hhmm q x | None \<Rightarrow> t))"

definition messageFromJson :: "qt \<Rightarrow> json \<Rightarrow> chat_message option" where
  "messageFromJson q v =
     (let m = \<lparr>cm_message_id = jtext v ''message_id'', cm_client_msg_id = jtext v ''client_msg_id'',
            cm_meeting = jtext v ''meeting_id'', cm_chat_type = jtext v ''chat_type'',
            cm_sender = variant_ll q (jget v ''sender_user_id''), cm_sender_name = jtext v ''sender_name'',
            cm_receiver = variant_text q (jget v ''receiver_user_id''), cm_content = jtext v ''content'',
            cm_created_at = formatMessageTimeForDisplay q (jtext v ''created_at''), cm_delivery = [],
            cm_is_mine = as_bool (jget v ''is_mine'')\<rparr>;
          isGroup = cm_chat_type m = ''group'';
          isPrivate = cm_chat_type m = ''private'' \<and> q_ll q (cm_receiver m) > 0
      in if cm_message_id m \<noteq> [] \<and> cm_client_msg_id m \<noteq> [] \<and> cm_meeting m \<noteq> [] \<and> (isGroup \<or> isPrivate)
            \<and> cm_sender m > 0 \<and> cm_sender_name m \<noteq> [] \<and> cm_content m \<noteq> [] \<and> cm_created_at m \<noteq> []
         then Some m else None)"

definition belongsToConversation :: "chat_message \<Rightarrow> string \<Rightarrow> string \<Rightarrow> bool" where
  "belongsToConversation m chatType peer \<longleftrightarrow>
     (if chatType = ''group'' then cm_chat_type m = ''group''
      else chatType = ''private'' \<and> peer \<noteq> [] \<and> cm_chat_type m = ''private''
        \<and> (int_to_string (cm_sender m) = peer \<or> cm_receiver m = peer))"

text \<open>The first row with a property.\<close>

fun find_row :: "('a \<Rightarrow> bool) \<Rightarrow> 'a list \<Rightarrow> nat option" where
  "find_row P [] = None"
| "find_row P (x # xs) = (if P x then Some 0 else map_option Suc (find_row P xs))"

definition findMessage :: "string \<Rightarrow> chat_message list \<Rightarrow> nat option" where
  "findMessage client = find_row (\<lambda>m. cm_client_msg_id m = client)"

definition findMessageByServerId :: "string \<Rightarrow> chat_message list \<Rightarrow> nat option" where
  "findMessageByServerId i ms = (if i = [] then None else find_row (\<lambda>m. cm_message_id m = i) ms)"

section \<open>Sending and asking\<close>

definition ChatController_new :: chat_ctl where
  "ChatController_new = \<lparr>cc_active = [], cc_messages = []\<rparr>"

definition setActiveMeetingId :: "string \<Rightarrow> chat_ctl \<Rightarrow> chat_ctl" where
  "setActiveMeetingId meeting c = (if cc_active c = meeting then c else \<lparr>cc_active = meeting, cc_messages = []\<rparr>)"

definition sendMessage :: "qt \<Rightarrow> string \<Rightarrow> string \<Rightarrow> string \<Rightarrow> string \<Rightarrow> string \<Rightarrow> string \<Rightarrow> chat_ctl
    \<Rightarrow> chat_event list \<times> chat_ctl" where
  "sendMessage q uuid now meeting chatType target content c =
     (let t = qt_trimmed q content in
      if meeting = [] \<or> meeting \<noteq> cc_active c \<or> t = [] \<or> chatType = ''private'' \<and> target = [] then ([], c)
      else ([SendData 1026 (JObject [(''meeting_id'', JString meeting), (''chat_type'', JString chatType),
               (''target_user_id'', if chatType = ''group'' then JNull else JInt (q_ll q target)),
               (''content'', JString t), (''client_msg_id'', JString uuid)])],
            c\<lparr>cc_messages := cc_messages c @ [\<lparr>cm_message_id = [], cm_client_msg_id = uuid, cm_meeting = meeting,
               cm_chat_type = chatType, cm_sender = 0, cm_sender_name = map char_of [230, 136, 145 :: nat],
               cm_receiver = target, cm_content = t, cm_created_at = now, cm_delivery = ''sending'', cm_is_mine = True\<rparr>]\<rparr>))"

definition sendGroupMessage :: "qt \<Rightarrow> string \<Rightarrow> string \<Rightarrow> string \<Rightarrow> string \<Rightarrow> chat_ctl \<Rightarrow> chat_event list \<times> chat_ctl" where
  "sendGroupMessage q uuid now meeting content = sendMessage q uuid now meeting ''group'' [] content"

definition sendPrivateMessage :: "qt \<Rightarrow> string \<Rightarrow> string \<Rightarrow> string \<Rightarrow> int \<Rightarrow> string \<Rightarrow> chat_ctl \<Rightarrow> chat_event list \<times> chat_ctl" where
  "sendPrivateMessage q uuid now meeting target content c =
     (if target \<le> 0 then ([], c) else sendMessage q uuid now meeting ''private'' (int_to_string target) content c)"

text \<open>The cast of the id to qint64 wraps.\<close>

definition requestHistory :: "qt \<Rightarrow> string \<Rightarrow> string \<Rightarrow> string \<Rightarrow> string \<Rightarrow> int \<Rightarrow> chat_ctl \<Rightarrow> chat_event list" where
  "requestHistory q meeting chatType peer before limit c =
     (if meeting = [] \<or> meeting \<noteq> cc_active c then []
      else if chatType \<noteq> ''group'' \<and> (chatType \<noteq> ''private'' \<or> q_ll q peer \<le> 0) then []
      else [SendData (if chatType = ''group'' then 1034 else 1036) (JObject
        ([(''meeting_id'', JString meeting), (''before_message_id'', JInt (sint (q_ull q before))),
          (''limit'', JInt (max 1 (min limit 100)))]
         @ (if chatType = ''private'' then [(''peer_user_id'', JInt (q_ll q peer))] else [])))])"

definition requestGroupHistory :: "qt \<Rightarrow> string \<Rightarrow> string \<Rightarrow> int \<Rightarrow> chat_ctl \<Rightarrow> chat_event list" where
  "requestGroupHistory q meeting before limit = requestHistory q meeting ''group'' [] before limit"

definition earliestMessageId :: "string \<Rightarrow> string \<Rightarrow> chat_ctl \<Rightarrow> string" where
  "earliestMessageId chatType peer c = (case find (\<lambda>m. belongsToConversation m chatType peer) (cc_messages c) of
     None \<Rightarrow> [] | Some m \<Rightarrow> cm_message_id m)"

section \<open>Answers\<close>

definition applySendMessageAck :: "qt \<Rightarrow> json \<Rightarrow> chat_ctl \<Rightarrow> bool \<times> chat_event list \<times> chat_ctl" where
  "applySendMessageAck q v c =
     (let client = jtext v ''client_msg_id'' in
      if client = [] then (False, [], c)
      else case findMessage client (cc_messages c) of
          None \<Rightarrow> (True, [], c)
        | Some row \<Rightarrow>
            if error_of v \<noteq> 0 then
              (True, [MessageSendFailed client (error_of v)],
               c\<lparr>cc_messages := (cc_messages c)[row := (cc_messages c ! row)\<lparr>cm_delivery := ''failed''\<rparr>]\<rparr>)
            else case messageFromJson q v of
                None \<Rightarrow> (False, [], c)
              | Some m \<Rightarrow>
                  if cm_meeting m \<noteq> cc_active c then (False, [], c)
                  else (True, [], c\<lparr>cc_messages := (cc_messages c)[row := m\<lparr>cm_delivery := ''sent'', cm_is_mine := True\<rparr>]\<rparr>))"

definition applyMessageReceived :: "qt \<Rightarrow> json \<Rightarrow> chat_ctl \<Rightarrow> bool \<times> chat_ctl" where
  "applyMessageReceived q v c =
     (case messageFromJson q v of
        None \<Rightarrow> (False, c)
      | Some m \<Rightarrow>
          if cm_meeting m \<noteq> cc_active c then (True, c)
          else case findMessage (cm_client_msg_id m) (cc_messages c) of
              Some row \<Rightarrow> (True, c\<lparr>cc_messages := (cc_messages c)[row := m\<lparr>cm_delivery := ''sent'', cm_is_mine := True\<rparr>]\<rparr>)
            | None \<Rightarrow> (True, c\<lparr>cc_messages := cc_messages c @ [m\<lparr>cm_delivery := ''sent'', cm_is_mine := False\<rparr>]\<rparr>))"

text \<open>One message of a page: it replaces the row of its client id, or of its server id, or is new.\<close>

definition merge_one :: "chat_message \<Rightarrow> chat_message list \<Rightarrow> nat \<times> chat_message list" where
  "merge_one m ms = (case (case findMessage (cm_client_msg_id m) ms of
         None \<Rightarrow> findMessageByServerId (cm_message_id m) ms | Some row \<Rightarrow> Some row) of
       Some row \<Rightarrow> (0, ms[row := m])
     | None \<Rightarrow> (1, ms @ [m]))"

fun merge_all :: "chat_message list \<Rightarrow> chat_message list \<Rightarrow> nat \<times> chat_message list" where
  "merge_all [] ms = (0, ms)"
| "merge_all (m # page) ms = (case merge_one m ms of (a, ms1) \<Rightarrow> case merge_all page ms1 of (b, ms2) \<Rightarrow> (a + b, ms2))"

text \<open>The order of std::stable_sort: by server id, messages without one at the end.\<close>

definition message_before :: "qt \<Rightarrow> chat_message \<Rightarrow> chat_message \<Rightarrow> bool" where
  "message_before q l r =
     (let a = q_ull q (cm_message_id l); b = q_ull q (cm_message_id r) in
      if a = 0 \<or> b = 0 then a \<noteq> 0 \<and> b = 0 else a < b)"

definition sort_pos :: "qt \<Rightarrow> chat_message \<Rightarrow> nat" where
  "sort_pos q m = (let a = q_ull q (cm_message_id m) in if a = 0 then 2 ^ 64 else unat a)"

definition mergeHistoryMessages :: "qt \<Rightarrow> chat_message list \<Rightarrow> chat_message list \<Rightarrow> nat \<times> chat_message list" where
  "mergeHistoryMessages q page ms =
     (if page = [] then (0, ms) else case merge_all page ms of (added, ms1) \<Rightarrow> (added, sort_key (sort_pos q) ms1))"

text \<open>The messages of a page: None when one of them is not acceptable.\<close>

fun page_messages :: "qt \<Rightarrow> (chat_message \<Rightarrow> bool) \<Rightarrow> json list \<Rightarrow> chat_message list option" where
  "page_messages q P [] = Some []"
| "page_messages q P (v # vs) =
     (if \<not> is_object v then None
      else case messageFromJson q v of
          None \<Rightarrow> None
        | Some m \<Rightarrow> if P m then map_option ((#) (m\<lparr>cm_delivery := ''sent''\<rparr>)) (page_messages q P vs) else None)"

definition history_loaded :: "qt \<Rightarrow> string \<Rightarrow> string \<Rightarrow> (chat_message \<Rightarrow> bool) \<Rightarrow> json \<Rightarrow> chat_ctl
    \<Rightarrow> bool \<times> chat_event list \<times> chat_ctl" where
  "history_loaded q chatType peer P v c =
     (let messages = to_array (jget v ''messages'') in
      case page_messages q P messages of
          None \<Rightarrow> (False, [], c)
        | Some page \<Rightarrow> (case mergeHistoryMessages q page (cc_messages c) of (added, ms) \<Rightarrow>
            (True, [HistoryMessagesLoaded chatType peer added (int (length messages) \<ge> to_int (jget v ''limit'') 50)],
             c\<lparr>cc_messages := ms\<rparr>)))"

definition applyGroupHistoryResponse :: "qt \<Rightarrow> json \<Rightarrow> chat_ctl \<Rightarrow> bool \<times> chat_event list \<times> chat_ctl" where
  "applyGroupHistoryResponse q v c =
     (if jtext v ''meeting_id'' \<noteq> cc_active c then (True, [], c)
      else if error_of v \<noteq> 0 then (True, [GroupHistoryLoadFailed (error_of v)], c)
      else if \<not> is_array (jget v ''messages'') then (False, [], c)
      else history_loaded q ''group'' [] (\<lambda>m. cm_chat_type m = ''group'') v c)"

definition applyPrivateHistoryResponse :: "qt \<Rightarrow> json \<Rightarrow> chat_ctl \<Rightarrow> bool \<times> chat_event list \<times> chat_ctl" where
  "applyPrivateHistoryResponse q v c =
     (let peer = variant_ll q (jget v ''peer_user_id'') in
      if jtext v ''meeting_id'' \<noteq> cc_active c then (True, [], c)
      else if error_of v \<noteq> 0 then (True, [PrivateHistoryLoadFailed (int_to_string peer) (error_of v)], c)
      else if \<not> is_array (jget v ''messages'') \<or> peer \<le> 0 then (False, [], c)
      else history_loaded q ''private'' (int_to_string peer) (\<lambda>m. belongsToConversation m ''private'' (int_to_string peer)) v c)"

text \<open>Messages that are on their way when the connection is lost.\<close>

definition chat_connectionInterrupted :: "chat_ctl \<Rightarrow> chat_ctl" where
  "chat_connectionInterrupted c = c\<lparr>cc_messages :=
     map (\<lambda>m. if cm_delivery m = ''sending'' then m\<lparr>cm_delivery := ''unknown''\<rparr> else m) (cc_messages c)\<rparr>"

end
