(* ===== verification/ChatProps.thy ===== *)
theory ChatProps
  imports ChatCtl ChatHandlers MySqlProps
begin

text \<open>
  The chat of the client: no message is listed twice, a page of history is merged as a set,
  what RealtimeServer pushes is shown as it was stored, and a message whose answer was lost is
  confirmed by the history.  The last theorem shows that a member can replace the message of
  another one on every screen.
\<close>

section \<open>Rows\<close>

lemma find_row_Some: "find_row P xs = Some i \<Longrightarrow> i < length xs \<and> P (xs ! i) \<and> (\<forall>j < i. \<not> P (xs ! j))"
proof (induction xs arbitrary: i)
  case (Cons x xs)
  then show ?case by (auto split: if_splits simp: nth_Cons split: nat.split)
qed simp

lemma find_row_None: "find_row P xs = None \<longleftrightarrow> (\<forall>x \<in> set xs. \<not> P x)"
  by (induction xs) auto

abbreviation clients :: "chat_message list \<Rightarrow> string list" where
  "clients ms \<equiv> map cm_client_msg_id ms"

lemma findMessage_Some: "findMessage k ms = Some i \<Longrightarrow> i < length ms \<and> cm_client_msg_id (ms ! i) = k"
  by (auto simp: findMessage_def dest: find_row_Some)

lemma findMessage_None: "findMessage k ms = None \<longleftrightarrow> k \<notin> set (clients ms)"
  by (auto simp: findMessage_def find_row_None)

lemma findMessage_middle:
  "k \<notin> set (clients xs) \<Longrightarrow> cm_client_msg_id x = k \<Longrightarrow> findMessage k (xs @ x # ys) = Some (length xs)"
  unfolding findMessage_def by (induction xs) auto

lemma row_update_same:
  assumes "i < length ms" "cm_client_msg_id m = cm_client_msg_id (ms ! i)"
  shows "clients (ms[i := m]) = clients ms"
  using assms by (simp add: map_update list_update_same_conv)

lemma distinct_update_new: "distinct xs \<Longrightarrow> x \<notin> set xs \<Longrightarrow> distinct (xs[i := x])"
  by (induction xs arbitrary: i) (auto split: nat.split dest!: set_update_subset_insert [THEN subsetD])

lemma merge_one_distinct:
  assumes "distinct (clients ms)" "merge_one m ms = (a, ms')" shows "distinct (clients ms')"
proof (cases "findMessage (cm_client_msg_id m) ms")
  case None
  then show ?thesis using assms
    by (auto simp: merge_one_def findMessage_None map_update intro!: distinct_update_new split: option.splits)
next
  case (Some i)
  then show ?thesis using assms findMessage_Some [OF Some] row_update_same [of i ms m] by (auto simp: merge_one_def)
qed

lemma merge_all_distinct: "distinct (clients ms) \<Longrightarrow> merge_all page ms = (a, ms') \<Longrightarrow> distinct (clients ms')"
proof (induction page ms arbitrary: a rule: merge_all.induct)
  case (2 m page ms)
  obtain b ms1 where o: "merge_one m ms = (b, ms1)" by fastforce
  obtain c ms2 where r: "merge_all page ms1 = (c, ms2)" by fastforce
  have "distinct (clients ms1)" by (rule merge_one_distinct [OF 2(2) o])
  from 2(1) [OF o [symmetric] this] 2(3) o r show ?case by simp
qed simp

lemma distinct_sort_clients [simp]: "distinct (clients (sort_key f ms)) = distinct (clients ms)"
proof -
  have "mset (clients (sort_key f ms)) = mset (clients ms)" by (simp only: mset_map mset_sort)
  then show ?thesis by (metis mset_eq_imp_distinct_iff)
qed

lemma merge_distinct: "distinct (clients ms) \<Longrightarrow> mergeHistoryMessages q page ms = (a, ms') \<Longrightarrow> distinct (clients ms')"
  by (auto simp: mergeHistoryMessages_def split: if_splits prod.splits dest: merge_all_distinct)

section \<open>Runs\<close>

datatype chat_op = Activate string | SendGroup string string string string | SendPrivate string string string int string
  | Ack json | Push json | GroupPage json | PrivatePage json | Interrupted

definition chat_step :: "qt \<Rightarrow> chat_op \<Rightarrow> chat_ctl \<Rightarrow> chat_ctl" where
  "chat_step q e c = (case e of
       Activate meeting \<Rightarrow> setActiveMeetingId meeting c
     | SendGroup uuid now meeting content \<Rightarrow> snd (sendGroupMessage q uuid now meeting content c)
     | SendPrivate uuid now meeting target content \<Rightarrow> snd (sendPrivateMessage q uuid now meeting target content c)
     | Ack v \<Rightarrow> snd (snd (applySendMessageAck q v c))
     | Push v \<Rightarrow> snd (applyMessageReceived q v c)
     | GroupPage v \<Rightarrow> snd (snd (applyGroupHistoryResponse q v c))
     | PrivatePage v \<Rightarrow> snd (snd (applyPrivateHistoryResponse q v c))
     | Interrupted \<Rightarrow> chat_connectionInterrupted c)"

text \<open>QUuid::createUuid makes an id that is not in use.\<close>

definition fresh_id :: "chat_op \<Rightarrow> chat_ctl \<Rightarrow> bool" where
  "fresh_id e c = (case e of SendGroup uuid _ _ _ \<Rightarrow> uuid \<notin> set (clients (cc_messages c))
     | SendPrivate uuid _ _ _ _ \<Rightarrow> uuid \<notin> set (clients (cc_messages c)) | _ \<Rightarrow> True)"

fun chat_run :: "qt \<Rightarrow> chat_op list \<Rightarrow> chat_ctl \<Rightarrow> chat_ctl option" where
  "chat_run q [] c = Some c"
| "chat_run q (e # es) c = (if fresh_id e c then chat_run q es (chat_step q e c) else None)"

lemma sendMessage_distinct:
  "uuid \<notin> set (clients (cc_messages c)) \<Longrightarrow> distinct (clients (cc_messages c))
    \<Longrightarrow> distinct (clients (cc_messages (snd (sendMessage q uuid now meeting t target content c))))"
  by (simp add: sendMessage_def Let_def)

lemma messageFromJson_client: "messageFromJson q v = Some m \<Longrightarrow> cm_client_msg_id m = jtext v ''client_msg_id''"
  by (auto simp: messageFromJson_def Let_def split: if_splits)

lemma chat_step_distinct:
  assumes "distinct (clients (cc_messages c))" "fresh_id e c" shows "distinct (clients (cc_messages (chat_step q e c)))"
proof (cases e)
  case (Ack v)
  have "distinct (clients (cc_messages (snd (snd (applySendMessageAck q v c)))))"
  proof (cases "findMessage (jtext v ''client_msg_id'') (cc_messages c)")
    case (Some i)
    note f = findMessage_Some [OF Some]
    show ?thesis
      using assms(1) f messageFromJson_client [of q v] Some
      by (auto simp: applySendMessageAck_def Let_def row_update_same split: option.split)
  qed (use assms(1) in \<open>auto simp: applySendMessageAck_def Let_def\<close>)
  then show ?thesis by (simp add: Ack chat_step_def)
next
  case (Push v)
  have "distinct (clients (cc_messages (snd (applyMessageReceived q v c))))"
  proof (cases "messageFromJson q v")
    case (Some m)
    show ?thesis
    proof (cases "findMessage (cm_client_msg_id m) (cc_messages c)")
      case None
      then have "cm_client_msg_id m \<notin> set (clients (cc_messages c))" by (metis findMessage_None)
      then show ?thesis using assms(1) Some None by (simp add: applyMessageReceived_def)
    next
      case (Some i)
      then show ?thesis using assms(1) \<open>messageFromJson q v = Some m\<close> findMessage_Some [OF Some]
        by (simp add: applyMessageReceived_def row_update_same)
    qed
  qed (use assms(1) in \<open>simp add: applyMessageReceived_def\<close>)
  then show ?thesis by (simp add: Push chat_step_def)
next
  case (Interrupted)
  have "clients (cc_messages (chat_connectionInterrupted c)) = clients (cc_messages c)"
    by (simp add: chat_connectionInterrupted_def)
  then show ?thesis using assms(1) by (simp add: Interrupted chat_step_def)
qed (use assms merge_distinct in \<open>auto simp: chat_step_def setActiveMeetingId_def sendGroupMessage_def sendPrivateMessage_def
    sendMessage_distinct fresh_id_def applyGroupHistoryResponse_def applyPrivateHistoryResponse_def history_loaded_def Let_def
    split: option.split prod.split\<close>)

text \<open>C38: No message is listed twice.  Whatever the user sends, the server answers or pushes, and
  whichever pages of history arrive in whatever order, two rows of the list never have the
  same client message id.\<close>

theorem chat_rows_distinct:
  assumes "chat_run q es ChatController_new = Some c"
  shows "distinct (map cm_client_msg_id (cc_messages c))"
proof -
  have "chat_run q es a = Some c \<Longrightarrow> distinct (clients (cc_messages a)) \<Longrightarrow> distinct (clients (cc_messages c))" for a
    by (induction es arbitrary: a) (auto split: if_splits simp: chat_step_distinct)
  from this [OF assms] show ?thesis by (simp add: ChatController_new_def)
qed

section \<open>Pages of history\<close>

lemma sort_pos_order: "message_before q l r \<longleftrightarrow> sort_pos q l < sort_pos q r"
proof -
  have b: "unat (x :: u64) < 2 ^ 64" for x using unat_u64_less by simp
  show ?thesis using b [of "q_ull q (cm_message_id l)"] b [of "q_ull q (cm_message_id r)"]
    by (auto simp: message_before_def sort_pos_def Let_def word_less_nat_alt unat_eq_0)
qed

text \<open>Server ids are keys: messages with the same one have the same client id.\<close>

definition ids_agree :: "chat_message list \<Rightarrow> bool" where
  "ids_agree ms \<longleftrightarrow> (\<forall>x \<in> set ms. \<forall>y \<in> set ms. cm_message_id x = cm_message_id y \<and> cm_message_id x \<noteq> []
     \<longrightarrow> cm_client_msg_id x = cm_client_msg_id y)"

definition overlay :: "chat_message list \<Rightarrow> chat_message list \<Rightarrow> chat_message set" where
  "overlay page ms = set page \<union> {r \<in> set ms. cm_client_msg_id r \<notin> set (clients page)}"

lemma merge_one_overlay:
  assumes "distinct (clients ms)" "ids_agree (m # ms)"
  shows "set (snd (merge_one m ms)) = overlay [m] ms"
    "fst (merge_one m ms) = (if cm_client_msg_id m \<in> set (clients ms) then 0 else 1)"
proof -
  have "set (snd (merge_one m ms)) = overlay [m] ms \<and> fst (merge_one m ms) = (if cm_client_msg_id m \<in> set (clients ms) then 0 else 1)"
  proof (cases "findMessage (cm_client_msg_id m) ms")
    case None
    then have new: "cm_client_msg_id m \<notin> set (clients ms)" by (simp add: findMessage_None)
    have "findMessageByServerId (cm_message_id m) ms = None"
    proof -
      have "cm_message_id x \<noteq> cm_message_id m" if "x \<in> set ms" "cm_message_id m \<noteq> []" for x
      proof
        assume "cm_message_id x = cm_message_id m"
        then have "cm_client_msg_id x = cm_client_msg_id m" using that assms(2) [unfolded ids_agree_def, THEN bspec, THEN bspec, of x m] by simp
        then show False using new that(1) by (metis image_eqI list.set_map)
      qed
      then show ?thesis by (auto simp: findMessageByServerId_def find_row_None)
    qed
    then show ?thesis using None new by (auto simp: merge_one_def overlay_def image_iff)
  next
    case (Some i)
    note i = findMessage_Some [OF Some]
    have "ms[i := m] = map (\<lambda>r. if cm_client_msg_id r = cm_client_msg_id m then m else r) ms"
    proof (rule nth_equalityI)
      fix j assume j: "j < length (ms[i := m])"
      then have "cm_client_msg_id (ms ! j) = cm_client_msg_id m \<longleftrightarrow> j = i"
        using i assms(1) nth_eq_iff_index_eq [of "clients ms" j i] by auto
      then show "ms[i := m] ! j = map (\<lambda>r. if cm_client_msg_id r = cm_client_msg_id m then m else r) ms ! j"
        using j i by (cases "j = i") simp_all
    qed simp
    then have "set (ms[i := m]) = insert m {r \<in> set ms. cm_client_msg_id r \<noteq> cm_client_msg_id m}"
      using i nth_mem [of i ms] by (auto simp: image_iff)
    moreover have "cm_client_msg_id m \<in> set (clients ms)" using Some findMessage_None [of "cm_client_msg_id m" ms] by auto
    ultimately show ?thesis using Some by (auto simp: merge_one_def overlay_def)
  qed
  then show "set (snd (merge_one m ms)) = overlay [m] ms"
    "fst (merge_one m ms) = (if cm_client_msg_id m \<in> set (clients ms) then 0 else 1)" by simp_all
qed

lemma merge_all_overlay:
  assumes "distinct (clients ms)" "distinct (clients page)" "ids_agree (page @ ms)"
  shows "set (snd (merge_all page ms)) = overlay page ms"
    and "fst (merge_all page ms) = length (filter (\<lambda>m. cm_client_msg_id m \<notin> set (clients ms)) page)"
proof -
  have "set (snd (merge_all page ms)) = overlay page ms \<and>
    fst (merge_all page ms) = length (filter (\<lambda>m. cm_client_msg_id m \<notin> set (clients ms)) page)"
    using assms
  proof (induction page ms rule: merge_all.induct)
    case (2 m page ms)
    obtain a ms1 where o: "merge_one m ms = (a, ms1)" by fastforce
    obtain b ms2 where r: "merge_all page ms1 = (b, ms2)" by fastforce
    have "ids_agree (m # ms)" using 2(4) by (auto simp: ids_agree_def)
    note one = merge_one_overlay [OF 2(2) this, unfolded o fst_conv snd_conv]
    have sub: "set ms1 \<subseteq> insert m (set ms)" using one(1) by (auto simp: overlay_def)
    have d: "distinct (clients ms1)" by (rule merge_one_distinct [OF 2(2) o])
    have "set (page @ ms1) \<subseteq> set ((m # page) @ ms)" using sub by auto
    then have "ids_agree (page @ ms1)" using 2(4) unfolding ids_agree_def by blast
    then have ih: "set ms2 = overlay page ms1" "b = length (filter (\<lambda>m. cm_client_msg_id m \<notin> set (clients ms1)) page)"
      using 2(1) [OF o [symmetric] d] 2(3) r by simp_all
    have c: "set (clients ms1) = insert (cm_client_msg_id m) (set (clients ms))"
      using one(1) by (auto simp: overlay_def image_iff)
    have "cm_client_msg_id m \<notin> set (clients page)" using 2(3) by simp
    then have "filter (\<lambda>m. cm_client_msg_id m \<notin> set (clients ms1)) page = filter (\<lambda>m. cm_client_msg_id m \<notin> set (clients ms)) page"
      unfolding c by (intro filter_cong) (auto simp: image_iff)
    moreover have "overlay page ms1 = overlay (m # page) ms"
      using one(1) 2(3) by (auto simp: overlay_def image_iff)
    ultimately show ?case using ih one(2) o r by simp
  qed (simp add: overlay_def)
  then show "set (snd (merge_all page ms)) = overlay page ms"
    "fst (merge_all page ms) = length (filter (\<lambda>m. cm_client_msg_id m \<notin> set (clients ms)) page)" by simp_all
qed

text \<open>A page of history is merged as a set.  When server ids are keys, the merged list holds
  exactly the messages of the page and the rows whose client id the page does not contain, in
  the order of their server ids with unconfirmed messages at the end, and counts the
  messages that were new.\<close>

theorem history_merged_as_set:
  assumes "distinct (map cm_client_msg_id ms)" "distinct (map cm_client_msg_id page)" "page \<noteq> []"
    and "\<forall>x \<in> set (page @ ms). \<forall>y \<in> set (page @ ms). cm_message_id x = cm_message_id y \<and> cm_message_id x \<noteq> []
      \<longrightarrow> cm_client_msg_id x = cm_client_msg_id y"
  shows "case mergeHistoryMessages q page ms of (added, ms') \<Rightarrow>
      set ms' = set page \<union> {r \<in> set ms. cm_client_msg_id r \<notin> cm_client_msg_id ` set page}
    \<and> sorted_wrt (\<lambda>l r. \<not> message_before q r l) ms'
    \<and> distinct (map cm_client_msg_id ms')
    \<and> added = length (filter (\<lambda>m. cm_client_msg_id m \<notin> cm_client_msg_id ` set ms) page)"
proof -
  have ids: "ids_agree (page @ ms)" using assms(4) by (simp only: ids_agree_def)
  obtain a ms1 where m: "merge_all page ms = (a, ms1)" by fastforce
  note o = merge_all_overlay [OF assms(1,2) ids, unfolded m fst_conv snd_conv]
  have d: "distinct (clients ms1)" by (rule merge_all_distinct [OF assms(1) m])
  have "sorted_wrt (\<lambda>l r. \<not> message_before q r l) (sort_key (sort_pos q) ms1)"
    using sorted_sort_key [of "sort_pos q" ms1] by (simp add: sorted_map sort_pos_order not_less)
  then show ?thesis using o d assms(3) by (simp add: mergeHistoryMessages_def m overlay_def)
qed

section \<open>From the server to the screen\<close>

text \<open>How a stored message is shown, and the facts about Qt it needs: numbers read back, and a time
  that leaves something to show.\<close>

definition shown_as :: "qt \<Rightarrow> message_info \<Rightarrow> string \<Rightarrow> bool \<Rightarrow> chat_message" where
  "shown_as q m name mine = \<lparr>cm_message_id = to_string (unat (mg_id m)), cm_client_msg_id = mg_client_msg_id m,
     cm_meeting = to_string (unat (mg_meeting m)), cm_chat_type = (if mg_receiver m = None then ''group'' else ''private''),
     cm_sender = mg_sender m, cm_sender_name = name,
     cm_receiver = (case mg_receiver m of None \<Rightarrow> [] | Some r \<Rightarrow> int_to_string (uint r)), cm_content = mg_content m,
     cm_created_at = formatMessageTimeForDisplay q (mg_created_at m), cm_delivery = ''sent'', cm_is_mine = mine\<rparr>"

definition can_show :: "qt \<Rightarrow> message_info \<Rightarrow> string \<Rightarrow> bool" where
  "can_show q m name \<longleftrightarrow> valid_message m \<and> name \<noteq> [] \<and> formatMessageTimeForDisplay q (mg_created_at m) \<noteq> []
     \<and> (case mg_receiver m of None \<Rightarrow> True | Some r \<Rightarrow> qt_to_ll q (int_to_string (uint r)) = Some (uint r))"

lemma to_string_nonempty: "to_string n \<noteq> []"
  by (subst to_string.simps) simp

lemma message_read_back:
  assumes "can_show q m name"
  shows "messageFromJson q (MeetingMessageToJson m name mine)
    = Some ((shown_as q m name mine)\<lparr>cm_delivery := []\<rparr>)"
proof (cases "mg_receiver m")
  case None
  then show ?thesis using assms
    by (simp add: messageFromJson_def MeetingMessageToJson_def jobj_def jtext_def jid_def ju64_def Let_def shown_as_def
        can_show_def valid_message_def to_string_nonempty)
next
  case (Some r)
  then have "r \<noteq> 0" "q_ll q (int_to_string (uint r)) = uint r" using assms by (auto simp: can_show_def valid_message_def q_ll_def)
  moreover from this have "0 < uint r" by (simp add: word_neq_0_conv word_less_def)
  ultimately show ?thesis using assms Some
    by (simp add: messageFromJson_def MeetingMessageToJson_def jobj_def jtext_def jid_def ju64_def Let_def shown_as_def
        can_show_def valid_message_def to_string_nonempty)
qed

text \<open>C39: A stored message reaches the screen unchanged.  The message RealtimeServer pushes for
  what it stored is accepted by a client that shows the meeting: a new row with the stored
  ids, sender, receiver and text appears at the end, and in the list of the sender, which
  has a row of the same client id, that row becomes the stored message.\<close>

theorem stored_message_is_shown:
  assumes "can_show q m name" "cc_active c = to_string (unat (mg_meeting m))" "cc_messages c = before @ row @ after"
    and "mg_client_msg_id m \<notin> cm_client_msg_id ` set before"
    and "row = [] \<and> mg_client_msg_id m \<notin> cm_client_msg_id ` set after
       \<or> (\<exists>r. row = [r] \<and> cm_client_msg_id r = mg_client_msg_id m)"
  shows "applyMessageReceived q (MeetingMessageToJson m name True) c =
    (True, c\<lparr>cc_messages := (if row = [] then before @ after @ [shown_as q m name False]
                             else before @ [shown_as q m name True] @ after)\<rparr>)"
proof -
  note rb = message_read_back [OF assms(1), of True]
  have up: "(shown_as q m name True)\<lparr>cm_delivery := ''sent'', cm_is_mine := b\<rparr> = shown_as q m name b" for b
    by (simp add: shown_as_def)
  have cl: "cm_client_msg_id ((shown_as q m name True)\<lparr>cm_delivery := []\<rparr>) = mg_client_msg_id m"
    and me: "cm_meeting ((shown_as q m name True)\<lparr>cm_delivery := []\<rparr>) = cc_active c" using assms(2) by (simp_all add: shown_as_def)
  from assms(5) show ?thesis
  proof (elim disjE conjE exE)
    assume a: "row = []" "mg_client_msg_id m \<notin> cm_client_msg_id ` set after"
    then have "findMessage (mg_client_msg_id m) (cc_messages c) = None" using assms(3,4) by (simp add: findMessage_None)
    then show ?thesis unfolding applyMessageReceived_def rb using a assms(3) by (simp add: cl me up)
  next
    fix r assume r: "row = [r]" "cm_client_msg_id r = mg_client_msg_id m"
    have "findMessage (mg_client_msg_id m) (cc_messages c) = Some (length before)"
      using findMessage_middle [of "mg_client_msg_id m" before r after] assms(3,4) r by simp
    then show ?thesis unfolding applyMessageReceived_def rb using r assms(3) by (simp add: cl me up)
  qed
qed

text \<open>A lost answer is made up by the history.  A message that was sent, lost its connection
  before the answer, and was stored by the server is, after the next page of history that
  contains it, listed once and as sent, with the id the server gave it.\<close>

theorem lost_answer_recovered:
  assumes "distinct (map cm_client_msg_id (cc_messages c))" "uuid \<notin> cm_client_msg_id ` set (cc_messages c)"
    and "cc_active c = meeting" "meeting \<noteq> []" "qt_trimmed q content \<noteq> []"
    and "distinct (map cm_client_msg_id page)" "m \<in> set page" "cm_client_msg_id m = uuid"
    and "\<forall>x \<in> set (page @ cc_messages c). \<forall>y \<in> set (page @ cc_messages c). cm_message_id x = cm_message_id y \<and> cm_message_id x \<noteq> []
      \<longrightarrow> cm_client_msg_id x = cm_client_msg_id y"
  shows "filter (\<lambda>r. cm_client_msg_id r = uuid)
    (snd (mergeHistoryMessages q page (cc_messages (chat_connectionInterrupted (snd (sendGroupMessage q uuid now meeting content c)))))) = [m]"
proof -
  define ms where "ms = cc_messages (chat_connectionInterrupted (snd (sendGroupMessage q uuid now meeting content c)))"
  define new where "new = last ms"
  have ms: "ms = map (\<lambda>m. if cm_delivery m = ''sending'' then m\<lparr>cm_delivery := ''unknown''\<rparr> else m) (cc_messages c) @ [new]"
    "cm_client_msg_id new = uuid" "cm_message_id new = []"
    using assms(3-5) by (simp_all add: ms_def new_def chat_connectionInterrupted_def sendGroupMessage_def sendMessage_def Let_def)
  have cl: "clients ms = clients (cc_messages c) @ [uuid]" using ms by simp
  have ids: "cm_message_id x = cm_message_id y \<and> cm_message_id x \<noteq> [] \<longrightarrow> cm_client_msg_id x = cm_client_msg_id y"
    if "x \<in> set (page @ ms)" "y \<in> set (page @ ms)" for x y
  proof -
    have "\<exists>z \<in> set (page @ cc_messages c). cm_message_id v = cm_message_id z \<and> cm_client_msg_id v = cm_client_msg_id z"
      if "v \<in> set (page @ ms)" "cm_message_id v \<noteq> []" for v using that ms by auto
    with that assms(9) show ?thesis by metis
  qed
  obtain a ms' where r: "mergeHistoryMessages q page ms = (a, ms')" by fastforce
  have ne: "page \<noteq> []" using assms(7) by auto
  have ia: "ids_agree (page @ ms)" unfolding ids_agree_def using ids by blast
  have dc: "distinct (clients ms)" using assms(1,2) cl by simp
  obtain ms1 where m1: "merge_all page ms = (a, ms1)" "ms' = sort_key (sort_pos q) ms1"
    using r ne by (auto simp: mergeHistoryMessages_def split: prod.splits)
  have s: "set ms' = set page \<union> {r \<in> set ms. cm_client_msg_id r \<notin> cm_client_msg_id ` set page}"
    using merge_all_overlay(1) [OF dc assms(6) ia] m1 by (simp add: overlay_def)
  have d: "distinct (clients ms')" by (rule merge_distinct [OF dc r])
  have one: "x = m" if "x \<in> set ms'" "cm_client_msg_id x = uuid" for x
  proof -
    have "inj_on cm_client_msg_id (set page)" using assms(6) by (simp add: distinct_map)
    moreover have "x \<in> set page" using that assms(7,8) unfolding s by (metis (no_types, lifting) UnE image_eqI mem_Collect_eq)
    ultimately show ?thesis using that(2) assms(7,8) by (simp add: inj_on_def)
  qed
  have "m \<in> set ms'" using s assms(7) by simp
  have "filter (\<lambda>r. cm_client_msg_id r = uuid) xs = (if m \<in> set xs then [m] else [])"
    if "distinct (clients xs)" "set xs \<subseteq> set ms'" for xs
    using that
  proof (induction xs)
    case (Cons x xs)
    then show ?case using one [of x] assms(8) by (auto simp: image_iff)
  qed simp
  from this [OF d] show ?thesis using \<open>m \<in> set ms'\<close> r by (simp add: ms_def)
qed

text \<open>A member can replace the message of another member.  Client message ids are pushed to
  everybody and are unique per sender only, but the list of the client is searched by the
  client id alone.  A message with the client id of another sender's message is stored by
  RealtimeServer, and every client that shows the other message puts the new text in its
  place, marked as its own.\<close>

theorem member_replaces_message:
  assumes "can_show q m name" "cc_active c = to_string (unat (mg_meeting m))" "cc_messages c = before @ victim # after"
    and "cm_client_msg_id victim = mg_client_msg_id m" "mg_client_msg_id m \<notin> cm_client_msg_id ` set before"
    and "\<forall>r \<in> set (db_messages d). xr_client_msg_id r = mg_client_msg_id m \<longrightarrow> xr_sender r \<noteq> mg_sender m"
    and "my_coll cfg = (\<lambda>s. s)" "find_meeting (mg_meeting m) d \<noteq> None" "find_user (mg_sender m) d \<noteq> None" "mg_receiver m = None"
  shows "fst (insert_message cfg m d) = Inr (db_next_message d)
    \<and> cc_messages (snd (applyMessageReceived q (MeetingMessageToJson m name True) c)) = before @ shown_as q m name True # after"
proof
  have "\<not> same_key cfg m r" if "r \<in> set (db_messages d)" for r
    using that assms(6,7) by (auto simp: same_key_def)
  then show "fst (insert_message cfg m d) = Inr (db_next_message d)"
    using assms(8-10) by (auto simp: insert_message_def Let_def)
  have "findMessage (mg_client_msg_id m) (cc_messages c) = Some (length before)"
    using findMessage_middle [of "mg_client_msg_id m" before victim after] assms(3-5) by simp
  then show "cc_messages (snd (applyMessageReceived q (MeetingMessageToJson m name True) c)) = before @ shown_as q m name True # after"
    using message_read_back [OF assms(1), of True] assms(2,3) by (simp add: applyMessageReceived_def shown_as_def)
qed

section \<open>An instance\<close>

definition demo_qt :: qt where
  "demo_qt = \<lparr>qt_trimmed = (\<lambda>s. s), qt_lower = (\<lambda>s. s), qt_to_ull = map_of [(''1'', 1), (''2'', 2), (''3'', 3)],
     qt_to_ll = map_of [(''1'', 1), (''2'', 2)], qt_real_text = (\<lambda>_. []), qt_is_time = (\<lambda>s. s = ''10:00''),
     qt_datetime_zzz = (\<lambda>_. None), qt_datetime = (\<lambda>_. None), qt_local_hhmm = (\<lambda>_. [])\<rparr>"

definition demo_row :: "string \<Rightarrow> string \<Rightarrow> string \<Rightarrow> chat_message" where
  "demo_row i client tx = \<lparr>cm_message_id = i, cm_client_msg_id = client, cm_meeting = ''5'', cm_chat_type = ''group'',
     cm_sender = 1, cm_sender_name = ''a'', cm_receiver = [], cm_content = tx, cm_created_at = ''10:00'',
     cm_delivery = ''sent'', cm_is_mine = False\<rparr>"

definition demo_info :: "int \<Rightarrow> string \<Rightarrow> message_info" where
  "demo_info sender client = \<lparr>mg_id = 1, mg_meeting = 5, mg_sender = sender, mg_receiver = None, mg_client_msg_id = client,
     mg_content = ''x'', mg_content_type = 0, mg_created_at = ''10:00''\<rparr>"

lemma demo_can_show: "client \<noteq> [] \<Longrightarrow> length client \<le> 128 \<Longrightarrow> 0 < sender \<Longrightarrow> can_show demo_qt (demo_info sender client) ''b''"
  by (simp add: can_show_def demo_info_def valid_message_def demo_qt_def formatMessageTimeForDisplay_def Let_def)

lemma demo_five: "to_string 5 = ''5''"
  by (simp add: to_string.simps digit_char_def char_of_def bit_0)

text \<open>A message of the user is answered twice, by its acknowledgement and by a push.\<close>

definition demo_push :: json where
  "demo_push = MeetingMessageToJson (demo_info 1 ''u'') ''a'' True"

theorem chat_rows_distinct_witness:
  "distinct (map cm_client_msg_id (cc_messages (the (chat_run demo_qt
     [Activate ''5'', SendGroup ''u'' ''09:59'' ''5'' ''x'', Push demo_push, Push demo_push] ChatController_new))))"
proof -
  let ?es = "[Activate ''5'', SendGroup ''u'' ''09:59'' ''5'' ''x'', Push demo_push, Push demo_push]"
  have "chat_run demo_qt ?es ChatController_new \<noteq> None"
    by (simp add: chat_step_def fresh_id_def ChatController_new_def setActiveMeetingId_def)
  then obtain c where c: "chat_run demo_qt ?es ChatController_new = Some c" by blast
  show ?thesis using chat_rows_distinct [OF c] c by simp
qed

theorem history_merged_as_set_witness:
  "set (snd (mergeHistoryMessages demo_qt [demo_row ''1'' ''a'' ''one'', demo_row ''3'' ''c'' ''three'']
      [demo_row ''2'' ''b'' ''two'', demo_row [] ''c'' ''three'']))
   = {demo_row ''1'' ''a'' ''one'', demo_row ''3'' ''c'' ''three'', demo_row ''2'' ''b'' ''two''}"
proof -
  let ?page = "[demo_row ''1'' ''a'' ''one'', demo_row ''3'' ''c'' ''three'']"
  let ?ms = "[demo_row ''2'' ''b'' ''two'', demo_row [] ''c'' ''three'']"
  have c: "distinct (map cm_client_msg_id ?ms)" "distinct (map cm_client_msg_id ?page)" "?page \<noteq> []"
    by (simp_all add: demo_row_def)
  have i: "\<forall>x \<in> set (?page @ ?ms). \<forall>y \<in> set (?page @ ?ms). cm_message_id x = cm_message_id y \<and> cm_message_id x \<noteq> []
      \<longrightarrow> cm_client_msg_id x = cm_client_msg_id y"
    by (simp add: demo_row_def)
  have "set (snd (mergeHistoryMessages demo_qt ?page ?ms)) = set ?page \<union> {r \<in> set ?ms. cm_client_msg_id r \<notin> cm_client_msg_id ` set ?page}"
    using history_merged_as_set [OF c i, of demo_qt] by (simp only: case_prod_beta)
  moreover have "cm_client_msg_id (demo_row i k x) = k" for i k x by (simp add: demo_row_def)
  ultimately show ?thesis by auto
qed

theorem stored_message_is_shown_witness:
  "applyMessageReceived demo_qt (MeetingMessageToJson (demo_info 2 ''c2'') ''b'' True) \<lparr>cc_active = ''5'', cc_messages = [demo_row ''1'' ''a'' ''one'']\<rparr>
   = (True, \<lparr>cc_active = ''5'', cc_messages = [demo_row ''1'' ''a'' ''one'', shown_as demo_qt (demo_info 2 ''c2'') ''b'' False]\<rparr>)"
  using stored_message_is_shown [OF demo_can_show, of "''c2''" 2 "\<lparr>cc_active = ''5'', cc_messages = [demo_row ''1'' ''a'' ''one'']\<rparr>"
      "[demo_row ''1'' ''a'' ''one'']" "[]" "[]"]
  by (simp add: demo_info_def demo_row_def demo_five)

theorem lost_answer_recovered_witness:
  "filter (\<lambda>r. cm_client_msg_id r = ''u'')
    (snd (mergeHistoryMessages demo_qt [demo_row ''2'' ''u'' ''x''] (cc_messages (chat_connectionInterrupted
      (snd (sendGroupMessage demo_qt ''u'' ''09:59'' ''5'' ''x'' \<lparr>cc_active = ''5'', cc_messages = [demo_row ''1'' ''a'' ''one'']\<rparr>)))))) = [demo_row ''2'' ''u'' ''x'']"
  by (rule lost_answer_recovered) (simp_all add: demo_row_def demo_qt_def)

theorem member_replaces_message_witness:
  "cc_messages (snd (applyMessageReceived demo_qt (MeetingMessageToJson (demo_info 2 ''c'') ''b'' True)
     \<lparr>cc_active = ''5'', cc_messages = [demo_row ''1'' ''a'' ''one'', demo_row ''2'' ''c'' ''two'']\<rparr>))
   = [demo_row ''1'' ''a'' ''one'', shown_as demo_qt (demo_info 2 ''c'') ''b'' True]"
proof -
  define d where "d = demo_db\<lparr>db_messages := [\<lparr>xr_id = 2, xr_meeting = 5, xr_sender = 1, xr_receiver = None, xr_client_msg_id = ''c'',
      xr_content = ''two'', xr_content_type = 0, xr_created_at = 0\<rparr>]\<rparr>"
  have "can_show demo_qt (demo_info 2 ''c'') ''b''" by (simp add: demo_can_show)
  from member_replaces_message [OF this, of "\<lparr>cc_active = ''5'', cc_messages = [demo_row ''1'' ''a'' ''one'', demo_row ''2'' ''c'' ''two'']\<rparr>"
      "[demo_row ''1'' ''a'' ''one'']" "demo_row ''2'' ''c'' ''two''" "[]" d
      "\<lparr>my_coll = (\<lambda>s. s), my_now = 0, my_format = (\<lambda>_. []), my_datetime = (\<lambda>_. None)\<rparr>"]
  show ?thesis
    by (simp add: demo_info_def demo_row_def demo_five d_def demo_db_def demo_user_def find_meeting_def find_user_def)
qed

end
