(* ===== verification/MeetingCtl.thy ===== *)
theory MeetingCtl
  imports ClientQt
begin

text \<open>
  The meeting of the client (controllers/meeting/meetingcontroller.cpp): requests, their
  answers, the pushes about members, and the snapshot after a recovery.  A member is the JSON
  object it came as.  Signals are events; those that only refresh a list view are left out.
\<close>

section \<open>State\<close>

text \<open>Texts of the user interface, as the bytes of their UTF-8 form.\<close>

definition utf8 :: "nat list \<Rightarrow> string" where "utf8 bs = map char_of bs"

definition txt_time_pending :: string where "txt_time_pending = utf8 [230, 151, 182, 233, 151, 180, 229, 190, 133, 229, 174, 154]"
definition txt_people :: string where "txt_people = utf8 [32, 228, 186, 186]"
definition txt_in_progress :: string where "txt_in_progress = utf8 [232, 191, 155, 232, 161, 140, 228, 184, 173]"
definition txt_scheduled :: string where "txt_scheduled = utf8 [229, 183, 178, 233, 162, 132, 231, 186, 166]"
definition txt_cancelled :: string where "txt_cancelled = utf8 [229, 183, 178, 229, 143, 150, 230, 182, 136]"
definition txt_ended :: string where "txt_ended = utf8 [229, 183, 178, 231, 187, 147, 230, 157, 159]"
definition txt_unknown_creator :: string where "txt_unknown_creator = utf8 [230, 156, 170, 231, 159, 165, 229, 136, 155, 229, 187, 186, 232, 128, 133]"
definition txt_start_pending :: string where "txt_start_pending = utf8 [229, 188, 128, 229, 167, 139, 230, 151, 182, 233, 151, 180, 229, 190, 133, 229, 174, 154]"
definition txt_end_pending :: string where "txt_end_pending = utf8 [231, 187, 147, 230, 157, 159, 230, 151, 182, 233, 151, 180, 229, 190, 133, 229, 174, 154]"

record meeting_item =
  it_meeting_id :: string
  it_title :: string
  it_schedule :: string
  it_participants :: string
  it_status :: string
  it_status_color :: string

record history_item =
  hi_code :: string
  hi_title :: string
  hi_creator :: string
  hi_avatar :: string
  hi_started :: string
  hi_ended :: string

record meeting_ctl =
  mt_recent :: "meeting_item list"
  mt_recent_loaded :: bool
  mt_history :: "history_item list"
  mt_pending_join :: string
  mt_pending_start :: string
  mt_pending_leave :: string
  mt_pending_end :: string
  mt_recovering :: bool
  mt_ticket :: string
  mt_generation :: string
  mt_code :: string
  mt_current :: string
  mt_members :: "json list"

datatype meeting_event =
    SendRequest u16 json
  | RecoveryCancelled
  | MeetingRestored string string string "json list"
  | JoinMeetingSucceeded string string string string "json list"
  | JoinMeetingFailed int
  | StartMeetingSucceeded string
  | StartMeetingFailed int
  | MeetingStarted string
  | LeaveMeetingSucceeded string
  | LeaveMeetingFailed int
  | EndMeetingSucceeded string
  | EndMeetingFailed int
  | MeetingEnded string
  | MeetingMembersChanged string "json list"

definition MeetingController_new :: meeting_ctl where
  "MeetingController_new = \<lparr>mt_recent = [], mt_recent_loaded = False, mt_history = [], mt_pending_join = [],
     mt_pending_start = [], mt_pending_leave = [], mt_pending_end = [], mt_recovering = False, mt_ticket = [],
     mt_generation = [], mt_code = [], mt_current = [], mt_members = []\<rparr>"

section \<open>Leaving by recovery\<close>

definition setConnectionRecovering :: "bool \<Rightarrow> meeting_ctl \<Rightarrow> meeting_ctl" where
  "setConnectionRecovering b c = c\<lparr>mt_recovering := b\<rparr>"

definition abandonCurrentMeeting :: "meeting_ctl \<Rightarrow> meeting_event list \<times> meeting_ctl" where
  "abandonCurrentMeeting c =
     ((if mt_current c = [] then [] else [LeaveMeetingSucceeded (mt_current c)]),
      c\<lparr>mt_current := [], mt_code := [], mt_members := [], mt_ticket := [], mt_generation := [],
        mt_pending_join := [], mt_pending_start := [], mt_pending_leave := [], mt_pending_end := []\<rparr>)"

definition meeting_interrupted :: "meeting_ctl \<Rightarrow> meeting_event list \<times> meeting_ctl" where
  "meeting_interrupted c = (let c1 = c\<lparr>mt_pending_join := [], mt_pending_start := [], mt_pending_end := []\<rparr> in
     if mt_pending_leave c1 \<noteq> [] then abandonCurrentMeeting c1 else ([], c1))"

section \<open>Requests\<close>

definition requestJoinMeeting :: "qt \<Rightarrow> string \<Rightarrow> meeting_ctl \<Rightarrow> meeting_event list \<times> meeting_ctl" where
  "requestJoinMeeting q meetingCode c = (let code = qt_trimmed q meetingCode in
     if code = [] then ([JoinMeetingFailed 1], c)
     else ([SendRequest 1016 (JObject [(''meeting_code'', JString code)])], c\<lparr>mt_pending_join := code\<rparr>))"

definition requestStartMeeting :: "qt \<Rightarrow> string \<Rightarrow> meeting_ctl \<Rightarrow> meeting_event list \<times> meeting_ctl" where
  "requestStartMeeting q meeting c = (let i = qt_trimmed q meeting in
     if i = [] then ([StartMeetingFailed 1], c)
     else ([SendRequest 1018 (JObject [(''meeting_id'', JString i)])], c\<lparr>mt_pending_start := i\<rparr>))"

definition requestLeaveMeeting :: "qt \<Rightarrow> string \<Rightarrow> meeting_ctl \<Rightarrow> meeting_event list \<times> meeting_ctl" where
  "requestLeaveMeeting q meeting c =
     (if mt_recovering c \<and> meeting = mt_current c then
        (case abandonCurrentMeeting c of (es, c1) \<Rightarrow> (es @ [RecoveryCancelled], c1))
      else let i = qt_trimmed q meeting in
        if i = [] then ([LeaveMeetingFailed 1], c)
        else ([SendRequest 1021 (JObject [(''meeting_id'', JString i)])], c\<lparr>mt_pending_leave := i\<rparr>))"

definition requestEndMeeting :: "qt \<Rightarrow> string \<Rightarrow> meeting_ctl \<Rightarrow> meeting_event list \<times> meeting_ctl" where
  "requestEndMeeting q meeting c = (let i = qt_trimmed q meeting in
     if i = [] then ([EndMeetingFailed 1], c)
     else ([SendRequest 1023 (JObject [(''meeting_id'', JString i)])], c\<lparr>mt_pending_end := i\<rparr>))"

definition requestCreateMeeting :: "string \<Rightarrow> string \<Rightarrow> string \<Rightarrow> meeting_event list" where
  "requestCreateMeeting title scheduledAt password = [SendRequest 1012 (JObject [(''title'', JString title),
     (''scheduled_at'', JString scheduledAt), (''password'', JString password)])]"

definition requestHistoryMeetings :: "meeting_event list" where
  "requestHistoryMeetings = [SendRequest 1014 (JObject [])]"

section \<open>Lists of meetings\<close>

text \<open>The first of the texts that is not empty.\<close>

definition or_text :: "string \<Rightarrow> string \<Rightarrow> string" where
  "or_text a b = (if a = [] then b else a)"

text \<open>toInt of a text: 0 when it is no number in the range of int.\<close>

definition q_int :: "qt \<Rightarrow> string \<Rightarrow> int" where
  "q_int q s = (let n = q_ll q s in if - (2 ^ 31) \<le> n \<and> n < 2 ^ 31 then n else 0)"

definition status_shown :: "string \<Rightarrow> string \<times> string" where
  "status_shown code =
     (if code = ''in_progress'' \<or> code = ''1'' then (txt_in_progress, ''#16a34a'')
      else if code = ''scheduled'' \<or> code = ''0'' then (txt_scheduled, ''#2563eb'')
      else if code = ''cancelled'' \<or> code = ''3'' then (txt_cancelled, ''#ef4444'')
      else (txt_ended, ''#64748b''))"

definition parseMeetingItem :: "qt \<Rightarrow> json \<Rightarrow> meeting_item option" where
  "parseMeetingItem q v =
     (let i = or_text (jid_text q v ''meeting_id'') (jtrim q v ''meeting_code'');
          title = jtrim q v ''title'';
          participants = jget v ''participant_count'';
          count = (if is_string participants then q_int q (as_string participants) else to_int participants 0);
          status = jget v ''status'';
          shown = status_shown (if is_string status then qt_lower q (as_string status) else int_to_string (to_int status 0))
      in if i = [] \<or> title = [] then None
         else Some \<lparr>it_meeting_id = i, it_title = title,
           it_schedule = or_text (or_text (or_text (jtrim q v ''schedule'') (jtrim q v ''scheduled_at'')) (jtrim q v ''start_time'')) txt_time_pending,
           it_participants = int_to_string (max 0 count) @ txt_people, it_status = fst shown, it_status_color = snd shown\<rparr>)"

text \<open>Every element must be an acceptable object.\<close>

fun parse_all :: "(json \<Rightarrow> 'a option) \<Rightarrow> json list \<Rightarrow> 'a list option" where
  "parse_all f [] = Some []"
| "parse_all f (v # vs) =
     (if \<not> is_object v then None
      else case f v of None \<Rightarrow> None | Some x \<Rightarrow> map_option ((#) x) (parse_all f vs))"

definition applyRecentMeeting :: "qt \<Rightarrow> json list \<Rightarrow> meeting_ctl \<Rightarrow> bool \<times> meeting_ctl" where
  "applyRecentMeeting q vs c = (case parse_all (parseMeetingItem q) vs of
       None \<Rightarrow> (False, c)
     | Some items \<Rightarrow> (True, c\<lparr>mt_recent := items, mt_recent_loaded := True\<rparr>))"

definition parse_history_item :: "qt \<Rightarrow> json \<Rightarrow> history_item option" where
  "parse_history_item q v =
     (let code = jtrim q v ''meeting_code''; title = jtrim q v ''title'' in
      if code = [] \<or> title = [] then None
      else Some \<lparr>hi_code = code, hi_title = title, hi_creator = or_text (jtrim q v ''creator_display_name'') txt_unknown_creator,
        hi_avatar = jtrim q v ''creator_avatar_url'', hi_started = or_text (jtrim q v ''started_at'') txt_start_pending,
        hi_ended = or_text (jtrim q v ''ended_at'') txt_end_pending\<rparr>)"

definition applyHistoryMeetings :: "qt \<Rightarrow> json list \<Rightarrow> meeting_ctl \<Rightarrow> bool \<times> meeting_ctl" where
  "applyHistoryMeetings q vs c = (case parse_all (parse_history_item q) vs of
       None \<Rightarrow> (False, c)
     | Some items \<Rightarrow> (True, c\<lparr>mt_history := items\<rparr>))"

section \<open>Answers\<close>

definition applyJoinMeetingResponse :: "qt \<Rightarrow> json \<Rightarrow> meeting_ctl \<Rightarrow> bool \<times> meeting_event list \<times> meeting_ctl" where
  "applyJoinMeetingResponse q v c =
     (if error_of v \<noteq> 0 then (False, [JoinMeetingFailed (error_of v)], c\<lparr>mt_pending_join := []\<rparr>)
      else if mt_pending_join c = [] then (False, [JoinMeetingFailed 1], c)
      else let meeting = jid_text q v ''meeting_id''; code = jtrim q v ''meeting_code'';
               status = jlower q v ''status''; role = jlower q v ''role''; members = jget v ''members'' in
        if meeting = [] \<or> code \<noteq> mt_pending_join c \<or> status \<notin> {''scheduled'', ''in_progress'', ''ended''}
           \<or> role \<notin> {''host'', ''participant''} \<or> \<not> is_array members
        then (False, [JoinMeetingFailed 1], c\<lparr>mt_pending_join := []\<rparr>)
        else (True, [MeetingMembersChanged meeting (to_array members), JoinMeetingSucceeded code meeting status role (to_array members)],
          c\<lparr>mt_pending_join := [], mt_current := meeting, mt_code := code, mt_ticket := jtext v ''resume_ticket'',
            mt_generation := jtext v ''membership_generation'', mt_members := to_array members\<rparr>))"

definition member_id :: "qt \<Rightarrow> json \<Rightarrow> string" where
  "member_id q m = variant_text q (jget m ''user_id'')"

definition applyResumeMeetingResponse :: "qt \<Rightarrow> json \<Rightarrow> meeting_ctl \<Rightarrow> bool \<times> meeting_event list \<times> meeting_ctl" where
  "applyResumeMeetingResponse q v c =
     (let status = jtext v ''status''; role = jtext v ''role''; members = to_array (jget v ''members'') in
      case qt_to_ull q (jtext v ''membership_generation'') of
        None \<Rightarrow> (False, [], c)
      | Some generation \<Rightarrow>
          if mt_current c = [] \<or> jtext v ''meeting_id'' \<noteq> mt_current c \<or> jtext v ''meeting_code'' \<noteq> mt_code c
             \<or> jtext v ''resume_ticket'' \<noteq> mt_ticket c \<or> mt_ticket c = [] \<or> generation < q_ull q (mt_generation c)
             \<or> status \<notin> {''scheduled'', ''in_progress''} \<or> role \<notin> {''host'', ''participant''}
             \<or> \<not> is_array (jget v ''members'') \<or> (\<exists>m \<in> set members. \<not> is_object m \<or> member_id q m = [])
          then (False, [], c)
          else (True, [MeetingMembersChanged (mt_current c) members, MeetingRestored (mt_current c) status role members],
            c\<lparr>mt_generation := to_string (unat generation), mt_members := members\<rparr>))"

definition applyStartMeetingResponse :: "qt \<Rightarrow> json \<Rightarrow> meeting_ctl \<Rightarrow> bool \<times> meeting_event list \<times> meeting_ctl" where
  "applyStartMeetingResponse q v c = (let c1 = c\<lparr>mt_pending_start := []\<rparr>; meeting = jid_text q v ''meeting_id'' in
     if error_of v \<noteq> 0 then (False, [StartMeetingFailed (error_of v)], c1)
     else if mt_pending_start c = [] \<or> meeting \<noteq> mt_pending_start c \<or> jlower q v ''status'' \<noteq> ''in_progress''
     then (False, [StartMeetingFailed 1], c1)
     else (True, [StartMeetingSucceeded meeting], c1))"

definition applyMeetingStarted :: "qt \<Rightarrow> json \<Rightarrow> bool \<times> meeting_event list" where
  "applyMeetingStarted q v = (let meeting = jid_text q v ''meeting_id'' in
     if meeting = [] \<or> jlower q v ''status'' \<noteq> ''in_progress'' then (False, []) else (True, [MeetingStarted meeting]))"

definition applyLeaveMeetingResponse :: "qt \<Rightarrow> json \<Rightarrow> meeting_ctl \<Rightarrow> bool \<times> meeting_event list \<times> meeting_ctl" where
  "applyLeaveMeetingResponse q v c = (let c1 = c\<lparr>mt_pending_leave := []\<rparr>; meeting = jid_text q v ''meeting_id'' in
     if error_of v \<noteq> 0 then (False, [LeaveMeetingFailed (error_of v)], c1)
     else if mt_pending_leave c = [] \<or> meeting \<noteq> mt_pending_leave c then (False, [LeaveMeetingFailed 1], c1)
     else (True, [LeaveMeetingSucceeded meeting],
       if mt_current c = meeting
       then c1\<lparr>mt_current := [], mt_code := [], mt_ticket := [], mt_generation := [], mt_members := []\<rparr> else c1))"

definition applyEndMeetingResponse :: "qt \<Rightarrow> json \<Rightarrow> meeting_ctl \<Rightarrow> bool \<times> meeting_event list \<times> meeting_ctl" where
  "applyEndMeetingResponse q v c = (let c1 = c\<lparr>mt_pending_end := []\<rparr>; meeting = jid_text q v ''meeting_id'' in
     if error_of v \<noteq> 0 then (False, [EndMeetingFailed (error_of v)], c1)
     else if mt_pending_end c = [] \<or> meeting \<noteq> mt_pending_end c \<or> jlower q v ''status'' \<noteq> ''ended''
     then (False, [EndMeetingFailed 1], c1)
     else (True, [EndMeetingSucceeded meeting],
       if meeting = mt_current c then c1\<lparr>mt_ticket := [], mt_generation := []\<rparr> else c1))"

definition applyMeetingEnded :: "qt \<Rightarrow> json \<Rightarrow> meeting_ctl \<Rightarrow> bool \<times> meeting_event list \<times> meeting_ctl" where
  "applyMeetingEnded q v c = (let meeting = jid_text q v ''meeting_id'' in
     if meeting = [] \<or> jlower q v ''status'' \<noteq> ''ended'' then (False, [], c)
     else (True, [MeetingEnded meeting],
       if meeting = mt_current c then c\<lparr>mt_ticket := [], mt_generation := []\<rparr> else c))"

section \<open>Members\<close>

definition applyMeetingMemberJoined :: "qt \<Rightarrow> json \<Rightarrow> meeting_ctl \<Rightarrow> bool \<times> meeting_event list \<times> meeting_ctl" where
  "applyMeetingMemberJoined q v c =
     (let meeting = jid_text q v ''meeting_id''; member = jget v ''member''; user = qt_trimmed q (member_id q member) in
      if meeting = [] \<or> \<not> is_object member then (False, [], c)
      else if meeting \<noteq> mt_current c then (True, [], c)
      else if user = [] \<or> qt_trimmed q (variant_text q (jget member ''name'')) = [] then (False, [], c)
      else if \<exists>m \<in> set (mt_members c). member_id q m = user then (True, [], c)
      else (True, [MeetingMembersChanged meeting (mt_members c @ [member])], c\<lparr>mt_members := mt_members c @ [member]\<rparr>))"

fun remove_member :: "qt \<Rightarrow> string \<Rightarrow> json list \<Rightarrow> json list option" where
  "remove_member q user [] = None"
| "remove_member q user (m # ms) = (if member_id q m = user then Some ms else map_option ((#) m) (remove_member q user ms))"

definition applyMeetingMemberLeft :: "qt \<Rightarrow> json \<Rightarrow> meeting_ctl \<Rightarrow> bool \<times> meeting_event list \<times> meeting_ctl" where
  "applyMeetingMemberLeft q v c =
     (let meeting = jid_text q v ''meeting_id''; user = jid_text q v ''user_id'' in
      if meeting = [] \<or> user = [] then (False, [], c)
      else if meeting \<noteq> mt_current c then (True, [], c)
      else case remove_member q user (mt_members c) of
          None \<Rightarrow> (True, [], c)
        | Some ms \<Rightarrow> (True, [MeetingMembersChanged meeting ms], c\<lparr>mt_members := ms\<rparr>))"

text \<open>The first member with the id gets the state; None when there is nothing to change.\<close>

fun mark_member :: "qt \<Rightarrow> string \<Rightarrow> string \<Rightarrow> json list \<Rightarrow> json list option" where
  "mark_member q user st [] = None"
| "mark_member q user st (m # ms) =
     (if member_id q m = user
      then if variant_text q (jget m ''room_state'') = st then None else Some (jset ''room_state'' (JString st) m # ms)
      else map_option ((#) m) (mark_member q user st ms))"

definition member_state :: "qt \<Rightarrow> string \<Rightarrow> json \<Rightarrow> meeting_ctl \<Rightarrow> bool \<times> meeting_event list \<times> meeting_ctl" where
  "member_state q st v c =
     (let meeting = jid_text q v ''meeting_id''; user = jid_text q v ''user_id'' in
      if meeting = [] \<or> user = [] \<or> jlower q v ''room_state'' \<noteq> st then (False, [], c)
      else if meeting \<noteq> mt_current c then (True, [], c)
      else case mark_member q user st (mt_members c) of
          None \<Rightarrow> (True, [], c)
        | Some ms \<Rightarrow> (True, [MeetingMembersChanged meeting ms], c\<lparr>mt_members := ms\<rparr>))"

definition applyMeetingMemberReconnecting :: "qt \<Rightarrow> json \<Rightarrow> meeting_ctl \<Rightarrow> bool \<times> meeting_event list \<times> meeting_ctl" where
  "applyMeetingMemberReconnecting q = member_state q ''reconnecting''"

definition applyMeetingMemberReconnected :: "qt \<Rightarrow> json \<Rightarrow> meeting_ctl \<Rightarrow> bool \<times> meeting_event list \<times> meeting_ctl" where
  "applyMeetingMemberReconnected q = member_state q ''active''"

end
