(* ===== verification/ClientLink.thy ===== *)
theory ClientLink
  imports TcpSession MeetingCtl ChatCtl
begin

text \<open>
  The connection of the client to RealtimeServer: TcpMgr (network/tcpmgr.cpp), the recovery of a
  lost connection (controllers/meeting/recoverycontroller.cpp), the routing of messages
  (controllers/meeting/realtimecontroller.cpp, profilecontroller.cpp) and the first login over
  TCP (controllers/auth/LoginController.cpp).  All of them live in one thread and call each other
  through direct signals, so a callback runs to its end before the next one: one function of
  the state per callback.  What the user interface and the media objects are told is a log;
  texts of messages and refresh signals are left out.
\<close>

section \<open>State\<close>

record server_info =
  si_uid :: int
  si_email :: string
  si_host :: string
  si_port :: string
  si_token :: string

datatype recovery_state = Idle | Ready | Waiting | Connecting | Authenticating | Resuming | Failed

datatype client_event =
    Wrote u16 string
  | Rejected u16 string
  | OnMeeting meeting_event
  | OnChat chat_event
  | RecoveryInterrupted
  | MeetingRecovered string
  | RecoveryFailed
  | LoginFailed int
  | LoginConnectFailed
  | ProfileReady
  | MediaMessage u16 json
  | AiAnswer string
  | AiFailed int
  | AiFinished

record client =
  tm_socket :: bool
  tm_connected :: bool
  tm_connect_timer :: bool
  tm_generation :: u64
  tm_business_ready :: bool
  tm_buffer :: string
  tm_probes :: "(string \<times> int) list"
  tm_heartbeat_timer :: bool
  tm_clock :: int
  tm_sequence :: u64
  tm_sequenced :: bool
  tm_reprobe_used :: bool
  tm_last_ack :: int
  tm_last_sent :: int
  tm_last_tick :: int
  tm_reprobe_until :: int
  tm_rtt :: int
  rv_server :: server_info
  rv_state :: recovery_state
  rv_retry_timer :: "int option"
  rv_stage_timer :: bool
  rv_budget_timer :: bool
  rv_failures :: nat
  rv_authenticated :: bool
  rv_resume_supported :: bool
  rv_request_id :: string
  lg_pending :: bool
  lg_server :: server_info
  cu_uid :: int
  cu_username :: string
  cu_email :: string
  cl_meeting :: meeting_ctl
  cl_chat :: chat_ctl
  cl_log :: "client_event list"

text \<open>The surroundings of one callback: the clock in milliseconds, the random number below 251, a
  new UUID, the local time of day, whether the socket still is in ConnectedState, its bytesToWrite, whether write takes the
  whole frame, the bytes readAll returns, and the JSON library.\<close>

record link_env =
  le_time :: int
  le_random :: int
  le_uuid :: string
  le_hhmm :: string
  le_alive :: bool
  le_to_write :: nat
  le_write_ok :: bool
  le_data :: string
  le_parse :: "string \<Rightarrow> json option"
  le_print :: "json \<Rightarrow> string"
  le_qt :: qt

definition no_server :: server_info where
  "no_server = \<lparr>si_uid = 0, si_email = [], si_host = [], si_port = [], si_token = []\<rparr>"

definition client_new :: client where
  "client_new = \<lparr>tm_socket = False, tm_connected = False, tm_connect_timer = False, tm_generation = 0,
     tm_business_ready = False, tm_buffer = [], tm_probes = [], tm_heartbeat_timer = False, tm_clock = 0, tm_sequence = 0,
     tm_sequenced = False, tm_reprobe_used = False, tm_last_ack = 0, tm_last_sent = 0, tm_last_tick = 0,
     tm_reprobe_until = 0, tm_rtt = -1, rv_server = no_server, rv_state = Idle, rv_retry_timer = None,
     rv_stage_timer = False, rv_budget_timer = False, rv_failures = 0, rv_authenticated = False,
     rv_resume_supported = False, rv_request_id = [], lg_pending = False, lg_server = no_server, cu_uid = 0,
     cu_username = [], cu_email = [], cl_meeting = MeetingController_new, cl_chat = ChatController_new, cl_log = []\<rparr>"

definition say :: "client_event \<Rightarrow> client \<Rightarrow> client" where
  "say e c = c\<lparr>cl_log := cl_log c @ [e]\<rparr>"

definition kHeartbeatIntervalMs :: int where "kHeartbeatIntervalMs = 5000"
definition kHeartbeatTimeoutMs :: int where "kHeartbeatTimeoutMs = 15000"

definition elapsed :: "link_env \<Rightarrow> client \<Rightarrow> int" where
  "elapsed e c = le_time e - tm_clock c"

section \<open>Losing the connection\<close>

definition closeConnection :: "client \<Rightarrow> client" where
  "closeConnection c = c\<lparr>tm_generation := tm_generation c + 1, tm_connect_timer := False, tm_heartbeat_timer := False,
     tm_probes := [], tm_rtt := -1, tm_business_ready := False, tm_buffer := [], tm_socket := False, tm_connected := False\<rparr>"

definition recovering :: "client \<Rightarrow> bool" where
  "recovering c \<longleftrightarrow> rv_state c = Waiting \<or> rv_state c = Connecting \<or> rv_state c = Authenticating \<or> rv_state c = Resuming"

definition setState :: "recovery_state \<Rightarrow> client \<Rightarrow> client" where
  "setState st c = (let c1 = c\<lparr>rv_state := st\<rparr> in
     c1\<lparr>tm_business_ready := (st = Ready), cl_meeting := setConnectionRecovering (recovering c1 \<or> st = Failed) (cl_meeting c1)\<rparr>)"

definition on_meeting :: "(meeting_ctl \<Rightarrow> meeting_event list \<times> meeting_ctl) \<Rightarrow> client \<Rightarrow> client" where
  "on_meeting f c = (case f (cl_meeting c) of (es, m) \<Rightarrow> c\<lparr>cl_meeting := m, cl_log := cl_log c @ map OnMeeting es\<rparr>)"

definition retry_delay :: "nat \<Rightarrow> int" where
  "retry_delay failures = [1000, 2000, 4000, 8000, 10000] ! min failures 4"

definition retry :: "link_env \<Rightarrow> client \<Rightarrow> client" where
  "retry e c =
     (if \<not> recovering c then c
      else let c1 = closeConnection (c\<lparr>rv_stage_timer := False\<rparr>) in
        if rv_retry_timer c1 \<noteq> None then c1
        else (setState Waiting (c1\<lparr>rv_failures := rv_failures c1 + 1\<rparr>))
          \<lparr>rv_retry_timer := Some (retry_delay (rv_failures c1) + le_random e)\<rparr>)"

text \<open>The signal interrupted: media stops, unanswered chat messages are in doubt, an AI question ends.\<close>

definition emit_interrupted :: "client \<Rightarrow> client" where
  "emit_interrupted c = (let c1 = say RecoveryInterrupted c in
     say AiFinished (c1\<lparr>cl_chat := chat_connectionInterrupted (cl_chat c1)\<rparr>))"

definition rec_disconnected :: "link_env \<Rightarrow> client \<Rightarrow> client" where
  "rec_disconnected e c =
     (if \<not> rv_authenticated c \<or> rv_state c = Idle \<or> rv_state c = Failed then c
      else retry e
        (if rv_state c = Ready
         then emit_interrupted (on_meeting meeting_interrupted (setState Waiting
                (c\<lparr>rv_failures := 0, rv_request_id := le_uuid e, rv_budget_timer := True\<rparr>)))
         else c))"

text \<open>signal_connect_success(false): only a first login that is waiting for it reacts.\<close>

definition login_connect_failed :: "client \<Rightarrow> client" where
  "login_connect_failed c = (if lg_pending c then say LoginConnectFailed (c\<lparr>lg_pending := False\<rparr>) else c)"

definition connectionLost :: "link_env \<Rightarrow> client \<Rightarrow> client" where
  "connectionLost e c = (if \<not> tm_socket c then c else rec_disconnected e (login_connect_failed (closeConnection c)))"

section \<open>Sending\<close>

definition on_chat :: "(chat_ctl \<Rightarrow> chat_event list \<times> chat_ctl) \<Rightarrow> client \<Rightarrow> client" where
  "on_chat f c = (case f (cl_chat c) of (es, m) \<Rightarrow> c\<lparr>cl_chat := m, cl_log := cl_log c @ map OnChat es\<rparr>)"

text \<open>signal_send_rejected: a chat message is marked as failed (ERROR_NETWORK).\<close>

definition send_rejected :: "link_env \<Rightarrow> u16 \<Rightarrow> string \<Rightarrow> client \<Rightarrow> client" where
  "send_rejected e rid data c = (let c1 = say (Rejected rid data) c in
     if rid = 1026 then
       (let request = (case le_parse e data of None \<Rightarrow> JNull | Some v \<Rightarrow> v) in
        on_chat (\<lambda>m. snd (applySendMessageAck (le_qt e)
          (JObject [(''error'', JInt 101), (''client_msg_id'', jget request ''client_msg_id'')]) m)) c1)
     else c1)"

definition is_connected :: "link_env \<Rightarrow> client \<Rightarrow> bool" where
  "is_connected e c \<longleftrightarrow> tm_socket c \<and> tm_connected c \<and> le_alive e"

definition slot_send_data :: "link_env \<Rightarrow> u16 \<Rightarrow> string \<Rightarrow> client \<Rightarrow> client" where
  "slot_send_data e rid data c =
     (let recoveryRequest = (rid = 1010 \<or> rid = 1046 \<or> rid = 1048) in
      if \<not> is_connected e c \<or> \<not> tm_business_ready c \<and> \<not> recoveryRequest \<or> length data > 65535
      then send_rejected e rid data c
      else if le_to_write e + length data + 4 > 4 * 1024 * 1024 then send_rejected e rid data (connectionLost e c)
      else if le_write_ok e then say (Wrote rid data) c else connectionLost e c)"

definition send_json :: "link_env \<Rightarrow> u16 \<Rightarrow> json \<Rightarrow> client \<Rightarrow> client" where
  "send_json e rid v = slot_send_data e rid (le_print e v)"

section \<open>Heartbeats\<close>

definition sendHeartbeat :: "link_env \<Rightarrow> int \<Rightarrow> client \<Rightarrow> client" where
  "sendHeartbeat e now c =
     (let live = dropWhile (\<lambda>p. now - snd p \<ge> kHeartbeatTimeoutMs) (tm_probes c);
          kept = (if length live \<ge> 4 then tl live else live);
          number = tm_sequence c + 1;
          sequence = to_string (unat number);
          c1 = c\<lparr>tm_sequence := number, tm_probes := kept @ [(sequence, now)], tm_last_sent := now\<rparr>
      in send_json e 1048 (if tm_sequenced c1 then JObject [(''seq'', JString sequence)] else JObject []) c1)"

definition startHeartbeat :: "link_env \<Rightarrow> bool \<Rightarrow> client \<Rightarrow> client" where
  "startHeartbeat e sequenced c =
     (if \<not> is_connected e c then c
      else sendHeartbeat e 0 (c\<lparr>tm_sequenced := sequenced, tm_probes := [], tm_reprobe_used := False, tm_reprobe_until := 0,
        tm_rtt := -1, tm_last_ack := 0, tm_last_tick := 0, tm_clock := le_time e, tm_heartbeat_timer := True\<rparr>))"

text \<open>The probe an answer confirms: the one of its sequence number, or the oldest.\<close>

definition probe_of :: "json \<Rightarrow> client \<Rightarrow> nat option" where
  "probe_of response c =
     (if tm_sequenced c then
        (if jsize response \<noteq> 1 \<or> \<not> is_string (jget response ''seq'') then None
         else find_row (\<lambda>p. fst p = as_string (jget response ''seq'')) (tm_probes c))
      else if jsize response \<noteq> 0 \<or> tm_probes c = [] then None
      else Some 0)"

definition acceptHeartbeat :: "link_env \<Rightarrow> json \<Rightarrow> client \<Rightarrow> client" where
  "acceptHeartbeat e response c =
     (if \<not> tm_heartbeat_timer c \<or> tm_probes c = [] then c
      else case probe_of response c of
          None \<Rightarrow> c
        | Some i \<Rightarrow> (let now = elapsed e c; sent = snd (tm_probes c ! i) in
            if now - sent \<ge> kHeartbeatTimeoutMs then c
            else c\<lparr>tm_rtt := now - sent, tm_last_ack := now, tm_reprobe_used := False, tm_reprobe_until := 0,
                   tm_probes := drop (Suc i) (tm_probes c)\<rparr>))"

section \<open>Recovery\<close>

definition finish :: "client \<Rightarrow> client" where
  "finish c = setState Ready (c\<lparr>rv_retry_timer := None, rv_stage_timer := False, rv_budget_timer := False, rv_failures := 0\<rparr>)"

definition rec_stop :: "client \<Rightarrow> client" where
  "rec_stop c = on_meeting abandonCurrentMeeting (setState Idle (closeConnection
     (c\<lparr>rv_retry_timer := None, rv_stage_timer := False, rv_budget_timer := False, rv_authenticated := False,
        rv_server := no_server, rv_request_id := []\<rparr>)))"

definition rec_fail :: "client \<Rightarrow> client" where
  "rec_fail c = say RecoveryFailed (setState Failed (rec_stop c))"

definition cancelMeeting :: "link_env \<Rightarrow> client \<Rightarrow> client" where
  "cancelMeeting e c = (if rv_state c \<noteq> Resuming then c else retry e c)"

text \<open>The heartbeat the server offers, if any: true for the sequenced one.\<close>

definition has_capability :: "json \<Rightarrow> string \<Rightarrow> bool" where
  "has_capability response name \<longleftrightarrow> JString name \<in> set (to_array (jget response ''capabilities''))"

definition start_offered :: "link_env \<Rightarrow> json \<Rightarrow> client \<Rightarrow> client" where
  "start_offered e response c =
     (if has_capability response ''heartbeat_v1'' \<or> has_capability response ''heartbeat_v2''
      then startHeartbeat e (has_capability response ''heartbeat_v2'') c else c)"

definition authenticated :: "link_env \<Rightarrow> json \<Rightarrow> client \<Rightarrow> client" where
  "authenticated e response c = start_offered e response (finish (c\<lparr>rv_authenticated := True,
     rv_resume_supported := has_capability response ''meeting_resume_v1''\<rparr>))"

definition setServer :: "server_info \<Rightarrow> client \<Rightarrow> client" where
  "setServer server c = (rec_stop c)\<lparr>rv_server := server\<rparr>"

definition storage_error :: "int \<Rightarrow> bool" where
  "storage_error err \<longleftrightarrow> err = 2 \<or> err = 3 \<or> err = 101"

definition abandon_and_finish :: "client \<Rightarrow> client" where
  "abandon_and_finish c = say RecoveryFailed (finish (on_meeting abandonCurrentMeeting c))"

definition resume_request :: "client \<Rightarrow> json" where
  "resume_request c = JObject [(''meeting_id'', JString (mt_current (cl_meeting c))), (''request_id'', JString (rv_request_id c)),
     (''resume_ticket'', JString (mt_ticket (cl_meeting c))), (''membership_generation'', JString (mt_generation (cl_meeting c)))]"

definition rec_login_response :: "link_env \<Rightarrow> json \<Rightarrow> client \<Rightarrow> client" where
  "rec_login_response e response c =
     (if rv_state c \<noteq> Authenticating then c
      else let c1 = c\<lparr>rv_stage_timer := False\<rparr> in
        if storage_error (error_of response) then retry e c1
        else if error_of response \<noteq> 0 then rec_fail c1
        else let c2 = start_offered e response (c1\<lparr>rv_resume_supported := has_capability response ''meeting_resume_v1''\<rparr>) in
          if rv_state c2 \<noteq> Authenticating then c2
          else if mt_current (cl_meeting c2) = [] then finish c2
          else if \<not> rv_resume_supported c2 \<or> mt_ticket (cl_meeting c2) = [] then abandon_and_finish c2
          else let c3 = (setState Resuming c2)\<lparr>rv_stage_timer := True\<rparr> in send_json e 1046 (resume_request c3) c3)"

text \<open>signal meetingRecovered: the newest page of the group chat is asked for.\<close>

definition chat_sends :: "link_env \<Rightarrow> chat_event list \<Rightarrow> client \<Rightarrow> client" where
  "chat_sends e es c = fold (\<lambda>ev c. case ev of SendData rid v \<Rightarrow> send_json e rid v c | _ \<Rightarrow> say (OnChat ev) c) es c"

definition meeting_recovered :: "link_env \<Rightarrow> client \<Rightarrow> client" where
  "meeting_recovered e c = (let i = mt_current (cl_meeting c) in
     chat_sends e (requestGroupHistory (le_qt e) i [] 50 (cl_chat c)) (say (MeetingRecovered i) c))"

definition rec_resume_response :: "link_env \<Rightarrow> json \<Rightarrow> client \<Rightarrow> client" where
  "rec_resume_response e response c =
     (if rv_state c \<noteq> Resuming
         \<or> is_member response ''request_id'' \<and> jtext response ''request_id'' \<noteq> rv_request_id c then c
      else let c1 = c\<lparr>rv_stage_timer := False\<rparr> in
        if storage_error (error_of response) then retry e c1
        else if error_of response \<noteq> 0 then abandon_and_finish c1
        else if jtext response ''request_id'' \<noteq> rv_request_id c1 then rec_fail c1
        else case applyResumeMeetingResponse (le_qt e) response (cl_meeting c1) of (ok, es, m) \<Rightarrow>
          let c2 = on_meeting (\<lambda>_. (es, m)) c1 in
          if \<not> ok then rec_fail c2 else meeting_recovered e (finish c2))"

text \<open>Whether a message ends here, and its effect.\<close>

definition rec_handleMessage :: "link_env \<Rightarrow> u16 \<Rightarrow> json \<Rightarrow> client \<Rightarrow> bool \<times> client" where
  "rec_handleMessage e rid response c =
     (if rid = 1011 \<and> recovering c then (True, rec_login_response e response c)
      else if rid = 1047 then (True, rec_resume_response e response c)
      else (recovering c \<or> rv_state c = Failed, c))"

section \<open>Routing\<close>

definition applyProfile :: "link_env \<Rightarrow> json \<Rightarrow> client \<Rightarrow> bool \<times> client" where
  "applyProfile e v c =
     (let email = jtrim (le_qt e) v ''email''; username = jtrim (le_qt e) v ''username'';
          uid = to_int (jget v ''uid'') (to_int (jget v ''user_id'') 0) in
      if email = [] \<or> username = [] then (False, c)
      else (True, c\<lparr>cu_uid := (if uid > 0 then uid else cu_uid c), cu_username := username, cu_email := email\<rparr>))"

definition login_answer :: "link_env \<Rightarrow> json \<Rightarrow> client \<Rightarrow> client" where
  "login_answer e v c =
     (if error_of v \<noteq> 0 then say (LoginFailed (error_of v)) c
      else case applyProfile e (if is_member v ''profile'' then (if is_object (jget v ''profile'') then jget v ''profile'' else JObject []) else v) c of
        (ok, c1) \<Rightarrow>
          if \<not> ok then say (LoginFailed 1) c1
          else case applyRecentMeeting (le_qt e) (to_array (jget v ''meetings'')) (cl_meeting c1) of (ok2, m) \<Rightarrow>
            let c2 = c1\<lparr>cl_meeting := m\<rparr> in
            if \<not> ok2 then say (LoginFailed 1) c2 else say ProfileReady (authenticated e v c2))"

text \<open>An answer with a list of meetings.\<close>

definition meetings_answer :: "(json list \<Rightarrow> meeting_ctl \<Rightarrow> bool \<times> meeting_ctl) \<Rightarrow> json \<Rightarrow> client \<Rightarrow> client" where
  "meetings_answer f v c =
     (if error_of v \<noteq> 0 \<or> \<not> is_array (jget v ''meetings'') then c
      else c\<lparr>cl_meeting := snd (f (to_array (jget v ''meetings'')) (cl_meeting c))\<rparr>)"

definition ai_answer :: "qt \<Rightarrow> json \<Rightarrow> client \<Rightarrow> client" where
  "ai_answer q v c = say AiFinished
     (if error_of v \<noteq> 0 then say (AiFailed (error_of v)) c
      else let answer = jtrim q v ''answer'' in
        if answer = [] then say (AiFailed 1) c else say (AiAnswer answer) c)"

definition route :: "link_env \<Rightarrow> u16 \<Rightarrow> json \<Rightarrow> client \<Rightarrow> client" where
  "route e rid v c = (let q = le_qt e in
     if rid = 1011 then login_answer e v c
     else if rid = 1013 then meetings_answer (applyRecentMeeting q) v c
     else if rid = 1015 then meetings_answer (applyHistoryMeetings q) v c
     else if rid = 1017 then on_meeting (\<lambda>m. snd (applyJoinMeetingResponse q v m)) c
     else if rid = 1019 then on_meeting (\<lambda>m. snd (applyStartMeetingResponse q v m)) c
     else if rid = 1020 then on_meeting (\<lambda>m. (snd (applyMeetingStarted q v), m)) c
     else if rid = 1022 then on_meeting (\<lambda>m. snd (applyLeaveMeetingResponse q v m)) c
     else if rid = 1024 then on_meeting (\<lambda>m. snd (applyEndMeetingResponse q v m)) c
     else if rid = 1025 then on_meeting (\<lambda>m. snd (applyMeetingEnded q v m)) c
     else if rid = 1029 then on_meeting (\<lambda>m. snd (applyMeetingMemberJoined q v m)) c
     else if rid = 1030 \<or> rid = 1033 then on_meeting (\<lambda>m. snd (applyMeetingMemberLeft q v m)) c
     else if rid = 1031 then on_meeting (\<lambda>m. snd (applyMeetingMemberReconnecting q v m)) c
     else if rid = 1032 then on_meeting (\<lambda>m. snd (applyMeetingMemberReconnected q v m)) c
     else if rid = 1027 then on_chat (\<lambda>m. snd (applySendMessageAck q v m)) c
     else if rid = 1028 then on_chat (\<lambda>m. ([], snd (applyMessageReceived q v m))) c
     else if rid = 1035 then on_chat (\<lambda>m. snd (applyGroupHistoryResponse q v m)) c
     else if rid = 1037 then on_chat (\<lambda>m. snd (applyPrivateHistoryResponse q v m)) c
     else if rid = 1040 \<or> rid = 1041 \<or> rid = 1042 then say (MediaMessage rid v) c
     else if rid = 1045 then ai_answer q v c
     else c)"

definition slot_message_recv :: "link_env \<Rightarrow> u16 \<Rightarrow> json \<Rightarrow> client \<Rightarrow> client" where
  "slot_message_recv e rid v c = (case rec_handleMessage e rid v c of (done, c1) \<Rightarrow> if done then c1 else route e rid v c1)"

section \<open>Receiving\<close>

text \<open>One complete frame at the front of the buffer: its id, its payload and the rest.\<close>

definition client_frame :: "string \<Rightarrow> (u16 \<times> string \<times> string) option" where
  "client_frame buf =
     (if length buf < 4 then None
      else let size = unat (be16 (buf ! 2) (buf ! 3)) in
        if length buf < 4 + size then None
        else Some (be16 (buf ! 0) (buf ! 1), take size (drop 4 buf), drop (4 + size) buf))"

definition handle_frame :: "link_env \<Rightarrow> u16 \<Rightarrow> string \<Rightarrow> client \<Rightarrow> client" where
  "handle_frame e rid payload c =
     (if rid = 1049 \<and> length payload > 96 then c
      else case le_parse e payload of
          Some v \<Rightarrow> if \<not> is_object v then connectionLost e c
                    else if rid = 1049 then acceptHeartbeat e v c else slot_message_recv e rid v c
        | None \<Rightarrow> connectionLost e c)"

text \<open>The loop: it ends when the connection is another one or no complete frame is left.  A
  frame takes four bytes at least, so the length of the buffer is enough fuel.\<close>

fun read_frames :: "link_env \<Rightarrow> u64 \<Rightarrow> nat \<Rightarrow> client \<Rightarrow> client" where
  "read_frames e generation 0 c = c"
| "read_frames e generation (Suc n) c =
     (if generation \<noteq> tm_generation c then c
      else case client_frame (tm_buffer c) of
          None \<Rightarrow> c
        | Some (rid, payload, rest) \<Rightarrow> read_frames e generation n (handle_frame e rid payload (c\<lparr>tm_buffer := rest\<rparr>)))"

definition readIncoming :: "link_env \<Rightarrow> client \<Rightarrow> client" where
  "readIncoming e c =
     (if \<not> tm_socket c then c
      else let c1 = c\<lparr>tm_buffer := tm_buffer c @ le_data e\<rparr> in
        read_frames e (tm_generation c1) (Suc (length (tm_buffer c1))) c1)"

definition heartbeatTick :: "link_env \<Rightarrow> client \<Rightarrow> client" where
  "heartbeatTick e c =
     (if \<not> tm_heartbeat_timer c then c
      else let now = elapsed e c;
               delayed = (now - tm_last_tick c > kHeartbeatIntervalMs);
               c1 = readIncoming e (c\<lparr>tm_last_tick := now\<rparr>)
           in if tm_generation c1 \<noteq> tm_generation c \<or> \<not> tm_heartbeat_timer c1 then c1
              else if now - tm_last_ack c1 \<ge> kHeartbeatTimeoutMs \<and> delayed \<and> \<not> tm_reprobe_used c1
                then sendHeartbeat e now (c1\<lparr>tm_reprobe_used := True, tm_reprobe_until := now + kHeartbeatIntervalMs, tm_probes := []\<rparr>)
              else if now - tm_last_ack c1 \<ge> kHeartbeatTimeoutMs \<and> now \<ge> tm_reprobe_until c1 then connectionLost e c1
              else if now - tm_last_sent c1 \<ge> kHeartbeatIntervalMs then sendHeartbeat e now c1
              else c1)"

section \<open>Callbacks\<close>

definition slot_tcp_connect :: "client \<Rightarrow> client" where
  "slot_tcp_connect c = (closeConnection c)\<lparr>tm_socket := True, tm_connect_timer := True\<rparr>"

definition connectNow :: "client \<Rightarrow> client" where
  "connectNow c = (if rv_state c \<noteq> Waiting then c else slot_tcp_connect (setState Connecting c))"

definition auth_request :: "server_info \<Rightarrow> json" where
  "auth_request s = JObject [(''uid'', JInt (si_uid s)), (''email'', JString (si_email s)), (''token'', JString (si_token s))]"

text \<open>signal_connect_success(true): the first login, then the recovery.\<close>

definition connect_succeeded :: "link_env \<Rightarrow> client \<Rightarrow> client" where
  "connect_succeeded e c =
     (let c1 = (if lg_pending c then send_json e 1010 (auth_request (lg_server c)) (c\<lparr>lg_pending := False\<rparr>) else c) in
      if rv_state c1 \<noteq> Connecting then c1
      else let c2 = (setState Authenticating c1)\<lparr>rv_stage_timer := True\<rparr> in send_json e 1010 (auth_request (rv_server c2)) c2)"

datatype user_action =
    JoinMeeting string
  | StartMeeting string
  | LeaveMeeting string
  | EndMeeting string
  | CreateMeeting string string string
  | ShowHistory
  | ShowMeetingChat string
  | SayToAll string string
  | SayTo string int string
  | LoadMessages string string string string int
  | AskAi string
  | Quit

datatype callback =
    SocketConnected u64
  | SocketFailed u64
  | SocketReadable u64
  | ConnectTimeout
  | HeartbeatTimeout
  | RetryTimeout
  | StageTimeout
  | BudgetTimeout
  | LoggedIn server_info
  | User user_action

text \<open>The events of a controller in order: requests are sent, a cancelled recovery is retried.\<close>

definition on_meeting_event :: "link_env \<Rightarrow> meeting_event \<Rightarrow> client \<Rightarrow> client" where
  "on_meeting_event e ev c = (case ev of SendRequest rid v \<Rightarrow> send_json e rid v c
     | RecoveryCancelled \<Rightarrow> cancelMeeting e c | _ \<Rightarrow> say (OnMeeting ev) c)"

definition run_meeting :: "link_env \<Rightarrow> (meeting_ctl \<Rightarrow> meeting_event list \<times> meeting_ctl) \<Rightarrow> client \<Rightarrow> client" where
  "run_meeting e f c = (case f (cl_meeting c) of (es, m) \<Rightarrow> fold (on_meeting_event e) es (c\<lparr>cl_meeting := m\<rparr>))"

definition run_chat :: "link_env \<Rightarrow> (chat_ctl \<Rightarrow> chat_event list \<times> chat_ctl) \<Rightarrow> client \<Rightarrow> client" where
  "run_chat e f c = (case f (cl_chat c) of (es, m) \<Rightarrow> chat_sends e es (c\<lparr>cl_chat := m\<rparr>))"

definition askAiQuestion :: "link_env \<Rightarrow> string \<Rightarrow> client \<Rightarrow> client" where
  "askAiQuestion e question c = (let text = qt_trimmed (le_qt e) question in
     if text = [] then say AiFinished (say (AiFailed 1) c)
     else send_json e 1044 (JObject [(''question'', JString text)]) c)"

definition user_does :: "link_env \<Rightarrow> user_action \<Rightarrow> client \<Rightarrow> client" where
  "user_does e u c = (let q = le_qt e in case u of
       JoinMeeting code \<Rightarrow> run_meeting e (requestJoinMeeting q code) c
     | StartMeeting i \<Rightarrow> run_meeting e (requestStartMeeting q i) c
     | LeaveMeeting i \<Rightarrow> run_meeting e (requestLeaveMeeting q i) c
     | EndMeeting i \<Rightarrow> run_meeting e (requestEndMeeting q i) c
     | CreateMeeting title starts pw \<Rightarrow> run_meeting e (Pair (requestCreateMeeting title starts pw)) c
     | ShowHistory \<Rightarrow> run_meeting e (Pair requestHistoryMeetings) c
     | ShowMeetingChat i \<Rightarrow> run_chat e (\<lambda>m. ([], setActiveMeetingId i m)) c
     | SayToAll i tx \<Rightarrow> run_chat e (sendGroupMessage q (le_uuid e) (le_hhmm e) i tx) c
     | SayTo i target tx \<Rightarrow> run_chat e (sendPrivateMessage q (le_uuid e) (le_hhmm e) i target tx) c
     | LoadMessages i chatType peer before limit \<Rightarrow> run_chat e (\<lambda>m. (requestHistory q i chatType peer before limit m, m)) c
     | AskAi question \<Rightarrow> askAiQuestion e question c
     | Quit \<Rightarrow> rec_stop c)"

text \<open>HTTP login succeeded: the server is set and the first connection starts.\<close>

definition logged_in :: "server_info \<Rightarrow> client \<Rightarrow> client" where
  "logged_in server c = slot_tcp_connect ((setServer server (c\<lparr>lg_server := server\<rparr>))\<lparr>lg_pending := True\<rparr>)"

text \<open>The callbacks of a socket exist while it does; connected comes once and before data.  A timer
  that is not active does not call back; the single-shot timers stop when they do.\<close>

definition client_step :: "link_env \<Rightarrow> callback \<Rightarrow> client \<Rightarrow> client" where
  "client_step e cb c = (case cb of
       SocketConnected g \<Rightarrow> if g \<noteq> tm_generation c \<or> \<not> tm_socket c \<or> tm_connected c then c
         else connect_succeeded e (c\<lparr>tm_connected := True, tm_connect_timer := False\<rparr>)
     | SocketFailed g \<Rightarrow> if g \<noteq> tm_generation c \<or> \<not> tm_socket c then c else connectionLost e c
     | SocketReadable g \<Rightarrow> if g \<noteq> tm_generation c \<or> \<not> tm_connected c then c else readIncoming e c
     | ConnectTimeout \<Rightarrow> if \<not> tm_connect_timer c then c else connectionLost e (c\<lparr>tm_connect_timer := False\<rparr>)
     | HeartbeatTimeout \<Rightarrow> heartbeatTick e c
     | RetryTimeout \<Rightarrow> if rv_retry_timer c = None then c else connectNow (c\<lparr>rv_retry_timer := None\<rparr>)
     | StageTimeout \<Rightarrow> if \<not> rv_stage_timer c then c else retry e (c\<lparr>rv_stage_timer := False\<rparr>)
     | BudgetTimeout \<Rightarrow> if \<not> rv_budget_timer c then c else rec_fail (c\<lparr>rv_budget_timer := False\<rparr>)
     | LoggedIn server \<Rightarrow> logged_in server c
     | User u \<Rightarrow> user_does e u c)"

end
