(* ===== verification/ClientLinkInv.thy ===== *)
theory ClientLinkInv
  imports ClientLink
begin

text \<open>
  The invariant of the client's connection: which timers run in which state of the recovery,
  kept by every callback.
\<close>

named_theorems link_simps \<open>operations that leave the connection as it is\<close>

section \<open>The invariant\<close>

text \<open>Between two statements of a handler the stage timer may already be stopped.\<close>

definition link_mid :: "client \<Rightarrow> bool" where
  "link_mid c \<longleftrightarrow>
     (tm_connected c \<longrightarrow> tm_socket c) \<and> (tm_heartbeat_timer c \<longrightarrow> tm_connected c)
   \<and> tm_connect_timer c = (tm_socket c \<and> \<not> tm_connected c)
   \<and> tm_business_ready c = (rv_state c = Ready)
   \<and> rv_authenticated c = (rv_state c \<noteq> Idle \<and> rv_state c \<noteq> Failed)
   \<and> (rv_state c = Ready \<or> rv_state c = Authenticating \<or> rv_state c = Resuming \<longrightarrow> tm_connected c)
   \<and> (rv_state c = Connecting \<longrightarrow> tm_socket c \<and> \<not> tm_connected c)
   \<and> (rv_state c = Waiting \<or> rv_state c = Failed \<longrightarrow> \<not> tm_socket c)
   \<and> (rv_retry_timer c \<noteq> None) = (rv_state c = Waiting)
   \<and> (rv_stage_timer c \<longrightarrow> rv_state c = Authenticating \<or> rv_state c = Resuming)
   \<and> rv_budget_timer c = recovering c
   \<and> (lg_pending c \<longrightarrow> (rv_state c = Idle \<or> rv_state c = Failed) \<and> \<not> tm_connected c)
   \<and> mt_recovering (cl_meeting c) = (recovering c \<or> rv_state c = Failed)"

definition link_ok :: "client \<Rightarrow> bool" where
  "link_ok c \<longleftrightarrow> link_mid c \<and> (rv_state c = Authenticating \<or> rv_state c = Resuming \<longrightarrow> rv_stage_timer c)"

inductive client_reachable :: "client \<Rightarrow> bool" where
  start: "client_reachable client_new"
| callback: "client_reachable c \<Longrightarrow> client_reachable (client_step e cb c)"

section \<open>Operations that do not touch it\<close>

lemma link_say [link_simps]:
  "link_mid (say ev c) = link_mid c" "link_ok (say ev c) = link_ok c"
  "tm_socket (say ev c) = tm_socket c" "tm_connected (say ev c) = tm_connected c"
  "tm_generation (say ev c) = tm_generation c" "tm_buffer (say ev c) = tm_buffer c" "rv_state (say ev c) = rv_state c"
  by (simp_all add: say_def link_mid_def link_ok_def recovering_def)

lemma link_on_chat [link_simps]:
  "link_mid (on_chat f c) = link_mid c" "link_ok (on_chat f c) = link_ok c"
  "tm_socket (on_chat f c) = tm_socket c" "tm_connected (on_chat f c) = tm_connected c"
  "tm_generation (on_chat f c) = tm_generation c" "tm_buffer (on_chat f c) = tm_buffer c" "rv_state (on_chat f c) = rv_state c"
  by (simp_all add: on_chat_def link_mid_def link_ok_def recovering_def split: prod.split)

lemma link_on_meeting [link_simps]:
  "tm_socket (on_meeting f c) = tm_socket c" "tm_connected (on_meeting f c) = tm_connected c"
  "tm_generation (on_meeting f c) = tm_generation c" "tm_buffer (on_meeting f c) = tm_buffer c" "rv_state (on_meeting f c) = rv_state c"
  by (simp_all add: on_meeting_def split: prod.split)

lemma link_on_meeting_kept:
  assumes "mt_recovering (snd (f (cl_meeting c))) = mt_recovering (cl_meeting c)"
  shows "link_mid (on_meeting f c) = link_mid c" "link_ok (on_meeting f c) = link_ok c"
  using assms by (simp_all add: on_meeting_def link_mid_def link_ok_def recovering_def split_beta)

lemma link_send_rejected [link_simps]:
  "link_mid (send_rejected e r d c) = link_mid c" "link_ok (send_rejected e r d c) = link_ok c"
  "tm_socket (send_rejected e r d c) = tm_socket c" "tm_connected (send_rejected e r d c) = tm_connected c"
  "tm_generation (send_rejected e r d c) = tm_generation c" "tm_buffer (send_rejected e r d c) = tm_buffer c" "rv_state (send_rejected e r d c) = rv_state c"
  by (simp_all add: send_rejected_def Let_def link_simps)

text \<open>The meeting's own operations keep its recovering flag.\<close>

lemma abandon_recovering [simp]: "mt_recovering (snd (abandonCurrentMeeting m)) = mt_recovering m"
  by (simp add: abandonCurrentMeeting_def)

lemma interrupted_recovering [simp]: "mt_recovering (snd (meeting_interrupted m)) = mt_recovering m"
  by (simp add: meeting_interrupted_def Let_def)

lemma requests_recovering [simp]:
  "mt_recovering (snd (requestJoinMeeting q x m)) = mt_recovering m"
  "mt_recovering (snd (requestStartMeeting q x m)) = mt_recovering m"
  "mt_recovering (snd (requestEndMeeting q x m)) = mt_recovering m"
  by (simp_all add: requestJoinMeeting_def requestStartMeeting_def requestEndMeeting_def Let_def)

lemma leave_recovering [simp]: "mt_recovering (snd (requestLeaveMeeting q x m)) = mt_recovering m"
  by (simp add: requestLeaveMeeting_def Let_def abandonCurrentMeeting_def)

lemma lists_recovering [simp]:
  "mt_recovering (snd (applyRecentMeeting q vs m)) = mt_recovering m"
  "mt_recovering (snd (applyHistoryMeetings q vs m)) = mt_recovering m"
  by (simp_all add: applyRecentMeeting_def applyHistoryMeetings_def split: option.split)

lemma answers_recovering [simp]:
  "mt_recovering (snd (snd (applyJoinMeetingResponse q v m))) = mt_recovering m"
  "mt_recovering (snd (snd (applyStartMeetingResponse q v m))) = mt_recovering m"
  "mt_recovering (snd (snd (applyLeaveMeetingResponse q v m))) = mt_recovering m"
  "mt_recovering (snd (snd (applyEndMeetingResponse q v m))) = mt_recovering m"
  "mt_recovering (snd (snd (applyMeetingEnded q v m))) = mt_recovering m"
  by (simp_all add: applyJoinMeetingResponse_def applyStartMeetingResponse_def applyLeaveMeetingResponse_def
      applyEndMeetingResponse_def applyMeetingEnded_def Let_def)

lemma resume_recovering [simp]:
  "mt_recovering (snd (snd (applyResumeMeetingResponse q v m))) = mt_recovering m"
  by (simp add: applyResumeMeetingResponse_def Let_def split: option.split)

lemma members_recovering [simp]:
  "mt_recovering (snd (snd (applyMeetingMemberJoined q v m))) = mt_recovering m"
  "mt_recovering (snd (snd (applyMeetingMemberLeft q v m))) = mt_recovering m"
  "mt_recovering (snd (snd (applyMeetingMemberReconnecting q v m))) = mt_recovering m"
  "mt_recovering (snd (snd (applyMeetingMemberReconnected q v m))) = mt_recovering m"
  by (simp_all add: applyMeetingMemberJoined_def applyMeetingMemberLeft_def applyMeetingMemberReconnecting_def
      applyMeetingMemberReconnected_def member_state_def Let_def split: option.split)

section \<open>Losing the connection\<close>

lemmas link_unfold = link_mid_def link_ok_def recovering_def closeConnection_def setState_def setConnectionRecovering_def
  Let_def

text \<open>What retry leaves: the wait for the next attempt.\<close>

lemma retry_ok:
  assumes "link_mid (c\<lparr>rv_state := Waiting, tm_socket := False, tm_connected := False, tm_connect_timer := False,
      tm_heartbeat_timer := False, tm_business_ready := False, rv_stage_timer := False,
      rv_retry_timer := Some 0, cl_meeting := setConnectionRecovering True (cl_meeting c)\<rparr>)"
    and "recovering c" and "rv_retry_timer c \<noteq> None \<Longrightarrow> rv_state c = Waiting \<and> mt_recovering (cl_meeting c)"
  shows "link_ok (retry e c) \<and> \<not> tm_socket (retry e c)"
  using assms by (auto simp: retry_def link_unfold)

lemma retry_link:
  assumes "link_mid c" and "recovering c"
  shows "link_ok (retry e c) \<and> \<not> tm_socket (retry e c) \<and> rv_state (retry e c) = Waiting"
  using assms by (auto simp: retry_def link_unfold)

lemma retry_idle: "\<not> recovering c \<Longrightarrow> retry e c = c"
  by (simp add: retry_def)

text \<open>The first loss of a working connection.\<close>

lemma first_loss_link:
  assumes "link_mid c" and "rv_state c = Ready"
  shows "link_ok (rec_disconnected e (login_connect_failed (closeConnection c)))
    \<and> \<not> tm_socket (rec_disconnected e (login_connect_failed (closeConnection c)))"
proof -
  let ?d = "login_connect_failed (closeConnection c)"
  let ?w = "emit_interrupted (on_meeting meeting_interrupted (setState Waiting
                (?d\<lparr>rv_failures := 0, rv_request_id := le_uuid e, rv_budget_timer := True\<rparr>)))"
  have d: "\<not> tm_socket ?d" "\<not> tm_connected ?d" "rv_state ?d = Ready" "rv_authenticated ?d" "rv_retry_timer ?d = None"
      "\<not> rv_stage_timer ?d" "\<not> tm_heartbeat_timer ?d" "\<not> tm_connect_timer ?d" "\<not> lg_pending ?d"
    using assms by (auto simp: login_connect_failed_def say_def link_unfold)
  have w: "\<not> tm_socket ?w" "\<not> tm_connected ?w" "rv_state ?w = Waiting" "rv_authenticated ?w" "rv_retry_timer ?w = None"
      "\<not> rv_stage_timer ?w" "\<not> tm_heartbeat_timer ?w" "\<not> tm_connect_timer ?w" "rv_budget_timer ?w"
      "\<not> tm_business_ready ?w" "mt_recovering (cl_meeting ?w)" "\<not> lg_pending ?w"
    using d by (simp_all add: emit_interrupted_def on_meeting_def say_def setState_def Let_def recovering_def
        setConnectionRecovering_def split_beta)
  have "rec_disconnected e ?d = retry e ?w"
    using d by (simp add: rec_disconnected_def)
  moreover have "link_ok (retry e ?w) \<and> \<not> tm_socket (retry e ?w)"
    using w by (intro retry_ok) (simp_all add: link_unfold)
  ultimately show ?thesis
    by simp
qed

lemma connectionLost_link:
  assumes "link_mid c" and "tm_socket c"
  shows "link_ok (connectionLost e c) \<and> \<not> tm_socket (connectionLost e c)"
proof (cases "rv_state c = Ready")
  case True
  then show ?thesis
    using first_loss_link assms by (simp add: connectionLost_def)
next
  case False
  let ?d = "login_connect_failed (closeConnection c)"
  have d: "\<not> tm_socket ?d" "\<not> tm_connected ?d" "\<not> tm_heartbeat_timer ?d" "\<not> tm_connect_timer ?d"
     "rv_state ?d = rv_state c" "rv_authenticated ?d = rv_authenticated c" "rv_retry_timer ?d = rv_retry_timer c"
     "rv_stage_timer ?d = rv_stage_timer c" "rv_budget_timer ?d = rv_budget_timer c" "cl_meeting ?d = cl_meeting c"
     "\<not> tm_business_ready ?d" "\<not> lg_pending ?d"
    by (auto simp: login_connect_failed_def say_def closeConnection_def)
  show ?thesis
  proof (cases "recovering c")
    case True
    then have "rec_disconnected e ?d = retry e ?d"
      using False assms d by (auto simp: rec_disconnected_def link_mid_def recovering_def)
    moreover have "link_ok (retry e ?d) \<and> \<not> tm_socket (retry e ?d)"
      using True assms d by (intro retry_ok) (auto simp: link_unfold)
    ultimately show ?thesis
      using assms(2) by (simp add: connectionLost_def)
  next
    case idle: False
    then have "rv_state c = Idle"
      using False assms by (cases "rv_state c") (auto simp: link_mid_def recovering_def)
    then have "connectionLost e c = ?d"
      using assms(2) d by (simp add: connectionLost_def rec_disconnected_def)
    then show ?thesis
      using \<open>rv_state c = Idle\<close> assms(1) d by (auto simp: link_mid_def link_ok_def recovering_def)
  qed
qed

lemma connectionLost_none: "\<not> tm_socket c \<Longrightarrow> connectionLost e c = c"
  by (simp add: connectionLost_def)


section \<open>Sending\<close>

lemma send_cases:
  "slot_send_data e r d c = send_rejected e r d c \<or> slot_send_data e r d c = say (Wrote r d) c
   \<or> tm_socket c \<and> (slot_send_data e r d c = connectionLost e c
       \<or> slot_send_data e r d c = send_rejected e r d (connectionLost e c))"
  by (simp add: slot_send_data_def Let_def is_connected_def)

lemma send_link:
  assumes "link_mid c"
  shows "link_mid (slot_send_data e r d c)"
proof -
  have "tm_socket c \<Longrightarrow> link_mid (connectionLost e c)"
    using connectionLost_link [OF assms] by (simp add: link_ok_def)
  then show ?thesis
    using send_cases [of e r d c] assms by (elim disjE conjE) (simp_all add: link_simps)
qed

lemma send_link_ok:
  assumes "link_ok c"
  shows "link_ok (slot_send_data e r d c)"
proof -
  have "tm_socket c \<Longrightarrow> link_ok (connectionLost e c)"
    using connectionLost_link [of c e] assms by (simp add: link_ok_def)
  then show ?thesis
    using send_cases [of e r d c] assms by (elim disjE conjE) (simp_all add: link_simps)
qed

text \<open>What an operation on an open connection may do to it: nothing, or close it a few times.\<close>

definition kept_or_closed :: "client \<Rightarrow> client \<Rightarrow> bool" where
  "kept_or_closed c c' \<longleftrightarrow>
     (tm_socket c' = tm_socket c \<and> tm_connected c' = tm_connected c \<and> tm_generation c' = tm_generation c
      \<and> tm_buffer c' = tm_buffer c)
   \<or> tm_socket c \<and> \<not> tm_socket c' \<and> (tm_generation c' = tm_generation c + 1 \<or> tm_generation c' = tm_generation c + 2)"

lemma kept_refl [simp]: "kept_or_closed c c"
  by (simp add: kept_or_closed_def)

lemma kept_trans: "kept_or_closed a b \<Longrightarrow> kept_or_closed b c \<Longrightarrow> kept_or_closed a c"
  by (auto simp: kept_or_closed_def)

lemma kept_generation:
  assumes "kept_or_closed c c'" and "tm_generation c' = tm_generation c"
  shows "tm_socket c' = tm_socket c \<and> tm_connected c' = tm_connected c \<and> tm_buffer c' = tm_buffer c"
  using assms by (auto simp: kept_or_closed_def)

lemma retry_generation:
  "tm_generation (retry e c) = (if recovering c then tm_generation c + 1 else tm_generation c)"
  by (simp add: retry_def setState_def closeConnection_def Let_def)

lemma retry_socket: "tm_socket (retry e c) = (tm_socket c \<and> \<not> recovering c)"
  by (simp add: retry_def setState_def closeConnection_def Let_def)

lemma disconnected_generation:
  "tm_generation (rec_disconnected e c) = tm_generation c \<or> tm_generation (rec_disconnected e c) = tm_generation c + 1"
  by (auto simp: rec_disconnected_def retry_generation emit_interrupted_def setState_def on_meeting_def say_def
      Let_def split_beta)

lemma disconnected_socket: "\<not> tm_socket c \<Longrightarrow> \<not> tm_socket (rec_disconnected e c)"
  by (auto simp: rec_disconnected_def retry_socket emit_interrupted_def setState_def on_meeting_def say_def
      Let_def split_beta)

lemma connectionLost_kept: "kept_or_closed c (connectionLost e c)"
proof (cases "tm_socket c")
  case True
  let ?d = "login_connect_failed (closeConnection c)"
  have "tm_generation ?d = tm_generation c + 1" "\<not> tm_socket ?d"
    by (auto simp: login_connect_failed_def say_def closeConnection_def)
  then show ?thesis
    using True disconnected_generation [of e ?d] disconnected_socket [of ?d e]
    by (auto simp: kept_or_closed_def connectionLost_def)
qed (simp add: connectionLost_none)

lemma kept_say [link_simps]:
  "kept_or_closed a (say ev b) = kept_or_closed a b" "kept_or_closed a (send_rejected e r d b) = kept_or_closed a b"
  by (simp_all add: kept_or_closed_def link_simps)

lemma send_kept: "kept_or_closed c (slot_send_data e r d c)"
  using send_cases [of e r d c] connectionLost_kept [of c e] by (elim disjE conjE) (simp_all add: link_simps)

lemma send_json_link:
  "link_mid c \<Longrightarrow> link_mid (send_json e r v c)" "link_ok c \<Longrightarrow> link_ok (send_json e r v c)"
  "kept_or_closed c (send_json e r v c)"
  by (simp_all add: send_json_def send_link send_link_ok send_kept)

lemma chat_sends_link:
  "(link_mid c \<longrightarrow> link_mid (chat_sends e es c)) \<and> (link_ok c \<longrightarrow> link_ok (chat_sends e es c))
   \<and> kept_or_closed c (chat_sends e es c)"
proof (induction es arbitrary: c)
  case Nil
  then show ?case by (simp add: chat_sends_def)
next
  case (Cons ev es)
  define d where "d = (case ev of SendData rid v \<Rightarrow> send_json e rid v c | _ \<Rightarrow> say (OnChat ev) c)"
  have "link_mid c \<longrightarrow> link_mid d" "link_ok c \<longrightarrow> link_ok d" "kept_or_closed c d"
    unfolding d_def by (cases ev; simp add: send_json_link link_simps)+
  moreover have "chat_sends e (ev # es) c = chat_sends e es d"
    by (simp add: chat_sends_def d_def)
  ultimately show ?case
    using Cons.IH [of d] by (auto intro: kept_trans)
qed

section \<open>Heartbeats\<close>

lemma sendHeartbeat_link:
  "link_mid c \<Longrightarrow> link_mid (sendHeartbeat e now c)" "link_ok c \<Longrightarrow> link_ok (sendHeartbeat e now c)"
  "kept_or_closed c (sendHeartbeat e now c)"
proof -
  obtain c1 v where s: "sendHeartbeat e now c = send_json e 1048 v c1" and "link_mid c1 = link_mid c" "link_ok c1 = link_ok c"
    "kept_or_closed c c1"
    by (simp add: sendHeartbeat_def Let_def link_mid_def link_ok_def recovering_def kept_or_closed_def)
  then show "link_mid c \<Longrightarrow> link_mid (sendHeartbeat e now c)" "link_ok c \<Longrightarrow> link_ok (sendHeartbeat e now c)"
    "kept_or_closed c (sendHeartbeat e now c)"
    using send_json_link [of c1 e 1048 v] kept_trans by auto
qed

lemma startHeartbeat_link:
  "link_mid c \<Longrightarrow> link_mid (startHeartbeat e b c)" "link_ok c \<Longrightarrow> link_ok (startHeartbeat e b c)"
  "kept_or_closed c (startHeartbeat e b c)"
proof -
  let ?c1 = "c\<lparr>tm_sequenced := b, tm_probes := [], tm_reprobe_used := False, tm_reprobe_until := 0,
        tm_rtt := -1, tm_last_ack := 0, tm_last_tick := 0, tm_clock := le_time e, tm_heartbeat_timer := True\<rparr>"
  have "tm_connected c \<Longrightarrow> link_mid ?c1 = link_mid c" "tm_connected c \<Longrightarrow> link_ok ?c1 = link_ok c" "kept_or_closed c ?c1"
    by (auto simp: link_mid_def link_ok_def recovering_def kept_or_closed_def)
  then show "link_mid c \<Longrightarrow> link_mid (startHeartbeat e b c)" "link_ok c \<Longrightarrow> link_ok (startHeartbeat e b c)"
    "kept_or_closed c (startHeartbeat e b c)"
    using sendHeartbeat_link [of ?c1 e 0] kept_trans by (auto simp: startHeartbeat_def is_connected_def)
qed

lemma acceptHeartbeat_link:
  "link_mid (acceptHeartbeat e v c) = link_mid c" "link_ok (acceptHeartbeat e v c) = link_ok c"
  "kept_or_closed c (acceptHeartbeat e v c)"
  by (simp_all add: acceptHeartbeat_def Let_def link_mid_def link_ok_def recovering_def kept_or_closed_def split: option.split)

lemma start_offered_link:
  "link_mid c \<Longrightarrow> link_mid (start_offered e v c)" "link_ok c \<Longrightarrow> link_ok (start_offered e v c)"
  "kept_or_closed c (start_offered e v c)"
  by (simp_all add: start_offered_def startHeartbeat_link)

end
