(* ===== verification/ClientRecover.thy ===== *)
theory ClientRecover
  imports ClientLinkInv
begin

text \<open>
  The invariant of the client's connection, continued: the answers of the recovery, the routed
  messages, the received frames and the callbacks.
\<close>

section \<open>Recovery\<close>

lemma link_ok_mid: "link_ok c \<Longrightarrow> link_mid c"
  by (simp add: link_ok_def)

lemma finish_ok:
  assumes "tm_connected c" "tm_socket c" "\<not> tm_connect_timer c" "rv_authenticated c" "\<not> lg_pending c"
  shows "link_ok (finish c)" "kept_or_closed c (finish c)"
  using assms by (simp_all add: finish_def link_unfold kept_or_closed_def)

lemma rec_stop_ok: "link_ok (rec_stop c)" "\<not> tm_socket (rec_stop c)" "rv_state (rec_stop c) = Idle"
proof -
  let ?d = "setState Idle (closeConnection
     (c\<lparr>rv_retry_timer := None, rv_stage_timer := False, rv_budget_timer := False, rv_authenticated := False,
        rv_server := no_server, rv_request_id := []\<rparr>))"
  have "link_ok ?d" "\<not> tm_socket ?d" "rv_state ?d = Idle"
    by (simp_all add: link_unfold)
  then show "link_ok (rec_stop c)" "\<not> tm_socket (rec_stop c)" "rv_state (rec_stop c) = Idle"
    by (simp_all add: rec_stop_def link_on_meeting_kept link_simps)
qed

lemma rec_stop_generation: "tm_generation (rec_stop c) = tm_generation c + 1"
  by (simp add: rec_stop_def link_simps setState_def Let_def closeConnection_def)

lemma rec_fail_ok: "link_ok (rec_fail c)" "\<not> tm_socket (rec_fail c)" "rv_state (rec_fail c) = Failed"
proof -
  have "link_ok (setState Failed (rec_stop c))"
    using rec_stop_ok [of c] by (auto simp: link_unfold)
  then show "link_ok (rec_fail c)" "\<not> tm_socket (rec_fail c)" "rv_state (rec_fail c) = Failed"
    using rec_stop_ok [of c] by (simp_all add: rec_fail_def link_simps setState_def Let_def)
qed

lemma rec_fail_kept: "tm_socket c \<Longrightarrow> kept_or_closed c (rec_fail c)"
  using rec_fail_ok [of c] by (simp add: kept_or_closed_def rec_fail_def link_simps rec_stop_generation setState_def Let_def)

lemma retry_kept: "tm_socket c \<Longrightarrow> kept_or_closed c (retry e c)"
  by (simp add: kept_or_closed_def retry_generation retry_socket retry_idle)

lemma abandon_and_finish_ok:
  assumes "tm_connected c" "tm_socket c" "\<not> tm_connect_timer c" "rv_authenticated c" "\<not> lg_pending c"
  shows "link_ok (abandon_and_finish c)" "kept_or_closed c (abandon_and_finish c)"
proof -
  have f: "tm_connect_timer (on_meeting abandonCurrentMeeting c) = tm_connect_timer c"
    "rv_authenticated (on_meeting abandonCurrentMeeting c) = rv_authenticated c"
    "lg_pending (on_meeting abandonCurrentMeeting c) = lg_pending c"
    by (simp_all add: on_meeting_def split_beta)
  have "link_ok (finish (on_meeting abandonCurrentMeeting c))" "kept_or_closed c (finish (on_meeting abandonCurrentMeeting c))"
    using finish_ok [of "on_meeting abandonCurrentMeeting c"] assms f by (simp_all add: link_simps kept_or_closed_def)
  then show "link_ok (abandon_and_finish c)" "kept_or_closed c (abandon_and_finish c)"
    by (simp_all add: abandon_and_finish_def link_simps)
qed

lemma chat_sends_ok:
  "link_mid c \<Longrightarrow> link_mid (chat_sends e es c)" "link_ok c \<Longrightarrow> link_ok (chat_sends e es c)"
  "kept_or_closed c (chat_sends e es c)"
  using chat_sends_link [of c e es] by auto

lemma meeting_recovered_ok:
  "link_ok c \<Longrightarrow> link_ok (meeting_recovered e c)" "kept_or_closed c (meeting_recovered e c)"
  by (simp_all add: meeting_recovered_def Let_def chat_sends_ok link_simps)
    (metis chat_sends_ok(3) kept_refl kept_say(1) kept_trans)

lemma stage_off:
  "link_mid c \<Longrightarrow> link_mid (c\<lparr>rv_stage_timer := False, rv_resume_supported := b\<rparr>)"
  "link_mid c \<Longrightarrow> link_mid (c\<lparr>rv_stage_timer := False\<rparr>)"
  "kept_or_closed c (c\<lparr>rv_stage_timer := False, rv_resume_supported := b\<rparr>)" "kept_or_closed c (c\<lparr>rv_stage_timer := False\<rparr>)"
  by (simp_all add: link_mid_def recovering_def kept_or_closed_def)

lemma link_mid_open:
  "link_mid c \<Longrightarrow> rv_state c = Ready \<or> rv_state c = Authenticating \<or> rv_state c = Resuming
   \<Longrightarrow> tm_connected c \<and> tm_socket c \<and> \<not> tm_connect_timer c \<and> rv_authenticated c \<and> \<not> lg_pending c"
  by (auto simp: link_mid_def)

text \<open>A state that is not authenticating has its stage timer right.\<close>

lemma link_mid_ok:
  "link_mid c \<Longrightarrow> rv_state c \<noteq> Authenticating \<Longrightarrow> rv_state c \<noteq> Resuming \<Longrightarrow> link_ok c"
  by (simp add: link_ok_def)

text \<open>Sending leaves the state of the recovery, or makes it wait.\<close>

lemma retry_state: "rv_state (retry e c) = rv_state c \<or> rv_state (retry e c) = Waiting"
  by (simp add: retry_def setState_def closeConnection_def Let_def)

lemma lost_state: "rv_state (connectionLost e c) = rv_state c \<or> rv_state (connectionLost e c) = Waiting"
proof -
  let ?d = "login_connect_failed (closeConnection c)"
  have d: "rv_state ?d = rv_state c"
    by (simp add: login_connect_failed_def say_def closeConnection_def)
  have "rv_state (rec_disconnected e x) = rv_state x \<or> rv_state (rec_disconnected e x) = Waiting" for x
  proof -
    let ?w = "emit_interrupted (on_meeting meeting_interrupted (setState Waiting
                (x\<lparr>rv_failures := 0, rv_request_id := le_uuid e, rv_budget_timer := True\<rparr>)))"
    have "rv_state ?w = Waiting"
      by (simp add: emit_interrupted_def on_meeting_def say_def setState_def Let_def split_beta)
    then show ?thesis
      using retry_state [of e ?w] retry_state [of e x] by (auto simp: rec_disconnected_def)
  qed
  from this [of ?d] show ?thesis
    by (simp add: connectionLost_def d)
qed

lemma send_state: "rv_state (send_json e r v c) = rv_state c \<or> rv_state (send_json e r v c) = Waiting"
  using send_cases [of e r "le_print e v" c] lost_state [of e c] unfolding send_json_def
  by (elim disjE conjE) (simp_all add: link_simps)

lemma start_offered_state: "rv_state (start_offered e v c) = rv_state c \<or> rv_state (start_offered e v c) = Waiting"
proof -
  have h: "rv_state (sendHeartbeat e now x) = rv_state x \<or> rv_state (sendHeartbeat e now x) = Waiting" for now x
  proof -
    obtain c1 u where "sendHeartbeat e now x = send_json e 1048 u c1" "rv_state c1 = rv_state x"
      by (simp add: sendHeartbeat_def Let_def)
    then show ?thesis
      using send_state [of e 1048 u c1] by simp
  qed
  have "rv_state (startHeartbeat e b c) = rv_state c \<or> rv_state (startHeartbeat e b c) = Waiting" for b
    unfolding startHeartbeat_def
    using h [of 0 "c\<lparr>tm_sequenced := b, tm_probes := [], tm_reprobe_used := False, tm_reprobe_until := 0,
        tm_rtt := -1, tm_last_ack := 0, tm_last_tick := 0, tm_clock := le_time e, tm_heartbeat_timer := True\<rparr>"]
    by simp
  then show ?thesis
    by (simp add: start_offered_def)
qed

text \<open>The answers of the recovery.\<close>

lemma resuming_ok:
  assumes "link_mid c" "rv_state c = Authenticating"
  shows "link_ok ((setState Resuming c)\<lparr>rv_stage_timer := True\<rparr>)"
    "kept_or_closed c ((setState Resuming c)\<lparr>rv_stage_timer := True\<rparr>)"
  using assms by (auto simp: link_unfold kept_or_closed_def)

lemma no_storage_error [simp]: "\<not> storage_error 0"
  by (simp add: storage_error_def)

definition login_rest :: "link_env \<Rightarrow> client \<Rightarrow> client" where
  "login_rest e c =
     (if mt_current (cl_meeting c) = [] then finish c
      else if \<not> rv_resume_supported c \<or> mt_ticket (cl_meeting c) = [] then abandon_and_finish c
      else let c3 = (setState Resuming c)\<lparr>rv_stage_timer := True\<rparr> in send_json e 1046 (resume_request c3) c3)"

lemma login_rest_ok:
  assumes m: "link_mid c" and st: "rv_state c = Authenticating"
  shows "link_ok (login_rest e c)" "kept_or_closed c (login_rest e c)"
proof -
  have o: "tm_connected c" "tm_socket c" "\<not> tm_connect_timer c" "rv_authenticated c" "\<not> lg_pending c"
    using link_mid_open [OF m] st by auto
  let ?c3 = "(setState Resuming c)\<lparr>rv_stage_timer := True\<rparr>"
  show "link_ok (login_rest e c)"
    using finish_ok [OF o] abandon_and_finish_ok [OF o] send_json_link(2) [OF resuming_ok(1) [OF m st]]
    by (simp add: login_rest_def Let_def)
  have "kept_or_closed c (send_json e 1046 (resume_request ?c3) ?c3)"
    by (rule kept_trans [OF resuming_ok(2) [OF m st] send_json_link(3)])
  then show "kept_or_closed c (login_rest e c)"
    using finish_ok [OF o] abandon_and_finish_ok [OF o] by (simp add: login_rest_def Let_def)
qed

lemma rec_login_response_cases:
  "rec_login_response e v c =
     (if rv_state c \<noteq> Authenticating then c
      else let c1 = c\<lparr>rv_stage_timer := False\<rparr> in
        if storage_error (error_of v) then retry e c1
        else if error_of v \<noteq> 0 then rec_fail c1
        else let c2 = start_offered e v (c1\<lparr>rv_resume_supported := has_capability v ''meeting_resume_v1''\<rparr>) in
          if rv_state c2 \<noteq> Authenticating then c2 else login_rest e c2)"
  by (simp add: rec_login_response_def login_rest_def Let_def)

lemma rec_login_response_ok:
  assumes "link_ok c" and "tm_socket c"
  shows "link_ok (rec_login_response e v c)" "kept_or_closed c (rec_login_response e v c)"
proof -
  let ?c1 = "c\<lparr>rv_stage_timer := False\<rparr>"
  let ?b = "has_capability v ''meeting_resume_v1''"
  let ?c2 = "start_offered e v (?c1\<lparr>rv_resume_supported := ?b\<rparr>)"
  have m1: "link_mid ?c1" "link_mid (?c1\<lparr>rv_resume_supported := ?b\<rparr>)"
    using stage_off assms(1) by (auto dest: link_ok_mid)
  have m2: "link_mid ?c2"
    using start_offered_link(1) m1(2) by blast
  have k2: "kept_or_closed c ?c2"
    by (rule kept_trans [OF stage_off(3) start_offered_link(3)])
  have s1: "tm_socket ?c1"
    using assms by simp
  show "link_ok (rec_login_response e v c)"
  proof (cases "rv_state c = Authenticating \<and> \<not> storage_error (error_of v) \<and> error_of v = 0")
    case True
    show ?thesis
    proof (cases "rv_state ?c2 = Authenticating")
      case auth: True
      show ?thesis
        using login_rest_ok(1) [OF m2 auth] True auth by (simp add: rec_login_response_cases Let_def)
    next
      case False
      then have "rv_state ?c2 \<noteq> Resuming"
        using start_offered_state [of e v "?c1\<lparr>rv_resume_supported := ?b\<rparr>"] True by simp
      then show ?thesis
        using link_mid_ok [OF m2 False] True False by (simp add: rec_login_response_cases Let_def)
    qed
  next
    case False
    then show ?thesis
      using assms(1) retry_link [OF m1(1), of e] rec_fail_ok [of ?c1]
      by (auto simp: rec_login_response_cases Let_def recovering_def)
  qed
  show "kept_or_closed c (rec_login_response e v c)"
  proof (cases "rv_state c = Authenticating \<and> \<not> storage_error (error_of v) \<and> error_of v = 0")
    case True
    have "rv_state ?c2 = Authenticating \<Longrightarrow> kept_or_closed ?c2 (rec_login_response e v c)"
      using login_rest_ok(2) [OF m2] True by (simp add: rec_login_response_cases Let_def)
    moreover have "rv_state ?c2 \<noteq> Authenticating \<Longrightarrow> rec_login_response e v c = ?c2"
      using True by (simp add: rec_login_response_cases Let_def)
    ultimately show ?thesis
      using k2 kept_trans [OF k2] by (cases "rv_state ?c2 = Authenticating") auto
  next
    case False
    have "kept_or_closed c (retry e ?c1)" "kept_or_closed c (rec_fail ?c1)"
      using kept_trans [OF stage_off(4)] retry_kept [OF s1] rec_fail_kept [OF s1] by blast+
    then show ?thesis
      using False by (auto simp: rec_login_response_cases Let_def)
  qed
qed

lemma rec_resume_response_ok:
  assumes "link_ok c" and "tm_socket c"
  shows "link_ok (rec_resume_response e v c)" "kept_or_closed c (rec_resume_response e v c)"
proof -
  let ?c1 = "c\<lparr>rv_stage_timer := False\<rparr>"
  obtain ok es m where a: "applyResumeMeetingResponse (le_qt e) v (cl_meeting ?c1) = (ok, es, m)"
    by (cases "applyResumeMeetingResponse (le_qt e) v (cl_meeting ?c1)") auto
  let ?c2 = "on_meeting (\<lambda>_. (es, m)) ?c1"
  have m1: "link_mid ?c1" "tm_socket ?c1"
    using stage_off assms by (auto dest: link_ok_mid)
  have "mt_recovering m = mt_recovering (cl_meeting ?c1)"
    using resume_recovering [of "le_qt e" v "cl_meeting ?c1"] by (simp only: a snd_conv)
  then have m2: "link_mid ?c2" "tm_socket ?c2" "kept_or_closed c ?c2"
    using m1 link_on_meeting_kept(1) [of "\<lambda>_. (es, m)" ?c1] by (simp_all add: link_simps kept_or_closed_def)
  have o1: "rv_state c = Resuming \<Longrightarrow> tm_connected ?c1 \<and> tm_socket ?c1 \<and> \<not> tm_connect_timer ?c1 \<and> rv_authenticated ?c1 \<and> \<not> lg_pending ?c1"
    using link_mid_open [OF m1(1)] by simp
  have o2: "rv_state c = Resuming \<Longrightarrow> tm_connected ?c2 \<and> tm_socket ?c2 \<and> \<not> tm_connect_timer ?c2 \<and> rv_authenticated ?c2 \<and> \<not> lg_pending ?c2"
    using link_mid_open [OF m2(1)] by (simp add: link_simps)
  have f: "rv_state c = Resuming \<Longrightarrow> link_ok (meeting_recovered e (finish ?c2)) \<and> kept_or_closed c (meeting_recovered e (finish ?c2))"
    using finish_ok [of ?c2] o2 kept_trans [OF kept_trans [OF m2(3)] meeting_recovered_ok(2)] meeting_recovered_ok(1) by blast
  have g: "rv_state c = Resuming \<Longrightarrow> link_ok (abandon_and_finish ?c1) \<and> kept_or_closed c (abandon_and_finish ?c1)"
    using abandon_and_finish_ok [of ?c1] o1 kept_trans [OF stage_off(4)] by blast
  have h: "kept_or_closed c (retry e ?c1)" "kept_or_closed c (rec_fail ?c1)" "kept_or_closed c (rec_fail ?c2)"
    using kept_trans [OF stage_off(4)] kept_trans [OF m2(3)] retry_kept [OF m1(2)] rec_fail_kept [OF m1(2)] rec_fail_kept [OF m2(2)]
    by blast+
  have r: "rv_state c = Resuming \<Longrightarrow> link_ok (retry e ?c1)"
    using retry_link [OF m1(1)] by (simp add: recovering_def)
  show "link_ok (rec_resume_response e v c)"
    unfolding rec_resume_response_def Let_def a prod.case using assms(1) f g r rec_fail_ok by simp
  show "kept_or_closed c (rec_resume_response e v c)"
    unfolding rec_resume_response_def Let_def a prod.case using f g h by simp
qed

lemma rec_handleMessage_ok:
  assumes "link_ok c" and "tm_socket c"
  shows "link_ok (snd (rec_handleMessage e rid v c))" "kept_or_closed c (snd (rec_handleMessage e rid v c))"
  using rec_login_response_ok [OF assms] rec_resume_response_ok [OF assms] assms(1) by (simp_all add: rec_handleMessage_def)


section \<open>Messages\<close>

lemma finish_mid:
  assumes "tm_connected c" "tm_socket c" "\<not> tm_connect_timer c" "\<not> lg_pending c"
  shows "link_ok (finish (c\<lparr>rv_authenticated := True, rv_resume_supported := b\<rparr>))"
    "kept_or_closed c (finish (c\<lparr>rv_authenticated := True, rv_resume_supported := b\<rparr>))"
  using assms by (simp_all add: finish_def link_unfold kept_or_closed_def)

lemma authenticated_ok:
  assumes "tm_connected c" "tm_socket c" "\<not> tm_connect_timer c" "\<not> lg_pending c"
  shows "link_ok (authenticated e v c)" "kept_or_closed c (authenticated e v c)"
  unfolding authenticated_def
  using start_offered_link(2) [OF finish_mid(1) [OF assms]] kept_trans [OF finish_mid(2) [OF assms] start_offered_link(3)] by simp_all

lemma set_meeting_ok:
  assumes "mt_recovering m = mt_recovering (cl_meeting c)"
  shows "link_ok (c\<lparr>cl_meeting := m\<rparr>) = link_ok c" "kept_or_closed c (c\<lparr>cl_meeting := m\<rparr>)"
  using assms by (simp_all add: link_ok_def link_mid_def recovering_def kept_or_closed_def)

lemma profile_ok:
  "link_ok (snd (applyProfile e v c)) = link_ok c" "kept_or_closed c (snd (applyProfile e v c))"
  "tm_connected (snd (applyProfile e v c)) = tm_connected c" "tm_socket (snd (applyProfile e v c)) = tm_socket c"
  "tm_connect_timer (snd (applyProfile e v c)) = tm_connect_timer c" "lg_pending (snd (applyProfile e v c)) = lg_pending c"
  "tm_generation (snd (applyProfile e v c)) = tm_generation c"
  "cl_meeting (snd (applyProfile e v c)) = cl_meeting c"
  by (simp_all add: applyProfile_def Let_def link_ok_def link_mid_def recovering_def kept_or_closed_def)

lemma login_answer_ok:
  assumes "link_ok c" "tm_connected c" "tm_socket c"
  shows "link_ok (login_answer e v c)" "kept_or_closed c (login_answer e v c)"
proof -
  let ?p = "if is_member v ''profile'' then (if is_object (jget v ''profile'') then jget v ''profile'' else JObject []) else v"
  obtain ok c1 where p: "applyProfile e ?p c = (ok, c1)"
    by (cases "applyProfile e ?p c") auto
  obtain ok2 m where r: "applyRecentMeeting (le_qt e) (to_array (jget v ''meetings'')) (cl_meeting c1) = (ok2, m)"
    by (cases "applyRecentMeeting (le_qt e) (to_array (jget v ''meetings'')) (cl_meeting c1)") auto
  have t: "\<not> tm_connect_timer c" "\<not> lg_pending c"
    using assms by (auto simp: link_ok_def link_mid_def)
  have c1: "link_ok c1" "kept_or_closed c c1" "tm_connected c1" "tm_socket c1" "\<not> tm_connect_timer c1" "\<not> lg_pending c1"
    using profile_ok [where e = e and v = ?p and c = c] assms t by (simp_all add: p)
  have "mt_recovering m = mt_recovering (cl_meeting c1)"
    using lists_recovering(1) [of "le_qt e" "to_array (jget v ''meetings'')" "cl_meeting c1"] by (simp only: r snd_conv)
  then have m: "link_ok (c1\<lparr>cl_meeting := m\<rparr>)" "kept_or_closed c (c1\<lparr>cl_meeting := m\<rparr>)"
    using set_meeting_ok [of m c1] c1 kept_trans by auto
  have a: "link_ok (authenticated e v (c1\<lparr>cl_meeting := m\<rparr>))" "kept_or_closed c (authenticated e v (c1\<lparr>cl_meeting := m\<rparr>))"
    using authenticated_ok [of "c1\<lparr>cl_meeting := m\<rparr>" e v] c1 kept_trans [OF m(2)] by simp_all
  show "link_ok (login_answer e v c)" "kept_or_closed c (login_answer e v c)"
    unfolding login_answer_def p r prod.case Let_def using assms(1) c1 m a by (simp_all add: link_simps)
qed

lemma on_meeting_ok:
  assumes "mt_recovering (snd (f (cl_meeting c))) = mt_recovering (cl_meeting c)"
  shows "link_ok (on_meeting f c) = link_ok c" "kept_or_closed c (on_meeting f c)"
  using assms by (simp_all add: link_on_meeting_kept kept_or_closed_def link_simps)

lemma meetings_answer_ok:
  assumes "mt_recovering (snd (f (to_array (jget v ''meetings'')) (cl_meeting c))) = mt_recovering (cl_meeting c)"
  shows "link_ok (meetings_answer f v c) = link_ok c" "kept_or_closed c (meetings_answer f v c)"
  using set_meeting_ok [OF assms] by (simp_all add: meetings_answer_def)

lemma on_chat_kept: "kept_or_closed c (on_chat f c)"
  by (simp add: kept_or_closed_def link_simps)

lemma ai_answer_ok: "link_ok (ai_answer q v c) = link_ok c" "kept_or_closed c (ai_answer q v c)"
  by (simp_all add: ai_answer_def Let_def link_simps)

lemma route_ok:
  assumes "link_ok c" "tm_connected c" "tm_socket c"
  shows "link_ok (route e rid v c)" "kept_or_closed c (route e rid v c)"
  unfolding route_def Let_def using assms(1) login_answer_ok [OF assms, of e v]
  by (simp_all add: meetings_answer_ok on_meeting_ok on_chat_kept ai_answer_ok link_simps)

lemma slot_message_recv_ok:
  assumes "link_ok c" "tm_connected c" "tm_socket c"
  shows "link_ok (slot_message_recv e rid v c)" "kept_or_closed c (slot_message_recv e rid v c)"
proof -
  obtain d c1 where h: "rec_handleMessage e rid v c = (d, c1)"
    by (cases "rec_handleMessage e rid v c") auto
  have c1: "link_ok c1" "kept_or_closed c c1"
    using rec_handleMessage_ok [OF assms(1,3), of e rid v] by (simp_all add: h)
  have n: "\<not> d \<Longrightarrow> c1 = c"
    using h by (simp add: rec_handleMessage_def split: if_splits)
  show "link_ok (slot_message_recv e rid v c)" "kept_or_closed c (slot_message_recv e rid v c)"
    using c1 n route_ok [OF assms, of e rid v] by (cases d; simp add: slot_message_recv_def h)+
qed

lemma connectionLost_ok: "link_ok c \<Longrightarrow> link_ok (connectionLost e c)"
  using connectionLost_link [of c e] connectionLost_none [of c e] by (cases "tm_socket c") (auto simp: link_ok_mid)

lemma handle_frame_ok:
  assumes "link_ok c" "tm_connected c" "tm_socket c"
  shows "link_ok (handle_frame e rid p c)" "kept_or_closed c (handle_frame e rid p c)"
  using assms slot_message_recv_ok [OF assms] connectionLost_ok connectionLost_kept acceptHeartbeat_link
  by (simp_all add: handle_frame_def split: option.split)

declare read_frames.simps(2) [simp del]

lemma buffer_ok [simp]:
  "link_ok (c\<lparr>tm_buffer := b\<rparr>) = link_ok c" "link_mid (c\<lparr>tm_buffer := b\<rparr>) = link_mid c"
  by (simp_all add: link_ok_def link_mid_def recovering_def)

lemma read_frames_ok:
  assumes "link_ok c" "generation = tm_generation c \<Longrightarrow> tm_connected c \<and> tm_socket c"
  shows "link_ok (read_frames e generation n c)"
  using assms
proof (induction n arbitrary: c)
  case (Suc n)
  show ?case
  proof (cases "client_frame (tm_buffer c)")
    case (Some f)
    obtain rid p rest where f: "f = (rid, p, rest)"
      by (cases f) auto
    let ?b = "c\<lparr>tm_buffer := rest\<rparr>"
    let ?d = "handle_frame e rid p ?b"
    have "generation = tm_generation c \<Longrightarrow> link_ok ?d \<and> kept_or_closed ?b ?d"
      using handle_frame_ok [of ?b e rid p] Suc.prems by simp
    moreover from this have "generation = tm_generation c \<Longrightarrow> generation = tm_generation ?d \<Longrightarrow> tm_connected ?d \<and> tm_socket ?d"
      using kept_generation [of ?b ?d] Suc.prems by simp
    ultimately show ?thesis
      using Suc.IH [of ?d] Suc.prems(1) Some f by (cases "generation = tm_generation c") (auto simp: read_frames.simps(2))
  qed (use Suc.prems in \<open>simp add: read_frames.simps(2)\<close>)
qed simp

lemma readIncoming_ok:
  assumes "link_ok c" "tm_socket c \<Longrightarrow> tm_connected c"
  shows "link_ok (readIncoming e c)"
  using assms by (auto simp: readIncoming_def Let_def intro!: read_frames_ok)

section \<open>Callbacks\<close>

lemma tick_fields [simp]:
  "link_ok (c\<lparr>tm_last_tick := t\<rparr>) = link_ok c"
  "link_ok (c\<lparr>tm_reprobe_used := b, tm_reprobe_until := t, tm_probes := ps\<rparr>) = link_ok c"
  "link_ok c \<Longrightarrow> link_ok (c\<lparr>lg_pending := False\<rparr>)"
  by (simp_all add: link_ok_def link_mid_def recovering_def)

lemma heartbeatTick_ok:
  assumes "link_ok c"
  shows "link_ok (heartbeatTick e c)"
proof -
  have "tm_heartbeat_timer c \<Longrightarrow> tm_connected c"
    using assms by (auto simp: link_ok_def link_mid_def)
  then have "tm_heartbeat_timer c \<Longrightarrow> link_ok (readIncoming e (c\<lparr>tm_last_tick := t\<rparr>))" for t
    using readIncoming_ok [of "c\<lparr>tm_last_tick := t\<rparr>" e] assms by simp
  then show ?thesis
    using assms connectionLost_ok sendHeartbeat_link(2) by (simp add: heartbeatTick_def Let_def)
qed

lemma connect_ok:
  assumes "link_ok c" "rv_state c = Waiting"
  shows "link_ok (connectNow (c\<lparr>rv_retry_timer := None\<rparr>))"
  using assms by (auto simp: connectNow_def slot_tcp_connect_def link_unfold)

text \<open>The connection is up: the handler runs with the new flags.\<close>

lemma connected_ok:
  assumes ok: "link_ok c" and s: "tm_socket c" "\<not> tm_connected c"
  shows "link_ok (connect_succeeded e (c\<lparr>tm_connected := True, tm_connect_timer := False\<rparr>))"
proof -
  let ?c0 = "c\<lparr>tm_connected := True, tm_connect_timer := False\<rparr>"
  have st: "rv_state c = Idle \<or> rv_state c = Connecting"
    using assms by (cases "rv_state c") (auto simp: link_ok_def link_mid_def)
  then show ?thesis
  proof
    assume idle: "rv_state c = Idle"
    define c1 where "c1 = (if lg_pending ?c0 then send_json e 1010 (auth_request (lg_server ?c0)) (?c0\<lparr>lg_pending := False\<rparr>) else ?c0)"
    have "link_ok (?c0\<lparr>lg_pending := False\<rparr>)" "\<not> lg_pending ?c0 \<Longrightarrow> link_ok ?c0"
      using ok s idle by (auto simp: link_ok_def link_mid_def recovering_def)
    then have "link_ok c1"
      using send_json_link(2) by (simp add: c1_def)
    moreover have "rv_state c1 \<noteq> Connecting"
      using send_state [of e 1010 "auth_request (lg_server ?c0)" "?c0\<lparr>lg_pending := False\<rparr>"] idle
      by (auto simp: c1_def)
    ultimately show ?thesis
      by (simp add: connect_succeeded_def Let_def c1_def)
  next
    assume con: "rv_state c = Connecting"
    let ?c2 = "(setState Authenticating ?c0)\<lparr>rv_stage_timer := True\<rparr>"
    have "link_ok ?c2" "\<not> lg_pending ?c0"
      using ok s con by (auto simp: link_unfold)
    then show ?thesis
      using send_json_link(2) con by (simp add: connect_succeeded_def Let_def)
  qed
qed

section \<open>The user\<close>

lemma on_meeting_event_ok:
  assumes "link_ok c"
  shows "link_ok (on_meeting_event e ev c)"
proof -
  have "link_ok (cancelMeeting e c)"
    using assms retry_link [OF link_ok_mid [OF assms], of e] by (simp add: cancelMeeting_def recovering_def)
  then show ?thesis
    using assms send_json_link(2) [OF assms] by (simp add: on_meeting_event_def link_simps split: meeting_event.split)
qed

lemma run_meeting_ok:
  assumes "link_ok c" "mt_recovering (snd (f (cl_meeting c))) = mt_recovering (cl_meeting c)"
  shows "link_ok (run_meeting e f c)"
proof -
  have "link_ok (fold (on_meeting_event e) es d)" if "link_ok d" for es d
    using that by (induction es arbitrary: d) (simp_all add: on_meeting_event_ok)
  moreover have "link_ok (c\<lparr>cl_meeting := snd (f (cl_meeting c))\<rparr>)"
    using assms set_meeting_ok(1) by blast
  ultimately show ?thesis
    by (simp add: run_meeting_def split_beta)
qed

lemma run_chat_ok:
  assumes "link_ok c"
  shows "link_ok (run_chat e f c)"
proof -
  have "link_ok (c\<lparr>cl_chat := m\<rparr>)" for m
    using assms by (simp add: link_ok_def link_mid_def recovering_def)
  then show ?thesis
    using chat_sends_ok(2) by (simp add: run_chat_def split_beta)
qed

lemma user_does_ok:
  assumes "link_ok c"
  shows "link_ok (user_does e u c)"
  using assms run_meeting_ok run_chat_ok rec_stop_ok(1) send_json_link(2)
  by (simp add: user_does_def Let_def askAiQuestion_def link_simps split: user_action.split)

lemma logged_in_ok: "link_ok (logged_in server c)"
proof -
  let ?d = "setServer server (c\<lparr>lg_server := server\<rparr>)"
  have "link_ok ?d" "\<not> tm_socket ?d" "rv_state ?d = Idle"
    using rec_stop_ok [of "c\<lparr>lg_server := server\<rparr>"] by (auto simp: setServer_def link_ok_def link_mid_def recovering_def)
  then show ?thesis
    by (auto simp: logged_in_def slot_tcp_connect_def link_unfold)
qed

theorem client_step_ok:
  assumes "link_ok c"
  shows "link_ok (client_step e cb c)"
proof (cases cb)
  case (SocketConnected g)
  then show ?thesis
    using connected_ok [OF assms] assms by (simp add: client_step_def)
next
  case (SocketReadable g)
  have "tm_connected c \<Longrightarrow> link_ok (readIncoming e c)"
    using readIncoming_ok assms by blast
  then show ?thesis
    using SocketReadable assms by (simp add: client_step_def)
next
  case ConnectTimeout
  let ?d = "c\<lparr>tm_connect_timer := False\<rparr>"
  have "connectionLost e ?d = connectionLost e c" if "tm_socket c"
    using that by (simp add: connectionLost_def closeConnection_def)
  moreover have "tm_connect_timer c \<Longrightarrow> tm_socket c"
    using assms by (auto simp: link_ok_def link_mid_def)
  ultimately show ?thesis
    using ConnectTimeout assms connectionLost_ok [of c e] by (auto simp: client_step_def)
next
  case RetryTimeout
  have "rv_retry_timer c \<noteq> None \<Longrightarrow> rv_state c = Waiting"
    using assms by (auto simp: link_ok_def link_mid_def)
  then show ?thesis
    using RetryTimeout assms connect_ok [OF assms] by (auto simp: client_step_def)
next
  case StageTimeout
  have "rv_stage_timer c \<Longrightarrow> recovering c"
    using assms by (auto simp: link_ok_def link_mid_def recovering_def)
  then show ?thesis
    using StageTimeout assms retry_link [OF stage_off(2) [OF link_ok_mid [OF assms]], of e]
    by (auto simp: client_step_def recovering_def)
next
  case BudgetTimeout
  then show ?thesis
    using assms rec_fail_ok(1) by (simp add: client_step_def)
next
  case (LoggedIn server)
  then show ?thesis
    by (simp add: client_step_def logged_in_ok)
qed (use assms in \<open>simp_all add: client_step_def connectionLost_ok heartbeatTick_ok user_does_ok\<close>)

lemma client_new_ok: "link_ok client_new"
  by (simp add: client_new_def MeetingController_new_def link_ok_def link_mid_def recovering_def)

theorem reachable_link_ok: "client_reachable c \<Longrightarrow> link_ok c"
  by (induction rule: client_reachable.induct) (simp_all add: client_new_ok client_step_ok)

end
