(* ===== verification/ClientLinkProps.thy ===== *)
theory ClientLinkProps
  imports ClientRecover AccessProps
begin

text \<open>
  The properties of the client's connection: the timers that belong to each state of the
  recovery, the way out of every state, the detection of a silent server, the frames of
  RealtimeServer, and the snapshot it sends after a resumed login.
\<close>

section \<open>Recovery\<close>

definition run_client :: "(link_env \<times> callback) list \<Rightarrow> client" where
  "run_client steps = fold (\<lambda>(e, cb). client_step e cb) steps client_new"

lemma run_client_reachable: "client_reachable (run_client steps)"
proof -
  have "client_reachable (fold (\<lambda>(e, cb). client_step e cb) xs c)" if "client_reachable c" for xs c
    using that by (induction xs arbitrary: c) (auto intro: client_reachable.callback)
  then show ?thesis
    by (simp add: run_client_def client_reachable.start)
qed

text \<open>C33: The recovery of the client is never stuck.  After any sequence of callbacks, user actions
  and network failures, in whatever surroundings: the 45 second budget runs exactly while a
  recovery is under way, an attempt is scheduled exactly while the client waits, the connect
  timer runs exactly while a socket is being opened, and the stage timer exactly while the
  answer to a login or a resume request is awaited; ordinary requests are let through
  exactly in the Ready state, and the meeting page is blocked exactly during a recovery or after
  a failed one.\<close>

theorem recovery_well_timed:
  "let c = run_client steps in
     rv_budget_timer c = recovering c
   \<and> (rv_retry_timer c \<noteq> None) = (rv_state c = Waiting)
   \<and> tm_connect_timer c = (tm_socket c \<and> \<not> tm_connected c)
   \<and> (rv_authenticated c \<and> tm_connect_timer c) = (rv_state c = Connecting)
   \<and> rv_stage_timer c = (rv_state c = Authenticating \<or> rv_state c = Resuming)
   \<and> tm_business_ready c = (rv_state c = Ready)
   \<and> mt_recovering (cl_meeting c) = (recovering c \<or> rv_state c = Failed)"
proof -
  define c where "c = run_client steps"
  have "link_ok c"
    using reachable_link_ok run_client_reachable c_def by blast
  then have "rv_budget_timer c = recovering c" "(rv_retry_timer c \<noteq> None) = (rv_state c = Waiting)"
    "tm_connect_timer c = (tm_socket c \<and> \<not> tm_connected c)"
    "(rv_authenticated c \<and> tm_connect_timer c) = (rv_state c = Connecting)"
    "rv_stage_timer c = (rv_state c = Authenticating \<or> rv_state c = Resuming)" "tm_business_ready c = (rv_state c = Ready)"
    "mt_recovering (cl_meeting c) = (recovering c \<or> rv_state c = Failed)"
    by (cases "rv_state c"; auto simp: link_ok_def link_mid_def recovering_def)+
  then show ?thesis
    unfolding c_def [symmetric] Let_def by blast
qed

text \<open>The single steps out of a state.\<close>

lemma retry_fresh:
  assumes "recovering c" "rv_retry_timer c = None"
  shows "rv_state (retry e c) = Waiting" "rv_failures (retry e c) = Suc (rv_failures c)"
    "rv_retry_timer (retry e c) = Some (retry_delay (rv_failures c) + le_random e)"
  using assms by (simp_all add: retry_def setState_def closeConnection_def Let_def)

lemma retry_delay_bounds: "1000 \<le> retry_delay n" "retry_delay n \<le> 10000"
proof -
  have "min n 4 \<in> {0, 1, 2, 3, 4 :: nat}" by auto
  then show "1000 \<le> retry_delay n" "retry_delay n \<le> 10000"
    by (auto simp: retry_delay_def)
qed

lemma lost_recovering:
  assumes "link_ok c" "rv_state c = Connecting"
  shows "connectionLost e c = retry e (closeConnection c)"
  using assms by (auto simp: connectionLost_def login_connect_failed_def rec_disconnected_def closeConnection_def
      link_ok_def link_mid_def)

lemma wait_ends:
  assumes "link_ok c" "rv_state c = Waiting" and w: "w = client_step e RetryTimeout c"
  shows "rv_state w = Connecting \<and> tm_socket w \<and> tm_connect_timer w \<and> rv_retry_timer w = None"
  using assms(1,2) unfolding w
  by (auto simp: client_step_def connectNow_def slot_tcp_connect_def setState_def closeConnection_def Let_def
      link_ok_def link_mid_def)

lemma stage_ends:
  assumes ok: "link_ok c" and rec: "recovering c" and that: "rv_state c \<noteq> Waiting"
    and r: "r = client_step e (if rv_state c = Connecting then ConnectTimeout else StageTimeout) c"
  shows "rv_state r = Waiting \<and> \<not> tm_socket r \<and> rv_failures r = Suc (rv_failures c)
    \<and> rv_retry_timer r = Some (retry_delay (rv_failures c) + le_random e)"
proof -
  have t: "rv_retry_timer c = None"
    using that ok by (simp add: link_ok_def link_mid_def)
  show ?thesis
  proof (cases "rv_state c = Connecting")
    case True
    let ?d = "closeConnection (c\<lparr>tm_connect_timer := False\<rparr>)"
    have "r = retry e ?d"
      using ok True by (auto simp: r client_step_def connectionLost_def login_connect_failed_def rec_disconnected_def
          closeConnection_def link_ok_def link_mid_def)
    moreover have "recovering ?d" "rv_retry_timer ?d = None" "rv_failures ?d = rv_failures c"
      using rec t by (simp_all add: recovering_def closeConnection_def)
    ultimately show ?thesis
      using retry_fresh [of ?d e] by (simp add: retry_socket)
  next
    case False
    then have "rv_stage_timer c"
      using that rec ok by (auto simp: link_ok_def recovering_def)
    then have "r = retry e (c\<lparr>rv_stage_timer := False\<rparr>)"
      using False by (simp add: r client_step_def)
    moreover have "recovering (c\<lparr>rv_stage_timer := False\<rparr>)"
      using rec by (simp add: recovering_def)
    ultimately show ?thesis
      using retry_fresh [of "c\<lparr>rv_stage_timer := False\<rparr>" e] t by (simp add: retry_socket)
  qed
qed

lemma budget_ends:
  assumes "link_ok c" "recovering c" and f: "f = client_step e BudgetTimeout c"
  shows "rv_state f = Failed \<and> \<not> tm_socket f \<and> rv_server f = no_server \<and> \<not> rv_authenticated f
    \<and> last (cl_log f) = RecoveryFailed"
proof -
  have "rv_budget_timer c"
    using assms(1,2) by (simp add: link_ok_def link_mid_def)
  then have f': "f = rec_fail (c\<lparr>rv_budget_timer := False\<rparr>)"
    by (simp add: f client_step_def)
  have "rv_server f = no_server" "\<not> rv_authenticated f" "last (cl_log f) = RecoveryFailed"
    unfolding f' by (simp_all add: rec_fail_def say_def setState_def rec_stop_def on_meeting_def closeConnection_def
        Let_def split_beta)
  moreover have "rv_state f = Failed" "\<not> tm_socket f"
    unfolding f' using rec_fail_ok by auto
  ultimately show ?thesis by simp
qed

text \<open>C34: Every stage of a recovery ends.  In any reachable state of a recovery the timer of its
  stage leads on: a waiting client opens a new connection, and an attempt that gets no connection,
  or whose login or resume request is not answered in time, is given up for a wait of at least one
  and at most 10.25 seconds, which counts one failure; and whatever has happened, the end of the
  budget leaves a client without connection, server and credentials that has said so.\<close>

theorem recovery_moves_on:
  assumes "recovering (run_client steps)" "0 \<le> le_random e" "le_random e \<le> 250"
  shows "let c = run_client steps; w = client_step e RetryTimeout c;
             r = client_step e (if rv_state c = Connecting then ConnectTimeout else StageTimeout) c;
             f = client_step e BudgetTimeout c;
             d = the (rv_retry_timer r)
    in (if rv_state c = Waiting then rv_state w = Connecting \<and> tm_socket w \<and> tm_connect_timer w \<and> rv_retry_timer w = None
        else rv_state r = Waiting \<and> \<not> tm_socket r \<and> rv_retry_timer r = Some d \<and> 1000 \<le> d \<and> d \<le> 10250
          \<and> rv_failures r = Suc (rv_failures c))
     \<and> rv_state f = Failed \<and> \<not> tm_socket f \<and> rv_server f = no_server \<and> \<not> rv_authenticated f
     \<and> last (cl_log f) = RecoveryFailed"
proof -
  define c where "c = run_client steps"
  have ok: "link_ok c" and rec: "recovering c"
    using reachable_link_ok run_client_reachable assms(1) by (auto simp: c_def)
  show ?thesis
    unfolding c_def [symmetric] Let_def
    using wait_ends [OF ok _ refl, of e] stage_ends [OF ok rec _ refl, of e] budget_ends [OF ok rec refl, of e]
      retry_delay_bounds [of "rv_failures c"] assms(2,3) by simp
qed

section \<open>Frames\<close>

lemma client_frame_of:
  assumes "length p \<le> 65535"
  shows "client_frame (frame_of rid p @ rest) = Some (rid, p, rest)"
proof -
  have "unat (of_nat (length p) :: u16) = length p"
    using assms by (rule unat_of_nat_u16)
  then show ?thesis
    by (simp add: client_frame_def frame_of_def Let_def eval_nat_numeral)
qed

section \<open>An instance\<close>

text \<open>A client that logs in with heartbeats, and loses its connection.\<close>

definition demo_login_answer :: json where
  "demo_login_answer = JObject [(''error'', JInt 0), (''email'', JString ''a@b''), (''username'', JString ''ann''), (''uid'', JInt 7),
     (''meetings'', JArray []), (''capabilities'', JArray [JString ''meeting_resume_v1'', JString ''heartbeat_v2''])]"

definition plain_qt :: qt where
  "plain_qt = \<lparr>qt_trimmed = (\<lambda>s. s), qt_lower = (\<lambda>s. s), qt_to_ull = map_of [(''1'', 1), (''2'', 2)], qt_to_ll = (\<lambda>_. None),
     qt_real_text = (\<lambda>_. []), qt_is_time = (\<lambda>_. True), qt_datetime_zzz = (\<lambda>_. None), qt_datetime = (\<lambda>_. None),
     qt_local_hhmm = (\<lambda>_. [])\<rparr>"

definition demo_link :: "int \<Rightarrow> string \<Rightarrow> link_env" where
  "demo_link time data = \<lparr>le_time = time, le_random = 7, le_uuid = ''r'', le_hhmm = ''10:00'', le_alive = True, le_to_write = 0,
     le_write_ok = True, le_data = data, le_parse = (\<lambda>s. if s = ''L'' then Some demo_login_answer else None), le_print = (\<lambda>_. ''x''),
     le_qt = plain_qt\<rparr>"

lemma demo_link_fields [simp]:
  "le_time (demo_link t d) = t" "le_random (demo_link t d) = 7" "le_uuid (demo_link t d) = ''r''" "le_alive (demo_link t d)"
  "le_to_write (demo_link t d) = 0" "le_write_ok (demo_link t d)" "le_data (demo_link t d) = d"
  "le_parse (demo_link t d) ''L'' = Some demo_login_answer" "le_print (demo_link t d) v = ''x''" "le_qt (demo_link t d) = plain_qt"
  by (simp_all add: demo_link_def)

lemma demo_login_answer_fields [simp]:
  "is_object demo_login_answer" "error_of demo_login_answer = 0" "\<not> is_member demo_login_answer ''profile''" "jget demo_login_answer ''meetings'' = JArray []"
  "jtrim plain_qt demo_login_answer ''email'' = ''a@b''" "jtrim plain_qt demo_login_answer ''username'' = ''ann''"
  "jget demo_login_answer ''uid'' = JInt 7" "jget demo_login_answer ''user_id'' = JNull"
  "has_capability demo_login_answer ''heartbeat_v1'' = False" "has_capability demo_login_answer ''heartbeat_v2'' = True"
  "has_capability demo_login_answer ''meeting_resume_v1'' = True"
  by (simp_all add: demo_login_answer_def error_of_def to_int_def is_int_def as_int_def jtrim_def jtext_def plain_qt_def has_capability_def)

definition demo_steps :: "(link_env \<times> callback) list" where
  "demo_steps = [(demo_link 0 [], LoggedIn no_server), (demo_link 10 [], SocketConnected 2),
    (demo_link 20 (frame_of 1011 ''L''), SocketReadable 2)]"

definition demo_open :: client where
  "demo_open = client_new\<lparr>tm_generation := 2, lg_pending := False, tm_socket := True, tm_connected := True, cl_log := [Wrote 1010 ''x'']\<rparr>"

definition demo_ready :: client where
  "demo_ready = demo_open\<lparr>tm_business_ready := True, tm_probes := [(to_string 1, 0)], tm_heartbeat_timer := True, tm_clock := 20,
     tm_sequence := 1, tm_sequenced := True, rv_state := Ready, rv_authenticated := True, rv_resume_supported := True, cu_uid := 7,
     cu_username := ''ann'', cu_email := ''a@b'', cl_meeting := MeetingController_new\<lparr>mt_recent_loaded := True\<rparr>,
     cl_log := [Wrote 1010 ''x'', Wrote 1048 ''x'', ProfileReady]\<rparr>"

lemmas link_eval = client_step_def rec_stop_def on_meeting_def abandonCurrentMeeting_def
  setState_def closeConnection_def send_json_def slot_send_data_def is_connected_def
  setConnectionRecovering_def say_def Let_def recovering_def

lemma demo_open_run:
  "client_step (demo_link 10 []) (SocketConnected 2) (client_step (demo_link 0 []) (LoggedIn no_server) client_new) = demo_open"
  by (simp add: demo_open_def link_eval logged_in_def setServer_def slot_tcp_connect_def connect_succeeded_def client_new_def
      MeetingController_new_def no_server_def)

lemma demo_login:
  "slot_message_recv (demo_link 20 d) 1011 demo_login_answer demo_open = demo_ready"
  by (simp add: slot_message_recv_def rec_handleMessage_def route_def login_answer_def applyProfile_def applyRecentMeeting_def
      authenticated_def finish_def start_offered_def startHeartbeat_def sendHeartbeat_def link_eval
      demo_open_def demo_ready_def client_new_def MeetingController_new_def to_int_def is_int_def as_int_def)

lemma demo_read:
  "readIncoming (demo_link 20 (frame_of 1011 ''L'')) demo_open = demo_ready"
proof -
  let ?e = "demo_link 20 (frame_of 1011 ''L'')"
  let ?c = "demo_open\<lparr>tm_buffer := frame_of 1011 ''L''\<rparr>"
  have f: "client_frame (frame_of 1011 ''L'') = Some (1011, ''L'', [])"
    using client_frame_of [of "''L''" 1011 "[]"] by simp
  have n: "length (frame_of 1011 ''L'') = 5"
    by (simp add: frame_of_def Let_def)
  have b: "demo_open\<lparr>tm_buffer := []\<rparr> = demo_open" "tm_buffer demo_open = []" "tm_socket demo_open"
    by (simp_all add: demo_open_def client_new_def)
  have h: "handle_frame ?e 1011 ''L'' demo_open = demo_ready"
    by (simp add: handle_frame_def demo_login)
  have r: "read_frames ?e 2 5 demo_ready = demo_ready"
    by (simp add: eval_nat_numeral read_frames.simps demo_ready_def client_frame_def demo_open_def client_new_def)
  have "?c\<lparr>tm_buffer := []\<rparr> = demo_open" "tm_buffer ?c = frame_of 1011 ''L''" "tm_generation ?c = 2"
    using b(1) by (simp_all add: demo_open_def)
  then have "read_frames ?e (tm_generation ?c) (Suc 5) ?c = demo_ready"
    using f h r by (subst read_frames.simps(2)) simp
  then show ?thesis
    using b n by (simp add: readIncoming_def Let_def)
qed

lemma demo_login_run: "run_client demo_steps = demo_ready"
proof -
  have "client_step (demo_link 20 (frame_of 1011 ''L'')) (SocketReadable 2) demo_open
      = readIncoming (demo_link 20 (frame_of 1011 ''L'')) demo_open"
    by (simp add: client_step_def demo_open_def)
  then show ?thesis
    by (simp add: run_client_def demo_steps_def demo_open_run demo_read)
qed

definition demo_loss :: "(link_env \<times> callback) list" where
  "demo_loss = demo_steps @ [(demo_link 30 [], SocketFailed 2)]"

lemma demo_loss_waiting: "rv_state (run_client demo_loss) = Waiting"
proof -
  have "run_client demo_loss = client_step (demo_link 30 []) (SocketFailed 2) (run_client demo_steps)"
    by (simp add: run_client_def demo_loss_def)
  also have "rv_state \<dots> = Waiting"
    by (simp add: demo_login_run link_eval connectionLost_def login_connect_failed_def rec_disconnected_def retry_def emit_interrupted_def
        meeting_interrupted_def demo_ready_def demo_open_def client_new_def MeetingController_new_def)
  finally show ?thesis .
qed

theorem recovery_moves_on_witness:
  "rv_state (client_step (demo_link 1037 []) RetryTimeout (run_client demo_loss)) = Connecting
   \<and> rv_state (client_step (demo_link 1037 []) BudgetTimeout (run_client demo_loss)) = Failed"
proof -
  have "recovering (run_client demo_loss)"
    by (simp add: recovering_def demo_loss_waiting)
  from recovery_moves_on [OF this, of "demo_link 1037 []"] show ?thesis
    by (simp add: demo_loss_waiting Let_def)
qed

section \<open>A silent server\<close>

lemma empty_frame: "client_frame [] = None"
  by (simp add: client_frame_def)

lemma silent_read:
  assumes "le_data e = []" "client_frame (tm_buffer c) = None"
  shows "readIncoming e c = c"
  using assms by (simp add: readIncoming_def Let_def read_frames.simps)

text \<open>What a probe leaves of an open connection.\<close>

definition same_probe_state :: "client \<Rightarrow> client \<Rightarrow> bool" where
  "same_probe_state c c' \<longleftrightarrow> tm_heartbeat_timer c' = tm_heartbeat_timer c \<and> tm_last_ack c' = tm_last_ack c
     \<and> tm_clock c' = tm_clock c \<and> tm_buffer c' = tm_buffer c \<and> tm_reprobe_used c' = tm_reprobe_used c
     \<and> tm_reprobe_until c' = tm_reprobe_until c"

lemma send_heartbeat_frame:
  "\<not> tm_socket (slot_send_data e 1048 d c) \<or> same_probe_state c (slot_send_data e 1048 d c)"
proof -
  have "same_probe_state c (say ev c)" for ev
    by (simp add: same_probe_state_def say_def)
  moreover have "send_rejected e 1048 d c = say (Rejected 1048 d) c"
    by (simp add: send_rejected_def Let_def)
  moreover have "tm_socket c \<Longrightarrow> \<not> tm_socket (connectionLost e c)"
    using disconnected_socket [of "login_connect_failed (closeConnection c)" e]
    by (simp add: connectionLost_def login_connect_failed_def say_def closeConnection_def)
  ultimately show ?thesis
    using send_cases [of e 1048 d c] by (auto simp: link_simps)
qed

lemma probe_kept:
  "\<not> tm_socket (sendHeartbeat e now c) \<or> same_probe_state c (sendHeartbeat e now c)"
proof -
  obtain c1 v where s: "sendHeartbeat e now c = send_json e 1048 v c1" and "same_probe_state c c1"
    by (simp add: sendHeartbeat_def Let_def same_probe_state_def)
  then show ?thesis
    using send_heartbeat_frame [of e "le_print e v" c1] by (auto simp: send_json_def same_probe_state_def)
qed

text \<open>A tick without data.\<close>

definition quiet :: "client \<Rightarrow> bool" where
  "quiet c \<longleftrightarrow> tm_heartbeat_timer c \<and> client_frame (tm_buffer c) = None"

lemma silent_tick:
  assumes q: "quiet c" and e: "le_data e = []"
  defines "c' \<equiv> heartbeatTick e c" and "now \<equiv> elapsed e c"
  shows "\<not> tm_socket c' \<or> quiet c' \<and> tm_last_ack c' = tm_last_ack c \<and> tm_clock c' = tm_clock c
      \<and> (tm_reprobe_used c' = tm_reprobe_used c \<and> tm_reprobe_until c' = tm_reprobe_until c
         \<or> \<not> tm_reprobe_used c \<and> tm_reprobe_used c' \<and> tm_reprobe_until c' = now + 5000)
      \<and> (tm_last_ack c + 15000 \<le> now \<longrightarrow> tm_reprobe_used c' \<and> (tm_reprobe_used c \<longrightarrow> now < tm_reprobe_until c)
          \<or> now < tm_reprobe_until c)"
proof -
  let ?t = "c\<lparr>tm_last_tick := now\<rparr>"
  have r: "readIncoming e ?t = ?t"
    using q e by (intro silent_read) (simp_all add: quiet_def)
  let ?p = "?t\<lparr>tm_reprobe_used := True, tm_reprobe_until := now + kHeartbeatIntervalMs, tm_probes := []\<rparr>"
  have l: "\<not> tm_socket (connectionLost e ?t)"
    using connectionLost_none [of ?t e] disconnected_socket [of "login_connect_failed (closeConnection ?t)" e]
    by (cases "tm_socket ?t") (simp_all add: connectionLost_def login_connect_failed_def say_def closeConnection_def)
  have p: "\<not> tm_socket (sendHeartbeat e now ?p) \<or> same_probe_state ?p (sendHeartbeat e now ?p)"
    by (rule probe_kept)
  have n: "\<not> tm_socket (sendHeartbeat e now ?t) \<or> same_probe_state ?t (sendHeartbeat e now ?t)"
    by (rule probe_kept)
  have "c' = (if now - tm_last_ack c \<ge> kHeartbeatTimeoutMs \<and> now - tm_last_tick c > kHeartbeatIntervalMs \<and> \<not> tm_reprobe_used c
      then sendHeartbeat e now ?p
      else if now - tm_last_ack c \<ge> kHeartbeatTimeoutMs \<and> now \<ge> tm_reprobe_until c then connectionLost e ?t
      else if now - tm_last_sent c \<ge> kHeartbeatIntervalMs then sendHeartbeat e now ?t else ?t)"
    unfolding c'_def heartbeatTick_def Let_def now_def [symmetric] using q r by (simp add: quiet_def)
  then show ?thesis
    using p n l q by (auto simp: same_probe_state_def quiet_def kHeartbeatTimeoutMs_def kHeartbeatIntervalMs_def)
qed

text \<open>The state while nothing is heard: A is the time of the last answer, K the start of the clock.\<close>

definition unheard :: "int \<Rightarrow> int \<Rightarrow> (bool \<Rightarrow> int \<Rightarrow> bool) \<Rightarrow> client \<Rightarrow> bool" where
  "unheard A K P c \<longleftrightarrow> link_ok c \<and> (tm_socket c \<longrightarrow>
     quiet c \<and> tm_last_ack c = A \<and> tm_clock c = K \<and> P (tm_reprobe_used c) (tm_reprobe_until c))"

lemma closed_tick:
  assumes "link_ok c" "\<not> tm_socket c"
  shows "heartbeatTick e c = c"
  using assms by (auto simp: heartbeatTick_def link_ok_def link_mid_def)

lemma unheard_tick:
  assumes u: "unheard A K P c" and e: "le_data e = []"
    and keep: "\<And>b t. P b t \<Longrightarrow> Q b t" and fresh: "\<And>t. P False t \<Longrightarrow> Q True (le_time e - K + 5000)"
  shows "unheard A K Q (heartbeatTick e c)"
proof (cases "tm_socket c")
  case True
  have q: "quiet c" "tm_last_ack c = A" "tm_clock c = K" "P (tm_reprobe_used c) (tm_reprobe_until c)" "link_ok c"
    using u True by (auto simp: unheard_def)
  show ?thesis
    using silent_tick [OF q(1) e] q heartbeatTick_ok [OF q(5)] keep fresh
    unfolding unheard_def elapsed_def by auto
next
  case False
  then show ?thesis
    using u closed_tick [of c e] by (simp add: unheard_def)
qed

lemma unheard_due:
  assumes u: "unheard A K (\<lambda>b t. if b then t \<le> T + 5000 else t = 0) c" and e: "le_data e = []"
    and now: "le_time e - K = T" "A + 15000 \<le> T" "0 \<le> A"
  shows "unheard A K (\<lambda>b t. b \<and> t \<le> T + 5000) (heartbeatTick e c)"
proof (cases "tm_socket c")
  case True
  have q: "quiet c" "tm_last_ack c = A" "tm_clock c = K" "if tm_reprobe_used c then tm_reprobe_until c \<le> T + 5000 else tm_reprobe_until c = 0"
      "link_ok c"
    using u True by (auto simp: unheard_def)
  show ?thesis
    using silent_tick [OF q(1) e] q heartbeatTick_ok [OF q(5)] now
    unfolding unheard_def elapsed_def by (auto split: if_splits)
next
  case False
  then show ?thesis
    using u closed_tick [of c e] by (simp add: unheard_def)
qed

lemma unheard_last:
  assumes u: "unheard A K (\<lambda>b t. b \<and> t \<le> T + 5000) c" and e: "le_data e = []"
    and now: "T + 5000 \<le> le_time e - K" "A + 15000 \<le> le_time e - K"
  shows "\<not> tm_socket (heartbeatTick e c) \<and> link_ok (heartbeatTick e c)"
proof (cases "tm_socket c")
  case True
  have q: "quiet c" "tm_last_ack c = A" "tm_clock c = K" "tm_reprobe_used c" "tm_reprobe_until c \<le> T + 5000" "link_ok c"
    using u True by (auto simp: unheard_def)
  show ?thesis
    using silent_tick [OF q(1) e] q heartbeatTick_ok [OF q(6)] now
    unfolding elapsed_def by auto
next
  case False
  then show ?thesis
    using u closed_tick [of c e] by (simp add: unheard_def)
qed

definition ticks :: "link_env list \<Rightarrow> client \<Rightarrow> client" where
  "ticks es c = fold (\<lambda>e. client_step e HeartbeatTimeout) es c"

lemma ticks_simps [simp]:
  "ticks [] c = c" "ticks (e # es) c = ticks es (heartbeatTick e c)" "ticks (xs @ ys) c = ticks ys (ticks xs c)"
  by (simp_all add: ticks_def client_step_def)

lemma unheard_early:
  assumes "unheard A K (\<lambda>b t. if b then t \<le> T + 5000 else t = 0) c"
    and "list_all (\<lambda>e. le_data e = [] \<and> le_time e - K \<le> T) es"
  shows "unheard A K (\<lambda>b t. if b then t \<le> T + 5000 else t = 0) (ticks es c)"
  using assms
proof (induction es arbitrary: c)
  case (Cons e es)
  have "unheard A K (\<lambda>b t. if b then t \<le> T + 5000 else t = 0) (heartbeatTick e c)"
    by (rule unheard_tick [OF Cons.prems(1)]) (use Cons.prems(2) in \<open>simp_all\<close>)
  then show ?case
    using Cons by simp
qed simp

lemma unheard_between:
  assumes "unheard A K (\<lambda>b t. b \<and> t \<le> T + 5000) c" and "list_all (\<lambda>e. le_data e = []) es"
  shows "unheard A K (\<lambda>b t. b \<and> t \<le> T + 5000) (ticks es c)"
  using assms
proof (induction es arbitrary: c)
  case (Cons e es)
  have "unheard A K (\<lambda>b t. b \<and> t \<le> T + 5000) (heartbeatTick e c)"
    by (rule unheard_tick [OF Cons.prems(1)]) (use Cons.prems(2) in \<open>simp_all\<close>)
  then show ?case
    using Cons by simp
qed simp

text \<open>C35: A server that has fallen silent is noticed.  After an answer (or the start of the
  heartbeat) the timer ticks and nothing arrives, for whatever schedule of the ticks, delays
  of the process and outcomes of the writes: once one tick comes 15 seconds or more after the
  answer and a later one 5 seconds or more after that, the connection has been given up, and no
  ordinary request is let through.  The second chance after a pause is given once.\<close>

theorem silent_peer_detected:
  assumes "client_reachable c" "tm_socket c" "tm_heartbeat_timer c" "client_frame (tm_buffer c) = None"
    and "\<not> tm_reprobe_used c" "tm_reprobe_until c = 0" "0 \<le> tm_last_ack c"
    and "list_all (\<lambda>e. le_data e = [] \<and> le_time e \<le> le_time due) es" "list_all (\<lambda>e. le_data e = []) (due # es' @ [late])"
    and "tm_last_ack c + 15000 \<le> le_time due - tm_clock c" "le_time due + 5000 \<le> le_time late"
  shows "let c' = ticks (es @ due # es' @ [late]) c in \<not> tm_socket c' \<and> \<not> tm_business_ready c' \<and> \<not> tm_heartbeat_timer c'"
proof -
  let ?T = "le_time due - tm_clock c"
  let ?A = "tm_last_ack c"
  let ?K = "tm_clock c"
  have "unheard ?A ?K (\<lambda>b t. if b then t \<le> ?T + 5000 else t = 0) c"
    using assms(3-6) reachable_link_ok [OF assms(1)] by (simp add: unheard_def quiet_def)
  then have "unheard ?A ?K (\<lambda>b t. if b then t \<le> ?T + 5000 else t = 0) (ticks es c)"
    using assms(8) by (intro unheard_early) simp_all
  then have "unheard ?A ?K (\<lambda>b t. b \<and> t \<le> ?T + 5000) (heartbeatTick due (ticks es c))"
    using assms(7,9,10) by (intro unheard_due) simp_all
  then have "unheard ?A ?K (\<lambda>b t. b \<and> t \<le> ?T + 5000) (ticks es' (heartbeatTick due (ticks es c)))"
    using assms(9) by (intro unheard_between) simp_all
  moreover have "?T + 5000 \<le> le_time late - ?K" "?A + 15000 \<le> le_time late - ?K" "le_data late = []"
    using assms(9-11) by simp_all
  ultimately have "\<not> tm_socket (ticks (es @ due # es' @ [late]) c) \<and> link_ok (ticks (es @ due # es' @ [late]) c)"
    using unheard_last by simp
  then show ?thesis
    by (auto simp: Let_def link_ok_def link_mid_def)
qed

theorem silent_peer_detected_witness:
  "\<not> tm_socket (ticks [demo_link 5020 [], demo_link 10020 [], demo_link 15020 [], demo_link 20020 []] (run_client demo_steps))"
proof -
  have "tm_buffer demo_ready = []" by (simp add: demo_ready_def demo_open_def client_new_def)
  then have "let c' = ticks ([demo_link 5020 [], demo_link 10020 []] @ demo_link 15020 [] # [] @ [demo_link 20020 []]) (run_client demo_steps)
    in \<not> tm_socket c' \<and> \<not> tm_business_ready c' \<and> \<not> tm_heartbeat_timer c'"
    by (intro silent_peer_detected [OF run_client_reachable])
      (simp_all add: demo_login_run empty_frame demo_ready_def demo_open_def client_new_def)
  then show ?thesis
    by (simp add: Let_def)
qed

section \<open>The first login\<close>

text \<open>A connection that is lost between the first login request and its answer is not reported
  to anybody: the login controller has already taken the success of the connection, and the
  recovery controller ignores a client that never was authenticated.  No timer is left either.\<close>

theorem login_loss_unnoticed:
  assumes "le_alive e2" "le_to_write e2 = 0" "le_write_ok e2" "length (le_print e2 (auth_request server)) \<le> 65535"
  shows "let c1 = client_step e1 (LoggedIn server) client_new;
             c2 = client_step e2 (SocketConnected (tm_generation c1)) c1;
             c3 = client_step e3 (SocketFailed (tm_generation c2)) c2
    in cl_log c3 = [Wrote 1010 (le_print e2 (auth_request server))] \<and> rv_state c3 = Idle \<and> \<not> tm_socket c3 \<and> \<not> lg_pending c3
     \<and> \<not> tm_connect_timer c3 \<and> \<not> tm_heartbeat_timer c3 \<and> rv_retry_timer c3 = None \<and> \<not> rv_stage_timer c3 \<and> \<not> rv_budget_timer c3"
  using assms
  by (simp add: link_eval logged_in_def setServer_def slot_tcp_connect_def connect_succeeded_def client_new_def
      MeetingController_new_def no_server_def connectionLost_def login_connect_failed_def rec_disconnected_def)

section \<open>The frames of the server\<close>

text \<open>The messages of a stream, handled one after the other while the connection is the same.\<close>

fun deliver :: "link_env \<Rightarrow> u64 \<Rightarrow> (u16 \<times> string) list \<Rightarrow> string \<Rightarrow> client \<Rightarrow> client" where
  "deliver e generation [] rest c = c"
| "deliver e generation ((rid, p) # fs) rest c =
     (if generation \<noteq> tm_generation c then c
      else deliver e generation fs rest
        (handle_frame e rid p (c\<lparr>tm_buffer := concat (map (\<lambda>(r, p). frame_of r p) fs) @ rest\<rparr>)))"

abbreviation frames_of :: "(u16 \<times> string) list \<Rightarrow> string" where
  "frames_of fs \<equiv> concat (map (\<lambda>(r, p). frame_of r p) fs)"

lemma deliver_frames:
  assumes "list_all (\<lambda>f. length (snd f) \<le> 65535) fs" "client_frame rest = None" "length fs < n"
    and "link_ok c" "generation = tm_generation c \<Longrightarrow> tm_connected c \<and> tm_socket c \<and> tm_buffer c = frames_of fs @ rest"
  shows "read_frames e generation n c = deliver e generation fs rest c"
  using assms
proof (induction fs arbitrary: n c)
  case Nil
  then obtain m where "n = Suc m" by (cases n) auto
  then show ?case
    using Nil by (simp add: read_frames.simps(2))
next
  case (Cons f fs)
  obtain m where n: "n = Suc m"
    using Cons.prems(3) by (cases n) auto
  obtain rid p where f: "f = (rid, p)"
    by (cases f) auto
  show ?case
  proof (cases "generation = tm_generation c")
    case True
    let ?b = "c\<lparr>tm_buffer := frames_of fs @ rest\<rparr>"
    let ?d = "handle_frame e rid p ?b"
    have b: "tm_buffer c = frame_of rid p @ (frames_of fs @ rest)" "tm_connected c" "tm_socket c"
      using Cons.prems(5) True f by simp_all
    have d: "link_ok ?d" "kept_or_closed ?b ?d"
      using handle_frame_ok [of ?b e rid p] b Cons.prems(4) by simp_all
    have "read_frames e generation m ?d = deliver e generation fs rest ?d"
      using Cons.prems n d kept_generation [OF d(2)] True b by (intro Cons.IH) simp_all
    moreover have "client_frame (tm_buffer c) = Some (rid, p, frames_of fs @ rest)"
      unfolding b(1) using Cons.prems(1) f by (intro client_frame_of) simp
    ultimately show ?thesis
      using True by (simp add: n f read_frames.simps(2))
  next
    case False
    then show ?thesis
      by (simp add: n f read_frames.simps(2))
  qed
qed

text \<open>The frames a read completes: those that end within the first n bytes.\<close>

fun complete_within :: "nat \<Rightarrow> (u16 \<times> string) list \<Rightarrow> nat" where
  "complete_within n [] = 0"
| "complete_within n ((rid, p) # fs) = (if 4 + length p \<le> n then Suc (complete_within (n - (4 + length p)) fs) else 0)"

text \<open>A stream in reads of the given sizes, b bytes being there already: the frames of each read.\<close>

fun arrivals :: "nat \<Rightarrow> nat list \<Rightarrow> (u16 \<times> string) list \<Rightarrow> (u16 \<times> string) list list" where
  "arrivals b [] fs = []"
| "arrivals b (n # ns) fs = (let k = complete_within (b + n) fs in
     take k fs # arrivals (b + n - length (frames_of (take k fs))) ns (drop k fs))"

text \<open>What the client is to do: with every read the frames completed by it, in order, and the bytes
  after them kept for the next read.\<close>

fun deliver_parts :: "(link_env \<times> (u16 \<times> string) list) list \<Rightarrow> u64 \<Rightarrow> client \<Rightarrow> client" where
  "deliver_parts [] generation c = c"
| "deliver_parts ((e, fs) # ps) generation c =
     (if generation \<noteq> tm_generation c then c
      else let bytes = tm_buffer c @ le_data e in
        deliver_parts ps generation (deliver e generation fs (drop (length (frames_of fs)) bytes) (c\<lparr>tm_buffer := bytes\<rparr>)))"

lemma length_frame_of: "length (frame_of rid p) = 4 + length p"
  by (simp add: frame_of_def Let_def)

lemma client_frame_prefix: "client_frame (a @ b) = None \<Longrightarrow> client_frame a = None"
  by (auto simp: client_frame_def Let_def nth_append split: if_splits)

lemma client_frame_short:
  assumes "length p \<le> 65535" "a @ b = frame_of rid p @ s" "length a < 4 + length p"
  shows "client_frame a = None"
proof (cases "length a < 4")
  case False
  have h: "(a @ b) ! 2 = byte_hi (of_nat (length p))" "(a @ b) ! 3 = byte_lo (of_nat (length p))"
    by (simp_all add: assms(2) frame_of_def Let_def)
  have "a ! 2 = byte_hi (of_nat (length p))" "a ! 3 = byte_lo (of_nat (length p))"
    using h False by (simp_all add: nth_append)
  moreover have "unat (of_nat (length p) :: u16) = length p"
    using assms(1) by (rule unat_of_nat_u16)
  ultimately show ?thesis
    using assms(3) by (simp add: client_frame_def Let_def)
qed (simp add: client_frame_def)

text \<open>Cutting the stream: the completed frames, and a rest that is no frame.\<close>

lemma cut_stream:
  assumes "list_all (\<lambda>f. length (snd f) \<le> 65535) fs" "client_frame rest = None" "a @ b = frames_of fs @ rest"
  shows "\<exists>left. a = frames_of (take (complete_within (length a) fs) fs) @ left \<and> client_frame left = None
    \<and> left @ b = frames_of (drop (complete_within (length a) fs) fs) @ rest"
  using assms
proof (induction fs arbitrary: a)
  case Nil
  then show ?case using client_frame_prefix [of a b] by simp
next
  case (Cons f fs)
  obtain rid p where f: "f = (rid, p)" by (cases f)
  let ?n = "4 + length p"
  have eq: "a @ b = frame_of rid p @ frames_of fs @ rest" using Cons.prems(3) by (simp add: f)
  show ?case
  proof (cases "?n \<le> length a")
    case True
    have "take ?n a = frame_of rid p" "drop ?n a @ b = frames_of fs @ rest"
      using True arg_cong [OF eq, of "take ?n"] arg_cong [OF eq, of "drop ?n"] by (simp_all add: length_frame_of)
    moreover obtain left where l: "drop ?n a = frames_of (take (complete_within (length a - ?n) fs) fs) @ left" "client_frame left = None"
        "left @ b = frames_of (drop (complete_within (length a - ?n) fs) fs) @ rest"
      using Cons.IH [OF _ _ calculation(2)] Cons.prems(1,2) by auto
    moreover have "a = frame_of rid p @ drop ?n a" using append_take_drop_id [of ?n a] calculation(1) by simp
    ultimately have "a = frame_of rid p @ frames_of (take (complete_within (length a - ?n) fs) fs) @ left" by simp
    then show ?thesis using l(2,3) True by (intro exI [of _ left]) (simp add: f)
  next
    case False
    then show ?thesis using client_frame_short [OF _ eq] Cons.prems(1,3) by (simp add: f)
  qed
qed

lemma complete_all:
  "length (frames_of fs) \<le> n \<Longrightarrow> complete_within n fs = length fs"
  "length (frames_of (take (complete_within n fs) fs)) \<le> n"
  by (induction n fs rule: complete_within.induct) (auto simp: length_frame_of)

lemma arrivals_all:
  assumes "length (frames_of fs) \<le> b + sum_list ns" "ns \<noteq> []"
  shows "concat (arrivals b ns fs) = fs"
  using assms
proof (induction b ns fs rule: arrivals.induct)
  case (2 b n ns fs)
  let ?k = "complete_within (b + n) fs"
  have split: "length (frames_of (take ?k fs)) + length (frames_of (drop ?k fs)) = length (frames_of fs)"
    by (metis append_take_drop_id concat_append length_append map_append)
  show ?case
  proof (cases "ns = []")
    case True
    then show ?thesis using complete_all(1) [of fs "b + n"] 2(2) by (simp add: Let_def)
  next
    case False
    have "length (frames_of (drop ?k fs)) \<le> b + n - length (frames_of (take ?k fs)) + sum_list ns"
      using split 2(2) complete_all(2) [of "b + n" fs] by simp
    then show ?thesis using 2(1) [OF refl _ False] by (simp add: Let_def)
  qed
qed simp

text \<open>One read.\<close>

lemma read_part:
  assumes "link_ok c" "tm_connected c" "list_all (\<lambda>f. length (snd f) \<le> 65535) fs" "client_frame left = None"
    and "tm_buffer c @ le_data e = frames_of fs @ left"
  shows "client_step e (SocketReadable (tm_generation c)) c
    = deliver e (tm_generation c) fs left (c\<lparr>tm_buffer := tm_buffer c @ le_data e\<rparr>)"
proof -
  have s: "tm_socket c"
    using assms(1,2) by (auto simp: link_ok_def link_mid_def)
  have len: "length fs \<le> length (frames_of fs)"
    by (induction fs) (auto simp: frame_of_def Let_def)
  have "readIncoming e c = deliver e (tm_generation c) fs left (c\<lparr>tm_buffer := tm_buffer c @ le_data e\<rparr>)"
    unfolding readIncoming_def Let_def using s assms len
    by (simp, intro deliver_frames) simp_all
  then show ?thesis by (simp add: client_step_def assms(2))
qed

lemma deliver_kept:
  assumes "link_ok c" "generation = tm_generation c \<Longrightarrow> tm_connected c \<and> tm_socket c \<and> tm_buffer c = frames_of fs @ left"
    and "generation = tm_generation (deliver e generation fs left c)"
  shows "tm_connected (deliver e generation fs left c) \<and> tm_buffer (deliver e generation fs left c) = left"
  using assms
proof (induction fs arbitrary: c)
  case (Cons f fs)
  obtain rid p where f: "f = (rid, p)" by (cases f)
  show ?case
  proof (cases "generation = tm_generation c")
    case True
    let ?b = "c\<lparr>tm_buffer := frames_of fs @ left\<rparr>"
    let ?d = "handle_frame e rid p ?b"
    have d: "link_ok ?d" "kept_or_closed ?b ?d"
      using handle_frame_ok [of ?b e rid p] Cons.prems(1,2) True by simp_all
    then show ?thesis
      using Cons.IH [of ?d] Cons.prems(2,3) True kept_generation [OF d(2)] by (simp add: f)
  qed (use Cons.prems in \<open>simp add: f\<close>)
qed simp

lemma gone_reads: "generation \<noteq> tm_generation c \<Longrightarrow> fold (\<lambda>e. client_step e (SocketReadable generation)) es c = c"
  by (induction es) (simp_all add: client_step_def)

lemma reads_deliver:
  assumes "list_all (\<lambda>f. length (snd f) \<le> 65535) fs" "client_frame rest = None" "link_ok c" "tm_connected c"
    and "tm_buffer c @ concat (map le_data es) = frames_of fs @ rest"
  shows "fold (\<lambda>e. client_step e (SocketReadable (tm_generation c))) es c
    = deliver_parts (zip es (arrivals (length (tm_buffer c)) (map (\<lambda>e. length (le_data e)) es) fs)) (tm_generation c) c"
  using assms
proof (induction es arbitrary: c fs)
  case (Cons e es)
  let ?a = "tm_buffer c @ le_data e"
  define k where "k = complete_within (length (tm_buffer c) + length (le_data e)) fs"
  define g where "g = tm_generation c"
  obtain left where l: "?a = frames_of (take k fs) @ left" "client_frame left = None"
      "left @ concat (map le_data es) = frames_of (drop k fs) @ rest"
    using cut_stream [OF Cons.prems(1,2), of ?a "concat (map le_data es)"] Cons.prems(5)
    unfolding length_append k_def by (simp only: append_assoc list.map concat.simps) blast
  have sz: "list_all (\<lambda>f. length (snd f) \<le> 65535) (take k fs)" "list_all (\<lambda>f. length (snd f) \<le> 65535) (drop k fs)"
    using Cons.prems(1) by (auto simp: list_all_iff dest: in_set_takeD in_set_dropD)
  define c1 where "c1 = deliver e g (take k fs) left (c\<lparr>tm_buffer := ?a\<rparr>)"
  have step: "client_step e (SocketReadable g) c = c1"
    unfolding c1_def g_def by (rule read_part [OF Cons.prems(3,4) sz(1) l(2,1)])
  have cut: "drop (length (frames_of (take k fs))) ?a = left"
    "length (tm_buffer c) + length (le_data e) - length (frames_of (take k fs)) = length left"
    using arg_cong [OF l(1), of length] by (simp add: l(1), unfold length_append, linarith)
  have parts: "deliver_parts (zip (e # es) (arrivals (length (tm_buffer c)) (map (\<lambda>e. length (le_data e)) (e # es)) fs)) g c
      = deliver_parts (zip es (arrivals (length left) (map (\<lambda>e. length (le_data e)) es) (drop k fs))) g c1"
    using cut by (simp add: Let_def g_def c1_def flip: k_def)
  have "fold (\<lambda>e. client_step e (SocketReadable g)) es c1
      = deliver_parts (zip es (arrivals (length left) (map (\<lambda>e. length (le_data e)) es) (drop k fs))) g c1"
  proof (cases "g = tm_generation c1")
    case True
    have s: "tm_socket c" using Cons.prems(3,4) by (auto simp: link_ok_def link_mid_def)
    have ok: "link_ok c1"
      using readIncoming_ok [OF Cons.prems(3), of e] step Cons.prems(4) by (simp add: client_step_def g_def)
    have pre: "link_ok (c\<lparr>tm_buffer := ?a\<rparr>)" "tm_connected (c\<lparr>tm_buffer := ?a\<rparr>) \<and> tm_socket (c\<lparr>tm_buffer := ?a\<rparr>)
        \<and> tm_buffer (c\<lparr>tm_buffer := ?a\<rparr>) = frames_of (take k fs) @ left"
      using s Cons.prems(3,4) l(1) by simp_all
    note n = deliver_kept [OF pre, of g e, folded c1_def, OF True, THEN conjunct1]
      deliver_kept [OF pre, of g e, folded c1_def, OF True, THEN conjunct2]
    from Cons.IH [OF sz(2) Cons.prems(2) ok n(1)] l(3) True show ?thesis by (simp add: n(2))
  next
    case False
    have "deliver_parts ps g c1 = c1" for ps using False by (cases ps) auto
    then show ?thesis using gone_reads [OF False, of es] by simp
  qed
  then show ?case using parts step by (simp flip: g_def)
qed simp

text \<open>C36: The frames of the server arrive, however the stream is cut into reads.  RealtimeServer's
  Send builds a frame for each of a list of messages; the bytes of these frames, followed by any
  incomplete rest, come to a connected client in one or more reads of any sizes, and what an earlier
  read left in its buffer counts as the first of these bytes.  Then the client handles with every read
  exactly the messages whose last byte came with it, whole and in order, and keeps the bytes after them for
  the next read; all messages are handled, each once, unless one of them makes it give up the
  connection, after which later reads change nothing.  (A message has at most 65535 bytes, the limit of
  Send; other callbacks are not considered between the reads.)\<close>

theorem server_frames_handled:
  assumes "client_reachable c" "tm_connected c" "es \<noteq> []"
    and "list_all (\<lambda>f. length (snd f) \<le> 65535) fs" "client_frame rest = None"
    and "tm_buffer c @ concat (map le_data es) = frames_of fs @ rest"
    and "parts = arrivals (length (tm_buffer c)) (map (\<lambda>e. length (le_data e)) es) fs"
  shows "fold (\<lambda>e. client_step e (SocketReadable (tm_generation c))) es c = deliver_parts (zip es parts) (tm_generation c) c
    \<and> length parts = length es \<and> concat parts = fs"
proof -
  have "length (concat (map le_data es)) = sum_list (map (\<lambda>e. length (le_data e)) es)"
    by (simp add: length_concat comp_def)
  then have "length (frames_of fs) \<le> length (tm_buffer c) + sum_list (map (\<lambda>e. length (le_data e)) es)"
    using arg_cong [OF assms(6), of length] by simp
  then have "concat parts = fs"
    using arrivals_all assms(3,7) by simp
  moreover have "length (arrivals b ns fs) = length ns" for b ns
    by (induction b ns fs rule: arrivals.induct) (simp_all add: Let_def)
  ultimately show ?thesis
    using reads_deliver [OF assms(4,5) reachable_link_ok [OF assms(1)] assms(2,6)] assms(7) by simp
qed

text \<open>A frame that comes in two pieces, followed by a byte of the next.\<close>

theorem server_frames_handled_witness:
  "fold (\<lambda>e. client_step e (SocketReadable 2))
     [demo_link 20 (take 3 (frame_of 1011 ''L'')), demo_link 20 (drop 3 (frame_of 1011 ''L'') @ ''x'')] (run_client (take 2 demo_steps))
   = handle_frame (demo_link 20 (drop 3 (frame_of 1011 ''L'') @ ''x'')) 1011 ''L'' ((run_client (take 2 demo_steps))\<lparr>tm_buffer := ''x''\<rparr>)"
proof -
  let ?es = "[demo_link 20 (take 3 (frame_of 1011 ''L'')), demo_link 20 (drop 3 (frame_of 1011 ''L'') @ ''x'')]"
  have r: "run_client (take 2 demo_steps) = demo_open"
    by (simp add: run_client_def demo_steps_def demo_open_run)
  have o: "tm_buffer demo_open = []" "tm_connected demo_open" "tm_generation demo_open = 2"
    by (simp_all add: demo_open_def client_new_def)
  have a: "arrivals 0 [3, 3] [(1011, ''L'')] = [[], [(1011, ''L'')]]"
    by (simp add: length_frame_of Let_def)
  have d: "length (take 3 (frame_of 1011 ''L'')) = 3" "length (drop 3 (frame_of 1011 ''L'') @ ''x'') = 3"
    by (simp_all add: length_frame_of)
  have b: "(demo_open\<lparr>tm_buffer := x\<rparr>)\<lparr>tm_buffer := y\<rparr> = demo_open\<lparr>tm_buffer := y\<rparr>" for x y by simp
  have "fold (\<lambda>e. client_step e (SocketReadable (tm_generation demo_open))) ?es demo_open
      = deliver_parts (zip ?es [[], [(1011, ''L'')]]) (tm_generation demo_open) demo_open"
    using server_frames_handled [OF run_client_reachable, of "take 2 demo_steps" ?es "[(1011, ''L'')]" "''x''", OF _ _ _ _ _ refl]
    by (simp add: r o a d client_frame_def)
  also have "\<dots> = handle_frame (demo_link 20 (drop 3 (frame_of 1011 ''L'') @ ''x'')) 1011 ''L'' (demo_open\<lparr>tm_buffer := ''x''\<rparr>)"
    by (simp add: o b length_frame_of Let_def)
  finally show ?thesis by (simp add: r o)
qed

section \<open>The snapshot of the server\<close>

lemma int_to_string_not_Nil [simp]: "int_to_string i \<noteq> []"
  by (simp add: int_to_string_def)

text \<open>The entries of a member list name their user.\<close>

definition named :: "qt \<Rightarrow> json \<Rightarrow> bool" where
  "named q v \<longleftrightarrow> is_object v \<and> member_id q v \<noteq> []"

lemma member_json_named:
  assumes "member \<noteq> []"
  shows "named q (fst (run_state (member_json en c member) w))"
  using assms by (simp add: named_def member_json_def member_id_def jobj_def ju64_def fst_bind split: option.split prod.split)

lemma member_list_named:
  assumes "list_all (\<lambda>m. m \<noteq> []) ms" "list_all (named q) (fst acc)"
  shows "list_all (named q) (fst (fst (run_state (member_list en c ms acc) w)))"
  using assms
proof (induction ms arbitrary: acc w)
  case (Cons m ms)
  obtain a w' where a: "run_state (member_json en c m) w = (a, w')"
    by (cases "run_state (member_json en c m) w") auto
  then have "named q a"
    using member_json_named [of m q en c w] Cons.prems(1) by simp
  then have "list_all (named q) (fst (fst (run_state (member_list en c ms (fst acc @ [a], j)) w')))" for j
    using Cons.prems by (intro Cons.IH) simp_all
  then show ?case
    by (simp add: a)
qed simp

text \<open>C37: The snapshot of a resumed meeting is accepted.  Whatever member list RealtimeServer
  builds from named members, its answer to a resume request, when it comes to a client
  that waits for it with the same meeting, code and ticket and a generation that is not newer, is
  taken over by the client: it becomes ready, shows the members of the answer, says so to
  the pages and keeps the generation that the server will compare with at the next resume.\<close>

theorem server_snapshot_accepted:
  assumes array: "array = fst (fst (run_state (member_list en jc members ([], JNull)) w))" "list_all (\<lambda>m. m \<noteq> []) members"
    and request: "jc_value jc = jset ''request_id'' (JString (rv_request_id c)) JNull" "rv_state c = Resuming"
    and meeting: "mi_status (jc_info jc) = Scheduled \<or> mi_status (jc_info jc) = InProgress"
      "mt_current (cl_meeting c) = to_string (unat (mi_id (jc_info jc)))" "mt_code (cl_meeting c) = mi_code (jc_info jc)"
    and ticket: "mt_ticket (cl_meeting c) = mb_ticket m" "mb_ticket m \<noteq> []"
    and generation: "qt_to_ull (le_qt e) (to_string (unat (mb_generation m))) = Some (mb_generation m)"
      "q_ull (le_qt e) (mt_generation (cl_meeting c)) \<le> mb_generation m"
  shows "let v = join_value jc m members array;
             role = (if mi_creator (jc_info jc) = of_int (jc_uid jc) then ''host'' else ''participant'');
             es = [MeetingMembersChanged (mt_current (cl_meeting c)) array,
                   MeetingRestored (mt_current (cl_meeting c)) (MeetingStatusText (mi_status (jc_info jc))) role array];
             shown = (cl_meeting c)\<lparr>mt_generation := to_string (unat (mb_generation m)), mt_members := array\<rparr>
    in rec_resume_response e v c
       = meeting_recovered e (finish (c\<lparr>rv_stage_timer := False, cl_meeting := shown, cl_log := cl_log c @ map OnMeeting es\<rparr>))"
proof -
  let ?v = "join_value jc m members array"
  have f: "jget ?v ''resume_ticket'' = JString (mb_ticket m)" "jget ?v ''membership_generation'' = jid (mb_generation m)"
    "jget ?v ''error'' = JInt 0" "jget ?v ''meeting_id'' = jid (mi_id (jc_info jc))" "jget ?v ''meeting_code'' = JString (mi_code (jc_info jc))"
    "jget ?v ''status'' = JString (MeetingStatusText (mi_status (jc_info jc)))"
    "jget ?v ''role'' = JString (if mi_creator (jc_info jc) = of_int (jc_uid jc) then ''host'' else ''participant'')"
    "jget ?v ''members'' = JArray array" "jget ?v ''request_id'' = JString (rv_request_id c)"
    using request(1) by (simp_all add: join_value_def Let_def)
  have "list_all (named (le_qt e)) array"
    unfolding array(1) by (rule member_list_named [OF array(2)]) simp
  then have named: "\<not> (\<exists>v \<in> set array. \<not> is_object v \<or> member_id (le_qt e) v = [])"
    by (auto simp: list_all_iff named_def)
  have st: "MeetingStatusText (mi_status (jc_info jc)) = ''scheduled'' \<or> MeetingStatusText (mi_status (jc_info jc)) = ''in_progress''"
    using meeting(1) by auto
  have err: "error_of ?v = 0"
    by (simp add: error_of_def to_int_def is_int_def as_int_def f)
  let ?shown = "(cl_meeting c)\<lparr>mt_generation := to_string (unat (mb_generation m)), mt_members := array\<rparr>"
  let ?role = "if mi_creator (jc_info jc) = of_int (jc_uid jc) then ''host'' else ''participant''"
  let ?es = "[MeetingMembersChanged (mt_current (cl_meeting c)) array,
      MeetingRestored (mt_current (cl_meeting c)) (MeetingStatusText (mi_status (jc_info jc))) ?role array]"
  have "applyResumeMeetingResponse (le_qt e) ?v (cl_meeting c) = (True, ?es, ?shown)"
    unfolding applyResumeMeetingResponse_def Let_def jtext_def f jid_def as_string.simps to_array.simps
    using named st meeting(2,3) ticket generation by auto
  moreover have "jtext ?v ''request_id'' = rv_request_id c"
    by (simp add: jtext_def f)
  ultimately show ?thesis
    using request(2) by (simp add: rec_resume_response_def Let_def err on_meeting_def)
qed

text \<open>A resumed meeting with one other member.\<close>

definition demo_ctx :: join_ctx where
  "demo_ctx = \<lparr>jc_rid = 1, jc_sid = 0, jc_uid = 7, jc_resuming = True, jc_request_id = ''r'',
     jc_info = \<lparr>mi_id = 1, mi_code = ''m'', mi_title = ''t'', mi_creator = 7, mi_status = InProgress, mi_visibility = VisPrivate,
       mi_requires_password = False, mi_max_participants = 4\<rparr>, jc_value = jset ''request_id'' (JString ''r'') JNull\<rparr>"

definition demo_resuming :: client where
  "demo_resuming = client_new\<lparr>rv_state := Resuming, rv_request_id := ''r'', cl_meeting := MeetingController_new\<lparr>mt_current := ''1'',
     mt_code := ''m'', mt_ticket := ''k'', mt_generation := ''1''\<rparr>\<rparr>"

definition demo_array :: "json list" where
  "demo_array = fst (fst (run_state (member_list demo_env demo_ctx [''x''] ([], JNull)) demo_start))"

theorem server_snapshot_accepted_witness:
  "rec_resume_response (demo_link 50 []) (join_value demo_ctx (Membership_new\<lparr>mb_ticket := ''k''\<rparr>) [''x''] demo_array) demo_resuming
   = meeting_recovered (demo_link 50 []) (finish (demo_resuming\<lparr>rv_stage_timer := False,
       cl_meeting := (cl_meeting demo_resuming)\<lparr>mt_generation := ''1'', mt_members := demo_array\<rparr>,
       cl_log := [OnMeeting (MeetingMembersChanged ''1'' demo_array), OnMeeting (MeetingRestored ''1'' ''in_progress'' ''host'' demo_array)]\<rparr>))"
proof -
  have one: "to_string 1 = ''1''" "to_string (Suc 0) = ''1''"
    by (simp_all add: to_string.simps digit_char_def char_of_def bit_0)
  have c: "rv_state demo_resuming = Resuming" "rv_request_id demo_resuming = ''r''" "cl_log demo_resuming = []"
    "mt_current (cl_meeting demo_resuming) = ''1''" "mt_code (cl_meeting demo_resuming) = ''m''"
    "mt_ticket (cl_meeting demo_resuming) = ''k''" "mt_generation (cl_meeting demo_resuming) = ''1''"
    by (simp_all add: demo_resuming_def client_new_def)
  have j: "jc_info demo_ctx = \<lparr>mi_id = 1, mi_code = ''m'', mi_title = ''t'', mi_creator = 7, mi_status = InProgress,
      mi_visibility = VisPrivate, mi_requires_password = False, mi_max_participants = 4\<rparr>" "jc_uid demo_ctx = 7"
    "jc_value demo_ctx = jset ''request_id'' (JString ''r'') JNull"
    by (simp_all add: demo_ctx_def)
  show ?thesis
    using server_snapshot_accepted [OF demo_array_def, of demo_resuming "Membership_new\<lparr>mb_ticket := ''k''\<rparr>" "demo_link 50 []"]
    by (simp add: c j one Membership_new_def plain_qt_def q_ull_def Let_def)
qed

end
