(* ===== verification/IoLoop.thy ===== *)
theory IoLoop
  imports TcpReceive MediaSignal
begin

text \<open>
  The I/O loop of RealtimeServer (src/net/CServer.cpp, include/net/CServer.h): one
  thread waits for epoll events and runs the connections (TcpSession, TcpReceive), the
  wake-up (IoWakeup) and the control connection to MediaServer (MediaSignal).

  The record keeps the fields of class CServer.  The std::map of the connections is a
  list of pairs in the order of the tokens; sv_epollout is the part of the kernel's epoll
  set that matters here, the tokens registered with EPOLLOUT.  A wake-up that does not
  exist yet is a closed one, on which RequestStop and Close have no effect either.  What
  the kernel answers is an argument.  Calls of business threads between two steps of the
  loop are an argument too (ka_calls, ri_calls): a call that arrives while a connection is
  handled takes the lock of the connection or of the wake-up, so it counts as before or
  after that handling.

  Ghost fields: sv_posted lists what the loop hands to LogicSystem (PostMsgToQue with its
  admission, PostSessionDisconnected, PostReconnectTimeoutCheck), sv_accepted the tokens
  of the registered connections, sv_attempts how many tokens were drawn.
\<close>

section \<open>State\<close>

datatype server_fd = FdListen | FdEpoll | FdTimer | FdSignal

datatype io_post =
    PostFrame u64 u16 string bool
  | PostDisconnected u64 session
  | PostReconnectCheck

record io_server =
  sv_fds :: "server_fd set"
  sv_wakeup :: io_wakeup
  sv_media :: media_client
  sv_next_token :: u64
  sv_sessions :: "(u64 \<times> session) list"
  sv_heartbeat_after :: u64
  sv_heartbeat_through :: u64
  sv_heartbeat_scanning :: bool
  sv_heartbeat_recheck :: bool
  sv_last_timer :: int
  sv_epollout :: "u64 set"
  sv_posted :: "io_post list"
  sv_accepted :: "u64 list"
  sv_attempts :: nat

text \<open>Code outside the loop: the JSON reader of the heartbeat, the admission of a frame by
  LogicSystem::PostMsgToQue (given what was posted before), and of a media event.\<close>

record io_env =
  ie_parse :: "string \<Rightarrow> json option"
  ie_admit :: "io_post list \<Rightarrow> u64 \<Rightarrow> u16 \<times> string \<Rightarrow> bool"
  ie_media :: "media_event \<times> u64 \<Rightarrow> bool"

definition kMaxEvents :: nat where "kMaxEvents = 64"
definition kListenToken :: u64 where "kListenToken = 1"
definition kTimerToken :: u64 where "kTimerToken = 2"
definition kServerWakeToken :: u64 where "kServerWakeToken = 3"
definition kSignalToken :: u64 where "kSignalToken = 4"

definition CServer_new :: "int \<Rightarrow> io_server" where
  "CServer_new now = \<lparr>sv_fds = {}, sv_wakeup = Wakeup_Close IoWakeup_new,
     sv_media = MediaSignalClient_new, sv_next_token = 5, sv_sessions = [],
     sv_heartbeat_after = 0, sv_heartbeat_through = 0, sv_heartbeat_scanning = False,
     sv_heartbeat_recheck = False, sv_last_timer = now, sv_epollout = {}, sv_posted = [],
     sv_accepted = [], sv_attempts = 0\<rparr>"

text \<open>The ordered map of the connections.\<close>

definition find_session :: "u64 \<Rightarrow> io_server \<Rightarrow> session option" where
  "find_session token sv = map_of (sv_sessions sv) token"

definition upper_bound :: "u64 \<Rightarrow> (u64 \<times> session) list \<Rightarrow> (u64 \<times> session) option" where
  "upper_bound token xs = (case dropWhile (\<lambda>x. fst x \<le> token) xs of [] \<Rightarrow> None | x # _ \<Rightarrow> Some x)"

definition emplace :: "u64 \<Rightarrow> session \<Rightarrow> (u64 \<times> session) list \<Rightarrow> (u64 \<times> session) list" where
  "emplace token s xs =
     (if map_of xs token \<noteq> None then xs
      else takeWhile (\<lambda>x. fst x < token) xs @ (token, s) # dropWhile (\<lambda>x. fst x < token) xs)"

definition put_session :: "u64 \<Rightarrow> session \<Rightarrow> (u64 \<times> session) list \<Rightarrow> (u64 \<times> session) list" where
  "put_session token s xs = map (\<lambda>x. if fst x = token then (token, s) else x) xs"

text \<open>A call on the connection object: the object and the shared wake-up change.\<close>

definition session_conn :: "session \<Rightarrow> io_server \<Rightarrow> conn" where
  "session_conn s sv = (s, Some (sv_wakeup sv))"

definition put_conn :: "u64 \<Rightarrow> conn \<Rightarrow> io_server \<Rightarrow> io_server" where
  "put_conn token c sv = sv\<lparr>sv_sessions := put_session token (fst c) (sv_sessions sv),
     sv_wakeup := (case snd c of None \<Rightarrow> sv_wakeup sv | Some w \<Rightarrow> w)\<rparr>"

definition on_session :: "u64 \<Rightarrow> (conn \<Rightarrow> conn) \<Rightarrow> io_server \<Rightarrow> io_server" where
  "on_session token f sv = (case find_session token sv of None \<Rightarrow> sv
     | Some s \<Rightarrow> put_conn token (f (session_conn s sv)) sv)"

definition media_state_of :: "io_server \<Rightarrow> media_state" where
  "media_state_of sv = (sv_media sv, sv_wakeup sv)"

definition put_media :: "media_state \<Rightarrow> io_server \<Rightarrow> io_server" where
  "put_media st sv = sv\<lparr>sv_media := fst st, sv_wakeup := snd st\<rparr>"

section \<open>Calls of the business threads\<close>

text \<open>A business thread may still hold a connection the loop has closed: Send is then
  refused, and RequestClose only registers the old token at the wake-up.\<close>

datatype biz_call =
    BizSend u64 u16 string
  | BizRequestClose u64
  | BizSetUser u64 int
  | BizSetAuth u64 string
  | BizSetMeeting u64 u64
  | BizSetSignal u64 u64
  | BizClearSignal u64 u64
  | BizMediaSend u64 string
  | BizInvalidate u64
  | BizStop

definition CServer_Stop :: "io_server \<Rightarrow> io_server" where
  "CServer_Stop sv = sv\<lparr>sv_wakeup := RequestStop (sv_wakeup sv)\<rparr>"

fun biz_step :: "biz_call \<Rightarrow> io_server \<Rightarrow> io_server" where
  "biz_step (BizSend t rid p) sv = on_session t (\<lambda>c. snd (Send rid p c)) sv"
| "biz_step (BizRequestClose t) sv =
     (if find_session t sv = None then sv\<lparr>sv_wakeup := snd (Notify t (sv_wakeup sv))\<rparr>
      else on_session t RequestClose sv)"
| "biz_step (BizSetUser t u) sv = on_session t (apfst (SetUserId u)) sv"
| "biz_step (BizSetAuth t a) sv = on_session t (apfst (SetAuthToken a)) sv"
| "biz_step (BizSetMeeting t m) sv = on_session t (apfst (SetMeetingId m)) sv"
| "biz_step (BizSetSignal t g) sv = on_session t (apfst (SetMediaSignalId g)) sv"
| "biz_step (BizClearSignal t g) sv = on_session t (apfst (ClearMediaSignalId g)) sv"
| "biz_step (BizMediaSend e msg) sv = put_media (snd (Media_Send e msg (media_state_of sv))) sv"
| "biz_step (BizInvalidate e) sv = put_media (Invalidate e (media_state_of sv)) sv"
| "biz_step BizStop sv = CServer_Stop sv"

definition biz_all :: "biz_call list \<Rightarrow> io_server \<Rightarrow> io_server" where
  "biz_all calls sv = fold biz_step calls sv"

section \<open>Closing and updating a connection\<close>

definition CloseClient :: "u64 \<Rightarrow> io_server \<Rightarrow> io_server" where
  "CloseClient token sv = (case find_session token sv of None \<Rightarrow> sv
     | Some s \<Rightarrow> sv\<lparr>sv_sessions := filter (\<lambda>x. fst x \<noteq> token) (sv_sessions sv),
                   sv_epollout := sv_epollout sv - {token},
                   sv_posted := sv_posted sv @ [PostDisconnected token (Session_Close s)]\<rparr>)"

definition UpdateClient :: "u64 \<Rightarrow> bool \<Rightarrow> io_server \<Rightarrow> io_server" where
  "UpdateClient token epoll_ok sv = (case find_session token sv of None \<Rightarrow> sv
     | Some s \<Rightarrow>
         if \<not> epoll_ok then CloseClient token sv
         else sv\<lparr>sv_epollout := (if HasPendingWrite s then insert token (sv_epollout sv)
                                 else sv_epollout sv - {token})\<rparr>)"

text \<open>What happens while one connection is handled: the business calls just before, the
  clock, and the answers of recv, send and epoll_ctl.\<close>

record kernel_answer =
  ka_calls :: "biz_call list"
  ka_now :: int
  ka_recv :: "recv_result list"
  ka_send :: "send_result list"
  ka_epoll_ok :: bool

definition quiet_answer :: kernel_answer where
  "quiet_answer = \<lparr>ka_calls = [], ka_now = 0, ka_recv = [], ka_send = [], ka_epoll_ok = True\<rparr>"

definition post_frame :: "io_env \<Rightarrow> u64 \<Rightarrow> u16 \<times> string \<Rightarrow> io_post list \<Rightarrow> bool \<times> io_post list" where
  "post_frame E token f posted =
     (let ok = ie_admit E posted token f in (ok, posted @ [PostFrame token (fst f) (snd f) ok]))"

definition read_client :: "io_env \<Rightarrow> u64 \<Rightarrow> kernel_answer \<Rightarrow> io_server \<Rightarrow> bool \<times> io_server" where
  "read_client E token a sv = (case find_session token sv of None \<Rightarrow> (True, sv)
     | Some s \<Rightarrow>
         let (alive, c, posted) = HandleRead (ie_parse E) (ka_now a) (post_frame E token) (ka_recv a)
                                    (session_conn s sv) (sv_posted sv)
         in (alive, (put_conn token c sv)\<lparr>sv_posted := posted\<rparr>))"

definition write_client :: "u64 \<Rightarrow> kernel_answer \<Rightarrow> io_server \<Rightarrow> bool \<times> io_server" where
  "write_client token a sv = (case find_session token sv of None \<Rightarrow> (True, sv)
     | Some s \<Rightarrow> let (alive, _, s') = HandleWrite (ka_send a) s
                 in (alive, put_conn token (session_conn s' sv) sv))"

section \<open>The event handlers\<close>

text \<open>Tokens taken from the wake-up: written at once, closed or updated.  After a stop
  request the rest of the batch is dropped.\<close>

definition wake_client :: "(u64 \<Rightarrow> kernel_answer) \<Rightarrow> u64 \<Rightarrow> io_server \<Rightarrow> io_server" where
  "wake_client ans token sv0 =
     (let a = ans token; sv = biz_all (ka_calls a) sv0 in
      if Stopping (sv_wakeup sv) \<or> find_session token sv = None then sv
      else let (alive, sv1) = write_client token a sv in
        if \<not> alive then CloseClient token sv1 else UpdateClient token (ka_epoll_ok a) sv1)"

definition HandleWakeup :: "(u64 \<Rightarrow> kernel_answer) \<Rightarrow> io_server \<Rightarrow> io_server" where
  "HandleWakeup ans sv =
     (let (taken, w) = Take (sv_wakeup sv) in fold (wake_client ans) taken (sv\<lparr>sv_wakeup := w\<rparr>))"

datatype accept_result = Accepted int bool | AcceptAgain | AcceptIntr | AcceptFail

text \<open>One accepted descriptor: the token is drawn first, and is lost when registering
  the connection fails.\<close>

definition register_client :: "int \<Rightarrow> bool \<Rightarrow> io_server \<Rightarrow> io_server" where
  "register_client now ok sv =
     (let token = sv_next_token sv;
          sv1 = sv\<lparr>sv_next_token := token + 1, sv_attempts := sv_attempts sv + 1\<rparr>
      in if \<not> ok then sv1
         else sv1\<lparr>sv_sessions := emplace token (Session_new token now) (sv_sessions sv1),
                  sv_accepted := sv_accepted sv1 @ [token]\<rparr>)"

fun accept_loop :: "accept_result list \<Rightarrow> io_server \<Rightarrow> io_server" where
  "accept_loop [] sv = sv"
| "accept_loop (Accepted now ok # rs) sv = accept_loop rs (register_client now ok sv)"
| "accept_loop (AcceptIntr # rs) sv = accept_loop rs sv"
| "accept_loop (AcceptAgain # rs) sv = sv"
| "accept_loop (AcceptFail # rs) sv = sv"

definition AcceptClients :: "accept_result list \<Rightarrow> io_server \<Rightarrow> io_server" where
  "AcceptClients answers sv = accept_loop (take kMaxEvents answers) sv"

definition HandleTimer :: "int \<Rightarrow> io_server \<Rightarrow> io_server" where
  "HandleTimer now sv =
     (let sv1 = (if \<not> sv_heartbeat_scanning sv \<and> sv_sessions sv \<noteq> []
                 then sv\<lparr>sv_heartbeat_after := 0,
                         sv_heartbeat_through := fst (last (sv_sessions sv)),
                         sv_heartbeat_scanning := True,
                         sv_heartbeat_recheck := now - sv_last_timer sv > 5000\<rparr>
                 else sv)
      in sv1\<lparr>sv_last_timer := now, sv_posted := sv_posted sv1 @ [PostReconnectCheck]\<rparr>)"

section \<open>The heartbeat scan\<close>

text \<open>One connection of the scan: an expired one may still have its PING unread.\<close>

definition check_client :: "io_env \<Rightarrow> int \<Rightarrow> kernel_answer \<Rightarrow> u64 \<Rightarrow> io_server \<Rightarrow> io_server" where
  "check_client E now a token sv = (case find_session token sv of None \<Rightarrow> sv
     | Some s \<Rightarrow>
         if \<not> fst (ConnectionExpired now False s) then sv
         else let (alive, sv1) = read_client E token a sv in
           case find_session token sv1 of None \<Rightarrow> sv1
           | Some s1 \<Rightarrow>
               if \<not> alive \<or> IsClosed s1 then CloseClient token sv1
               else let (late, s2) = ConnectionExpired now (sv_heartbeat_recheck sv1) s1;
                        sv2 = put_conn token (session_conn s2 sv1) sv1
                    in if late then CloseClient token sv2
                       else UpdateClient token (ka_epoll_ok a) sv2)"

fun heartbeat_loop :: "io_env \<Rightarrow> int \<Rightarrow> (u64 \<Rightarrow> kernel_answer) \<Rightarrow> nat \<Rightarrow> io_server \<Rightarrow> io_server" where
  "heartbeat_loop E now ans 0 sv = sv"
| "heartbeat_loop E now ans (Suc n) sv =
     (case upper_bound (sv_heartbeat_after sv) (sv_sessions sv) of
        None \<Rightarrow> sv\<lparr>sv_heartbeat_scanning := False\<rparr>
      | Some (token, _) \<Rightarrow>
          if token > sv_heartbeat_through sv then sv\<lparr>sv_heartbeat_scanning := False\<rparr>
          else heartbeat_loop E now ans n
                 (check_client E now (ans token) token
                   (biz_all (ka_calls (ans token)) (sv\<lparr>sv_heartbeat_after := token\<rparr>))))"

definition CheckHeartbeats :: "io_env \<Rightarrow> int \<Rightarrow> (u64 \<Rightarrow> kernel_answer) \<Rightarrow> io_server \<Rightarrow> io_server" where
  "CheckHeartbeats E now ans sv =
     (if \<not> sv_heartbeat_scanning sv then sv else heartbeat_loop E now ans kMaxEvents sv)"

section \<open>The loop\<close>

text \<open>What a throwing Tick or HandleEvents of the control connection leaves behind: the
  failing epoll_ctl is in Connect, after the socket is stored, or in UpdateInterest.\<close>

definition Tick_left :: "(media_event \<times> u64 \<Rightarrow> bool) \<Rightarrow> int \<Rightarrow> connect_result \<Rightarrow> media_state \<Rightarrow> media_state" where
  "Tick_left admit now res st =
     (let st1 = tick_drop admit now st in
      if \<not> mc_fd_open (fst st1) \<and> now \<ge> mc_deadline (fst st1)
      then apfst (\<lambda>m. m\<lparr>mc_fd_open := True, mc_socket_token := mc_socket_token m + 1,
                        mc_connecting := (res = ConnInProgress), mc_deadline := now + 1000\<rparr>) st1
      else st1)"

definition HandleEvents_left :: "(media_event \<times> u64 \<Rightarrow> bool) \<Rightarrow> int \<Rightarrow> uds_kernel \<Rightarrow> u64 \<Rightarrow> u32
    \<Rightarrow> media_state \<Rightarrow> media_state" where
  "HandleEvents_left admit now k token events st =
     (case HandleEvents admit now (k\<lparr>k_epoll_ok := True\<rparr>) token events st of
        None \<Rightarrow> st
      | Some (_, st') \<Rightarrow> apfst (\<lambda>m. m\<lparr>mc_events := mc_events (fst st)\<rparr>) st')"

definition tick_server :: "io_env \<Rightarrow> int \<Rightarrow> connect_result \<Rightarrow> bool \<Rightarrow> io_server \<Rightarrow> bool \<times> io_server" where
  "tick_server E now res epoll_ok sv =
     (case Tick (ie_media E) now res epoll_ok (media_state_of sv) of
        Some st \<Rightarrow> (False, put_media st sv)
      | None \<Rightarrow> (True, put_media (Tick_left (ie_media E) now res (media_state_of sv)) sv))"

definition media_server_event :: "io_env \<Rightarrow> int \<Rightarrow> uds_kernel \<Rightarrow> u64 \<Rightarrow> u32 \<Rightarrow> io_server
    \<Rightarrow> bool \<times> io_server" where
  "media_server_event E now k token flags sv =
     (case HandleEvents (ie_media E) now k token flags (media_state_of sv) of
        Some (_, st) \<Rightarrow> (False, put_media st sv)
      | None \<Rightarrow> (True, put_media (HandleEvents_left (ie_media E) now k token flags (media_state_of sv)) sv))"

definition client_event :: "io_env \<Rightarrow> kernel_answer \<Rightarrow> u64 \<Rightarrow> u32 \<Rightarrow> io_server \<Rightarrow> io_server" where
  "client_event E a token flags sv =
     (if find_session token sv = None then sv
      else let (alive1, sv1) = (if flags AND (EPOLLIN OR EPOLLRDHUP OR EPOLLHUP) \<noteq> 0
                                then read_client E token a sv else (True, sv));
               (alive, sv2) = (if alive1 \<and> flags AND EPOLLOUT \<noteq> 0
                               then write_client token a sv1 else (alive1, sv1))
           in if \<not> alive \<or> flags AND EPOLLERR \<noteq> 0 then CloseClient token sv2
              else UpdateClient token (ka_epoll_ok a) sv2)"

datatype signal_read = SignalRead | SignalNone | SignalError

text \<open>An epoll event with the answers its handling gets.\<close>

record poll_event =
  pe_token :: u64
  pe_flags :: u32
  pe_answer :: kernel_answer
  pe_accepts :: "accept_result list"
  pe_wakes :: "u64 \<Rightarrow> kernel_answer"
  pe_signal :: signal_read
  pe_uds :: uds_kernel

text \<open>The body of the event loop; True is an exception.\<close>

definition HandleEpollEvent :: "io_env \<Rightarrow> poll_event \<Rightarrow> io_server \<Rightarrow> bool \<times> io_server" where
  "HandleEpollEvent E e sv0 =
     (let token = pe_token e; flags = pe_flags e; a = pe_answer e; sv = biz_all (ka_calls a) sv0 in
      if token = kListenToken
      then if flags AND (EPOLLERR OR EPOLLHUP) \<noteq> 0 then (True, sv)
           else (False, AcceptClients (pe_accepts e) sv)
      else if token = kTimerToken then (False, HandleTimer (ka_now a) sv)
      else if token = kServerWakeToken then (False, HandleWakeup (pe_wakes e) sv)
      else if token = kSignalToken
      then case pe_signal e of
             SignalRead \<Rightarrow> (False, CServer_Stop sv)
           | SignalNone \<Rightarrow> (False, sv)
           | SignalError \<Rightarrow> (True, sv)
      else if token AND kSocketTokenBit \<noteq> 0
      then media_server_event E (ka_now a) (pe_uds e) token flags sv
      else (False, client_event E a token flags sv))"

fun event_loop :: "io_env \<Rightarrow> poll_event list \<Rightarrow> io_server \<Rightarrow> bool \<times> io_server" where
  "event_loop E [] sv = (False, sv)"
| "event_loop E (e # es) sv =
     (if Stopping (sv_wakeup sv) then (False, sv)
      else let (thrown, sv1) = HandleEpollEvent E e sv in
        if thrown then (True, sv1) else event_loop E es sv1)"

definition PollTimeout :: "int \<Rightarrow> int \<Rightarrow> io_server \<Rightarrow> int" where
  "PollTimeout now max_wait_ms sv =
     (let timeout = (if sv_heartbeat_scanning sv then 0 else NextTimeoutMs now (sv_media sv))
      in if max_wait_ms \<ge> 0 \<and> (timeout < 0 \<or> timeout > max_wait_ms) then max_wait_ms else timeout)"

datatype poll_result = PollEvents "poll_event list" | PollIntr | PollFail

text \<open>One round: the business calls before it, the two ticks with their times and kernel
  answers, the result of epoll_wait, and the heartbeat check.\<close>

record io_round =
  ri_calls :: "biz_call list"
  ri_tick1 :: "int \<times> connect_result \<times> bool"
  ri_poll :: poll_result
  ri_now :: int
  ri_answers :: "u64 \<Rightarrow> kernel_answer"
  ri_tick2 :: "int \<times> connect_result \<times> bool"

definition end_round :: "io_env \<Rightarrow> io_round \<Rightarrow> io_server \<Rightarrow> bool \<times> io_server" where
  "end_round E r sv =
     (if Stopping (sv_wakeup sv) then (False, sv)
      else case ri_tick2 r of (now, res, ok) \<Rightarrow>
        tick_server E now res ok (CheckHeartbeats E (ri_now r) (ri_answers r) sv))"

definition RunOnce :: "io_env \<Rightarrow> io_round \<Rightarrow> io_server \<Rightarrow> bool \<times> io_server" where
  "RunOnce E r sv0 =
     (case ri_tick1 r of (now, res, ok) \<Rightarrow>
      let (thrown, sv) = tick_server E now res ok (biz_all (ri_calls r) sv0) in
      if thrown then (True, sv)
      else case ri_poll r of
        PollIntr \<Rightarrow> (False, sv)
      | PollFail \<Rightarrow> (True, sv)
      | PollEvents es \<Rightarrow>
          (let (thrown1, sv1) = event_loop E (take kMaxEvents es) sv in
           if thrown1 then (True, sv1) else end_round E r sv1))"

text \<open>Shutdown closes every connection; each closed one leaves the map.\<close>

lemma CloseClient_head:
  assumes "sv_sessions sv = x # xs"
  shows "length (sv_sessions (CloseClient (fst x) sv)) < length (sv_sessions sv)"
proof -
  have "find_session (fst x) sv = Some (snd x)" using assms by (cases x) (simp add: find_session_def)
  then show ?thesis using assms by (simp add: CloseClient_def le_imp_less_Suc)
qed

function close_all :: "io_server \<Rightarrow> io_server" where
  "close_all sv = (case sv_sessions sv of [] \<Rightarrow> sv | x # _ \<Rightarrow> close_all (CloseClient (fst x) sv))"
  by pat_completeness auto

termination close_all
  by (relation "measure (\<lambda>sv. length (sv_sessions sv))") (use CloseClient_head in fastforce)+

declare close_all.simps [simp del]

definition Shutdown :: "io_env \<Rightarrow> int \<Rightarrow> io_server \<Rightarrow> io_server" where
  "Shutdown E now sv =
     (let sv1 = CServer_Stop sv;
          sv2 = put_media (Media_Stop (ie_media E) now (media_state_of sv1)) sv1;
          sv3 = close_all sv2
      in sv3\<lparr>sv_fds := {}, sv_wakeup := Wakeup_Close (sv_wakeup sv3)\<rparr>)"

fun io_rounds :: "io_env \<Rightarrow> io_round list \<Rightarrow> io_server \<Rightarrow> bool \<times> io_server" where
  "io_rounds E [] sv = (False, sv)"
| "io_rounds E (r # rs) sv =
     (if Stopping (sv_wakeup sv) then (False, sv)
      else let (thrown, sv1) = RunOnce E r sv in if thrown then (True, sv1) else io_rounds E rs sv1)"

text \<open>Run: the result is whether it throws and the state it leaves, or None while the
  given rounds have not ended it.\<close>

definition CServer_Run :: "io_env \<Rightarrow> int \<Rightarrow> io_round list \<Rightarrow> io_server \<Rightarrow> (bool \<times> io_server) option" where
  "CServer_Run E now rs sv0 =
     (let (thrown, sv) = io_rounds E rs sv0 in
      if thrown \<or> Stopping (sv_wakeup sv) then Some (thrown, Shutdown E now sv) else None)"

section \<open>Start\<close>

text \<open>The system calls of Start in order, with the descriptor each opens: the wake-up,
  socket, setsockopt, bind, listen, epoll_create1, two registrations, timerfd_create,
  timerfd_settime, a registration, signalfd, a registration.\<close>

definition start_calls :: "server_fd option list" where
  "start_calls = [None, Some FdListen, None, None, None, Some FdEpoll, None, None,
     Some FdTimer, None, None, Some FdSignal, None]"

definition CServer_Start :: "nat \<Rightarrow> string \<Rightarrow> int \<Rightarrow> int \<Rightarrow> io_server \<Rightarrow> bool \<times> io_server" where
  "CServer_Start succeeded path epoll_fd now sv =
     (if FdEpoll \<in> sv_fds sv then (True, sv)
      else let sv1 = sv\<lparr>sv_wakeup := (if succeeded = 0 then sv_wakeup sv else IoWakeup_new),
                        sv_fds := sv_fds sv \<union> {fd. Some fd \<in> set (take succeeded start_calls)}\<rparr>
           in if succeeded < length start_calls then (True, sv1)
              else case Media_Start path epoll_fd now (sv_media sv1) of
                     None \<Rightarrow> (True, sv1)
                   | Some m \<Rightarrow> (False, sv1\<lparr>sv_media := m\<rparr>))"

end
