(* ===== verification/IoLoopCalls.thy ===== *)
theory IoLoopCalls
  imports IoLoop
begin

text \<open>
  What the calls made by the I/O loop of RealtimeServer do to the wake-up and to a
  connection: the wake-up only gains tokens, a connection keeps its token and its
  counters, what a call newly leaves to write is registered at the wake-up, and reading
  hands only frames of that connection to the business layer.
\<close>

section \<open>The wake-up only gains\<close>

definition wk_le :: "io_wakeup \<Rightarrow> io_wakeup \<Rightarrow> bool" where
  "wk_le w w' \<longleftrightarrow> (wakeup_ok w \<longrightarrow> wakeup_ok w') \<and> wk_pending w \<subseteq> wk_pending w'
     \<and> (wk_stopping w \<longrightarrow> wk_stopping w')"

lemma wk_le_refl [simp]: "wk_le w w"
  by (simp add: wk_le_def)

lemma wk_le_trans [trans]: "wk_le u v \<Longrightarrow> wk_le v w \<Longrightarrow> wk_le u w"
  by (auto simp: wk_le_def)

lemma Notify_le [simp]: "wk_le w (snd (Notify t w))"
  using Notify_ok [of w t] by (auto simp: wk_le_def Notify_def)

lemma Notify_le_eq: "Notify t w = (b, w') \<Longrightarrow> wk_le w w'"
  using Notify_le [of w t] by simp

lemma RequestStop_le [simp]: "wk_le w (RequestStop w)"
  using RequestStop_ok [of w] by (auto simp: wk_le_def RequestStop_def)

subsection \<open>Calls on a connection\<close>

definition conn_le :: "conn \<Rightarrow> conn \<Rightarrow> bool" where
  "conn_le c c' \<longleftrightarrow> s_token (fst c') = s_token (fst c) \<and> s_closed (fst c') = s_closed (fst c)
     \<and> (session_ok (fst c) \<longrightarrow> session_ok (fst c'))
     \<and> (case snd c of None \<Rightarrow> snd c' = None
        | Some w \<Rightarrow> (case snd c' of None \<Rightarrow> False
          | Some w' \<Rightarrow> wk_le w w' \<and> (HasPendingWrite (fst c') \<longrightarrow>
              HasPendingWrite (fst c) \<or> s_token (fst c) \<in> wk_pending w' \<or> wk_stopping w')))"

lemma conn_le_refl [simp]: "conn_le c c"
  by (simp add: conn_le_def split: option.split)

lemma conn_le_trans [trans]: "conn_le a b \<Longrightarrow> conn_le b c \<Longrightarrow> conn_le a c"
proof -
  assume ab: "conn_le a b" and bc: "conn_le b c"
  show "conn_le a c"
  proof (cases "snd a")
    case None
    then show ?thesis using ab bc by (simp add: conn_le_def)
  next
    case (Some w)
    then obtain v where v: "snd b = Some v" "wk_le w v"
      using ab by (auto simp: conn_le_def split: option.splits)
    then obtain u where u: "snd c = Some u" "wk_le v u"
      using bc by (auto simp: conn_le_def split: option.splits)
    have "wk_pending v \<subseteq> wk_pending u" "wk_stopping v \<longrightarrow> wk_stopping u" "wk_le w u"
      using u(2) wk_le_trans [OF v(2) u(2)] by (simp_all add: wk_le_def)
    then show ?thesis using ab bc Some v(1) u(1) by (simp add: conn_le_def) blast
  qed
qed

lemma notify_opt_split:
  obtains "w = None" "notify_opt t w = (True, None)"
  | k where "w = Some k" "notify_opt t w = (\<not> wk_stopping k, Some (snd (Notify t k)))"
proof (cases w)
  case (Some k)
  obtain b k' where n: "Notify t k = (b, k')" by fastforce
  then have "b = (\<not> wk_stopping k)" using Notify_result [of t k] by simp
  then show ?thesis using that(2) Some n by (simp add: notify_opt_def)
qed (use that(1) in \<open>simp add: notify_opt_def\<close>)

lemma Notify_arms: "t \<in> wk_pending (snd (Notify t k)) \<or> wk_stopping (snd (Notify t k))"
  by (simp add: Notify_def)

lemma conn_le_notify:
  assumes "s_token s' = s_token s" "s_closed s' = s_closed s" "session_ok s \<Longrightarrow> session_ok s'"
  shows "conn_le (s, w) (s', snd (notify_opt (s_token s) w))"
  by (rule notify_opt_split [of w "s_token s"])
    (use assms Notify_arms in \<open>auto simp: conn_le_def\<close>)

lemma RequestClose_le: "conn_le c (RequestClose c)"
  by (cases c) (auto simp: RequestClose_def close_requested_ok intro!: conn_le_notify)

lemma Send_le: "conn_le c (snd (Send rid p c))"
proof -
  obtain s w where c: "c = (s, w)" by fastforce
  obtain b s' w' where r: "Send rid p (s, w) = (b, s', w')" by (metis surj_pair)
  have ok: "session_ok s \<Longrightarrow> session_ok s'" using Send_ok r by blast
  have "(s', w') = (s, w) \<or> s_token s' = s_token s \<and> s_closed s' = s_closed s
      \<and> w' = snd (notify_opt (s_token s) w)"
    using r by (auto simp: Send_def enqueue_frame_def Let_def split: if_splits prod.splits)
  then show ?thesis using ok c r conn_le_notify [of s' s w] by auto
qed

lemma conn_le_apfst:
  assumes "s_token (f s) = s_token s" "s_closed (f s) = s_closed s"
    "s_close_requested (f s) = s_close_requested s" "s_pending (f s) = s_pending s"
    "s_send_queue (f s) = s_send_queue s" "s_pending_bytes (f s) = s_pending_bytes s"
    "s_pending_frames (f s) = s_pending_frames s" "s_send_offset (f s) = s_send_offset s"
  shows "conn_le (s, w) (f s, w)"
  using assms session_ok_cong [of s "f s"]
  by (auto simp: conn_le_def HasPendingWrite_def split: option.split)

lemma setter_le:
  "conn_le c (apfst (SetUserId u) c)" "conn_le c (apfst (SetAuthToken a) c)"
  "conn_le c (apfst (SetMeetingId m) c)" "conn_le c (apfst (SetMediaSignalId m) c)"
  "conn_le c (apfst (ClearMediaSignalId m) c)" "conn_le c (apfst (hb_refresh now) c)"
  "conn_le c (apfst (hb_sequence_set n) c)" "conn_le c (apfst (hb_count now) c)"
  "conn_le c (upd_recv f c)"
  by (cases c; simp add: upd_recv_def; rule conn_le_apfst;
      simp add: SetUserId_def SetAuthToken_def SetMeetingId_def SetMediaSignalId_def
        ClearMediaSignalId_def hb_refresh_def hb_sequence_set_def hb_count_def Let_def)+

lemma heartbeat_accept_le: "conn_le c (heartbeat_accept r now c)"
proof -
  obtain b c1 where m: "Send ID_HEARTBEAT_RESPONSE r (apfst (hb_refresh now) c) = (b, c1)" by (metis surj_pair)
  have "conn_le c c1"
    using conn_le_trans [OF setter_le(6) Send_le [of "apfst (hb_refresh now) c" ID_HEARTBEAT_RESPONSE r]]
    by (simp add: m)
  then show ?thesis
    using conn_le_trans [OF _ RequestClose_le] by (simp add: heartbeat_accept_def m)
qed

lemma heartbeat_body_le: "conn_le c (heartbeat_body v now c)"
  using conn_le_trans [OF setter_le(7) heartbeat_accept_le]
  by (auto simp: heartbeat_body_def Let_def RequestClose_le heartbeat_accept_le split: option.split)

lemma HandleHeartbeat_le: "conn_le c (HandleHeartbeat hbp now p c)"
  using conn_le_trans [OF setter_le(8) heartbeat_body_le]
    conn_le_trans [OF setter_le(8) RequestClose_le]
  by (auto simp: HandleHeartbeat_def Let_def RequestClose_le split: option.split)

lemma ParseFrames_le: "conn_le c (fst (ParseFrames hbp now post c b))"
proof (induction hbp now post c b rule: ParseFrames.induct)
  case (1 hbp now post c b)
  show ?case
  proof (cases "head_of (recv_of c)")
    case (Complete rid p)
    let ?c1 = "erase_recv (kFrameHeaderLength + length p) c"
    have c1: "conn_le c ?c1" by (simp add: erase_recv_def setter_le)
    show ?thesis
    proof (cases "rid = ID_HEARTBEAT_REQUEST")
      case True
      let ?c2 = "HandleHeartbeat hbp now p ?c1"
      have c2: "conn_le c ?c2" using conn_le_trans [OF c1 HandleHeartbeat_le] .
      show ?thesis
        using conn_le_trans [OF c2 1(1) [OF Complete refl True refl]] c2 Complete True
        by (subst ParseFrames.simps) (simp add: Let_def)
    next
      case False
      obtain ok b1 where post: "post (rid, p) b = (ok, b1)" by (metis surj_pair)
      let ?c2 = "if ok then ?c1 else RequestClose ?c1"
      have c2: "conn_le c ?c2" using c1 conn_le_trans [OF c1 RequestClose_le] by simp
      show ?thesis
        using conn_le_trans [OF c2 1(2) [OF Complete refl False post [symmetric] refl]] Complete False post
        by (subst ParseFrames.simps) (simp add: Let_def)
    qed
  qed (subst ParseFrames.simps; simp add: RequestClose_le)+
qed

text \<open>What a connection that is read hands to the business layer.\<close>

definition frames_from :: "u64 \<Rightarrow> io_post list \<Rightarrow> io_post list \<Rightarrow> bool" where
  "frames_from t posted posted' \<longleftrightarrow>
     (\<exists>fs. posted' = posted @ fs \<and> (\<forall>f \<in> set fs. \<exists>r p ok. f = PostFrame t r p ok))"

lemma frames_from_refl [simp]: "frames_from t l l"
  by (simp add: frames_from_def)

lemma frames_from_trans: "frames_from t a b \<Longrightarrow> frames_from t b c \<Longrightarrow> frames_from t a c"
  by (fastforce simp: frames_from_def)

lemma ParseFrames_posted:
  "post = post_frame E t \<Longrightarrow> frames_from t l (snd (ParseFrames hbp now post c l))"
proof (induction hbp now post c l rule: ParseFrames.induct)
  case (1 hbp now post c l)
  show ?case
  proof (cases "head_of (recv_of c)")
    case (Complete rid p)
    show ?thesis
    proof (cases "rid = ID_HEARTBEAT_REQUEST")
      case True
      then show ?thesis
        using 1(1) [OF Complete refl True refl _ 1(3)] Complete
        by (subst ParseFrames.simps) (simp add: Let_def)
    next
      case False
      obtain ok l1 where post: "post (rid, p) l = (ok, l1)" by (metis surj_pair)
      have "frames_from t l l1" using post 1(3) by (auto simp: post_frame_def frames_from_def Let_def)
      then show ?thesis
        using frames_from_trans [OF _ 1(2) [OF Complete refl False post [symmetric] refl 1(3)]]
          Complete False post
        by (subst ParseFrames.simps) (simp add: Let_def)
    qed
  qed (subst ParseFrames.simps; simp)+
qed

lemma read_loop_le:
  "conn_le c (fst (snd (read_loop hbp now post rs n c b)))
   \<and> (post = post_frame E t \<longrightarrow> frames_from t b (snd (snd (read_loop hbp now post rs n c b))))"
  for b :: "io_post list"
proof (induction rs arbitrary: n c b)
  case (Cons r rs)
  show ?case
  proof (cases "n \<ge> kIoBudget \<or> (\<forall>d. r \<noteq> Received d) \<or> r = Received []")
    case True
    then show ?thesis using Cons.IH [of c n b] by (auto split: recv_result.split)
  next
    case False
    then obtain d where r: "r = Received d" "d \<noteq> []" "\<not> n \<ge> kIoBudget" by auto
    obtain c1 b1 where pf: "ParseFrames hbp now post (append_recv d c) b = (c1, b1)" by (metis surj_pair)
    have "conn_le c (append_recv d c)" by (simp add: append_recv_def setter_le)
    from conn_le_trans [OF this ParseFrames_le [of "append_recv d c" hbp now post b]]
    have c1: "conn_le c c1" by (simp add: pf)
    have b1: "post = post_frame E t \<longrightarrow> frames_from t b b1"
      using ParseFrames_posted [of post E t b hbp now "append_recv d c"] pf by (metis snd_conv)
    show ?thesis
      using r c1 b1 pf Cons.IH [of c1 "n + length d" b1] conn_le_trans frames_from_trans by auto
  qed
qed simp

lemma HandleRead_le:
  "conn_le c (fst (snd (HandleRead hbp now post rs c b)))"
  "frames_from t b (snd (snd (HandleRead hbp now (post_frame E t) rs c b)))" for b :: "io_post list"
  using read_loop_le [of c hbp now _ rs 0 b E t] by (simp_all add: HandleRead_def)

lemma write_loop_flags:
  "s_token (snd (snd (write_loop rs n s out))) = s_token s
   \<and> s_closed (snd (snd (write_loop rs n s out))) = s_closed s"
proof (induction rs arbitrary: n s out)
  case (Cons r rs)
  then show ?case by (auto simp: write_loop.simps(2) Let_def split: send_result.split)
qed simp

lemma HandleWrite_flags:
  assumes "HandleWrite script s = (b, out, s')"
  shows "s_token s' = s_token s \<and> s_closed s' = s_closed s"
proof (cases "s_closed s \<or> s_close_requested s")
  case True
  then show ?thesis using assms by (auto simp: HandleWrite_def)
next
  case False
  let ?s = "if s_send_queue s = [] then s\<lparr>s_send_queue := s_pending s, s_pending := []\<rparr> else s"
  have "write_loop script 0 ?s [] = (b, out, s')" using assms False by (simp add: HandleWrite_def)
  then show ?thesis using write_loop_flags [of script 0 ?s "[]"] by (simp split: if_splits)
qed

subsection \<open>Calls on the control connection\<close>

lemma Invalidate_le: "wk_le (snd st) (snd (Invalidate e st))"
  by (cases st) (simp add: Invalidate_def)

lemma Media_Send_le: "wk_le (snd st) (snd (snd (Media_Send e msg st)))"
  by (cases st) (auto simp: Media_Send_def Let_def dest: Notify_le_eq split: prod.split)

lemma fire_le: "wk_le (snd st) (snd (fire admit ev e st))"
  using Invalidate_le [of "apfst (\<lambda>m. m\<lparr>mc_log := mc_log m @ [(ev, e)]\<rparr>) st" e]
  by (simp add: fire_def Let_def)

lemma Disconnect_le: "wk_le (snd st) (snd (Disconnect admit now st))"
  using fire_le [of "(media_reset now (fst st), snd st)" admit EvDisconnected "mc_active_epoch (fst st)"]
  by (cases st) (simp add: Disconnect_def Let_def)

lemma Media_Connected_le: "wk_le (snd st) (snd (Media_Connected admit st))"
  by (cases st) (auto simp: Media_Connected_def Let_def intro: wk_le_trans [OF _ fire_le])

lemma apfst_le [simp]: "wk_le w (snd (apfst f st)) = wk_le w (snd st)"
  by simp

lemma tick_drop_le: "wk_le (snd st) (snd (tick_drop admit now st))"
  by (simp add: tick_drop_def Disconnect_le)

lemma Connect_le: "Connect admit now res ok st = Some st' \<Longrightarrow> wk_le (snd st) (snd st')"
  using Disconnect_le [of st admit now] Disconnect_le [of "apfst f st" admit now for f]
    Media_Connected_le [of "apfst f st" admit for f]
  by (auto simp: Connect_def Let_def split: if_splits intro: wk_le_trans [OF _ Disconnect_le]
      wk_le_trans [OF _ Media_Connected_le])

lemma UpdateInterest_le: "UpdateInterest ok st = Some st' \<Longrightarrow> snd st' = snd st"
  by (cases st) (auto simp: UpdateInterest_def Let_def split: if_splits)

lemma Tick_le:
  assumes "Tick admit now res ok st = Some st'" shows "wk_le (snd st) (snd st')"
proof (cases "mc_started (fst st)")
  case True
  let ?st1 = "tick_drop admit now st"
  obtain st2 where c: "(if \<not> mc_fd_open (fst ?st1) \<and> now \<ge> mc_deadline (fst ?st1)
      then Connect admit now res ok ?st1 else Some ?st1) = Some st2" and u: "UpdateInterest ok st2 = Some st'"
    using assms True unfolding Tick_def Let_def by (simp split: option.splits del: not_le)
  have "wk_le (snd ?st1) (snd st2)" using c Connect_le [of admit now res ok ?st1 st2] by (auto split: if_splits)
  then show ?thesis using wk_le_trans [OF tick_drop_le] UpdateInterest_le [OF u] by metis
qed (use assms in \<open>simp add: Tick_def\<close>)

lemma Tick_left_le: "wk_le (snd st) (snd (Tick_left admit now res st))"
  by (simp add: Tick_left_def Let_def tick_drop_le)

lemma deliver_le: "wk_le (snd st) (snd (snd (deliver admit st)))"
proof (induction admit st rule: deliver.induct)
  case (1 admit st)
  show ?case
  proof (cases "uds_head_of (mc_received (fst st))")
    case (UdsComplete msg)
    then show ?thesis
      using wk_le_trans [OF fire_le [of st admit "EvMessage msg" "mc_active_epoch (fst st)"]] 1 [OF UdsComplete]
      by (subst deliver.simps) simp
  qed (subst deliver.simps; simp)+
qed

lemma handle_in_le: "wk_le (snd st) (snd (snd (handle_in admit r st)))"
  using deliver_le [of st admit] deliver_le [of "apfst f st" admit for f]
  by (auto simp: handle_in_def intro: wk_le_trans [OF _ deliver_le] split: uds_recv.split)

lemma HandleEvents_le:
  assumes "HandleEvents admit now k token events st = Some (out, st')" shows "wk_le (snd st) (snd st')"
proof -
  define st1 where "st1 = (if mc_connecting (fst st) then Media_Connected admit st else st)"
  define i where "i = (if events AND EPOLLIN \<noteq> 0 then handle_in admit (k_recv k) st1 else (True, st1))"
  have st1: "wk_le (snd st) (snd st1)" by (simp add: st1_def Media_Connected_le)
  have st2: "wk_le (snd st) (snd (snd i))"
    using wk_le_trans [OF st1 handle_in_le] st1 by (simp add: i_def)
  note eq = assms [unfolded HandleEvents_def Let_def st1_def [symmetric], folded i_def]
  have "snd st' = snd st \<or> snd st' = snd (Disconnect admit now st) \<or> snd st' = snd (Disconnect admit now st1)
     \<or> snd st' = snd (Disconnect admit now (snd i)) \<or> (\<exists>m. snd st' = snd (Disconnect admit now (m, snd (snd i))))
     \<or> snd st' = snd (snd i)"
    using eq by (auto split: if_splits prod.splits dest!: UpdateInterest_le)
  moreover have "wk_le (snd st) (snd (Disconnect admit now (m, snd (snd i))))" for m
    using wk_le_trans [OF st2, of "snd (Disconnect admit now (m, snd (snd i)))"]
      Disconnect_le [of "(m, snd (snd i))" admit now] by simp
  ultimately show ?thesis
    using wk_le_refl wk_le_trans [OF st1 Disconnect_le] wk_le_trans [OF st2 Disconnect_le] st2
      Disconnect_le [of st admit now] by metis
qed

lemma HandleEvents_left_le: "wk_le (snd st) (snd (HandleEvents_left admit now k token events st))"
  by (auto simp: HandleEvents_left_def split: option.split dest: HandleEvents_le)

lemma Media_Stop_le: "wk_le (snd st) (snd (Media_Stop admit now st))"
  using Disconnect_le [of "apfst (\<lambda>m. m\<lparr>mc_started := False, mc_connected := False\<rparr>) st" admit now]
  by (simp add: Media_Stop_def)

end
