(* ===== verification/IoLoopInv.thy ===== *)
theory IoLoopInv
  imports IoLoopCalls
begin

text \<open>
  The invariants of the I/O loop of RealtimeServer.  loop_inv: every connection with
  something to write is registered for EPOLLOUT or at the wake-up (or is being handled).
  log_inv: tokens are drawn in order and never reused, and the business layer is told of
  every closed connection exactly once, after all its frames.
\<close>

section \<open>The connection map\<close>

abbreviation keys :: "io_server \<Rightarrow> u64 list" where
  "keys sv \<equiv> map fst (sv_sessions sv)"

lemma find_put [simp]:
  "map_of (put_session t s xs) t' = (if t' = t \<and> map_of xs t \<noteq> None then Some s else map_of xs t')"
  by (induction xs) (auto simp: put_session_def)

lemma keys_put [simp]: "map fst (put_session t s xs) = map fst xs"
  by (induction xs) (auto simp: put_session_def)

lemma find_filter [simp]:
  "map_of (filter (\<lambda>x. fst x \<noteq> t) xs) t' = (if t' = t then None else map_of xs t')"
  by (induction xs) auto

lemma find_emplace [simp]:
  "map_of (emplace t s xs) t' = (if t' = t \<and> map_of xs t = None then Some s else map_of xs t')"
proof -
  have "map_of (takeWhile (\<lambda>x. fst x < t) xs @ (t, s) # dropWhile (\<lambda>x. fst x < t) xs) t'
      = (if t' = t then Some s else map_of xs t')" if n: "map_of xs t = None"
  proof (cases "t' = t")
    case True
    have "t \<notin> fst ` set (takeWhile (\<lambda>x. fst x < t) xs)" by (auto dest: set_takeWhileD)
    then have "map_of (takeWhile (\<lambda>x. fst x < t) xs) t = None" by (simp add: map_of_eq_None_iff)
    then show ?thesis using True by (simp add: map_add_def)
  next
    case False
    then have "map_of (takeWhile (\<lambda>x. fst x < t) xs @ (t, s) # dropWhile (\<lambda>x. fst x < t) xs) t'
        = map_of (takeWhile (\<lambda>x. fst x < t) xs @ dropWhile (\<lambda>x. fst x < t) xs) t'"
      using False by (simp add: map_add_def del: takeWhile_dropWhile_id split: option.split)
    then show ?thesis using False by simp
  qed
  then show ?thesis by (auto simp: emplace_def)
qed

lemma find_session_simps [simp]:
  "find_session t (put_conn t' c sv)
     = (if t = t' \<and> find_session t sv \<noteq> None then Some (fst c) else find_session t sv)"
  "find_session t (sv\<lparr>sv_wakeup := w\<rparr>) = find_session t sv"
  "find_session t (sv\<lparr>sv_epollout := es\<rparr>) = find_session t sv"
  "find_session t (sv\<lparr>sv_posted := ps\<rparr>) = find_session t sv"
  "find_session t (sv\<lparr>sv_fds := fs\<rparr>) = find_session t sv"
  "find_session t (sv\<lparr>sv_heartbeat_after := a\<rparr>) = find_session t sv"
  "find_session t (sv\<lparr>sv_heartbeat_scanning := b\<rparr>) = find_session t sv"
  "find_session t (put_media m sv) = find_session t sv"
  "find_session t (CServer_Stop sv) = find_session t sv"
  by (auto simp: find_session_def put_conn_def put_media_def CServer_Stop_def)

lemma find_close [simp]:
  "find_session t (CloseClient t' sv) = (if t = t' then None else find_session t sv)"
  by (auto simp: CloseClient_def find_session_def split: option.split)

lemma find_None_keys: "find_session t sv = None \<longleftrightarrow> t \<notin> set (keys sv)"
  by (simp add: find_session_def map_of_eq_None_iff)

section \<open>Nothing to write is forgotten\<close>

definition armed :: "u64 set \<Rightarrow> io_server \<Rightarrow> u64 \<Rightarrow> bool" where
  "armed X sv t \<longleftrightarrow> t \<in> X \<or> t \<in> sv_epollout sv \<or> t \<in> wk_pending (sv_wakeup sv)
     \<or> wk_stopping (sv_wakeup sv)"

definition session_at :: "u64 set \<Rightarrow> io_server \<Rightarrow> u64 \<Rightarrow> session \<Rightarrow> bool" where
  "session_at X sv t s \<longleftrightarrow> s_token s = t \<and> session_ok s \<and> \<not> s_closed s
     \<and> (HasPendingWrite s \<longrightarrow> armed X sv t)"

definition loop_inv :: "u64 set \<Rightarrow> io_server \<Rightarrow> bool" where
  "loop_inv X sv \<longleftrightarrow> wakeup_ok (sv_wakeup sv) \<and> sorted_wrt (<) (keys sv)
     \<and> (\<forall>t s. find_session t sv = Some s \<longrightarrow> session_at X sv t s)
     \<and> (\<forall>t \<in> sv_epollout sv. find_session t sv \<noteq> None)"

lemma loop_inv_mono: "loop_inv X sv \<Longrightarrow> X \<subseteq> Y \<Longrightarrow> loop_inv Y sv"
  by (auto simp: loop_inv_def session_at_def armed_def)

lemma loop_inv_stopping: "loop_inv X sv \<Longrightarrow> wk_stopping (sv_wakeup sv) \<Longrightarrow> loop_inv Y sv"
  by (auto simp: loop_inv_def session_at_def armed_def)

lemma loop_inv_absent:
  assumes "loop_inv (insert t X) sv" "find_session t sv = None" shows "loop_inv X sv"
proof -
  have "session_at X sv t' s" if "session_at (insert t X) sv t' s" "t' \<noteq> t" for t' s
    using that by (auto simp: session_at_def armed_def)
  then show ?thesis using assms by (simp add: loop_inv_def) (metis option.distinct(1))
qed

text \<open>A change of the wake-up only, and of fields the invariant does not read.\<close>

lemma loop_inv_wakeup:
  assumes "loop_inv X sv" "sv_sessions sv' = sv_sessions sv" "sv_epollout sv' = sv_epollout sv"
    "wk_le (sv_wakeup sv) (sv_wakeup sv')"
  shows "loop_inv X sv'"
  using assms
  by (auto simp: loop_inv_def session_at_def armed_def find_session_def wk_le_def)

lemma put_conn_inv:
  assumes inv: "loop_inv X sv" and s: "find_session t sv = Some s"
    and le: "conn_le (session_conn s sv) c"
  shows "loop_inv X (put_conn t c sv)"
proof -
  have at: "session_at X sv t s" using inv s by (simp add: loop_inv_def)
  obtain w where w: "snd c = Some w" "wk_le (sv_wakeup sv) w"
    and p: "HasPendingWrite (fst c) \<longrightarrow> HasPendingWrite s \<or> t \<in> wk_pending w \<or> wk_stopping w"
    using le at by (auto simp: conn_le_def session_conn_def session_at_def split: option.splits)
  let ?sv = "put_conn t c sv"
  have sv': "sv_wakeup ?sv = w" "sv_epollout ?sv = sv_epollout sv" "keys ?sv = keys sv"
    using w(1) by (simp_all add: put_conn_def)
  have keep: "armed X ?sv t'" if "armed X sv t'" for t'
    using that w(2) by (auto simp: armed_def sv' wk_le_def)
  have "session_at X ?sv t (fst c)"
    using le at keep [of t] p by (auto simp: session_at_def conn_le_def session_conn_def armed_def sv')
  moreover have "session_at X ?sv t' s'" if "session_at X sv t' s'" for t' s'
    using that keep by (simp add: session_at_def)
  ultimately show ?thesis using inv w(2) s by (auto simp: loop_inv_def sv' wk_le_def)
qed

lemma on_session_inv:
  assumes "loop_inv X sv" "\<And>c. conn_le c (f c)" shows "loop_inv X (on_session t f sv)"
  using assms put_conn_inv by (auto simp: on_session_def split: option.split)

lemma put_media_inv:
  "loop_inv X sv \<Longrightarrow> wk_le (sv_wakeup sv) (snd st) \<Longrightarrow> loop_inv X (put_media st sv)"
  by (erule loop_inv_wakeup) (simp_all add: put_media_def)

lemma CServer_Stop_inv: "loop_inv X sv \<Longrightarrow> loop_inv X (CServer_Stop sv)"
  by (erule loop_inv_wakeup) (simp_all add: CServer_Stop_def)

lemma biz_step_inv:
  assumes "loop_inv X sv" shows "loop_inv X (biz_step b sv)"
proof (cases b)
  case (BizRequestClose t)
  have "loop_inv X (sv\<lparr>sv_wakeup := snd (Notify t (sv_wakeup sv))\<rparr>)"
    by (rule loop_inv_wakeup [OF assms]) simp_all
  then show ?thesis using BizRequestClose on_session_inv [OF assms RequestClose_le] by simp
next
  case (BizMediaSend e msg)
  then show ?thesis
    using put_media_inv [OF assms] Media_Send_le [of "media_state_of sv"] by (simp add: media_state_of_def)
next
  case (BizInvalidate e)
  then show ?thesis
    using put_media_inv [OF assms] Invalidate_le [of "media_state_of sv"] by (simp add: media_state_of_def)
qed (use on_session_inv [OF assms] Send_le setter_le CServer_Stop_inv [OF assms] in auto)

lemma biz_all_inv: "loop_inv X sv \<Longrightarrow> loop_inv X (biz_all cs sv)"
  unfolding biz_all_def by (induction cs arbitrary: sv) (simp_all add: biz_step_inv)

lemma CloseClient_inv:
  assumes "loop_inv (insert t X) sv" shows "loop_inv X (CloseClient t sv)"
proof (cases "find_session t sv")
  case None
  then show ?thesis using loop_inv_absent [OF assms] by (simp add: CloseClient_def)
next
  case (Some s)
  let ?sv = "CloseClient t sv"
  have sv': "sv_epollout ?sv = sv_epollout sv - {t}" "sv_wakeup ?sv = sv_wakeup sv"
    "sv_sessions ?sv = filter (\<lambda>x. fst x \<noteq> t) (sv_sessions sv)"
    using Some by (simp_all add: CloseClient_def)
  have "sorted_wrt (<) (keys ?sv)"
    using assms by (simp add: sv' loop_inv_def sorted_wrt_map sorted_wrt_filter)
  moreover have "session_at X ?sv t' s'" if "session_at (insert t X) sv t' s'" "t' \<noteq> t" for t' s'
    using that by (auto simp: session_at_def armed_def sv')
  ultimately show ?thesis using assms by (auto simp: loop_inv_def sv')
qed

lemma UpdateClient_inv:
  assumes "loop_inv (insert t X) sv" shows "loop_inv X (UpdateClient t ok sv)"
proof (cases "find_session t sv")
  case None
  then show ?thesis using loop_inv_absent [OF assms] by (simp add: UpdateClient_def)
next
  case (Some s)
  show ?thesis
  proof (cases ok)
    case True
    let ?sv = "UpdateClient t ok sv"
    have sv': "?sv = sv\<lparr>sv_epollout := (if HasPendingWrite s then insert t (sv_epollout sv)
                                 else sv_epollout sv - {t})\<rparr>"
      using Some True by (simp add: UpdateClient_def)
    have "session_at X ?sv t' s'" if "session_at (insert t X) sv t' s'" "find_session t' sv = Some s'" for t' s'
      using that Some by (auto simp: session_at_def armed_def sv')
    then show ?thesis using assms Some by (auto simp: loop_inv_def sv')
  qed (use Some CloseClient_inv [OF assms] in \<open>simp add: UpdateClient_def\<close>)
qed

lemma write_client_inv:
  assumes "loop_inv X sv" shows "loop_inv (insert t X) (snd (write_client t a sv))"
proof (cases "find_session t sv")
  case None
  then show ?thesis using loop_inv_mono [OF assms] by (auto simp: write_client_def)
next
  case (Some s)
  obtain alive out s' where w: "HandleWrite (ka_send a) s = (alive, out, s')" by (metis surj_pair)
  have at: "session_at X sv t s" using assms Some by (simp add: loop_inv_def)
  have s': "s_token s' = t" "session_ok s'" "\<not> s_closed s'"
    using HandleWrite_flags [OF w] HandleWrite_ok [OF _ w] at by (auto simp: session_at_def)
  define sv1 where "sv1 = put_conn t (session_conn s' sv) sv"
  have sv': "sv_wakeup sv1 = sv_wakeup sv" "sv_epollout sv1 = sv_epollout sv" "keys sv1 = keys sv"
    "find_session t' sv1 = (if t' = t then Some s' else find_session t' sv)" for t'
    using Some by (simp_all add: sv1_def put_conn_def session_conn_def find_session_def)
  have "session_at (insert t X) sv1 t s'" using s' by (simp add: session_at_def armed_def)
  moreover have "session_at (insert t X) sv1 t' x" if "session_at X sv t' x" for t' x
    using that by (auto simp: session_at_def armed_def sv')
  ultimately have "loop_inv (insert t X) sv1"
    using assms Some by (auto simp: loop_inv_def sv')
  then show ?thesis using Some w by (simp add: write_client_def sv1_def)
qed

lemma read_client_inv:
  assumes "loop_inv X sv" shows "loop_inv X (snd (read_client E t a sv))"
proof (cases "find_session t sv")
  case (Some s)
  obtain alive c posted where r: "HandleRead (ie_parse E) (ka_now a) (post_frame E t) (ka_recv a)
      (session_conn s sv) (sv_posted sv) = (alive, c, posted)" by (metis surj_pair)
  have "conn_le (session_conn s sv) c"
    using HandleRead_le(1) [of "session_conn s sv" "ie_parse E" "ka_now a" "post_frame E t" "ka_recv a"
        "sv_posted sv"] r by simp
  then have "loop_inv X (put_conn t c sv)" by (rule put_conn_inv [OF assms Some])
  then have "loop_inv X ((put_conn t c sv)\<lparr>sv_posted := posted\<rparr>)" by (rule loop_inv_wakeup) simp_all
  then show ?thesis using Some r by (simp add: read_client_def)
qed (use assms in \<open>simp add: read_client_def\<close>)

lemma emplace_sorted:
  assumes "sorted_wrt (<) (map fst xs)" shows "sorted_wrt (<) (map fst (emplace t s xs))"
proof (cases "map_of xs t = None")
  case True
  let ?a = "takeWhile (\<lambda>x. fst x < t) xs" and ?b = "dropWhile (\<lambda>x. fst x < t) xs"
  have "sorted_wrt (<) (map fst (?a @ ?b))" using assms by (simp only: takeWhile_dropWhile_id)
  then have s: "sorted_wrt (<) (map fst ?a)" "sorted_wrt (<) (map fst ?b)"
    "\<forall>x \<in> set ?a. \<forall>y \<in> set ?b. fst x < fst y"
    by (auto simp: sorted_wrt_append simp del: takeWhile_dropWhile_id)
  have a: "\<forall>x \<in> set ?a. fst x < t" by (auto dest: set_takeWhileD)
  have b: "t < fst y" if y: "y \<in> set ?b" for y
  proof (cases ?b)
    case (Cons z zs)
    have "z \<in> set xs" using Cons by (metis list.set_intros(1) set_dropWhileD)
    then have "fst z \<noteq> t" using True by (auto simp: map_of_eq_None_iff)
    moreover have "\<not> fst z < t" using Cons by (auto simp: dropWhile_eq_Cons_conv)
    ultimately have "t < fst z" by simp
    then show ?thesis using y s(2) Cons by auto
  next
    case Nil
    with y show ?thesis by (metis empty_iff list.set(1))
  qed
  show ?thesis using True s a b by (auto simp: emplace_def sorted_wrt_append)
qed (use assms in \<open>auto simp: emplace_def\<close>)

lemma register_client_inv:
  assumes "loop_inv X sv" shows "loop_inv X (register_client now ok sv)"
proof -
  define sv1 where "sv1 = sv\<lparr>sv_next_token := sv_next_token sv + 1, sv_attempts := sv_attempts sv + 1\<rparr>"
  define sv2 where "sv2 = register_client now ok sv"
  let ?t = "sv_next_token sv"
  have sv1: "loop_inv X sv1" by (rule loop_inv_wakeup [OF assms]) (simp_all add: sv1_def)
  have f: "find_session t sv2 = (if t = ?t \<and> ok \<and> find_session ?t sv1 = None then Some (Session_new ?t now)
      else find_session t sv1)" for t
    by (simp add: sv2_def sv1_def register_client_def find_session_def Let_def)
  have e: "sv_epollout sv2 = sv_epollout sv1" "sv_wakeup sv2 = sv_wakeup sv1"
    by (simp_all add: sv2_def sv1_def register_client_def Let_def)
  have "sorted_wrt (<) (keys sv2)"
    using assms emplace_sorted by (simp add: sv2_def register_client_def Let_def loop_inv_def)
  moreover have "session_at X sv2 ?t (Session_new ?t now)"
    by (simp add: session_at_def Session_new_ok) (simp add: Session_new_def HasPendingWrite_def)
  moreover have "session_at X sv2 t s" if "session_at X sv1 t s" for t s
    using that by (auto simp: session_at_def armed_def e)
  ultimately have "loop_inv X sv2" using sv1 by (auto simp: loop_inv_def e f)
  then show ?thesis by (simp add: sv2_def)
qed

lemma ConnectionExpired_le: "conn_le (s, w) (snd (ConnectionExpired now r s), w)"
proof -
  obtain b s' where e: "ConnectionExpired now r s = (b, s')" by fastforce
  then have "s' = s \<or> (\<exists>u. s' = s\<lparr>s_recheck_used := True, s_recheck_until := u\<rparr>)"
    by (auto simp: ConnectionExpired_def Let_def split: if_splits)
  moreover have "conn_le (s, w) (s\<lparr>s_recheck_used := True, s_recheck_until := u\<rparr>, w)" for u
    by (rule conn_le_apfst) simp_all
  ultimately show ?thesis using e by auto
qed

section \<open>Every connection is announced once\<close>

text \<open>The tokens of the posted disconnects, and the order of the posts of a token.\<close>

fun gone :: "io_post list \<Rightarrow> u64 list" where
  "gone [] = []"
| "gone (PostDisconnected t s # l) = t # gone l"
| "gone (_ # l) = gone l"

fun in_order :: "u64 set \<Rightarrow> io_post list \<Rightarrow> bool" where
  "in_order d [] \<longleftrightarrow> True"
| "in_order d (PostFrame t r p ok # l) \<longleftrightarrow> t \<notin> d \<and> in_order d l"
| "in_order d (PostDisconnected t s # l) \<longleftrightarrow> t \<notin> d \<and> s_token s = t \<and> in_order (insert t d) l"
| "in_order d (PostReconnectCheck # l) \<longleftrightarrow> in_order d l"

lemma gone_append [simp]: "gone (a @ b) = gone a @ gone b"
  by (induction a rule: gone.induct) simp_all

lemma in_order_append [simp]:
  "in_order d (a @ b) \<longleftrightarrow> in_order d a \<and> in_order (set (gone a) \<union> d) b"
  by (induction d a rule: in_order.induct) auto

lemma frames_gone [simp]: "\<forall>f \<in> set fs. \<exists>r p ok. f = PostFrame t r p ok \<Longrightarrow> gone fs = []"
  by (induction fs) auto

lemma frames_in_order:
  "\<forall>f \<in> set fs. \<exists>r p ok. f = PostFrame t r p ok \<Longrightarrow> t \<notin> d \<Longrightarrow> in_order d fs"
  by (induction fs) auto

definition log_core :: "io_server \<Rightarrow> bool" where
  "log_core sv \<longleftrightarrow> unat (sv_next_token sv) = 5 + sv_attempts sv
     \<and> sorted_wrt (<) (sv_accepted sv) \<and> (\<forall>t \<in> set (sv_accepted sv). 5 \<le> t \<and> t < sv_next_token sv)
     \<and> in_order {} (sv_posted sv)
     \<and> set (gone (sv_posted sv)) \<inter> set (keys sv) = {}
     \<and> set (gone (sv_posted sv)) \<union> set (keys sv) = set (sv_accepted sv)"

definition log_inv :: "io_server \<Rightarrow> bool" where
  "log_inv sv \<longleftrightarrow> (sv_attempts sv < 2 ^ 63 - 5 \<longrightarrow> log_core sv)"

lemma log_inv_same:
  "log_inv sv \<Longrightarrow> keys sv' = keys sv \<Longrightarrow> sv_posted sv' = sv_posted sv \<Longrightarrow> sv_accepted sv' = sv_accepted sv \<Longrightarrow>
   sv_next_token sv' = sv_next_token sv \<Longrightarrow> sv_attempts sv' = sv_attempts sv \<Longrightarrow> log_inv sv'"
  by (simp add: log_inv_def log_core_def)

lemma CloseClient_log:
  assumes "log_inv sv" "\<And>s. find_session t sv = Some s \<Longrightarrow> s_token s = t" shows "log_inv (CloseClient t sv)"
proof (cases "find_session t sv")
  case (Some s)
  have t: "t \<in> set (keys sv)" using Some find_None_keys by (metis option.distinct(1))
  let ?sv = "CloseClient t sv"
  have sv': "set (keys ?sv) = set (keys sv) - {t}" "sv_posted ?sv = sv_posted sv @ [PostDisconnected t (Session_Close s)]"
    "sv_accepted ?sv = sv_accepted sv" "sv_next_token ?sv = sv_next_token sv" "sv_attempts ?sv = sv_attempts sv"
    using Some by (auto simp: CloseClient_def)
  have "s_token (Session_Close s) = t" using assms(2) Some by (simp add: Session_Close_def)
  then have "log_core ?sv" if "log_core sv"
    using that t unfolding log_core_def sv' by auto
  then show ?thesis using assms(1) by (simp add: log_inv_def sv')
qed (use assms in \<open>simp add: CloseClient_def\<close>)

lemma register_client_log:
  assumes "log_inv sv" shows "log_inv (register_client now ok sv)"
proof (cases "sv_attempts sv + 1 < 2 ^ 63 - 5")
  case True
  then have c: "log_core sv" using assms by (simp add: log_inv_def)
  let ?t = "sv_next_token sv"
  have u: "unat ?t = 5 + sv_attempts sv" using c by (simp add: log_core_def)
  have n: "unat (?t + 1) = Suc (unat ?t)" using True u by (subst unat_word_ariths) simp
  have lt: "t < ?t + 1" if "t < ?t" for t using that n by (simp add: word_less_nat_alt)
  have ge: "5 \<le> ?t" "?t < ?t + 1" using u n by (simp_all add: word_le_nat_alt word_less_nat_alt)
  have new: "?t \<notin> set (sv_accepted sv)" using c by (auto simp: log_core_def)
  then have k: "map_of (sv_sessions sv) ?t = None" "?t \<notin> set (gone (sv_posted sv))"
    using c by (auto simp: log_core_def map_of_eq_None_iff)
  have "set (map fst (emplace ?t s (sv_sessions sv))) = insert ?t (set (keys sv))" for s
  proof -
    have "set (map fst (emplace ?t s (sv_sessions sv)))
        = fst ` (set (takeWhile (\<lambda>x. fst x < ?t) (sv_sessions sv) @ dropWhile (\<lambda>x. fst x < ?t) (sv_sessions sv)))
          \<union> {?t}"
      using k by (auto simp: emplace_def simp del: takeWhile_dropWhile_id)
    then show ?thesis by simp
  qed
  then have "log_core (register_client now ok sv)"
    using c new k ge lt n
    by (auto simp: log_core_def register_client_def Let_def sorted_wrt_append)
  then show ?thesis by (simp add: log_inv_def)
qed (simp add: log_inv_def register_client_def Let_def)

lemma HandleTimer_log: "log_inv sv \<Longrightarrow> log_inv (HandleTimer now sv)"
  by (simp add: HandleTimer_def log_inv_def log_core_def Let_def)

lemma frames_log:
  assumes "log_inv sv" "find_session t sv \<noteq> None" "frames_from t (sv_posted sv) posted"
  shows "log_inv (sv\<lparr>sv_posted := posted\<rparr>)"
proof -
  obtain fs where p: "posted = sv_posted sv @ fs" "\<forall>f \<in> set fs. \<exists>r p ok. f = PostFrame t r p ok"
    using assms(3) by (auto simp: frames_from_def)
  have "t \<in> set (keys sv)" using assms(2) find_None_keys [of t sv] by simp
  then have "t \<notin> set (gone (sv_posted sv))" if "log_core sv" using that by (auto simp: log_core_def)
  then have "log_core (sv\<lparr>sv_posted := posted\<rparr>)" if "log_core sv"
    using that p frames_in_order [OF p(2)] by (simp add: log_core_def)
  then show ?thesis using assms(1) by (simp add: log_inv_def)
qed

section \<open>Every step keeps both invariants\<close>

definition io_inv :: "u64 set \<Rightarrow> io_server \<Rightarrow> bool" where
  "io_inv X sv \<longleftrightarrow> loop_inv X sv \<and> log_inv sv"

definition same_log :: "io_server \<Rightarrow> io_server \<Rightarrow> bool" where
  "same_log sv sv' \<longleftrightarrow> keys sv' = keys sv \<and> sv_posted sv' = sv_posted sv
     \<and> sv_accepted sv' = sv_accepted sv \<and> sv_next_token sv' = sv_next_token sv
     \<and> sv_attempts sv' = sv_attempts sv"

lemma same_log_inv: "io_inv X sv \<Longrightarrow> same_log sv sv' \<Longrightarrow> loop_inv Y sv' \<Longrightarrow> io_inv Y sv'"
  using log_inv_same by (auto simp: io_inv_def same_log_def)

lemma same_log_io:
  "io_inv X sv \<Longrightarrow> same_log sv sv' \<Longrightarrow> (loop_inv X sv \<Longrightarrow> loop_inv Y sv') \<Longrightarrow> io_inv Y sv'"
  using same_log_inv by (simp add: io_inv_def)

lemma put_conn_fields [simp]:
  "sv_posted (put_conn t c sv) = sv_posted sv" "keys (put_conn t c sv) = keys sv"
  "sv_epollout (put_conn t c sv) = sv_epollout sv"
  by (simp_all add: put_conn_def)

lemma same_log_simps [simp]:
  "same_log sv sv" "same_log sv (put_conn t c sv)" "same_log sv (put_media m sv)"
  "same_log sv (CServer_Stop sv)" "same_log sv (sv\<lparr>sv_wakeup := w\<rparr>)"
  "same_log sv (sv\<lparr>sv_heartbeat_after := a\<rparr>)" "same_log sv (sv\<lparr>sv_heartbeat_scanning := b\<rparr>)"
  by (simp_all add: same_log_def put_conn_def put_media_def CServer_Stop_def)

lemma same_log_trans: "same_log a b \<Longrightarrow> same_log b c \<Longrightarrow> same_log a c"
  by (simp add: same_log_def)

lemma on_session_same [simp]: "same_log sv (on_session t f sv)"
  by (simp add: on_session_def split: option.split)

lemma biz_all_same: "same_log sv (biz_all cs sv)"
proof (induction cs arbitrary: sv)
  case (Cons b cs)
  have "same_log sv (biz_step b sv)" by (cases b) simp_all
  from same_log_trans [OF this Cons.IH] show ?case by (simp add: biz_all_def)
qed (simp add: biz_all_def)

lemma write_client_same: "same_log sv (snd (write_client t a sv))"
  by (simp add: write_client_def split_beta split: option.split)

lemma biz_all_io: "io_inv X sv \<Longrightarrow> io_inv X (biz_all cs sv)"
  by (erule same_log_io [OF _ biz_all_same]) (rule biz_all_inv)

lemma write_client_io: "io_inv X sv \<Longrightarrow> io_inv (insert t X) (snd (write_client t a sv))"
  by (erule same_log_io [OF _ write_client_same]) (rule write_client_inv)

lemma CServer_Stop_io: "io_inv X sv \<Longrightarrow> io_inv X (CServer_Stop sv)"
  by (erule same_log_io) (simp_all add: CServer_Stop_inv)

lemma put_media_io: "io_inv X sv \<Longrightarrow> wk_le (sv_wakeup sv) (snd st) \<Longrightarrow> io_inv X (put_media st sv)"
  by (erule same_log_io) (simp_all add: put_media_inv)

lemma io_inv_token: "io_inv X sv \<Longrightarrow> find_session t sv = Some s \<Longrightarrow> s_token s = t"
  by (auto simp: io_inv_def loop_inv_def session_at_def)

lemma CloseClient_io: "io_inv (insert t X) sv \<Longrightarrow> io_inv X (CloseClient t sv)"
  using CloseClient_inv CloseClient_log io_inv_token by (auto simp: io_inv_def)

lemma UpdateClient_io:
  assumes "io_inv (insert t X) sv" shows "io_inv X (UpdateClient t ok sv)"
proof (cases "find_session t sv \<noteq> None \<and> \<not> ok")
  case True
  then show ?thesis using CloseClient_io [OF assms] by (auto simp: UpdateClient_def)
next
  case False
  then have "same_log sv (UpdateClient t ok sv)"
    by (auto simp: UpdateClient_def same_log_def split: option.split)
  then show ?thesis using same_log_io [OF assms] UpdateClient_inv by blast
qed

lemma io_inv_mono: "io_inv X sv \<Longrightarrow> io_inv (insert t X) sv"
  using loop_inv_mono [of X sv "insert t X"] by (auto simp: io_inv_def)

lemma read_client_io:
  assumes "io_inv X sv" shows "io_inv X (snd (read_client E t a sv))"
proof -
  have "log_inv (snd (read_client E t a sv))"
  proof (cases "find_session t sv")
    case (Some s)
    obtain alive c posted where r: "HandleRead (ie_parse E) (ka_now a) (post_frame E t) (ka_recv a)
        (session_conn s sv) (sv_posted sv) = (alive, c, posted)" by (metis surj_pair)
    have f: "frames_from t (sv_posted sv) posted"
      using HandleRead_le(2) [of t "sv_posted sv" "ie_parse E" "ka_now a" E "ka_recv a" "session_conn s sv"] r
      by simp
    have "log_inv (put_conn t c sv)"
      using assms log_inv_same [of sv "put_conn t c sv"] by (simp add: io_inv_def put_conn_def)
    from frames_log [OF this, of t posted] show ?thesis
      using f Some r by (simp add: read_client_def)
  qed (use assms in \<open>simp add: read_client_def io_inv_def\<close>)
  then show ?thesis using read_client_inv assms by (simp add: io_inv_def)
qed

lemma wake_client_io:
  assumes "io_inv (insert t X) sv0" shows "io_inv X (wake_client ans t sv0)"
proof -
  define sv where "sv = biz_all (ka_calls (ans t)) sv0"
  have sv: "io_inv (insert t X) sv" using biz_all_io [OF assms] by (simp add: sv_def)
  obtain alive sv1 where w: "write_client t (ans t) sv = (alive, sv1)" by fastforce
  then have "io_inv (insert t X) sv1" using write_client_io [OF sv, of t "ans t"] by simp
  note done1 = CloseClient_io [OF this] UpdateClient_io [OF this]
  have "io_inv X sv" if "Stopping (sv_wakeup sv)"
    using that sv loop_inv_stopping by (auto simp: io_inv_def Stopping_def)
  moreover have "io_inv X sv" if "find_session t sv = None"
    using that sv loop_inv_absent by (auto simp: io_inv_def)
  ultimately show ?thesis using done1 w by (auto simp: wake_client_def Let_def sv_def [symmetric])
qed

lemma HandleWakeup_io:
  assumes "io_inv {} sv" shows "io_inv {} (HandleWakeup ans sv)"
proof -
  obtain taken w where t: "Take (sv_wakeup sv) = (taken, w)" by fastforce
  have ok: "wakeup_ok (sv_wakeup sv)" using assms by (simp add: io_inv_def loop_inv_def)
  note tk = Take_ok [OF ok, unfolded t fst_conv snd_conv]
  have "set (wk_ready (sv_wakeup sv)) = set taken \<union> set (wk_ready w)"
    using tk(1,2) by (metis append_take_drop_id set_append)
  then have sub: "wk_pending (sv_wakeup sv) \<subseteq> set taken \<union> wk_pending w"
    using ok tk(3) by (simp add: wakeup_ok_def)
  have stop: "wk_stopping w = wk_stopping (sv_wakeup sv)"
    using t by (auto simp: Take_def Let_def split: prod.splits if_splits)
  define sv1 where "sv1 = sv\<lparr>sv_wakeup := w\<rparr>"
  have sv1: "sv_wakeup sv1 = w" "sv_epollout sv1 = sv_epollout sv" "keys sv1 = keys sv"
    "find_session t sv1 = find_session t sv" for t by (simp_all add: sv1_def)
  have "session_at (set taken) sv1 t s" if "session_at {} sv t s" for t s
    using that sub stop by (auto simp: session_at_def armed_def sv1)
  then have "loop_inv (set taken) sv1" using assms tk(3) by (auto simp: io_inv_def loop_inv_def sv1)
  then have "io_inv (set taken) sv1" using same_log_inv [OF assms] by (simp add: sv1_def)
  then have "io_inv {} (fold (wake_client ans) taken sv1)"
  proof (induction taken arbitrary: sv1)
    case (Cons t ts)
    then show ?case using wake_client_io [of t "set ts" sv1 ans] by simp
  qed simp
  then show ?thesis by (simp add: HandleWakeup_def t sv1_def)
qed

lemma AcceptClients_io:
  assumes "io_inv X sv" shows "io_inv X (AcceptClients rs sv)"
proof -
  have "io_inv X (accept_loop rs sv)" if "io_inv X sv" for rs sv
    using that
  proof (induction rs sv rule: accept_loop.induct)
    case (2 now ok rs sv)
    then show ?case
      using register_client_inv [of X sv now ok] register_client_log [of sv now ok] by (simp add: io_inv_def)
  qed simp_all
  then show ?thesis using assms by (simp add: AcceptClients_def)
qed

lemma HandleTimer_io:
  assumes "io_inv X sv" shows "io_inv X (HandleTimer now sv)"
proof -
  have "loop_inv X sv" using assms by (simp add: io_inv_def)
  then have "loop_inv X (HandleTimer now sv)"
    by (rule loop_inv_wakeup) (simp_all add: HandleTimer_def Let_def)
  then show ?thesis using assms HandleTimer_log by (simp add: io_inv_def)
qed

lemma check_client_io:
  assumes "io_inv X sv" shows "io_inv X (check_client E now a t sv)"
proof (cases "find_session t sv")
  case (Some s)
  obtain alive sv1 where r: "read_client E t a sv = (alive, sv1)" by fastforce
  have sv1: "io_inv X sv1" using read_client_io [OF assms, of E t a] r by simp
  show ?thesis
  proof (cases "find_session t sv1")
    case s1: (Some s1)
    obtain late s2 where e: "ConnectionExpired now (sv_heartbeat_recheck sv1) s1 = (late, s2)" by fastforce
    define sv2 where "sv2 = put_conn t (session_conn s2 sv1) sv1"
    have "conn_le (session_conn s1 sv1) (session_conn s2 sv1)"
      using ConnectionExpired_le [of s1 "Some (sv_wakeup sv1)" now "sv_heartbeat_recheck sv1"] e
      by (simp add: session_conn_def)
    then have "loop_inv X sv2" using put_conn_inv s1 sv1 by (simp add: sv2_def io_inv_def)
    then have sv2: "io_inv X sv2" using same_log_inv [OF sv1] by (simp add: sv2_def)
    note closes = CloseClient_io [OF io_inv_mono] UpdateClient_io [OF io_inv_mono]
    show ?thesis
      using Some r s1 e sv2 closes sv1 assms by (simp add: check_client_def sv2_def [symmetric])
  qed (use Some r sv1 assms in \<open>simp add: check_client_def\<close>)
qed (use assms in \<open>simp add: check_client_def\<close>)

lemma io_inv_heartbeat [simp]:
  "io_inv X (sv\<lparr>sv_heartbeat_after := a\<rparr>) = io_inv X sv"
  "io_inv X (sv\<lparr>sv_heartbeat_scanning := b\<rparr>) = io_inv X sv"
  by (simp_all add: io_inv_def loop_inv_def log_inv_def log_core_def session_at_def armed_def)

lemma CheckHeartbeats_io:
  assumes "io_inv X sv" shows "io_inv X (CheckHeartbeats E now ans sv)"
proof -
  have "io_inv X (heartbeat_loop E now ans n sv)" if "io_inv X sv" for n sv
    using that
  proof (induction n arbitrary: sv)
    case (Suc n)
    then show ?case by (auto simp: check_client_io biz_all_io split: option.split)
  qed simp
  then show ?thesis using assms by (simp add: CheckHeartbeats_def)
qed

lemma tick_server_io:
  assumes "io_inv X sv" shows "io_inv X (snd (tick_server E now res ok sv))"
  using put_media_io [OF assms] Tick_le [of "ie_media E" now res ok "media_state_of sv"]
    Tick_left_le [of "media_state_of sv" "ie_media E" now res]
  by (auto simp: tick_server_def media_state_of_def split: option.split)

lemma media_server_event_io:
  assumes "io_inv X sv" shows "io_inv X (snd (media_server_event E now k token flags sv))"
  using put_media_io [OF assms] HandleEvents_le [of "ie_media E" now k token flags "media_state_of sv"]
    HandleEvents_left_le [of "media_state_of sv" "ie_media E" now k token flags]
  by (auto simp: media_server_event_def media_state_of_def split: option.split)

lemma client_event_io:
  assumes "io_inv X sv" shows "io_inv X (client_event E a t flags sv)"
proof -
  obtain alive1 sv1 where r: "(if flags AND (EPOLLIN OR EPOLLRDHUP OR EPOLLHUP) \<noteq> 0
      then read_client E t a sv else (True, sv)) = (alive1, sv1)" by fastforce
  have sv1: "io_inv X sv1" using read_client_io [OF assms, of E t a] assms r by (auto split: if_splits)
  obtain alive sv2 where w: "(if alive1 \<and> flags AND EPOLLOUT \<noteq> 0 then write_client t a sv1
      else (alive1, sv1)) = (alive, sv2)" by fastforce
  have "io_inv (insert t X) sv2"
    using write_client_io [OF sv1, of t a] io_inv_mono [OF sv1] w by (auto split: if_splits)
  then show ?thesis using CloseClient_io UpdateClient_io assms by (simp add: client_event_def r w)
qed

lemma HandleEpollEvent_io:
  assumes "io_inv {} sv" shows "io_inv {} (snd (HandleEpollEvent E e sv))"
proof -
  have "io_inv {} (biz_all (ka_calls (pe_answer e)) sv)" by (rule biz_all_io [OF assms])
  then show ?thesis
    by (simp add: HandleEpollEvent_def Let_def AcceptClients_io HandleTimer_io HandleWakeup_io
        CServer_Stop_io media_server_event_io client_event_io split: signal_read.split)
qed

lemma event_loop_io: "io_inv {} sv \<Longrightarrow> io_inv {} (snd (event_loop E es sv))"
proof (induction es arbitrary: sv)
  case (Cons e es)
  then show ?case using HandleEpollEvent_io [OF Cons.prems, of E e] by (auto simp: split_beta Let_def)
qed simp

lemma RunOnce_io:
  assumes "io_inv {} sv" shows "io_inv {} (snd (RunOnce E r sv))"
proof -
  obtain now res ok where t: "ri_tick1 r = (now, res, ok)" by (metis surj_pair)
  obtain now2 res2 ok2 where t2: "ri_tick2 r = (now2, res2, ok2)" by (metis surj_pair)
  have a: "io_inv {} (snd (tick_server E now res ok (biz_all (ri_calls r) sv)))"
    by (intro tick_server_io biz_all_io assms)
  have e: "io_inv {} (snd (end_round E r sv'))" if "io_inv {} sv'" for sv'
    using that by (simp add: end_round_def t2 tick_server_io CheckHeartbeats_io)
  show ?thesis
    using a e event_loop_io [OF a] by (simp add: RunOnce_def t split_beta Let_def split: poll_result.split)
qed

lemma io_rounds_io: "io_inv {} sv \<Longrightarrow> io_inv {} (snd (io_rounds E rs sv))"
proof (induction rs arbitrary: sv)
  case (Cons r rs)
  then show ?case using RunOnce_io [OF Cons.prems, of E r] by (auto simp: split_beta Let_def)
qed simp

lemma close_all_io:
  "io_inv X sv \<Longrightarrow> io_inv X (close_all sv) \<and> sv_sessions (close_all sv) = []
     \<and> sv_accepted (close_all sv) = sv_accepted sv \<and> sv_attempts (close_all sv) = sv_attempts sv
     \<and> sv_epollout (close_all sv) \<subseteq> sv_epollout sv"
proof (induction sv rule: close_all.induct)
  case (1 sv)
  show ?case
  proof (cases "sv_sessions sv")
    case Nil
    then show ?thesis using 1(2) by (subst (1 2 3 4 5) close_all.simps) simp
  next
    case (Cons x xs)
    have "io_inv X (CloseClient (fst x) sv)" by (rule CloseClient_io [OF io_inv_mono [OF 1(2)]])
    note ih = 1(1) [OF Cons this]
    have "sv_accepted (CloseClient t sv) = sv_accepted sv \<and> sv_attempts (CloseClient t sv) = sv_attempts sv
       \<and> sv_epollout (CloseClient t sv) \<subseteq> sv_epollout sv" for t
      by (auto simp: CloseClient_def split: option.split)
    then show ?thesis using ih Cons by (subst (1 2 3 4 5) close_all.simps) fastforce
  qed
qed

lemma CServer_Start_inv:
  assumes "CServer_Start n path fd now0 (CServer_new now) = (False, sv)" shows "io_inv {} sv"
proof -
  have f: "sv_sessions sv = []" "sv_epollout sv = {}" "sv_posted sv = []" "sv_accepted sv = []"
    "sv_next_token sv = 5" "sv_attempts sv = 0" "sv_wakeup sv = IoWakeup_new"
    using assms
    by (auto simp: CServer_Start_def CServer_new_def start_calls_def Let_def split: if_splits option.splits)
  show ?thesis
    by (simp add: io_inv_def loop_inv_def log_inv_def log_core_def find_session_def f IoWakeup_new_ok)
qed

end
