(* ===== verification/IoLoopScan.thy ===== *)
theory IoLoopScan
  imports IoLoopInv
begin

text \<open>
  The heartbeat scan of the I/O loop of RealtimeServer: it visits at most 64 connections a
  round, between other events, and reaches every connection that was there when it began.
  still relates two states between which the peer of one connection stays silent.
\<close>

section \<open>What is posted stays posted\<close>

definition extends :: "io_server \<Rightarrow> io_server \<Rightarrow> bool" where
  "extends sv sv' \<longleftrightarrow> set (gone (sv_posted sv)) \<subseteq> set (gone (sv_posted sv'))
     \<and> set (sv_accepted sv) \<subseteq> set (sv_accepted sv') \<and> sv_attempts sv \<le> sv_attempts sv'"

lemma extends_refl [simp]: "extends sv sv"
  by (simp add: extends_def)

lemma extends_trans: "extends a b \<Longrightarrow> extends b c \<Longrightarrow> extends a c"
  by (auto simp: extends_def)

lemma same_log_extends: "same_log sv sv' \<Longrightarrow> extends sv sv'"
  by (simp add: same_log_def extends_def)

lemma biz_all_extends [simp]: "extends sv (biz_all cs sv)"
  by (rule same_log_extends [OF biz_all_same])

lemma write_client_extends [simp]: "extends sv (snd (write_client t a sv))"
  by (rule same_log_extends [OF write_client_same])

lemma CloseClient_extends [simp]: "extends sv (CloseClient t sv)"
  by (auto simp: CloseClient_def extends_def split: option.split)

lemma UpdateClient_extends [simp]: "extends sv (UpdateClient t ok sv)"
  using CloseClient_extends by (auto simp: UpdateClient_def extends_def split: option.split)

lemma read_client_extends [simp]: "extends sv (snd (read_client E t a sv))"
proof (cases "find_session t sv")
  case (Some s)
  obtain alive c posted where r: "HandleRead (ie_parse E) (ka_now a) (post_frame E t) (ka_recv a)
      (session_conn s sv) (sv_posted sv) = (alive, c, posted)" by (metis surj_pair)
  have "frames_from t (sv_posted sv) posted"
    using HandleRead_le(2) [of t "sv_posted sv" "ie_parse E" "ka_now a" E "ka_recv a" "session_conn s sv"] r
    by simp
  then show ?thesis using Some r by (auto simp: read_client_def extends_def frames_from_def put_conn_def)
qed (simp add: read_client_def)

lemma check_client_extends [simp]: "extends sv (check_client E now a t sv)"
proof (cases "find_session t sv")
  case (Some s)
  obtain alive sv1 where r: "read_client E t a sv = (alive, sv1)" by fastforce
  have sv1: "extends sv sv1" using read_client_extends [of sv E t a] r by simp
  have "extends sv1 (if late then CloseClient t (put_conn t c sv1) else UpdateClient t ok (put_conn t c sv1))"
    for late ok c
    using extends_trans [OF same_log_extends [of sv1 "put_conn t c sv1"]] by simp
  then show ?thesis
    using Some r extends_trans [OF sv1] sv1 by (simp add: check_client_def split_beta Let_def split: option.split)
qed (simp add: check_client_def)

lemma heartbeat_extends [simp]:
  "extends sv (sv\<lparr>sv_heartbeat_after := a\<rparr>)" "extends sv (sv\<lparr>sv_heartbeat_scanning := b\<rparr>)"
  by (rule same_log_extends; simp)+

lemma heartbeat_loop_extends [simp]: "extends sv (heartbeat_loop E now ans n sv)"
proof (induction n arbitrary: sv)
  case (Suc n)
  have "extends sv (heartbeat_loop E now ans n
      (check_client E now (ans t) t (biz_all cs (sv\<lparr>sv_heartbeat_after := t\<rparr>))))" for t cs
    using extends_trans [OF heartbeat_extends(1) extends_trans [OF biz_all_extends
          extends_trans [OF check_client_extends Suc.IH]]] .
  then show ?case by (auto split: option.split)
qed simp

lemma CheckHeartbeats_extends [simp]: "extends sv (CheckHeartbeats E now ans sv)"
  by (simp add: CheckHeartbeats_def)

section \<open>A silent peer keeps its deadline\<close>

definition keeps_deadline :: "session \<Rightarrow> session \<Rightarrow> bool" where
  "keeps_deadline s s' \<longleftrightarrow> s_user_id s' = s_user_id s \<and> s_created_at s' = s_created_at s
     \<and> s_hb_enabled s' = s_hb_enabled s \<and> s_last_hb s' = s_last_hb s
     \<and> s_recheck_used s' = s_recheck_used s \<and> s_recheck_until s' = s_recheck_until s"

definition dead :: "int \<Rightarrow> session \<Rightarrow> bool" where
  "dead T s \<longleftrightarrow> past_deadline T s \<and> (\<not> s_recheck_used s \<or> s_recheck_until s \<le> T)"

lemma keeps_deadline_refl [simp]: "keeps_deadline s s"
  by (simp add: keeps_deadline_def)

lemma keeps_dead: "keeps_deadline s s' \<Longrightarrow> dead T s' = dead T s"
  by (simp add: keeps_deadline_def dead_def past_deadline_def)

lemma dead_expired:
  "dead T s \<Longrightarrow> T \<le> now \<Longrightarrow> ConnectionExpired now False s = (True, s)"
  by (auto simp: dead_def past_deadline_def ConnectionExpired_def Let_def split: if_splits)

text \<open>The connection t is still there with its deadline, or its end is posted; the scan
  stands where it stood, and no connection before t is new.\<close>

definition still :: "u64 \<Rightarrow> io_server \<Rightarrow> io_server \<Rightarrow> bool" where
  "still t sv sv' \<longleftrightarrow> extends sv sv'
     \<and> (\<forall>s. find_session t sv = Some s \<longrightarrow> t \<in> set (gone (sv_posted sv'))
          \<or> (\<exists>s'. find_session t sv' = Some s' \<and> keeps_deadline s s'))
     \<and> (sv_heartbeat_scanning sv \<longrightarrow> sv_heartbeat_scanning sv'
          \<and> sv_heartbeat_after sv' = sv_heartbeat_after sv
          \<and> sv_heartbeat_through sv' = sv_heartbeat_through sv
          \<and> sv_heartbeat_recheck sv' = sv_heartbeat_recheck sv)
     \<and> (\<forall>k \<le> t. find_session k sv = None \<longrightarrow> find_session k sv' = None)"

lemma still_refl [simp]: "still t sv sv"
  by (simp add: still_def)

lemma still_trans:
  assumes "still t a b" "still t b c" shows "still t a c"
proof -
  have "t \<in> set (gone (sv_posted c)) \<or> (\<exists>s'. find_session t c = Some s' \<and> keeps_deadline s s')"
    if "find_session t a = Some s" for s
  proof (cases "t \<in> set (gone (sv_posted b))")
    case True
    then show ?thesis using assms(2) by (auto simp: still_def extends_def)
  next
    case False
    then have "\<exists>s'. find_session t b = Some s' \<and> keeps_deadline s s'"
      using assms(1) that by (simp add: still_def)
    then obtain s' where s': "find_session t b = Some s'" "keeps_deadline s s'" by blast
    then have "t \<in> set (gone (sv_posted c)) \<or> (\<exists>s2. find_session t c = Some s2 \<and> keeps_deadline s' s2)"
      using assms(2) by (simp add: still_def)
    then show ?thesis using s'(2) by (auto simp: keeps_deadline_def)
  qed
  then show ?thesis using assms extends_trans [of a b c] by (simp add: still_def)
qed

text \<open>A change of one connection only.\<close>

lemma put_conn_still:
  assumes "k = t \<Longrightarrow> \<exists>s. find_session t sv = Some s \<and> keeps_deadline s (fst c)"
  shows "still t sv (put_conn k c sv)"
  using assms by (cases "k = t") (auto simp: still_def put_conn_def extends_def find_session_def)

lemma CloseClient_still [simp]: "still t sv (CloseClient k sv)"
  by (cases "find_session k sv") (auto simp: still_def CloseClient_def extends_def find_session_def)

lemma UpdateClient_still [simp]: "still t sv (UpdateClient k ok sv)"
  using CloseClient_still [of t sv k]
  by (auto simp: UpdateClient_def still_def extends_def find_session_def split: option.split)

lemma put_media_still [simp]: "still t sv (put_media m sv)"
  by (simp add: still_def put_media_def extends_def find_session_def)

lemma CServer_Stop_still [simp]: "still t sv (CServer_Stop sv)"
  by (simp add: still_def CServer_Stop_def extends_def find_session_def)

lemma sv_wakeup_still [simp]: "still t sv (sv\<lparr>sv_wakeup := w\<rparr>)"
  by (simp add: still_def extends_def)

lemma Send_deadline: "keeps_deadline (fst c) (fst (snd (Send rid p c)))"
  by (cases c) (auto simp: Send_def enqueue_frame_def keeps_deadline_def Let_def split: prod.splits)

lemma RequestClose_deadline: "keeps_deadline (fst c) (fst (RequestClose c))"
  by (cases c) (simp add: RequestClose_def keeps_deadline_def)

definition quiet_calls :: "u64 \<Rightarrow> biz_call list \<Rightarrow> bool" where
  "quiet_calls t cs \<longleftrightarrow> (\<forall>u. BizSetUser t u \<notin> set cs)"

lemma on_session_still:
  assumes "k = t \<Longrightarrow> (\<And>c. keeps_deadline (fst c) (fst (f c)))"
  shows "still t sv (on_session k f sv)"
proof (cases "find_session k sv")
  case (Some s)
  have "still t sv (put_conn k (f (session_conn s sv)) sv)"
    using assms [of "session_conn s sv"] Some by (intro put_conn_still) (auto simp: session_conn_def)
  then show ?thesis using Some by (simp add: on_session_def)
qed (simp add: on_session_def)

lemma setter_deadline [simp]:
  "keeps_deadline s (SetAuthToken a s)" "keeps_deadline s (SetMeetingId m s)"
  "keeps_deadline s (SetMediaSignalId m s)" "keeps_deadline s (ClearMediaSignalId m s)"
  by (simp_all add: keeps_deadline_def SetAuthToken_def SetMeetingId_def SetMediaSignalId_def
      ClearMediaSignalId_def)

lemma biz_all_still:
  assumes "quiet_calls t cs" shows "still t sv (biz_all cs sv)"
  using assms
proof (induction cs arbitrary: sv)
  case (Cons b cs)
  have "still t sv (biz_step b sv)"
  proof (cases b)
    case (BizSetUser k u)
    then have "k \<noteq> t" using Cons.prems by (auto simp: quiet_calls_def)
    then show ?thesis using BizSetUser on_session_still by simp
  qed (use Send_deadline RequestClose_deadline in \<open>simp_all add: on_session_still\<close>)
  moreover have "quiet_calls t cs" using Cons.prems by (simp add: quiet_calls_def)
  ultimately show ?case using still_trans [OF _ Cons.IH] by (simp add: biz_all_def)
qed (simp add: biz_all_def)

lemma write_loop_deadline:
  "keeps_deadline s (snd (snd (write_loop rs n s out)))"
proof (induction rs arbitrary: n s out)
  case (Cons r rs)
  have "keeps_deadline s (advance k s)" for k by (simp add: keeps_deadline_def advance_def Let_def)
  then have "keeps_deadline s (snd (snd (write_loop rs m (advance k s) o1)))" for k m o1
    using Cons.IH [of "advance k s" m o1] by (simp add: keeps_deadline_def)
  then show ?case using Cons.IH by (auto simp: write_loop.simps(2) Let_def split: send_result.split)
qed simp

lemma HandleWrite_deadline: "keeps_deadline s (snd (snd (HandleWrite script s)))"
proof (cases "s_closed s \<or> s_close_requested s")
  case False
  let ?s = "if s_send_queue s = [] then s\<lparr>s_send_queue := s_pending s, s_pending := []\<rparr> else s"
  have "keeps_deadline s ?s" by (simp add: keeps_deadline_def)
  then show ?thesis
    using write_loop_deadline [of ?s script 0 "[]"] False by (simp add: HandleWrite_def keeps_deadline_def)
qed (auto simp: HandleWrite_def)

lemma write_client_still [simp]: "still t sv (snd (write_client k a sv))"
proof (cases "find_session k sv")
  case (Some s)
  have "still t sv (put_conn k (session_conn s' sv) sv)" if "keeps_deadline s s'" for s'
    using Some that by (intro put_conn_still) (auto simp: session_conn_def)
  then show ?thesis
    using Some HandleWrite_deadline [of s "ka_send a"] by (simp add: write_client_def split_beta)
qed (simp add: write_client_def)

definition no_data :: "kernel_answer \<Rightarrow> bool" where
  "no_data a \<longleftrightarrow> (\<forall>d. Received d \<notin> set (ka_recv a))"

lemma read_loop_no_data:
  "\<forall>d. Received d \<notin> set rs \<Longrightarrow> snd (read_loop hbp now post rs n c b) = (c, b)"
  by (induction rs arbitrary: n) (auto split: recv_result.split)

lemma posted_still:
  "still t sv sv1 \<Longrightarrow> frames_from k (sv_posted sv1) p \<Longrightarrow> still t sv (sv1\<lparr>sv_posted := p\<rparr>)"
  by (auto simp: still_def extends_def frames_from_def)

lemma read_client_still:
  assumes "k = t \<Longrightarrow> no_data a" shows "still t sv (snd (read_client E k a sv))"
proof (cases "find_session k sv")
  case (Some s)
  obtain alive c posted where r: "HandleRead (ie_parse E) (ka_now a) (post_frame E k) (ka_recv a)
      (session_conn s sv) (sv_posted sv) = (alive, c, posted)" by (metis surj_pair)
  have "c = session_conn s sv" if "k = t"
    using read_loop_no_data [of "ka_recv a" "ie_parse E" "ka_now a" "post_frame E k" 0 "session_conn s sv"
        "sv_posted sv"] assms that r by (simp add: no_data_def HandleRead_def)
  then have "still t sv (put_conn k c sv)"
    using Some by (intro put_conn_still) (auto simp: session_conn_def)
  moreover have "frames_from k (sv_posted sv) posted"
    using HandleRead_le(2) [of k "sv_posted sv" "ie_parse E" "ka_now a" E "ka_recv a" "session_conn s sv"] r
    by simp
  ultimately show ?thesis using Some r posted_still by (simp add: read_client_def)
qed (simp add: read_client_def)

lemma check_client_still:
  assumes "k \<noteq> t" shows "still t sv (check_client E now a k sv)"
proof (cases "find_session k sv")
  case (Some s)
  obtain alive sv1 where r: "read_client E k a sv = (alive, sv1)" by fastforce
  have sv1: "still t sv sv1" using read_client_still [of k t a sv E] assms r by simp
  have "still t sv (if late then CloseClient k (put_conn k c sv1) else UpdateClient k ok (put_conn k c sv1))"
    for late ok c
    using still_trans [OF sv1 still_trans [OF put_conn_still [of k t sv1 c]]] assms by simp
  moreover have "still t sv (CloseClient k sv1)" by (rule still_trans [OF sv1]) simp
  ultimately show ?thesis
    using Some r sv1 by (simp add: check_client_def split_beta Let_def split: option.split)
qed (simp add: check_client_def)

lemma wake_client_still:
  assumes "quiet_calls t (ka_calls (ans k))" shows "still t sv (wake_client ans k sv)"
proof -
  let ?sv = "biz_all (ka_calls (ans k)) sv"
  have b: "still t sv ?sv" by (rule biz_all_still [OF assms])
  have w: "still t sv (snd (write_client k (ans k) ?sv))" by (rule still_trans [OF b]) simp
  show ?thesis
    using b still_trans [OF w CloseClient_still] still_trans [OF w UpdateClient_still]
    by (simp add: wake_client_def Let_def split_beta)
qed

lemma HandleWakeup_still:
  assumes "\<And>k. quiet_calls t (ka_calls (ans k))" shows "still t sv (HandleWakeup ans sv)"
proof -
  have f: "still t sv' (fold (wake_client ans) ks sv')" for ks sv'
  proof (induction ks arbitrary: sv')
    case (Cons k ks)
    then show ?case using still_trans [OF wake_client_still [OF assms] Cons.IH] by simp
  qed simp
  then show ?thesis
    using still_trans [OF sv_wakeup_still f] by (simp add: HandleWakeup_def split_beta)
qed

lemma register_client_extends: "extends sv (register_client now ok sv)"
  by (auto simp: register_client_def extends_def Let_def)

lemma accept_loop_extends: "extends sv (accept_loop rs sv)"
proof (induction rs sv rule: accept_loop.induct)
  case (2 now ok rs sv)
  then show ?case using extends_trans [OF register_client_extends 2] by simp
qed simp_all

lemma register_client_still:
  assumes "t < sv_next_token sv" shows "still t sv (register_client now ok sv)"
proof -
  have "k \<noteq> sv_next_token sv" if "k \<le> t" for k using that assms by auto
  then show ?thesis
    using register_client_extends [of sv now ok]
    by (auto simp: still_def register_client_def find_session_def Let_def)
qed

lemma token_bound:
  "io_inv X sv \<Longrightarrow> sv_attempts sv < 2 ^ 63 - 5 \<Longrightarrow> t \<in> set (sv_accepted sv) \<Longrightarrow> t < sv_next_token sv"
  by (auto simp: io_inv_def log_inv_def log_core_def)

lemma accept_loop_still:
  "io_inv X sv \<Longrightarrow> sv_attempts (accept_loop rs sv) < 2 ^ 63 - 5 \<Longrightarrow> t \<in> set (sv_accepted sv) \<Longrightarrow>
   still t sv (accept_loop rs sv)"
proof (induction rs sv rule: accept_loop.induct)
  case (2 now ok rs sv)
  let ?sv = "register_client now ok sv"
  have i: "io_inv X ?sv"
    using 2(2) register_client_inv [of X sv now ok] register_client_log [of sv now ok] by (simp add: io_inv_def)
  have g: "extends sv ?sv" "extends ?sv (accept_loop rs ?sv)"
    by (rule register_client_extends accept_loop_extends)+
  then have "sv_attempts sv < 2 ^ 63 - 5" "t \<in> set (sv_accepted ?sv)" using 2(3,4) by (auto simp: extends_def)
  then have "still t sv ?sv" "still t ?sv (accept_loop rs ?sv)"
    using register_client_still token_bound [OF 2(2)] 2(1) [OF i] 2(3,4) by simp_all
  then show ?case using still_trans by simp
qed simp_all

lemma HandleTimer_still [simp]: "still t sv (HandleTimer now sv)"
  by (simp add: still_def HandleTimer_def extends_def find_session_def Let_def)

lemma tick_server_still [simp]: "still t sv (snd (tick_server E now res ok sv))"
  by (simp add: tick_server_def split: option.split)

lemma media_server_event_still [simp]: "still t sv (snd (media_server_event E now k token flags sv))"
  by (auto simp: media_server_event_def split: option.split)

lemma client_event_still:
  assumes "k = t \<Longrightarrow> no_data a" shows "still t sv (client_event E a k flags sv)"
proof -
  obtain alive1 sv1 where r: "(if flags AND (EPOLLIN OR EPOLLRDHUP OR EPOLLHUP) \<noteq> 0
      then read_client E k a sv else (True, sv)) = (alive1, sv1)" by fastforce
  have sv1: "still t sv sv1" using read_client_still [of k t a sv E] assms r by (auto split: if_splits)
  obtain alive sv2 where w: "(if alive1 \<and> flags AND EPOLLOUT \<noteq> 0 then write_client k a sv1
      else (alive1, sv1)) = (alive, sv2)" by fastforce
  have "sv2 = sv1 \<or> sv2 = snd (write_client k a sv1)" using w by (auto split: if_splits)
  then have "still t sv1 sv2" by auto
  from still_trans [OF sv1 this] have sv2: "still t sv sv2" .
  show ?thesis
    using still_trans [OF sv2 CloseClient_still] still_trans [OF sv2 UpdateClient_still]
    by (simp add: client_event_def r w)
qed

text \<open>Rounds in which nothing arrives from t and no business thread changes its user; a round
  that a signal interrupts handles no event and checks no heartbeat.\<close>

definition quiet_event :: "u64 \<Rightarrow> poll_event \<Rightarrow> bool" where
  "quiet_event t e \<longleftrightarrow> quiet_calls t (ka_calls (pe_answer e))
     \<and> (\<forall>k. quiet_calls t (ka_calls (pe_wakes e k))) \<and> (pe_token e = t \<longrightarrow> no_data (pe_answer e))"

definition quiet_round :: "u64 \<Rightarrow> int \<Rightarrow> io_round \<Rightarrow> bool" where
  "quiet_round t T r \<longleftrightarrow> quiet_calls t (ri_calls r)
     \<and> (case ri_poll r of PollEvents es \<Rightarrow> \<forall>e \<in> set es. quiet_event t e | _ \<Rightarrow> True)
     \<and> (\<forall>k. quiet_calls t (ka_calls (ri_answers r k))) \<and> no_data (ri_answers r t) \<and> T \<le> ri_now r"

definition full_round :: "io_round \<Rightarrow> bool" where
  "full_round r \<longleftrightarrow> ri_poll r \<noteq> PollIntr"

lemma client_event_extends: "extends sv (client_event E a k flags sv)"
proof -
  obtain alive1 sv1 where r: "(if flags AND (EPOLLIN OR EPOLLRDHUP OR EPOLLHUP) \<noteq> 0
      then read_client E k a sv else (True, sv)) = (alive1, sv1)" by fastforce
  obtain alive sv2 where w: "(if alive1 \<and> flags AND EPOLLOUT \<noteq> 0 then write_client k a sv1
      else (alive1, sv1)) = (alive, sv2)" by fastforce
  have "sv1 = sv \<or> sv1 = snd (read_client E k a sv)" "sv2 = sv1 \<or> sv2 = snd (write_client k a sv1)"
    using r w by (auto split: if_splits)
  then have "extends sv sv1" "extends sv1 sv2" by auto
  from extends_trans [OF this] have sv2: "extends sv sv2" .
  show ?thesis
    using extends_trans [OF sv2 CloseClient_extends] extends_trans [OF sv2 UpdateClient_extends]
    by (simp add: client_event_def r w)
qed

lemma HandleEpollEvent_extends: "extends sv (snd (HandleEpollEvent E e sv))"
proof -
  let ?sv = "biz_all (ka_calls (pe_answer e)) sv"
  have b: "extends sv ?sv" by simp
  have "extends sv' (client_event E a t f sv')" for a t f sv'
    using client_event_extends .
  moreover have "extends sv' (AcceptClients rs sv')" for rs sv' by (simp add: AcceptClients_def accept_loop_extends)
  moreover have "extends sv' (HandleTimer n sv')" for n sv' using HandleTimer_still [of 0 sv' n] by (simp add: still_def)
  moreover have "extends sv' (wake_client ans k sv')" for ans k sv'
    using extends_trans [OF biz_all_extends extends_trans [OF write_client_extends CloseClient_extends]]
      extends_trans [OF biz_all_extends extends_trans [OF write_client_extends UpdateClient_extends]]
    by (auto simp: wake_client_def Let_def split_beta)
  then have f: "extends sv' (fold (wake_client ans) ks sv')" for ans ks sv'
  proof (induction ks arbitrary: sv')
    case (Cons k ks)
    show ?case using extends_trans [OF Cons.prems [of sv' ans k] Cons.IH [OF Cons.prems]] by simp
  qed simp
  have "extends sv' (sv'\<lparr>sv_wakeup := w\<rparr>)" for w sv' by (simp add: extends_def)
  from extends_trans [OF this f] have "extends sv' (HandleWakeup ans sv')" for ans sv'
    by (simp add: HandleWakeup_def split_beta)
  moreover have "extends sv' (CServer_Stop sv')" "extends sv' (snd (media_server_event E n k t f sv'))" for n k t f sv'
    using CServer_Stop_still [of 0 sv'] media_server_event_still [of 0 sv' E n k t f] by (simp_all add: still_def)
  ultimately show ?thesis
    using extends_trans [OF b] by (simp add: HandleEpollEvent_def Let_def split: signal_read.split)
qed

lemma event_loop_extends: "extends sv (snd (event_loop E es sv))"
proof (induction es arbitrary: sv)
  case (Cons e es)
  then show ?case using HandleEpollEvent_extends [of sv E e] extends_trans by (auto simp: split_beta Let_def)
qed simp

lemma HandleEpollEvent_still:
  assumes "io_inv {} sv" "sv_attempts (snd (HandleEpollEvent E e sv)) < 2 ^ 63 - 5"
    "t \<in> set (sv_accepted sv)" "quiet_event t e"
  shows "still t sv (snd (HandleEpollEvent E e sv))"
proof -
  define sv1 where "sv1 = biz_all (ka_calls (pe_answer e)) sv"
  have b: "still t sv sv1" using assms(4) biz_all_still by (simp add: sv1_def quiet_event_def)
  have i: "io_inv {} sv1" "t \<in> set (sv_accepted sv1)"
    using biz_all_io [OF assms(1)] biz_all_same [of sv "ka_calls (pe_answer e)"] assms(3)
    by (simp_all add: sv1_def same_log_def)
  have "still t sv1 (snd (HandleEpollEvent E e sv))"
  proof (cases "pe_token e = kListenToken")
    case True
    then show ?thesis
      using assms(2) accept_loop_still [OF i(1) _ i(2)]
      by (auto simp: HandleEpollEvent_def Let_def sv1_def [symmetric] AcceptClients_def)
  next
    case False
    then show ?thesis
      using assms(4) HandleWakeup_still client_event_still
      by (simp add: HandleEpollEvent_def Let_def sv1_def [symmetric] quiet_event_def split: signal_read.split)
  qed
  then show ?thesis using still_trans b by blast
qed

lemma event_loop_still:
  "io_inv {} sv \<Longrightarrow> sv_attempts (snd (event_loop E es sv)) < 2 ^ 63 - 5 \<Longrightarrow> t \<in> set (sv_accepted sv) \<Longrightarrow>
   \<forall>e \<in> set es. quiet_event t e \<Longrightarrow> still t sv (snd (event_loop E es sv))"
proof (induction es arbitrary: sv)
  case (Cons e es)
  show ?case
  proof (cases "Stopping (sv_wakeup sv)")
    case False
    obtain thrown sv1 where h: "HandleEpollEvent E e sv = (thrown, sv1)" by fastforce
    have i: "io_inv {} sv1" using HandleEpollEvent_io [OF Cons.prems(1), of E e] h by simp
    have g: "extends sv sv1" "extends sv1 (snd (event_loop E es sv1))"
      using HandleEpollEvent_extends [of sv E e] event_loop_extends h by simp_all
    have r: "snd (event_loop E (e # es) sv) = (if thrown then sv1 else snd (event_loop E es sv1))"
      using False h by simp
    have "sv_attempts sv1 < 2 ^ 63 - 5" using Cons.prems(2) g(2) r by (auto simp: extends_def split: if_splits)
    then have c: "still t sv sv1"
      using HandleEpollEvent_still [OF Cons.prems(1), of E e t] Cons.prems(3,4) h by simp
    have "t \<in> set (sv_accepted sv1)" using g(1) Cons.prems(3) by (auto simp: extends_def)
    then show ?thesis using r c still_trans [OF c Cons.IH [OF i]] Cons.prems by (simp split: if_splits)
  qed simp
qed simp

section \<open>The scan reaches every connection\<close>

definition due :: "u64 \<Rightarrow> int \<Rightarrow> io_server \<Rightarrow> bool" where
  "due t T sv \<longleftrightarrow> (\<exists>s. find_session t sv = Some s \<and> dead T s) \<and> sv_heartbeat_scanning sv
     \<and> \<not> sv_heartbeat_recheck sv \<and> sv_heartbeat_after sv < t \<and> t \<le> sv_heartbeat_through sv"

definition ahead_keys :: "u64 \<Rightarrow> io_server \<Rightarrow> u64 set" where
  "ahead_keys t sv = {k. find_session k sv \<noteq> None \<and> sv_heartbeat_after sv < k \<and> k \<le> t}"

definition ahead :: "u64 \<Rightarrow> io_server \<Rightarrow> nat" where
  "ahead t sv = card (ahead_keys t sv)"

lemma ahead_finite [simp]: "finite (ahead_keys t sv)"
  by (rule finite_subset [of _ "set (keys sv)"]) (auto simp: ahead_keys_def find_None_keys)

lemma due_ahead: "due t T sv \<Longrightarrow> 0 < ahead t sv"
  by (auto simp: due_def ahead_def card_gt_0_iff ahead_keys_def)

lemma still_due:
  assumes "still t sv sv'" "due t T sv"
  shows "t \<in> set (gone (sv_posted sv')) \<or> due t T sv' \<and> ahead t sv' \<le> ahead t sv"
proof (cases "t \<in> set (gone (sv_posted sv'))")
  case False
  obtain s where s: "find_session t sv = Some s" "dead T s" using assms(2) by (auto simp: due_def)
  then have "\<exists>s'. find_session t sv' = Some s' \<and> keeps_deadline s s'"
    using assms(1) False by (simp add: still_def)
  then have "due t T sv'" using assms s(2) keeps_dead by (auto simp: due_def still_def)
  moreover have "ahead_keys t sv' \<subseteq> ahead_keys t sv"
    using assms by (auto simp: ahead_keys_def due_def still_def)
  ultimately show ?thesis by (simp add: ahead_def card_mono)
qed simp

lemma upper_bound_least:
  assumes "sorted_wrt (<) (map fst xs)" "map_of xs t \<noteq> None" "a < t"
  shows "\<exists>k s. upper_bound a xs = Some (k, s) \<and> map_of xs k \<noteq> None \<and> a < k \<and> k \<le> t"
proof -
  let ?d = "dropWhile (\<lambda>x. fst x \<le> a) xs"
  obtain s where "(t, s) \<in> set xs" using assms(2) by (auto dest: map_of_SomeD)
  then have "(t, s) \<in> set (takeWhile (\<lambda>x. fst x \<le> a) xs) \<union> set ?d"
    by (metis set_append takeWhile_dropWhile_id)
  then have t: "(t, s) \<in> set ?d" using assms(3) by (auto dest: set_takeWhileD)
  then obtain k s' ds where d: "?d = (k, s') # ds" by (cases ?d) auto
  have "sorted_wrt (<) (map fst (takeWhile (\<lambda>x. fst x \<le> a) xs @ ?d))"
    using assms(1) by (simp only: takeWhile_dropWhile_id)
  then have "sorted_wrt (<) (map fst ?d)" by (simp add: sorted_wrt_append del: takeWhile_dropWhile_id)
  then have "k \<le> t" using t d by auto
  moreover have "a < k" using d by (auto simp: dropWhile_eq_Cons_conv)
  moreover have "(k, s') \<in> set xs" using d by (metis list.set_intros(1) set_dropWhileD)
  ultimately show ?thesis using d by (force simp: upper_bound_def map_of_eq_None_iff)
qed

lemma check_client_dead:
  assumes "find_session t sv = Some s" "dead T s" "T \<le> now" "\<not> sv_heartbeat_recheck sv" "no_data a"
  shows "t \<in> set (gone (sv_posted (check_client E now a t sv)))"
proof -
  obtain alive c posted where r: "HandleRead (ie_parse E) (ka_now a) (post_frame E t) (ka_recv a)
      (session_conn s sv) (sv_posted sv) = (alive, c, posted)" by (metis surj_pair)
  have c: "c = session_conn s sv" "posted = sv_posted sv"
    using read_loop_no_data [of "ka_recv a" "ie_parse E" "ka_now a" "post_frame E t" 0 "session_conn s sv"
        "sv_posted sv"] assms(5) r by (simp_all add: no_data_def HandleRead_def)
  define sv1 where "sv1 = (put_conn t c sv)\<lparr>sv_posted := posted\<rparr>"
  have sv1: "find_session t sv1 = Some s" "\<not> sv_heartbeat_recheck sv1" "read_client E t a sv = (alive, sv1)"
    using assms(1,4) r c(1) by (simp_all add: sv1_def read_client_def put_conn_def session_conn_def find_session_def)
  have closed: "t \<in> set (gone (sv_posted (CloseClient t sv')))" if "find_session t sv' \<noteq> None" for sv'
    using that by (auto simp: CloseClient_def)
  show ?thesis
    using dead_expired [OF assms(2,3)] assms(1) sv1 closed by (simp add: check_client_def Let_def)
qed

lemma heartbeat_loop_due:
  assumes "io_inv {} sv" "due t T sv" "T \<le> now" "\<And>k. quiet_calls t (ka_calls (ans k))" "no_data (ans t)"
  shows "t \<in> set (gone (sv_posted (heartbeat_loop E now ans n sv)))
    \<or> due t T (heartbeat_loop E now ans n sv) \<and> ahead t (heartbeat_loop E now ans n sv) + n \<le> ahead t sv"
  using assms(1,2)
proof (induction n arbitrary: sv)
  case (Suc n)
  have "sorted_wrt (<) (keys sv)" "find_session t sv \<noteq> None" "sv_heartbeat_after sv < t"
    using Suc.prems by (auto simp: io_inv_def loop_inv_def due_def)
  then obtain k s where ub: "upper_bound (sv_heartbeat_after sv) (sv_sessions sv) = Some (k, s)"
    and k: "find_session k sv \<noteq> None" "sv_heartbeat_after sv < k" "k \<le> t"
    using upper_bound_least [of "sv_sessions sv" t "sv_heartbeat_after sv"] by (auto simp: find_session_def)
  define sv1 where "sv1 = sv\<lparr>sv_heartbeat_after := k\<rparr>"
  define sv2 where "sv2 = biz_all (ka_calls (ans k)) sv1"
  define sv3 where "sv3 = check_client E now (ans k) k sv2"
  have r: "heartbeat_loop E now ans (Suc n) sv = heartbeat_loop E now ans n sv3"
    using ub k(3) Suc.prems(2) by (auto simp: sv1_def sv2_def sv3_def due_def)
  have i3: "io_inv {} sv3" using Suc.prems(1) by (simp add: sv1_def sv2_def sv3_def check_client_io biz_all_io)
  have c2: "still t sv1 sv2" using biz_all_still assms(4) by (simp add: sv2_def)
  have gone: "t \<in> set (gone (sv_posted (heartbeat_loop E now ans n sv3)))" if "t \<in> set (gone (sv_posted sv3))"
    using that heartbeat_loop_extends [of sv3 E now ans n] by (auto simp: extends_def simp del: heartbeat_loop_extends)
  show ?case
  proof (cases "k = t")
    case True
    have sv1: "\<exists>s. find_session t sv1 = Some s \<and> dead T s" "sv_heartbeat_scanning sv1" "\<not> sv_heartbeat_recheck sv1"
      using Suc.prems(2) by (simp_all add: sv1_def due_def)
    have "t \<in> set (gone (sv_posted sv3))"
    proof (cases "t \<in> set (gone (sv_posted sv2))")
      case gone2: True
      then show ?thesis using check_client_extends [of sv2 E now "ans k" k]
        by (auto simp: extends_def sv3_def simp del: check_client_extends)
    next
      case False
      then obtain s where "find_session t sv2 = Some s" "dead T s"
        using c2 sv1(1) keeps_dead by (auto simp: still_def)
      moreover have "\<not> sv_heartbeat_recheck sv2" using c2 sv1 by (simp add: still_def)
      ultimately show ?thesis using check_client_dead assms(3,5) True by (simp add: sv3_def)
    qed
    then show ?thesis using gone r by simp
  next
    case False
    have d1: "due t T sv1" using Suc.prems(2) k False by (simp add: due_def sv1_def)
    have "ahead_keys t sv1 \<subseteq> ahead_keys t sv" "k \<in> ahead_keys t sv" "k \<notin> ahead_keys t sv1"
      using k by (auto simp: ahead_keys_def sv1_def)
    then have "ahead t sv1 < ahead t sv" unfolding ahead_def by (intro psubset_card_mono) auto
    moreover have "t \<in> set (gone (sv_posted sv3)) \<or> due t T sv3 \<and> ahead t sv3 \<le> ahead t sv1"
      using still_due [OF still_trans [OF c2 check_client_still] d1] False by (simp add: sv3_def)
    ultimately show ?thesis using gone Suc.IH [OF i3] r by auto
  qed
qed simp

text \<open>The rest of a round after its first events.\<close>

definition rest_of_round :: "io_env \<Rightarrow> poll_event list \<Rightarrow> io_round \<Rightarrow> io_server \<Rightarrow> bool \<times> io_server" where
  "rest_of_round E es r sv =
     (let (thrown, sv1) = event_loop E es sv in if thrown then (True, sv1) else end_round E r sv1)"

lemma end_round_parts:
  obtains now res ok where "end_round E r sv = (if Stopping (sv_wakeup sv) then (False, sv)
    else tick_server E now res ok (CheckHeartbeats E (ri_now r) (ri_answers r) sv))"
proof -
  obtain now res ok where t: "ri_tick2 r = (now, res, ok)" by (metis surj_pair)
  show thesis by (rule that [of now res ok]) (simp add: end_round_def t)
qed

lemma tick_server_extends: "extends sv (snd (tick_server E now res ok sv))"
  using tick_server_still [of 0 sv E now res ok] by (simp add: still_def del: tick_server_still)

lemma end_round_extends: "extends sv (snd (end_round E r sv))"
  by (rule end_round_parts [of E r sv])
    (simp add: extends_trans [OF CheckHeartbeats_extends tick_server_extends])

lemma rest_of_round_due:
  assumes i: "io_inv {} sv" and t: "t \<in> set (sv_accepted sv)" and d: "due t T sv"
    and q: "\<forall>e \<in> set es. quiet_event t e" "\<And>k. quiet_calls t (ka_calls (ri_answers r k))"
      "no_data (ri_answers r t)" "T \<le> ri_now r"
    and r: "rest_of_round E es r sv = (False, sv')" "\<not> Stopping (sv_wakeup sv')"
    and b: "sv_attempts sv' < 2 ^ 63 - 5"
  shows "t \<in> set (gone (sv_posted sv')) \<or> due t T sv' \<and> ahead t sv' + 64 \<le> ahead t sv"
proof -
  define sv1 where "sv1 = snd (event_loop E es sv)"
  have e: "end_round E r sv1 = (False, sv')"
    using r(1) by (simp add: rest_of_round_def sv1_def split_beta Let_def split: if_splits)
  have i1: "io_inv {} sv1" using event_loop_io [OF i] by (simp add: sv1_def)
  define sv2 where "sv2 = CheckHeartbeats E (ri_now r) (ri_answers r) sv1"
  obtain now res ok where "end_round E r sv1 = (if Stopping (sv_wakeup sv1) then (False, sv1)
      else tick_server E now res ok sv2)" unfolding sv2_def by (rule end_round_parts)
  then have run: "\<not> Stopping (sv_wakeup sv1)" and "tick_server E now res ok sv2 = (False, sv')"
    using e r(2) by (auto split: if_splits)
  then have sv': "sv' = snd (tick_server E now res ok sv2)" by simp
  have c2: "still t sv2 sv'" by (simp add: sv')
  have g: "extends sv1 sv2" by (simp add: sv2_def)
  have "sv_attempts sv1 \<le> sv_attempts sv2" "sv_attempts sv2 \<le> sv_attempts sv'"
    using g c2 by (simp_all add: extends_def still_def)
  then have "sv_attempts sv1 < 2 ^ 63 - 5" using b by linarith
  then have "still t sv sv1" using event_loop_still [OF i, of E es t] t q(1) by (simp add: sv1_def)
  from still_due [OF this d]
  have d1: "t \<in> set (gone (sv_posted sv1)) \<or> due t T sv1 \<and> ahead t sv1 \<le> ahead t sv" .
  have "t \<in> set (gone (sv_posted sv2)) \<or> due t T sv2 \<and> ahead t sv2 + 64 \<le> ahead t sv1" if "due t T sv1"
    using heartbeat_loop_due [OF i1 that q(4), of "ri_answers r" E kMaxEvents] q(2,3) that
    by (simp add: sv2_def CheckHeartbeats_def due_def kMaxEvents_def)
  then have "t \<in> set (gone (sv_posted sv2)) \<or> due t T sv2 \<and> ahead t sv2 + 64 \<le> ahead t sv"
    using d1 g by (auto simp: extends_def)
  moreover have "t \<in> set (gone (sv_posted sv'))" if "t \<in> set (gone (sv_posted sv2))"
    using that c2 by (auto simp: still_def extends_def)
  ultimately show ?thesis using still_due [OF c2] by fastforce
qed

lemma RunOnce_due:
  assumes "io_inv {} sv" "sv_attempts sv' < 2 ^ 63 - 5" "t \<in> set (sv_accepted sv)"
    "quiet_round t T r" "due t T sv" "RunOnce E r sv = (False, sv')" "\<not> Stopping (sv_wakeup sv')"
  shows "t \<in> set (gone (sv_posted sv')) \<or> due t T sv' \<and> ahead t sv' + (if full_round r then 64 else 0) \<le> ahead t sv"
proof -
  obtain now res ok where t1: "ri_tick1 r = (now, res, ok)" by (metis surj_pair)
  define sv1 where "sv1 = snd (tick_server E now res ok (biz_all (ri_calls r) sv))"
  have c1: "still t sv sv1"
    using still_trans [OF biz_all_still tick_server_still] assms(4) by (simp add: sv1_def quiet_round_def)
  have i1: "io_inv {} sv1" unfolding sv1_def by (intro tick_server_io biz_all_io assms(1))
  show ?thesis
  proof (cases "full_round r")
    case False
    then have "sv' = sv1" using assms(6) t1 by (simp add: full_round_def RunOnce_def sv1_def split_beta Let_def split: if_splits)
    then show ?thesis using still_due [OF c1 assms(5)] False by simp
  next
    case full: True
    obtain es where es: "ri_poll r = PollEvents es" "\<forall>e \<in> set es. quiet_event t e"
      using assms(4,6) t1 full by (auto simp: full_round_def quiet_round_def RunOnce_def split_beta Let_def split: poll_result.splits if_splits)
    have r: "rest_of_round E (take kMaxEvents es) r sv1 = (False, sv')"
      using assms(6) es(1) t1
      by (simp add: RunOnce_def rest_of_round_def split_beta Let_def sv1_def split: if_splits)
    have t: "t \<in> set (sv_accepted sv1)" using c1 assms(3) by (auto simp: still_def extends_def)
    have q: "\<forall>e \<in> set (take kMaxEvents es). quiet_event t e" using es(2) by (auto dest: in_set_takeD)
    have g: "extends sv1 sv'"
      using extends_trans [OF event_loop_extends end_round_extends] r
      by (simp add: rest_of_round_def split_beta Let_def split: if_splits) (metis snd_conv)
    consider "t \<in> set (gone (sv_posted sv1))" | "due t T sv1" "ahead t sv1 \<le> ahead t sv"
      using still_due [OF c1 assms(5)] by blast
    then show ?thesis
    proof cases
      case 1
      then show ?thesis using g by (auto simp: extends_def)
    next
      case 2
      then show ?thesis
        using rest_of_round_due [OF i1 t 2(1) q _ _ _ r assms(7,2)] assms(4) full by (fastforce simp: quiet_round_def)
    qed
  qed
qed

lemma RunOnce_extends: "extends sv (snd (RunOnce E r sv))"
proof -
  obtain now res ok where t1: "ri_tick1 r = (now, res, ok)" by (metis surj_pair)
  have a: "extends sv (snd (tick_server E now res ok (biz_all (ri_calls r) sv)))"
    by (rule extends_trans [OF biz_all_extends tick_server_extends])
  show ?thesis
    using a extends_trans [OF a event_loop_extends] extends_trans [OF extends_trans [OF a event_loop_extends] end_round_extends]
    by (simp add: RunOnce_def t1 split_beta Let_def split: poll_result.split)
qed

lemma io_rounds_extends: "extends sv (snd (io_rounds E rs sv))"
proof (induction rs arbitrary: sv)
  case (Cons r rs)
  then show ?case using RunOnce_extends [of sv E r] extends_trans by (auto simp: split_beta Let_def)
qed simp

lemma io_rounds_due:
  assumes "io_inv {} sv" "t \<in> set (sv_accepted sv)" "due t T sv" "\<forall>r \<in> set rs. quiet_round t T r"
    "io_rounds E rs sv = (thrown, sv')" "sv_attempts sv' < 2 ^ 63 - 5"
  shows "thrown \<or> Stopping (sv_wakeup sv') \<or> t \<in> set (gone (sv_posted sv'))
    \<or> due t T sv' \<and> ahead t sv' + 64 * length (filter full_round rs) \<le> ahead t sv"
  using assms
proof (induction rs arbitrary: sv)
  case (Cons r rs)
  show ?case
  proof (cases "Stopping (sv_wakeup sv)")
    case True
    then show ?thesis using Cons.prems(5) by auto
  next
    case False
    obtain thrown1 sv1 where r: "RunOnce E r sv = (thrown1, sv1)" by fastforce
    show ?thesis
    proof (cases "thrown1 \<or> Stopping (sv_wakeup sv1)")
      case True
      then show ?thesis using Cons.prems(5) False r by (cases rs) (auto split: if_splits)
    next
      case on: False
      then have rest: "io_rounds E rs sv1 = (thrown, sv')" using Cons.prems(5) False r by simp
      have g: "extends sv sv1" "extends sv1 sv'"
        using RunOnce_extends [of sv E r] io_rounds_extends [of sv1 E rs] r rest by simp_all
      then have "sv_attempts sv1 < 2 ^ 63 - 5" using Cons.prems(6) by (simp add: extends_def)
      then have d: "t \<in> set (gone (sv_posted sv1)) \<or> due t T sv1 \<and> ahead t sv1 + (if full_round r then 64 else 0) \<le> ahead t sv"
        using RunOnce_due [OF Cons.prems(1) _ Cons.prems(2) _ Cons.prems(3), of sv1 r E] Cons.prems(4) on r
        by simp
      show ?thesis
      proof (cases "t \<in> set (gone (sv_posted sv1))")
        case True
        then show ?thesis using g(2) by (auto simp: extends_def)
      next
        case False
        have "io_inv {} sv1" using RunOnce_io [OF Cons.prems(1), of E r] r by simp
        moreover have "t \<in> set (sv_accepted sv1)" using g(1) Cons.prems(2) by (auto simp: extends_def)
        ultimately show ?thesis using Cons.IH [of sv1] d False Cons.prems(4,6) rest by auto
      qed
    qed
  qed
qed simp

text \<open>The timer starts a scan over every connection, unless one is under way.\<close>

lemma sorted_last: "sorted_wrt (<) ks \<Longrightarrow> k \<in> set ks \<Longrightarrow> k \<le> last ks" for k :: u64
  by (induction ks) (auto dest: order.strict_implies_order)

lemma HandleTimer_due:
  assumes "io_inv {} sv" "\<not> sv_heartbeat_scanning sv" "now - sv_last_timer sv \<le> 5000"
    "find_session t sv = Some s" "dead T s" "5 \<le> t"
  shows "due t T (HandleTimer now sv)" "ahead t (HandleTimer now sv) \<le> length (sv_sessions sv)"
proof -
  have srt: "sorted_wrt (<) (keys sv)" using assms(1) by (simp add: io_inv_def loop_inv_def)
  have t: "t \<in> set (keys sv)" using assms(4) find_None_keys [of t sv] by simp
  then have ne: "sv_sessions sv \<noteq> []" by auto
  then have "t \<le> fst (last (sv_sessions sv))" using sorted_last [OF srt t] by (simp add: last_map)
  moreover have "0 < t" using assms(6) by (simp add: word_less_nat_alt word_le_nat_alt)
  ultimately show "due t T (HandleTimer now sv)"
    using assms ne by (simp add: due_def HandleTimer_def Let_def find_session_def)
  have "find_session k (HandleTimer now sv) = find_session k sv" for k
    by (simp add: HandleTimer_def Let_def find_session_def)
  then have "ahead_keys t (HandleTimer now sv) \<subseteq> set (keys sv)"
    using find_None_keys [of _ sv] by (auto simp: ahead_keys_def simp del: set_map)
  then have "ahead t (HandleTimer now sv) \<le> card (set (keys sv))" unfolding ahead_def by (intro card_mono) simp_all
  also have "\<dots> \<le> length (keys sv)" by (rule card_length)
  finally show "ahead t (HandleTimer now sv) \<le> length (sv_sessions sv)" by simp
qed

end
