(* ===== verification/IoLoopProps.thy ===== *)
theory IoLoopProps
  imports IoLoopScan
begin

text \<open>
  The properties of the I/O loop of RealtimeServer: nothing to write is forgotten, every
  connection is announced exactly once, and a silent peer is dropped by the next scan.
\<close>

section \<open>Reachable states\<close>

text \<open>The states between two events of the loop.  Every state between two rounds is one
  of them.\<close>

inductive io_reach :: "io_env \<Rightarrow> io_server \<Rightarrow> io_server \<Rightarrow> bool" for E sv0 where
  Started: "io_reach E sv0 sv0"
| Business: "io_reach E sv0 sv \<Longrightarrow> io_reach E sv0 (biz_step b sv)"
| Ticked: "io_reach E sv0 sv \<Longrightarrow> io_reach E sv0 (snd (tick_server E now res ok sv))"
| Handled: "io_reach E sv0 sv \<Longrightarrow> io_reach E sv0 (snd (HandleEpollEvent E e sv))"
| Checked: "io_reach E sv0 sv \<Longrightarrow> io_reach E sv0 (CheckHeartbeats E now ans sv)"

lemma io_reach_inv: "io_reach E sv0 sv \<Longrightarrow> io_inv {} sv0 \<Longrightarrow> io_inv {} sv"
proof (induction rule: io_reach.induct)
  case (Business sv b)
  then show ?case using biz_all_io [of "{}" sv "[b]"] by (simp add: biz_all_def)
qed (simp_all add: tick_server_io HandleEpollEvent_io CheckHeartbeats_io)

lemma event_loop_reach: "io_reach E sv0 sv \<Longrightarrow> io_reach E sv0 (snd (event_loop E es sv))"
proof (induction es arbitrary: sv)
  case (Cons e es)
  then show ?case using io_reach.Handled [OF Cons.prems, of e] by (auto simp: split_beta Let_def)
qed simp

lemma biz_all_reach: "io_reach E sv0 sv \<Longrightarrow> io_reach E sv0 (biz_all cs sv)"
  unfolding biz_all_def by (induction cs arbitrary: sv) (simp_all add: io_reach.Business)

lemma io_rounds_reach: "io_reach E sv0 sv \<Longrightarrow> io_reach E sv0 (snd (io_rounds E rs sv))"
proof (induction rs arbitrary: sv)
  case (Cons r rs)
  obtain now res ok where t1: "ri_tick1 r = (now, res, ok)" by (metis surj_pair)
  have a: "io_reach E sv0 (snd (tick_server E now res ok (biz_all (ri_calls r) sv)))"
    by (intro io_reach.Ticked biz_all_reach Cons.prems)
  have e: "io_reach E sv0 (snd (end_round E r sv'))" if "io_reach E sv0 sv'" for sv'
    by (rule end_round_parts [of E r sv']) (use that in \<open>simp add: io_reach.Ticked io_reach.Checked\<close>)
  have "io_reach E sv0 (snd (RunOnce E r sv))"
    using a e event_loop_reach [OF a] by (simp add: RunOnce_def t1 split_beta Let_def split: poll_result.split)
  then show ?case using Cons by (auto simp: split_beta Let_def)
qed simp

section \<open>A small run\<close>

definition loop_env :: io_env where
  "loop_env = \<lparr>ie_parse = (\<lambda>_. None), ie_admit = (\<lambda>_ _ _. True), ie_media = (\<lambda>_. True)\<rparr>"

definition loop_start :: io_server where
  "loop_start = snd (CServer_Start 13 ''s'' 3 1 (CServer_new 26000))"

definition quiet_uds :: uds_kernel where
  "quiet_uds = \<lparr>k_connected = False, k_recv = UdsRetry, k_send = SendAgain, k_epoll_ok = True\<rparr>"

definition loop_event :: "u64 \<Rightarrow> biz_call list \<Rightarrow> poll_event" where
  "loop_event t cs = \<lparr>pe_token = t, pe_flags = EPOLLIN, pe_answer = quiet_answer\<lparr>ka_calls := cs\<rparr>,
     pe_accepts = [Accepted 0 True], pe_wakes = (\<lambda>_. quiet_answer), pe_signal = SignalRead,
     pe_uds = quiet_uds\<rparr>"

text \<open>One client connects, and a business thread sends to it.\<close>

definition loop_round :: "biz_call list \<Rightarrow> poll_event list \<Rightarrow> io_round" where
  "loop_round cs es = \<lparr>ri_calls = cs, ri_tick1 = (0, NoSocket, True), ri_poll = PollEvents es, ri_now = 30000,
     ri_answers = (\<lambda>_. quiet_answer), ri_tick2 = (0, NoSocket, True)\<rparr>"

lemmas loop_defs = loop_env_def loop_start_def quiet_uds_def loop_event_def loop_round_def quiet_answer_def
  CServer_Start_def CServer_new_def start_calls_def Media_Start_def MediaSignalClient_new_def IoWakeup_new_def
  kListenToken_def kTimerToken_def kServerWakeToken_def kSignalToken_def kMaxEvents_def EPOLLIN_def
  EPOLLERR_def EPOLLHUP_def HandleEpollEvent_def biz_all_def AcceptClients_def register_client_def
  find_session_def emplace_def put_conn_def put_session_def session_conn_def on_session_def Stopping_def
  tick_server_def Tick_def tick_drop_def UpdateInterest_def media_state_of_def put_media_def

lemma loop_started: "CServer_Start 13 ''s'' 3 1 (CServer_new 26000) = (False, loop_start)"
  by (simp add: loop_start_def CServer_Start_def CServer_new_def start_calls_def Media_Start_def
      MediaSignalClient_new_def Let_def)

definition loop_one :: io_server where
  "loop_one = snd (HandleEpollEvent loop_env (loop_event kListenToken []) loop_start)"

lemma loop_one_eq: "loop_one = loop_start\<lparr>sv_next_token := 6, sv_attempts := 1,
    sv_sessions := [(5, Session_new 5 0)], sv_accepted := [5]\<rparr>"
  by (simp add: loop_one_def loop_defs Let_def)

definition loop_two :: io_server where
  "loop_two = biz_step (BizSend 5 1 ''x'') loop_one"

lemma loop_one_reach: "io_reach loop_env loop_start loop_one"
  unfolding loop_one_def by (intro io_reach.Handled io_reach.Started)

section \<open>Properties\<close>

text \<open>C4: Nothing to write is forgotten.  In every state of the I/O loop of RealtimeServer, between
  any two of its events and with business threads sending and closing in between, a connection
  that holds an unsent frame or a requested close is registered for EPOLLOUT, or its token waits
  in the wake-up whose eventfd is readable, or the server is stopping.\<close>

theorem output_never_stuck:
  assumes "CServer_Start n path fd now0 (CServer_new now) = (False, sv0)" "io_reach E sv0 sv"
    "find_session t sv = Some s" "session_frames s \<noteq> [] \<or> s_close_requested s"
  shows "t \<in> sv_epollout sv \<or> t \<in> wk_pending (sv_wakeup sv) \<and> 0 < wk_efd (sv_wakeup sv)
    \<or> Stopping (sv_wakeup sv)"
proof -
  have i: "loop_inv {} sv" using io_reach_inv [OF assms(2) CServer_Start_inv [OF assms(1)]] by (simp add: io_inv_def)
  then have at: "session_at {} sv t s" using assms(3) by (simp add: loop_inv_def)
  have "HasPendingWrite s" using assms(4) at by (auto simp: HasPendingWrite_def session_at_def session_ok_def)
  then have "armed {} sv t" using at by (simp add: session_at_def)
  moreover have "0 < wk_efd (sv_wakeup sv)" if "t \<in> wk_pending (sv_wakeup sv)"
    using i that by (auto simp: loop_inv_def wakeup_ok_def)
  ultimately show ?thesis by (auto simp: armed_def Stopping_def)
qed

theorem output_never_stuck_witness:
  "5 \<in> sv_epollout loop_two \<or> 5 \<in> wk_pending (sv_wakeup loop_two) \<and> 0 < wk_efd (sv_wakeup loop_two)
    \<or> Stopping (sv_wakeup loop_two)"
proof -
  have r: "io_reach loop_env loop_start loop_two" unfolding loop_two_def by (intro io_reach.Business loop_one_reach)
  obtain b c where s: "Send 1 ''x'' (Session_new 5 0, Some IoWakeup_new) = (b, c)" by (metis surj_pair)
  have w: "sv_wakeup loop_one = IoWakeup_new" by (simp add: loop_one_eq loop_defs)
  have f: "find_session 5 loop_one = Some (Session_new 5 0)" by (simp add: loop_one_eq find_session_def)
  have "session_frames (fst c) \<noteq> []"
    using s by (auto simp: Send_def Session_new_def frame_of_def size_sub_def kMaxPendingBytes_def kMaxPendingFrames_def
        notify_opt_def Notify_def IoWakeup_new_def enqueue_frame_def session_frames_def Let_def)
  moreover have "find_session 5 loop_two = Some (fst c)"
    using s w f by (simp add: loop_two_def on_session_def session_conn_def)
  ultimately show ?thesis using output_never_stuck [OF loop_started r] by blast
qed

text \<open>C5: Every connection ends once.  Tokens are drawn in increasing order and never clash with the
  tokens of the loop's own descriptors (for fewer than 2^63 - 5 connections).  In every state of the
  loop, the business layer has been told of the end of exactly the connections that are no longer
  there, each once and after the last of its frames; the shutdown leaves no connection and no
  descriptor, and by then every connection ever accepted was announced.\<close>

theorem one_disconnect_each:
  assumes "CServer_Start n path fd now0 (CServer_new now) = (False, sv0)" "io_reach E sv0 sv"
    "sv_attempts sv < 2 ^ 63 - 5" "sv' = Shutdown E now1 sv"
  shows "sorted_wrt (<) (sv_accepted sv) \<and> list_all (\<lambda>t. kSignalToken < t \<and> t < kSocketTokenBit) (sv_accepted sv)
    \<and> in_order {} (sv_posted sv)
    \<and> set (gone (sv_posted sv)) = set (sv_accepted sv) - set (map fst (sv_sessions sv))
    \<and> sv_sessions sv' = [] \<and> sv_fds sv' = {} \<and> in_order {} (sv_posted sv')
    \<and> set (gone (sv_posted sv')) = set (sv_accepted sv)"
proof -
  have i: "io_inv {} sv" by (rule io_reach_inv [OF assms(2) CServer_Start_inv [OF assms(1)]])
  then have c: "log_core sv" using assms(3) by (simp add: io_inv_def log_inv_def)
  define sv1 where "sv1 = put_media (Media_Stop (ie_media E) now1 (media_state_of (CServer_Stop sv))) (CServer_Stop sv)"
  have "io_inv {} sv1"
    unfolding sv1_def
    by (rule put_media_io [OF CServer_Stop_io [OF i]])
      (use Media_Stop_le [of "media_state_of (CServer_Stop sv)" "ie_media E" now1] in \<open>simp add: media_state_of_def\<close>)
  note ca = close_all_io [OF this]
  have f: "sv_accepted sv1 = sv_accepted sv" "sv_attempts sv1 = sv_attempts sv"
    by (simp_all add: sv1_def put_media_def CServer_Stop_def)
  have d: "log_core (close_all sv1)" using ca f assms(3) by (simp add: io_inv_def log_inv_def)
  have "sv' = (close_all sv1)\<lparr>sv_fds := {}, sv_wakeup := Wakeup_Close (sv_wakeup (close_all sv1))\<rparr>"
    by (simp add: assms(4) Shutdown_def Let_def sv1_def)
  then have e: "sv_sessions sv' = []" "sv_fds sv' = {}" "in_order {} (sv_posted sv')"
    "set (gone (sv_posted sv')) = set (sv_accepted sv)"
    using ca d f by (auto simp: log_core_def)
  have n: "unat (sv_next_token sv) < 2 ^ 63" using c assms(3) by (simp add: log_core_def)
  have k: "kSignalToken < t \<and> t < kSocketTokenBit" if "5 \<le> t" "t < sv_next_token sv" for t
    using that n by (simp add: kSignalToken_def kSocketTokenBit_def word_less_nat_alt word_le_nat_alt)
  show ?thesis using c e k by (auto simp: log_core_def list_all_iff simp del: set_map)
qed

theorem one_disconnect_each_witness:
  "sorted_wrt (<) (sv_accepted loop_one) \<and> list_all (\<lambda>t. kSignalToken < t \<and> t < kSocketTokenBit) (sv_accepted loop_one)
    \<and> in_order {} (sv_posted loop_one)
    \<and> set (gone (sv_posted loop_one)) = set (sv_accepted loop_one) - set (map fst (sv_sessions loop_one))
    \<and> sv_sessions (Shutdown loop_env 9 loop_one) = [] \<and> sv_fds (Shutdown loop_env 9 loop_one) = {}
    \<and> in_order {} (sv_posted (Shutdown loop_env 9 loop_one))
    \<and> set (gone (sv_posted (Shutdown loop_env 9 loop_one))) = set (sv_accepted loop_one)"
  by (rule one_disconnect_each [OF loop_started loop_one_reach _ refl]) (simp add: loop_one_eq)

text \<open>The rounds after a timer event: the rest of its round, then whole rounds.\<close>

definition rounds_after :: "io_env \<Rightarrow> poll_event list \<Rightarrow> io_round list \<Rightarrow> io_server \<Rightarrow> bool \<times> io_server" where
  "rounds_after E es rs sv = (case rs of [] \<Rightarrow> (False, sv)
     | r # rs' \<Rightarrow> let (thrown, sv1) = rest_of_round E es r sv in
         if thrown \<or> Stopping (sv_wakeup sv1) then (thrown, sv1) else io_rounds E rs' sv1)"

lemma end_round_io: "io_inv {} sv \<Longrightarrow> io_inv {} (snd (end_round E r sv))"
  by (rule end_round_parts [of E r sv]) (simp add: tick_server_io CheckHeartbeats_io)

lemma rest_of_round_io: "io_inv {} sv \<Longrightarrow> io_inv {} (snd (rest_of_round E es r sv))"
  using event_loop_io [of sv E es] by (simp add: rest_of_round_def split_beta Let_def end_round_io)

lemma rest_of_round_extends: "extends sv (snd (rest_of_round E es r sv))"
  using event_loop_extends [of sv E es] extends_trans [OF event_loop_extends end_round_extends]
  by (simp add: rest_of_round_def split_beta Let_def)

lemma rounds_after_extends: "extends sv (snd (rounds_after E es rs sv))"
proof (cases rs)
  case (Cons r rs')
  show ?thesis
    using rest_of_round_extends [of sv E es r] extends_trans [OF rest_of_round_extends io_rounds_extends] Cons
    by (simp add: rounds_after_def split_beta Let_def)
qed (simp add: rounds_after_def)

text \<open>The rounds after the timer, from a state in which the scan has t before it.\<close>

lemma rounds_after_due:
  assumes i: "io_inv {} sv" and t: "t \<in> set (sv_accepted sv)" and d: "due t T sv"
    and q: "\<forall>e \<in> set es. quiet_event t e" "\<forall>r \<in> set rs. quiet_round t T r"
    and n: "ahead t sv \<le> 64 * length (filter full_round rs)"
    and r: "rounds_after E es rs sv = (thrown, sv')" and b: "sv_attempts sv' < 2 ^ 63 - 5"
  shows "io_inv {} sv' \<and> extends sv sv'
    \<and> (thrown \<or> Stopping (sv_wakeup sv') \<or> t \<in> set (gone (sv_posted sv')))"
proof -
  obtain r rs' where rs: "rs = r # rs'" using n due_ahead [OF d] by (cases rs) auto
  obtain x sv1 where first: "rest_of_round E es r sv = (x, sv1)" by fastforce
  have g: "extends sv sv1" using rest_of_round_extends [of sv E es r] first by simp
  have i1: "io_inv {} sv1" using rest_of_round_io [OF i, of E es r] first by simp
  have out: "(thrown, sv') = (if x \<or> Stopping (sv_wakeup sv1) then (x, sv1) else io_rounds E rs' sv1)"
    using r rs first by (simp add: rounds_after_def)
  have g1: "extends sv1 sv'" and i': "io_inv {} sv'"
    using out io_rounds_extends [of sv1 E rs'] io_rounds_io [OF i1, of E rs'] i1
    by (metis extends_refl snd_conv)+
  have "thrown \<or> Stopping (sv_wakeup sv') \<or> t \<in> set (gone (sv_posted sv'))"
  proof (cases "x \<or> Stopping (sv_wakeup sv1)")
    case False
    then have rest: "io_rounds E rs' sv1 = (thrown, sv')" using out by simp
    have b1: "sv_attempts sv1 < 2 ^ 63 - 5" and t1: "t \<in> set (sv_accepted sv1)"
      using b t g g1 by (auto simp: extends_def)
    have "t \<in> set (gone (sv_posted sv1)) \<or> due t T sv1 \<and> ahead t sv1 + 64 \<le> ahead t sv"
      using rest_of_round_due [OF i t d q(1), of r E sv1] q(2) rs first False b1
      by (simp add: quiet_round_def)
    then have "t \<in> set (gone (sv_posted sv1)) \<or> thrown \<or> Stopping (sv_wakeup sv')
        \<or> t \<in> set (gone (sv_posted sv')) \<or> due t T sv' \<and> ahead t sv' + 64 * Suc (length (filter full_round rs')) \<le> ahead t sv"
      using io_rounds_due [OF i1 t1 _ _ rest b, of T] q(2) rs by auto
    moreover have "\<not> (due t T sv' \<and> ahead t sv' + 64 * Suc (length (filter full_round rs')) \<le> ahead t sv)"
    proof -
      have "length (filter full_round rs) \<le> Suc (length (filter full_round rs'))" using rs by simp
      then have "ahead t sv \<le> 64 * Suc (length (filter full_round rs'))" using n by (meson le_trans mult_le_mono2)
      then show ?thesis using due_ahead [of t T sv'] by auto
    qed
    ultimately show ?thesis using g1 by (auto simp: extends_def)
  qed (use out in auto)
  then show ?thesis using i' extends_trans [OF g g1] by blast
qed

text \<open>C6: A silent client is dropped.  Let the timer of the I/O loop fire at time T while no heartbeat
  scan is under way and the last timer event was at most five seconds ago (after a longer pause every
  client gets three more seconds once).  Let a connection be past its deadline at T (30 s without a
  login, 20 s without a heartbeat) with no such extra time left.  If in the rounds that follow no data
  from this client is read, no business thread logs it in, and the rounds that a signal does not
  interrupt are enough for the connections present, 64 a round, then the connection is closed and its
  end announced, unless the loop itself ends before.  Everything else may happen in these rounds:
  other clients connect, send, receive and leave, business threads send to any connection, and
  interrupted rounds come in between.  (Tokens are not reused: fewer than 2^63 - 5 connections.)\<close>

theorem silent_client_dropped:
  assumes "CServer_Start n path fd now0 (CServer_new now) = (False, sv0)" "io_reach E sv0 sv"
    "\<not> sv_heartbeat_scanning sv" "T - sv_last_timer sv \<le> 5000"
    "find_session t sv = Some s" "past_deadline T s" "\<not> s_recheck_used s \<or> s_recheck_until s \<le> T"
    "\<forall>e \<in> set es. quiet_event t e" "\<forall>r \<in> set rs. quiet_round t T r"
    "length (sv_sessions sv) \<le> 64 * length (filter full_round rs)"
    "rounds_after E es rs (HandleTimer T sv) = (thrown, sv')" "sv_attempts sv' < 2 ^ 63 - 5"
  shows "thrown \<or> Stopping (sv_wakeup sv')
    \<or> find_session t sv' = None \<and> t \<in> set (gone (sv_posted sv'))"
proof -
  have i: "io_inv {} sv" by (rule io_reach_inv [OF assms(2) CServer_Start_inv [OF assms(1)]])
  have t: "t \<in> set (map fst (sv_sessions sv))" using assms(5) find_None_keys [of t sv] by simp
  have d: "due t T (HandleTimer T sv)" "ahead t (HandleTimer T sv) \<le> length (sv_sessions sv)"
    and acc: "t \<in> set (sv_accepted (HandleTimer T sv))" if "sv_attempts sv < 2 ^ 63 - 5"
  proof -
    have "log_core sv" using i that by (simp add: io_inv_def log_inv_def)
    then have "t \<in> set (sv_accepted sv)" "5 \<le> t" using t by (auto simp: log_core_def)
    moreover have "dead T s" using assms(6,7) by (simp add: dead_def)
    ultimately show "due t T (HandleTimer T sv)" "ahead t (HandleTimer T sv) \<le> length (sv_sessions sv)"
      "t \<in> set (sv_accepted (HandleTimer T sv))"
      using HandleTimer_due [OF i assms(3,4,5)] by (simp_all add: HandleTimer_def Let_def)
  qed
  have "extends (HandleTimer T sv) sv'"
    using rounds_after_extends [of "HandleTimer T sv" E es rs] assms(11) by simp
  then have "sv_attempts sv < 2 ^ 63 - 5"
    using assms(12) HandleTimer_still [of 0 sv T] by (simp add: extends_def still_def)
  note d = d [OF this] and acc = acc [OF this]
  have n: "ahead t (HandleTimer T sv) \<le> 64 * length (filter full_round rs)" using d(2) assms(10) by simp
  have end_: "io_inv {} sv'" "thrown \<or> Stopping (sv_wakeup sv') \<or> t \<in> set (gone (sv_posted sv'))"
    using rounds_after_due [OF HandleTimer_io [OF i] acc d(1) assms(8,9) n assms(11,12)] by simp_all
  have "find_session t sv' = None" if "t \<in> set (gone (sv_posted sv'))"
    using that end_(1) assms(12) find_None_keys [of t sv']
    by (auto simp: io_inv_def log_inv_def log_core_def)
  then show ?thesis using end_(2) by blast
qed

lemma loop_start_eq: "loop_start = \<lparr>sv_fds = {fd. Some fd \<in> set start_calls}, sv_wakeup = IoWakeup_new,
    sv_media = media_started ''s'' 3 1, sv_next_token = 5, sv_sessions = [], sv_heartbeat_after = 0,
    sv_heartbeat_through = 0, sv_heartbeat_scanning = False, sv_heartbeat_recheck = False,
    sv_last_timer = 26000, sv_epollout = {}, sv_posted = [], sv_accepted = [], sv_attempts = 0\<rparr>"
  by (simp add: loop_start_def CServer_Start_def CServer_new_def start_calls_def Media_Start_def
      MediaSignalClient_new_def media_started_def Let_def)

definition loop_timed :: io_server where
  "loop_timed = HandleTimer 30000 loop_one"

definition loop_scanned :: io_server where
  "loop_scanned = loop_timed\<lparr>sv_heartbeat_after := 5, sv_heartbeat_scanning := False, sv_sessions := [],
     sv_posted := [PostReconnectCheck, PostDisconnected 5 (Session_Close (Session_new 5 0))]\<rparr>"

lemma loop_timed_fields:
  "sv_heartbeat_after loop_timed = 0" "sv_heartbeat_through loop_timed = 5" "sv_heartbeat_scanning loop_timed"
  "\<not> sv_heartbeat_recheck loop_timed" "sv_sessions loop_timed = [(5, Session_new 5 0)]"
  "sv_posted loop_timed = [PostReconnectCheck]" "sv_wakeup loop_timed = IoWakeup_new" "sv_epollout loop_timed = {}"
  "sv_media loop_timed = media_started ''s'' 3 1" "sv_attempts loop_timed = 1"
  by (simp_all add: loop_timed_def HandleTimer_def loop_one_eq loop_start_eq Let_def)

lemma loop_check:
  "check_client loop_env 30000 quiet_answer 5 (loop_timed\<lparr>sv_heartbeat_after := 5\<rparr>)
   = loop_timed\<lparr>sv_heartbeat_after := 5, sv_sessions := [],
       sv_posted := [PostReconnectCheck, PostDisconnected 5 (Session_Close (Session_new 5 0))]\<rparr>"
proof -
  have e: "ConnectionExpired 30000 False (Session_new 5 0) = (True, Session_new 5 0)"
    by (simp add: ConnectionExpired_def Session_new_def)
  have r: "read_client loop_env 5 quiet_answer (loop_timed\<lparr>sv_heartbeat_after := 5\<rparr>)
      = (True, loop_timed\<lparr>sv_heartbeat_after := 5\<rparr>)"
    by (simp add: read_client_def find_session_def loop_timed_fields HandleRead_def quiet_answer_def
        session_conn_def put_conn_def put_session_def)
  have o: "\<not> IsClosed (Session_new 5 0)" by (simp add: IsClosed_def Session_new_def)
  show ?thesis
    by (simp add: check_client_def find_session_def loop_timed_fields e r o put_conn_def put_session_def
        session_conn_def CloseClient_def)
qed

lemma loop_scan:
  "CheckHeartbeats loop_env 30000 (\<lambda>_. quiet_answer) loop_timed = loop_scanned"
proof -
  have c: "ka_calls quiet_answer = []" by (simp add: quiet_answer_def)
  have "heartbeat_loop loop_env 30000 (\<lambda>_. quiet_answer) (Suc (Suc m)) loop_timed = loop_scanned" for m
    by (simp add: loop_timed_fields upper_bound_def biz_all_def c loop_check loop_scanned_def)
  from this [of 62] show ?thesis by (simp add: CheckHeartbeats_def kMaxEvents_def loop_timed_fields)
qed

lemma loop_one_scan:
  "rounds_after loop_env [] [loop_round [] []] (HandleTimer 30000 loop_one) = (False, loop_scanned)"
  unfolding loop_timed_def [symmetric]
  by (simp add: rounds_after_def rest_of_round_def end_round_def loop_round_def loop_timed_fields Stopping_def
      IoWakeup_new_def loop_scan tick_server_def Tick_def tick_drop_def media_state_of_def loop_scanned_def
      media_started_def MediaSignalClient_new_def UpdateInterest_def put_media_def Let_def)

theorem silent_client_dropped_witness:
  "find_session 5 loop_scanned = None \<and> 5 \<in> set (gone (sv_posted loop_scanned))"
proof -
  have "False \<or> Stopping (sv_wakeup loop_scanned)
     \<or> find_session 5 loop_scanned = None \<and> 5 \<in> set (gone (sv_posted loop_scanned))"
  proof (rule silent_client_dropped [OF loop_started loop_one_reach _ _ _ _ _ _ _ _ loop_one_scan])
    show "find_session 5 loop_one = Some (Session_new 5 0)" by (simp add: loop_one_eq find_session_def)
    show "\<forall>r \<in> set [loop_round [] []]. quiet_round 5 30000 r"
      by (simp add: quiet_round_def loop_round_def quiet_calls_def quiet_answer_def no_data_def)
  qed (simp_all add: loop_one_eq loop_start_eq past_deadline_def Session_new_def loop_scanned_def loop_timed_fields
      full_round_def loop_round_def)
  then show ?thesis by (simp add: loop_scanned_def loop_timed_fields Stopping_def IoWakeup_new_def)
qed

end
